(* ===== verification/Prelude.thy ===== *)
theory Prelude
  imports Main "HOL-Library.Word" "HOL-Library.State_Monad" "HOL-Library.Monad_Syntax"
begin

text \<open>
  Shared vocabulary of the development: the machine types of the C++ code, the status codes it
  compares with, and a weakest-precondition calculus for the state monad in which the stateful
  code is written.  \<open>wp m Q s\<close> says that running \<open>m\<close> in \<open>s\<close> ends with a value and a state
  that satisfy \<open>Q\<close>; the rules collected in \<open>wp_simps\<close> turn a goal about a whole handler into a
  goal about the states it passes through, so that \<^theory_text>\<open>simp add: wp_simps\<close> carries most proofs.
\<close>

section \<open>Machine types and status codes\<close>

type_synonym int32 = "32 word"

text \<open>A pointer is an address; \<open>0\<close> is NULL.\<close>

type_synonym ptr = nat

abbreviation (input) NULL :: ptr where "NULL \<equiv> 0"

text \<open>
  The status codes of Android's \<^verbatim>\<open>utils/Errors.h\<close>.  The code only ever tests a status against
  \<open>NO_ERROR\<close>; the others matter for being different from it.
\<close>

abbreviation NO_ERROR :: int32 where "NO_ERROR \<equiv> 0"
abbreviation NO_MEMORY :: int32 where "NO_MEMORY \<equiv> - 12"
abbreviation BAD_VALUE :: int32 where "BAD_VALUE \<equiv> - 22"
abbreviation DEAD_OBJECT :: int32 where "DEAD_OBJECT \<equiv> - 32"
abbreviation INVALID_OPERATION :: int32 where "INVALID_OPERATION \<equiv> - 38"
abbreviation UNKNOWN_ERROR :: int32 where "UNKNOWN_ERROR \<equiv> - 2147483648"

text \<open>A set of flags within a mask stays within it when some are cleared.\<close>

lemma masked_clear:
  fixes a :: int32
  assumes "and a (not m) = 0"
  shows "and (and a (not x)) (not m) = 0"
  using assms by (metis and.assoc and.commute and_zero_eq)

section \<open>Weakest preconditions for the state monad\<close>

named_theorems wp_simps \<open>rules that compute weakest preconditions\<close>

definition modify :: "('s \<Rightarrow> 's) \<Rightarrow> ('s, unit) state" where
  "modify f = State (\<lambda>s. ((), f s))"

definition gets :: "('s \<Rightarrow> 'a) \<Rightarrow> ('s, 'a) state" where
  "gets f = State (\<lambda>s. (f s, s))"

definition wp :: "('s, 'a) state \<Rightarrow> ('a \<Rightarrow> 's \<Rightarrow> bool) \<Rightarrow> 's \<Rightarrow> bool" where
  "wp m Q s = (case run_state m s of (a, t) \<Rightarrow> Q a t)"

lemma wp_return [wp_simps]: "wp (State_Monad.return a) Q s = Q a s"
  by (simp add: wp_def State_Monad.return_def)

lemma wp_bind [wp_simps]: "wp (m \<bind> f) Q s = wp m (\<lambda>a. wp (f a) Q) s"
  by (simp add: wp_def State_Monad.bind_def split: prod.splits)

lemma wp_modify [wp_simps]: "wp (modify f) Q s = Q () (f s)"
  by (simp add: wp_def modify_def)

lemma wp_gets [wp_simps]: "wp (gets f) Q s = Q (f s) s"
  by (simp add: wp_def gets_def)

lemma wp_if [wp_simps]:
  "wp (if b then m else n) Q s = ((b \<longrightarrow> wp m Q s) \<and> (\<not> b \<longrightarrow> wp n Q s))"
  by simp

lemma wp_let [wp_simps]: "wp (let x = a in f x) Q s = wp (f a) Q s"
  by (simp add: Let_def)

lemma wp_mono: "wp m Q s \<Longrightarrow> (\<And>a t. Q a t \<Longrightarrow> R a t) \<Longrightarrow> wp m R s"
  by (simp add: wp_def split: prod.splits)

lemma wp_conj: "wp m (\<lambda>a t. Q a t \<and> R a t) s \<longleftrightarrow> wp m Q s \<and> wp m R s"
  by (simp add: wp_def split: prod.splits)

lemma wp_run: "wp m Q s \<longleftrightarrow> Q (fst (run_state m s)) (snd (run_state m s))"
  by (simp add: wp_def split: prod.splits)

lemma wp_runD: "wp m Q s \<Longrightarrow> run_state m s = (a, t) \<Longrightarrow> Q a t"
  by (simp add: wp_def)

lemma run_state_modify [simp]: "run_state (modify f) s = ((), f s)"
  by (simp add: modify_def)

lemma run_state_gets [simp]: "run_state (gets f) s = (f s, s)"
  by (simp add: gets_def)


end
