(* ===== verification/MMTypes.thy ===== *)
theory MMTypes
  imports Prelude
begin

text \<open>
  The types of the camera interface library that the matching of frames uses, from
  \<^verbatim>\<open>stack/mm-camera-interface/inc/mm_camera.h\<close>, \<^verbatim>\<open>stack/common/mm_camera_interface.h\<close> and
  \<^verbatim>\<open>stack/common/cam_types.h\<close>.

  A buffer is what \<open>mm_camera_buf_def_t\<close> says of it: the handle of its stream, its index, the type of
  the stream and, for the metadata stream, the entries of the metadata that the channel reads (None
  when \<open>buffer\<close> is NULL, and for each entry None when \<open>IF_META_AVAILABLE\<close> does not find it).
\<close>

type_synonym uint32 = "32 word"
type_synonym uint8 = "8 word"

datatype (plugins only: code size) cam_stream_type =
    CAM_STREAM_TYPE_DEFAULT | CAM_STREAM_TYPE_PREVIEW | CAM_STREAM_TYPE_POSTVIEW
  | CAM_STREAM_TYPE_SNAPSHOT | CAM_STREAM_TYPE_VIDEO | CAM_STREAM_TYPE_CALLBACK
  | CAM_STREAM_TYPE_IMPL_DEFINED | CAM_STREAM_TYPE_METADATA | CAM_STREAM_TYPE_RAW
  | CAM_STREAM_TYPE_OFFLINE_PROC | CAM_STREAM_TYPE_PARM | CAM_STREAM_TYPE_ANALYSIS

datatype (plugins only: code size) notify_mode = NOTIFY_BURST | NOTIFY_CONTINUOUS

datatype (plugins only: code size) superbuf_priority =
    PRIORITY_NORMAL | PRIORITY_FOCUS | PRIORITY_EXPOSURE_BRACKETING | PRIORITY_LOW

datatype (plugins only: code size) req_buf_type = REQ_SUPER_BUF | REQ_FRAME_SYNC_BUF

datatype (plugins only: code size) bracketing_state =
    BRACKETING_OFF | BRACKETING_WAIT_GOOD_FRAME_IDX | BRACKETING_ACTIVE

datatype (plugins only: code size) cam_capture_type =
    CAPTURE_NORMAL | CAPTURE_FLASH | CAPTURE_BRACKETING | CAPTURE_LOW_LIGHT | CAPTURE_RESET
  | CAPTURE_MANUAL_3A

section \<open>Buffers\<close>

record frame_idx_range =
  min_frame_idx :: uint32
  max_frame_idx :: uint32
  num_led_on_frames :: uint32
  range_skip_count :: uint32
  config_batch_idx :: uint32

record metadata_buffer =
  meta_need_future_frame :: "bool option"
  meta_good_frame_idx_range :: "frame_idx_range option"
  meta_crop_data :: "(uint32 \<times> int32 \<times> int32) list option"
  meta_divert_frame_id :: "uint32 option"
  meta_low_light :: "bool option"
  meta_aec_settled :: "bool option"

record mm_camera_buf_def =
  buf_stream_id :: uint32
  buf_idx :: uint32
  stream_type :: cam_stream_type
  buffer_meta :: "metadata_buffer option"

record mm_camera_buf_info =
  stream_id :: uint32
  frame_idx :: uint32
  info_flags :: uint32
  buf :: "mm_camera_buf_def option"

text \<open>An entry of an array that \<open>memset\<close> has cleared.\<close>

definition no_buf :: mm_camera_buf_info where
  "no_buf = \<lparr>stream_id = 0, frame_idx = 0, info_flags = 0, buf = None\<rparr>"

section \<open>The queue of superbuffers\<close>

record queue_node =
  num_of_bufs :: nat
  super_buf :: "mm_camera_buf_info list"
  matched :: bool
  expected_frame :: bool
  node_frame_idx :: uint32
  unmatched_meta_idx :: uint32

record channel_attr =
  notify_mode :: notify_mode
  water_mark :: uint8
  look_back :: uint8
  post_frame_skip :: uint8
  max_unmatched_frames :: uint8
  enable_frame_sync :: bool
  priority :: superbuf_priority
  user_expected_frame_id :: uint8

record channel_queue =
  que :: "queue_node list"
  que_size :: uint32
  num_streams :: nat
  bundled_streams :: "uint32 list"
  attr :: channel_attr
  expected_frame_id :: uint32
  match_cnt :: uint32
  expected_frame_id_without_led :: uint32
  led_on_start_frame_id :: uint32
  led_off_start_frame_id :: uint32
  led_on_num_frames :: uint32
  once :: bool
  frame_skip_count :: uint32
  good_frame_id :: uint32

section \<open>The channel\<close>

text \<open>
  What the channel knows of its streams: whether the slot is used, the handle, the stream's type (None
  when \<open>stream_info\<close> is NULL), its id at the server, whether the stream belongs to this channel, and
  whether it is linked to it from the channel it belongs to.
\<close>

record stream_slot =
  slot_used :: bool
  slot_hdl :: uint32
  slot_type :: "cam_stream_type option"
  server_stream_id :: uint32
  slot_owned :: bool
  slot_linked :: bool

record frame_config =
  num_batch :: nat
  configs :: "(cam_capture_type \<times> uint32) list"

text \<open>
  The members of \<open>mm_channel_t\<close> that the frame path uses, with the handle of its camera and whether a
  callback is registered.  \<open>qbufs\<close> is a ghost: the buffers handed to
  \<open>mm_channel_qbuf\<close>, which gives them back to the driver.
\<close>

record mm_channel =
  ch_hdl :: uint32
  cam_hdl :: uint32
  super_buf_notify_cb :: bool
  superbuf_queue :: channel_queue
  pending_cnt :: uint32
  pending_retro_cnt :: uint32
  req_type :: req_buf_type
  bWaitForPrepSnapshotDone :: bool
  unLockAEC :: bool
  stopZslSnapshot :: bool
  streams :: "stream_slot list"
  manualZSLSnapshot :: bool
  startZSlSnapshotCalled :: bool
  needLEDFlash :: bool
  bracketingState :: bracketing_state
  isFlashBracketingEnabled :: bool
  isZoom1xFrameRequested :: bool
  burstSnapNum :: uint32
  diverted_frame_id :: uint8
  isConfigCapture :: bool
  cur_capture_idx :: nat
  capture_frame_id :: "uint32 list"
  frameConfig :: frame_config
  needLowLightZSL :: bool
  qbufs :: "mm_camera_buf_def list"

definition MAX_STREAM_NUM_IN_BUNDLE :: nat where
  "MAX_STREAM_NUM_IN_BUNDLE = 8"

text \<open>
  \<open>mm_channel_qbuf\<close> reads the stream's handle out of the buffer, so it is never to be called with NULL;
  the callers that do not test for it are shown to have no NULL to pass.
\<close>

definition mm_channel_qbuf :: "mm_camera_buf_def option \<Rightarrow> mm_channel \<Rightarrow> mm_channel" where
  "mm_channel_qbuf b c = (case b of None \<Rightarrow> c | Some b \<Rightarrow> c\<lparr>qbufs := qbufs c @ [b]\<rparr>)"

definition upd_queue :: "(channel_queue \<Rightarrow> channel_queue) \<Rightarrow> mm_channel \<Rightarrow> mm_channel" where
  "upd_queue f c = c\<lparr>superbuf_queue := f (superbuf_queue c)\<rparr>"

end
