(* ===== verification/PlaneTypes.thy ===== *)
theory PlaneTypes
  imports MMTypes "HOL-Library.Signed_Division"
begin

text \<open>
  The types of the layout of a frame, from \<^verbatim>\<open>stack/common/cam_types.h\<close> and \<^verbatim>\<open>cam_intf.h\<close>, and what the
  computation of it takes from outside the sources: whether the library is built for the Venus encoder and
  for compressed frames, and the macros of the kernel's \<^verbatim>\<open>media/msm_media_info.h\<close>.

  A format is its number in \<open>cam_format_t\<close>.
\<close>

section \<open>Formats\<close>

type_synonym cam_format = nat

abbreviation (input) CAM_FORMAT_JPEG :: cam_format where "CAM_FORMAT_JPEG \<equiv> 0"
abbreviation (input) CAM_FORMAT_YUV_420_NV12 :: cam_format where "CAM_FORMAT_YUV_420_NV12 \<equiv> 1"
abbreviation (input) CAM_FORMAT_YUV_420_NV21 :: cam_format where "CAM_FORMAT_YUV_420_NV21 \<equiv> 2"
abbreviation (input) CAM_FORMAT_YUV_420_NV21_ADRENO :: cam_format where "CAM_FORMAT_YUV_420_NV21_ADRENO \<equiv> 3"
abbreviation (input) CAM_FORMAT_YUV_420_YV12 :: cam_format where "CAM_FORMAT_YUV_420_YV12 \<equiv> 4"
abbreviation (input) CAM_FORMAT_YUV_422_NV16 :: cam_format where "CAM_FORMAT_YUV_422_NV16 \<equiv> 5"
abbreviation (input) CAM_FORMAT_YUV_422_NV61 :: cam_format where "CAM_FORMAT_YUV_422_NV61 \<equiv> 6"
abbreviation (input) CAM_FORMAT_YUV_420_NV12_VENUS :: cam_format where "CAM_FORMAT_YUV_420_NV12_VENUS \<equiv> 7"
abbreviation (input) CAM_FORMAT_YUV_RAW_8BIT_YUYV :: cam_format where "CAM_FORMAT_YUV_RAW_8BIT_YUYV \<equiv> 8"
abbreviation (input) CAM_FORMAT_YUV_RAW_8BIT_YVYU :: cam_format where "CAM_FORMAT_YUV_RAW_8BIT_YVYU \<equiv> 9"
abbreviation (input) CAM_FORMAT_YUV_RAW_8BIT_UYVY :: cam_format where "CAM_FORMAT_YUV_RAW_8BIT_UYVY \<equiv> 10"
abbreviation (input) CAM_FORMAT_YUV_RAW_8BIT_VYUY :: cam_format where "CAM_FORMAT_YUV_RAW_8BIT_VYUY \<equiv> 11"
abbreviation (input) CAM_FORMAT_BAYER_QCOM_RAW_8BPP_GBRG :: cam_format where "CAM_FORMAT_BAYER_QCOM_RAW_8BPP_GBRG \<equiv> 12"
abbreviation (input) CAM_FORMAT_BAYER_QCOM_RAW_8BPP_GRBG :: cam_format where "CAM_FORMAT_BAYER_QCOM_RAW_8BPP_GRBG \<equiv> 13"
abbreviation (input) CAM_FORMAT_BAYER_QCOM_RAW_8BPP_RGGB :: cam_format where "CAM_FORMAT_BAYER_QCOM_RAW_8BPP_RGGB \<equiv> 14"
abbreviation (input) CAM_FORMAT_BAYER_QCOM_RAW_8BPP_BGGR :: cam_format where "CAM_FORMAT_BAYER_QCOM_RAW_8BPP_BGGR \<equiv> 15"
abbreviation (input) CAM_FORMAT_BAYER_QCOM_RAW_10BPP_GBRG :: cam_format where "CAM_FORMAT_BAYER_QCOM_RAW_10BPP_GBRG \<equiv> 16"
abbreviation (input) CAM_FORMAT_BAYER_QCOM_RAW_10BPP_GRBG :: cam_format where "CAM_FORMAT_BAYER_QCOM_RAW_10BPP_GRBG \<equiv> 17"
abbreviation (input) CAM_FORMAT_BAYER_QCOM_RAW_10BPP_RGGB :: cam_format where "CAM_FORMAT_BAYER_QCOM_RAW_10BPP_RGGB \<equiv> 18"
abbreviation (input) CAM_FORMAT_BAYER_QCOM_RAW_10BPP_BGGR :: cam_format where "CAM_FORMAT_BAYER_QCOM_RAW_10BPP_BGGR \<equiv> 19"
abbreviation (input) CAM_FORMAT_BAYER_QCOM_RAW_12BPP_GBRG :: cam_format where "CAM_FORMAT_BAYER_QCOM_RAW_12BPP_GBRG \<equiv> 20"
abbreviation (input) CAM_FORMAT_BAYER_QCOM_RAW_12BPP_GRBG :: cam_format where "CAM_FORMAT_BAYER_QCOM_RAW_12BPP_GRBG \<equiv> 21"
abbreviation (input) CAM_FORMAT_BAYER_QCOM_RAW_12BPP_RGGB :: cam_format where "CAM_FORMAT_BAYER_QCOM_RAW_12BPP_RGGB \<equiv> 22"
abbreviation (input) CAM_FORMAT_BAYER_QCOM_RAW_12BPP_BGGR :: cam_format where "CAM_FORMAT_BAYER_QCOM_RAW_12BPP_BGGR \<equiv> 23"
abbreviation (input) CAM_FORMAT_BAYER_MIPI_RAW_8BPP_GBRG :: cam_format where "CAM_FORMAT_BAYER_MIPI_RAW_8BPP_GBRG \<equiv> 24"
abbreviation (input) CAM_FORMAT_BAYER_MIPI_RAW_8BPP_GRBG :: cam_format where "CAM_FORMAT_BAYER_MIPI_RAW_8BPP_GRBG \<equiv> 25"
abbreviation (input) CAM_FORMAT_BAYER_MIPI_RAW_8BPP_RGGB :: cam_format where "CAM_FORMAT_BAYER_MIPI_RAW_8BPP_RGGB \<equiv> 26"
abbreviation (input) CAM_FORMAT_BAYER_MIPI_RAW_8BPP_BGGR :: cam_format where "CAM_FORMAT_BAYER_MIPI_RAW_8BPP_BGGR \<equiv> 27"
abbreviation (input) CAM_FORMAT_BAYER_MIPI_RAW_10BPP_GBRG :: cam_format where "CAM_FORMAT_BAYER_MIPI_RAW_10BPP_GBRG \<equiv> 28"
abbreviation (input) CAM_FORMAT_BAYER_MIPI_RAW_10BPP_GRBG :: cam_format where "CAM_FORMAT_BAYER_MIPI_RAW_10BPP_GRBG \<equiv> 29"
abbreviation (input) CAM_FORMAT_BAYER_MIPI_RAW_10BPP_RGGB :: cam_format where "CAM_FORMAT_BAYER_MIPI_RAW_10BPP_RGGB \<equiv> 30"
abbreviation (input) CAM_FORMAT_BAYER_MIPI_RAW_10BPP_BGGR :: cam_format where "CAM_FORMAT_BAYER_MIPI_RAW_10BPP_BGGR \<equiv> 31"
abbreviation (input) CAM_FORMAT_BAYER_MIPI_RAW_12BPP_GBRG :: cam_format where "CAM_FORMAT_BAYER_MIPI_RAW_12BPP_GBRG \<equiv> 32"
abbreviation (input) CAM_FORMAT_BAYER_MIPI_RAW_12BPP_GRBG :: cam_format where "CAM_FORMAT_BAYER_MIPI_RAW_12BPP_GRBG \<equiv> 33"
abbreviation (input) CAM_FORMAT_BAYER_MIPI_RAW_12BPP_RGGB :: cam_format where "CAM_FORMAT_BAYER_MIPI_RAW_12BPP_RGGB \<equiv> 34"
abbreviation (input) CAM_FORMAT_BAYER_MIPI_RAW_12BPP_BGGR :: cam_format where "CAM_FORMAT_BAYER_MIPI_RAW_12BPP_BGGR \<equiv> 35"
abbreviation (input) CAM_FORMAT_BAYER_IDEAL_RAW_QCOM_8BPP_GBRG :: cam_format where "CAM_FORMAT_BAYER_IDEAL_RAW_QCOM_8BPP_GBRG \<equiv> 36"
abbreviation (input) CAM_FORMAT_BAYER_IDEAL_RAW_QCOM_8BPP_GRBG :: cam_format where "CAM_FORMAT_BAYER_IDEAL_RAW_QCOM_8BPP_GRBG \<equiv> 37"
abbreviation (input) CAM_FORMAT_BAYER_IDEAL_RAW_QCOM_8BPP_RGGB :: cam_format where "CAM_FORMAT_BAYER_IDEAL_RAW_QCOM_8BPP_RGGB \<equiv> 38"
abbreviation (input) CAM_FORMAT_BAYER_IDEAL_RAW_QCOM_8BPP_BGGR :: cam_format where "CAM_FORMAT_BAYER_IDEAL_RAW_QCOM_8BPP_BGGR \<equiv> 39"
abbreviation (input) CAM_FORMAT_BAYER_IDEAL_RAW_QCOM_10BPP_GBRG :: cam_format where "CAM_FORMAT_BAYER_IDEAL_RAW_QCOM_10BPP_GBRG \<equiv> 40"
abbreviation (input) CAM_FORMAT_BAYER_IDEAL_RAW_QCOM_10BPP_GRBG :: cam_format where "CAM_FORMAT_BAYER_IDEAL_RAW_QCOM_10BPP_GRBG \<equiv> 41"
abbreviation (input) CAM_FORMAT_BAYER_IDEAL_RAW_QCOM_10BPP_RGGB :: cam_format where "CAM_FORMAT_BAYER_IDEAL_RAW_QCOM_10BPP_RGGB \<equiv> 42"
abbreviation (input) CAM_FORMAT_BAYER_IDEAL_RAW_QCOM_10BPP_BGGR :: cam_format where "CAM_FORMAT_BAYER_IDEAL_RAW_QCOM_10BPP_BGGR \<equiv> 43"
abbreviation (input) CAM_FORMAT_BAYER_IDEAL_RAW_QCOM_12BPP_GBRG :: cam_format where "CAM_FORMAT_BAYER_IDEAL_RAW_QCOM_12BPP_GBRG \<equiv> 44"
abbreviation (input) CAM_FORMAT_BAYER_IDEAL_RAW_QCOM_12BPP_GRBG :: cam_format where "CAM_FORMAT_BAYER_IDEAL_RAW_QCOM_12BPP_GRBG \<equiv> 45"
abbreviation (input) CAM_FORMAT_BAYER_IDEAL_RAW_QCOM_12BPP_RGGB :: cam_format where "CAM_FORMAT_BAYER_IDEAL_RAW_QCOM_12BPP_RGGB \<equiv> 46"
abbreviation (input) CAM_FORMAT_BAYER_IDEAL_RAW_QCOM_12BPP_BGGR :: cam_format where "CAM_FORMAT_BAYER_IDEAL_RAW_QCOM_12BPP_BGGR \<equiv> 47"
abbreviation (input) CAM_FORMAT_BAYER_IDEAL_RAW_MIPI_8BPP_GBRG :: cam_format where "CAM_FORMAT_BAYER_IDEAL_RAW_MIPI_8BPP_GBRG \<equiv> 48"
abbreviation (input) CAM_FORMAT_BAYER_IDEAL_RAW_MIPI_8BPP_GRBG :: cam_format where "CAM_FORMAT_BAYER_IDEAL_RAW_MIPI_8BPP_GRBG \<equiv> 49"
abbreviation (input) CAM_FORMAT_BAYER_IDEAL_RAW_MIPI_8BPP_RGGB :: cam_format where "CAM_FORMAT_BAYER_IDEAL_RAW_MIPI_8BPP_RGGB \<equiv> 50"
abbreviation (input) CAM_FORMAT_BAYER_IDEAL_RAW_MIPI_8BPP_BGGR :: cam_format where "CAM_FORMAT_BAYER_IDEAL_RAW_MIPI_8BPP_BGGR \<equiv> 51"
abbreviation (input) CAM_FORMAT_BAYER_IDEAL_RAW_MIPI_10BPP_GBRG :: cam_format where "CAM_FORMAT_BAYER_IDEAL_RAW_MIPI_10BPP_GBRG \<equiv> 52"
abbreviation (input) CAM_FORMAT_BAYER_IDEAL_RAW_MIPI_10BPP_GRBG :: cam_format where "CAM_FORMAT_BAYER_IDEAL_RAW_MIPI_10BPP_GRBG \<equiv> 53"
abbreviation (input) CAM_FORMAT_BAYER_IDEAL_RAW_MIPI_10BPP_RGGB :: cam_format where "CAM_FORMAT_BAYER_IDEAL_RAW_MIPI_10BPP_RGGB \<equiv> 54"
abbreviation (input) CAM_FORMAT_BAYER_IDEAL_RAW_MIPI_10BPP_BGGR :: cam_format where "CAM_FORMAT_BAYER_IDEAL_RAW_MIPI_10BPP_BGGR \<equiv> 55"
abbreviation (input) CAM_FORMAT_BAYER_IDEAL_RAW_MIPI_12BPP_GBRG :: cam_format where "CAM_FORMAT_BAYER_IDEAL_RAW_MIPI_12BPP_GBRG \<equiv> 56"
abbreviation (input) CAM_FORMAT_BAYER_IDEAL_RAW_MIPI_12BPP_GRBG :: cam_format where "CAM_FORMAT_BAYER_IDEAL_RAW_MIPI_12BPP_GRBG \<equiv> 57"
abbreviation (input) CAM_FORMAT_BAYER_IDEAL_RAW_MIPI_12BPP_RGGB :: cam_format where "CAM_FORMAT_BAYER_IDEAL_RAW_MIPI_12BPP_RGGB \<equiv> 58"
abbreviation (input) CAM_FORMAT_BAYER_IDEAL_RAW_MIPI_12BPP_BGGR :: cam_format where "CAM_FORMAT_BAYER_IDEAL_RAW_MIPI_12BPP_BGGR \<equiv> 59"
abbreviation (input) CAM_FORMAT_BAYER_IDEAL_RAW_PLAIN8_8BPP_GBRG :: cam_format where "CAM_FORMAT_BAYER_IDEAL_RAW_PLAIN8_8BPP_GBRG \<equiv> 60"
abbreviation (input) CAM_FORMAT_BAYER_IDEAL_RAW_PLAIN8_8BPP_GRBG :: cam_format where "CAM_FORMAT_BAYER_IDEAL_RAW_PLAIN8_8BPP_GRBG \<equiv> 61"
abbreviation (input) CAM_FORMAT_BAYER_IDEAL_RAW_PLAIN8_8BPP_RGGB :: cam_format where "CAM_FORMAT_BAYER_IDEAL_RAW_PLAIN8_8BPP_RGGB \<equiv> 62"
abbreviation (input) CAM_FORMAT_BAYER_IDEAL_RAW_PLAIN8_8BPP_BGGR :: cam_format where "CAM_FORMAT_BAYER_IDEAL_RAW_PLAIN8_8BPP_BGGR \<equiv> 63"
abbreviation (input) CAM_FORMAT_BAYER_IDEAL_RAW_PLAIN16_8BPP_GBRG :: cam_format where "CAM_FORMAT_BAYER_IDEAL_RAW_PLAIN16_8BPP_GBRG \<equiv> 64"
abbreviation (input) CAM_FORMAT_BAYER_IDEAL_RAW_PLAIN16_8BPP_GRBG :: cam_format where "CAM_FORMAT_BAYER_IDEAL_RAW_PLAIN16_8BPP_GRBG \<equiv> 65"
abbreviation (input) CAM_FORMAT_BAYER_IDEAL_RAW_PLAIN16_8BPP_RGGB :: cam_format where "CAM_FORMAT_BAYER_IDEAL_RAW_PLAIN16_8BPP_RGGB \<equiv> 66"
abbreviation (input) CAM_FORMAT_BAYER_IDEAL_RAW_PLAIN16_8BPP_BGGR :: cam_format where "CAM_FORMAT_BAYER_IDEAL_RAW_PLAIN16_8BPP_BGGR \<equiv> 67"
abbreviation (input) CAM_FORMAT_BAYER_IDEAL_RAW_PLAIN16_10BPP_GBRG :: cam_format where "CAM_FORMAT_BAYER_IDEAL_RAW_PLAIN16_10BPP_GBRG \<equiv> 68"
abbreviation (input) CAM_FORMAT_BAYER_IDEAL_RAW_PLAIN16_10BPP_GRBG :: cam_format where "CAM_FORMAT_BAYER_IDEAL_RAW_PLAIN16_10BPP_GRBG \<equiv> 69"
abbreviation (input) CAM_FORMAT_BAYER_IDEAL_RAW_PLAIN16_10BPP_RGGB :: cam_format where "CAM_FORMAT_BAYER_IDEAL_RAW_PLAIN16_10BPP_RGGB \<equiv> 70"
abbreviation (input) CAM_FORMAT_BAYER_IDEAL_RAW_PLAIN16_10BPP_BGGR :: cam_format where "CAM_FORMAT_BAYER_IDEAL_RAW_PLAIN16_10BPP_BGGR \<equiv> 71"
abbreviation (input) CAM_FORMAT_BAYER_IDEAL_RAW_PLAIN16_12BPP_GBRG :: cam_format where "CAM_FORMAT_BAYER_IDEAL_RAW_PLAIN16_12BPP_GBRG \<equiv> 72"
abbreviation (input) CAM_FORMAT_BAYER_IDEAL_RAW_PLAIN16_12BPP_GRBG :: cam_format where "CAM_FORMAT_BAYER_IDEAL_RAW_PLAIN16_12BPP_GRBG \<equiv> 73"
abbreviation (input) CAM_FORMAT_BAYER_IDEAL_RAW_PLAIN16_12BPP_RGGB :: cam_format where "CAM_FORMAT_BAYER_IDEAL_RAW_PLAIN16_12BPP_RGGB \<equiv> 74"
abbreviation (input) CAM_FORMAT_BAYER_IDEAL_RAW_PLAIN16_12BPP_BGGR :: cam_format where "CAM_FORMAT_BAYER_IDEAL_RAW_PLAIN16_12BPP_BGGR \<equiv> 75"
abbreviation (input) CAM_FORMAT_JPEG_RAW_8BIT :: cam_format where "CAM_FORMAT_JPEG_RAW_8BIT \<equiv> 76"
abbreviation (input) CAM_FORMAT_META_RAW_8BIT :: cam_format where "CAM_FORMAT_META_RAW_8BIT \<equiv> 77"
abbreviation (input) CAM_FORMAT_BAYER_QCOM_RAW_14BPP_GBRG :: cam_format where "CAM_FORMAT_BAYER_QCOM_RAW_14BPP_GBRG \<equiv> 78"
abbreviation (input) CAM_FORMAT_BAYER_QCOM_RAW_14BPP_GRBG :: cam_format where "CAM_FORMAT_BAYER_QCOM_RAW_14BPP_GRBG \<equiv> 79"
abbreviation (input) CAM_FORMAT_BAYER_QCOM_RAW_14BPP_RGGB :: cam_format where "CAM_FORMAT_BAYER_QCOM_RAW_14BPP_RGGB \<equiv> 80"
abbreviation (input) CAM_FORMAT_BAYER_QCOM_RAW_14BPP_BGGR :: cam_format where "CAM_FORMAT_BAYER_QCOM_RAW_14BPP_BGGR \<equiv> 81"
abbreviation (input) CAM_FORMAT_BAYER_MIPI_RAW_14BPP_GBRG :: cam_format where "CAM_FORMAT_BAYER_MIPI_RAW_14BPP_GBRG \<equiv> 82"
abbreviation (input) CAM_FORMAT_BAYER_MIPI_RAW_14BPP_GRBG :: cam_format where "CAM_FORMAT_BAYER_MIPI_RAW_14BPP_GRBG \<equiv> 83"
abbreviation (input) CAM_FORMAT_BAYER_MIPI_RAW_14BPP_RGGB :: cam_format where "CAM_FORMAT_BAYER_MIPI_RAW_14BPP_RGGB \<equiv> 84"
abbreviation (input) CAM_FORMAT_BAYER_MIPI_RAW_14BPP_BGGR :: cam_format where "CAM_FORMAT_BAYER_MIPI_RAW_14BPP_BGGR \<equiv> 85"
abbreviation (input) CAM_FORMAT_BAYER_IDEAL_RAW_QCOM_14BPP_GBRG :: cam_format where "CAM_FORMAT_BAYER_IDEAL_RAW_QCOM_14BPP_GBRG \<equiv> 86"
abbreviation (input) CAM_FORMAT_BAYER_IDEAL_RAW_QCOM_14BPP_GRBG :: cam_format where "CAM_FORMAT_BAYER_IDEAL_RAW_QCOM_14BPP_GRBG \<equiv> 87"
abbreviation (input) CAM_FORMAT_BAYER_IDEAL_RAW_QCOM_14BPP_RGGB :: cam_format where "CAM_FORMAT_BAYER_IDEAL_RAW_QCOM_14BPP_RGGB \<equiv> 88"
abbreviation (input) CAM_FORMAT_BAYER_IDEAL_RAW_QCOM_14BPP_BGGR :: cam_format where "CAM_FORMAT_BAYER_IDEAL_RAW_QCOM_14BPP_BGGR \<equiv> 89"
abbreviation (input) CAM_FORMAT_BAYER_IDEAL_RAW_MIPI_14BPP_GBRG :: cam_format where "CAM_FORMAT_BAYER_IDEAL_RAW_MIPI_14BPP_GBRG \<equiv> 90"
abbreviation (input) CAM_FORMAT_BAYER_IDEAL_RAW_MIPI_14BPP_GRBG :: cam_format where "CAM_FORMAT_BAYER_IDEAL_RAW_MIPI_14BPP_GRBG \<equiv> 91"
abbreviation (input) CAM_FORMAT_BAYER_IDEAL_RAW_MIPI_14BPP_RGGB :: cam_format where "CAM_FORMAT_BAYER_IDEAL_RAW_MIPI_14BPP_RGGB \<equiv> 92"
abbreviation (input) CAM_FORMAT_BAYER_IDEAL_RAW_MIPI_14BPP_BGGR :: cam_format where "CAM_FORMAT_BAYER_IDEAL_RAW_MIPI_14BPP_BGGR \<equiv> 93"
abbreviation (input) CAM_FORMAT_BAYER_IDEAL_RAW_PLAIN16_14BPP_GBRG :: cam_format where "CAM_FORMAT_BAYER_IDEAL_RAW_PLAIN16_14BPP_GBRG \<equiv> 94"
abbreviation (input) CAM_FORMAT_BAYER_IDEAL_RAW_PLAIN16_14BPP_GRBG :: cam_format where "CAM_FORMAT_BAYER_IDEAL_RAW_PLAIN16_14BPP_GRBG \<equiv> 95"
abbreviation (input) CAM_FORMAT_BAYER_IDEAL_RAW_PLAIN16_14BPP_RGGB :: cam_format where "CAM_FORMAT_BAYER_IDEAL_RAW_PLAIN16_14BPP_RGGB \<equiv> 96"
abbreviation (input) CAM_FORMAT_BAYER_IDEAL_RAW_PLAIN16_14BPP_BGGR :: cam_format where "CAM_FORMAT_BAYER_IDEAL_RAW_PLAIN16_14BPP_BGGR \<equiv> 97"
abbreviation (input) CAM_FORMAT_YUV_444_NV24 :: cam_format where "CAM_FORMAT_YUV_444_NV24 \<equiv> 98"
abbreviation (input) CAM_FORMAT_YUV_444_NV42 :: cam_format where "CAM_FORMAT_YUV_444_NV42 \<equiv> 99"
abbreviation (input) CAM_FORMAT_Y_ONLY :: cam_format where "CAM_FORMAT_Y_ONLY \<equiv> 100"
abbreviation (input) CAM_FORMAT_YUV_420_NV12_UBWC :: cam_format where "CAM_FORMAT_YUV_420_NV12_UBWC \<equiv> 101"
abbreviation (input) CAM_FORMAT_YUV_420_NV21_VENUS :: cam_format where "CAM_FORMAT_YUV_420_NV21_VENUS \<equiv> 102"
abbreviation (input) CAM_FORMAT_8888_ARGB :: cam_format where "CAM_FORMAT_8888_ARGB \<equiv> 103"
abbreviation (input) CAM_FORMAT_Y_ONLY_10_BPP :: cam_format where "CAM_FORMAT_Y_ONLY_10_BPP \<equiv> 104"
abbreviation (input) CAM_FORMAT_Y_ONLY_12_BPP :: cam_format where "CAM_FORMAT_Y_ONLY_12_BPP \<equiv> 105"
abbreviation (input) CAM_FORMAT_Y_ONLY_14_BPP :: cam_format where "CAM_FORMAT_Y_ONLY_14_BPP \<equiv> 106"
abbreviation (input) CAM_FORMAT_BAYER_QCOM_RAW_8BPP_GREY :: cam_format where "CAM_FORMAT_BAYER_QCOM_RAW_8BPP_GREY \<equiv> 107"
abbreviation (input) CAM_FORMAT_BAYER_QCOM_RAW_10BPP_GREY :: cam_format where "CAM_FORMAT_BAYER_QCOM_RAW_10BPP_GREY \<equiv> 108"
abbreviation (input) CAM_FORMAT_BAYER_QCOM_RAW_12BPP_GREY :: cam_format where "CAM_FORMAT_BAYER_QCOM_RAW_12BPP_GREY \<equiv> 109"
abbreviation (input) CAM_FORMAT_BAYER_QCOM_RAW_14BPP_GREY :: cam_format where "CAM_FORMAT_BAYER_QCOM_RAW_14BPP_GREY \<equiv> 110"
abbreviation (input) CAM_FORMAT_BAYER_MIPI_RAW_8BPP_GREY :: cam_format where "CAM_FORMAT_BAYER_MIPI_RAW_8BPP_GREY \<equiv> 111"
abbreviation (input) CAM_FORMAT_BAYER_MIPI_RAW_10BPP_GREY :: cam_format where "CAM_FORMAT_BAYER_MIPI_RAW_10BPP_GREY \<equiv> 112"
abbreviation (input) CAM_FORMAT_BAYER_MIPI_RAW_12BPP_GREY :: cam_format where "CAM_FORMAT_BAYER_MIPI_RAW_12BPP_GREY \<equiv> 113"
abbreviation (input) CAM_FORMAT_BAYER_MIPI_RAW_14BPP_GREY :: cam_format where "CAM_FORMAT_BAYER_MIPI_RAW_14BPP_GREY \<equiv> 114"
abbreviation (input) CAM_FORMAT_BAYER_IDEAL_RAW_QCOM_8BPP_GREY :: cam_format where "CAM_FORMAT_BAYER_IDEAL_RAW_QCOM_8BPP_GREY \<equiv> 115"
abbreviation (input) CAM_FORMAT_BAYER_IDEAL_RAW_QCOM_10BPP_GREY :: cam_format where "CAM_FORMAT_BAYER_IDEAL_RAW_QCOM_10BPP_GREY \<equiv> 116"
abbreviation (input) CAM_FORMAT_BAYER_IDEAL_RAW_QCOM_12BPP_GREY :: cam_format where "CAM_FORMAT_BAYER_IDEAL_RAW_QCOM_12BPP_GREY \<equiv> 117"
abbreviation (input) CAM_FORMAT_BAYER_IDEAL_RAW_QCOM_14BPP_GREY :: cam_format where "CAM_FORMAT_BAYER_IDEAL_RAW_QCOM_14BPP_GREY \<equiv> 118"
abbreviation (input) CAM_FORMAT_BAYER_IDEAL_RAW_MIPI_8BPP_GREY :: cam_format where "CAM_FORMAT_BAYER_IDEAL_RAW_MIPI_8BPP_GREY \<equiv> 119"
abbreviation (input) CAM_FORMAT_BAYER_IDEAL_RAW_MIPI_10BPP_GREY :: cam_format where "CAM_FORMAT_BAYER_IDEAL_RAW_MIPI_10BPP_GREY \<equiv> 120"
abbreviation (input) CAM_FORMAT_BAYER_IDEAL_RAW_MIPI_12BPP_GREY :: cam_format where "CAM_FORMAT_BAYER_IDEAL_RAW_MIPI_12BPP_GREY \<equiv> 121"
abbreviation (input) CAM_FORMAT_BAYER_IDEAL_RAW_MIPI_14BPP_GREY :: cam_format where "CAM_FORMAT_BAYER_IDEAL_RAW_MIPI_14BPP_GREY \<equiv> 122"

text \<open>The raw formats that the layout does not distinguish: one list for each group of labels.\<close>

definition raw_yuv :: "cam_format list" where
  "raw_yuv =
    [CAM_FORMAT_YUV_RAW_8BIT_YUYV,
     CAM_FORMAT_YUV_RAW_8BIT_YVYU,
     CAM_FORMAT_YUV_RAW_8BIT_UYVY,
     CAM_FORMAT_YUV_RAW_8BIT_VYUY,
     CAM_FORMAT_JPEG_RAW_8BIT]"

definition raw_8 :: "cam_format list" where
  "raw_8 =
    [CAM_FORMAT_BAYER_QCOM_RAW_8BPP_GBRG,
     CAM_FORMAT_BAYER_QCOM_RAW_8BPP_GRBG,
     CAM_FORMAT_BAYER_QCOM_RAW_8BPP_RGGB,
     CAM_FORMAT_BAYER_QCOM_RAW_8BPP_BGGR,
     CAM_FORMAT_BAYER_QCOM_RAW_8BPP_GREY,
     CAM_FORMAT_BAYER_MIPI_RAW_8BPP_GBRG,
     CAM_FORMAT_BAYER_MIPI_RAW_8BPP_GRBG,
     CAM_FORMAT_BAYER_MIPI_RAW_8BPP_RGGB,
     CAM_FORMAT_BAYER_MIPI_RAW_8BPP_BGGR,
     CAM_FORMAT_BAYER_MIPI_RAW_8BPP_GREY,
     CAM_FORMAT_BAYER_IDEAL_RAW_QCOM_8BPP_GBRG,
     CAM_FORMAT_BAYER_IDEAL_RAW_QCOM_8BPP_GRBG,
     CAM_FORMAT_BAYER_IDEAL_RAW_QCOM_8BPP_RGGB,
     CAM_FORMAT_BAYER_IDEAL_RAW_QCOM_8BPP_BGGR,
     CAM_FORMAT_BAYER_IDEAL_RAW_QCOM_8BPP_GREY,
     CAM_FORMAT_BAYER_IDEAL_RAW_MIPI_8BPP_GBRG,
     CAM_FORMAT_BAYER_IDEAL_RAW_MIPI_8BPP_GRBG,
     CAM_FORMAT_BAYER_IDEAL_RAW_MIPI_8BPP_RGGB,
     CAM_FORMAT_BAYER_IDEAL_RAW_MIPI_8BPP_BGGR,
     CAM_FORMAT_BAYER_IDEAL_RAW_MIPI_8BPP_GREY,
     CAM_FORMAT_BAYER_IDEAL_RAW_PLAIN8_8BPP_GBRG,
     CAM_FORMAT_BAYER_IDEAL_RAW_PLAIN8_8BPP_GRBG,
     CAM_FORMAT_BAYER_IDEAL_RAW_PLAIN8_8BPP_RGGB,
     CAM_FORMAT_BAYER_IDEAL_RAW_PLAIN8_8BPP_BGGR]"

definition raw_qcom_10 :: "cam_format list" where
  "raw_qcom_10 =
    [CAM_FORMAT_BAYER_QCOM_RAW_10BPP_GBRG,
     CAM_FORMAT_BAYER_QCOM_RAW_10BPP_GRBG,
     CAM_FORMAT_BAYER_QCOM_RAW_10BPP_RGGB,
     CAM_FORMAT_BAYER_QCOM_RAW_10BPP_BGGR,
     CAM_FORMAT_BAYER_QCOM_RAW_10BPP_GREY,
     CAM_FORMAT_BAYER_IDEAL_RAW_QCOM_10BPP_GBRG,
     CAM_FORMAT_BAYER_IDEAL_RAW_QCOM_10BPP_GRBG,
     CAM_FORMAT_BAYER_IDEAL_RAW_QCOM_10BPP_RGGB,
     CAM_FORMAT_BAYER_IDEAL_RAW_QCOM_10BPP_BGGR,
     CAM_FORMAT_BAYER_IDEAL_RAW_QCOM_10BPP_GREY]"

definition raw_qcom_12 :: "cam_format list" where
  "raw_qcom_12 =
    [CAM_FORMAT_BAYER_QCOM_RAW_12BPP_GBRG,
     CAM_FORMAT_BAYER_QCOM_RAW_12BPP_GRBG,
     CAM_FORMAT_BAYER_QCOM_RAW_12BPP_RGGB,
     CAM_FORMAT_BAYER_QCOM_RAW_12BPP_BGGR,
     CAM_FORMAT_BAYER_QCOM_RAW_12BPP_GREY,
     CAM_FORMAT_BAYER_IDEAL_RAW_QCOM_12BPP_GBRG,
     CAM_FORMAT_BAYER_IDEAL_RAW_QCOM_12BPP_GRBG,
     CAM_FORMAT_BAYER_IDEAL_RAW_QCOM_12BPP_RGGB,
     CAM_FORMAT_BAYER_IDEAL_RAW_QCOM_12BPP_BGGR,
     CAM_FORMAT_BAYER_IDEAL_RAW_QCOM_12BPP_GREY]"

definition raw_mipi_10 :: "cam_format list" where
  "raw_mipi_10 =
    [CAM_FORMAT_BAYER_MIPI_RAW_10BPP_GBRG,
     CAM_FORMAT_BAYER_MIPI_RAW_10BPP_GRBG,
     CAM_FORMAT_BAYER_MIPI_RAW_10BPP_RGGB,
     CAM_FORMAT_BAYER_MIPI_RAW_10BPP_BGGR,
     CAM_FORMAT_BAYER_MIPI_RAW_10BPP_GREY,
     CAM_FORMAT_BAYER_IDEAL_RAW_MIPI_10BPP_GBRG,
     CAM_FORMAT_BAYER_IDEAL_RAW_MIPI_10BPP_GRBG,
     CAM_FORMAT_BAYER_IDEAL_RAW_MIPI_10BPP_RGGB,
     CAM_FORMAT_BAYER_IDEAL_RAW_MIPI_10BPP_BGGR,
     CAM_FORMAT_BAYER_IDEAL_RAW_MIPI_10BPP_GREY]"

definition raw_mipi_12 :: "cam_format list" where
  "raw_mipi_12 =
    [CAM_FORMAT_BAYER_MIPI_RAW_12BPP_GBRG,
     CAM_FORMAT_BAYER_MIPI_RAW_12BPP_GRBG,
     CAM_FORMAT_BAYER_MIPI_RAW_12BPP_RGGB,
     CAM_FORMAT_BAYER_MIPI_RAW_12BPP_BGGR,
     CAM_FORMAT_BAYER_MIPI_RAW_12BPP_GREY,
     CAM_FORMAT_BAYER_IDEAL_RAW_MIPI_12BPP_GBRG,
     CAM_FORMAT_BAYER_IDEAL_RAW_MIPI_12BPP_GRBG,
     CAM_FORMAT_BAYER_IDEAL_RAW_MIPI_12BPP_RGGB,
     CAM_FORMAT_BAYER_IDEAL_RAW_MIPI_12BPP_BGGR,
     CAM_FORMAT_BAYER_IDEAL_RAW_MIPI_12BPP_GREY]"

definition raw_plain16 :: "cam_format list" where
  "raw_plain16 =
    [CAM_FORMAT_BAYER_IDEAL_RAW_PLAIN16_8BPP_GBRG,
     CAM_FORMAT_BAYER_IDEAL_RAW_PLAIN16_8BPP_GRBG,
     CAM_FORMAT_BAYER_IDEAL_RAW_PLAIN16_8BPP_RGGB,
     CAM_FORMAT_BAYER_IDEAL_RAW_PLAIN16_8BPP_BGGR,
     CAM_FORMAT_BAYER_IDEAL_RAW_PLAIN16_10BPP_GBRG,
     CAM_FORMAT_BAYER_IDEAL_RAW_PLAIN16_10BPP_GRBG,
     CAM_FORMAT_BAYER_IDEAL_RAW_PLAIN16_10BPP_RGGB,
     CAM_FORMAT_BAYER_IDEAL_RAW_PLAIN16_10BPP_BGGR,
     CAM_FORMAT_BAYER_IDEAL_RAW_PLAIN16_12BPP_GBRG,
     CAM_FORMAT_BAYER_IDEAL_RAW_PLAIN16_12BPP_GRBG,
     CAM_FORMAT_BAYER_IDEAL_RAW_PLAIN16_12BPP_RGGB,
     CAM_FORMAT_BAYER_IDEAL_RAW_PLAIN16_12BPP_BGGR,
     CAM_FORMAT_BAYER_IDEAL_RAW_PLAIN16_14BPP_GBRG,
     CAM_FORMAT_BAYER_IDEAL_RAW_PLAIN16_14BPP_GRBG,
     CAM_FORMAT_BAYER_IDEAL_RAW_PLAIN16_14BPP_RGGB,
     CAM_FORMAT_BAYER_IDEAL_RAW_PLAIN16_14BPP_BGGR]"

definition raw_mipi_14 :: "cam_format list" where
  "raw_mipi_14 =
    [CAM_FORMAT_BAYER_MIPI_RAW_14BPP_GBRG,
     CAM_FORMAT_BAYER_MIPI_RAW_14BPP_GRBG,
     CAM_FORMAT_BAYER_MIPI_RAW_14BPP_RGGB,
     CAM_FORMAT_BAYER_MIPI_RAW_14BPP_BGGR,
     CAM_FORMAT_BAYER_MIPI_RAW_14BPP_GREY,
     CAM_FORMAT_BAYER_IDEAL_RAW_MIPI_14BPP_GBRG,
     CAM_FORMAT_BAYER_IDEAL_RAW_MIPI_14BPP_GRBG,
     CAM_FORMAT_BAYER_IDEAL_RAW_MIPI_14BPP_RGGB,
     CAM_FORMAT_BAYER_IDEAL_RAW_MIPI_14BPP_BGGR,
     CAM_FORMAT_BAYER_IDEAL_RAW_MIPI_14BPP_GREY]"

definition raw_qcom_14 :: "cam_format list" where
  "raw_qcom_14 =
    [CAM_FORMAT_BAYER_QCOM_RAW_14BPP_GBRG,
     CAM_FORMAT_BAYER_QCOM_RAW_14BPP_GRBG,
     CAM_FORMAT_BAYER_QCOM_RAW_14BPP_RGGB,
     CAM_FORMAT_BAYER_QCOM_RAW_14BPP_BGGR,
     CAM_FORMAT_BAYER_QCOM_RAW_14BPP_GREY,
     CAM_FORMAT_BAYER_IDEAL_RAW_QCOM_14BPP_GBRG,
     CAM_FORMAT_BAYER_IDEAL_RAW_QCOM_14BPP_GRBG,
     CAM_FORMAT_BAYER_IDEAL_RAW_QCOM_14BPP_RGGB,
     CAM_FORMAT_BAYER_IDEAL_RAW_QCOM_14BPP_BGGR,
     CAM_FORMAT_BAYER_IDEAL_RAW_QCOM_14BPP_GREY]"

text \<open>The formats with a luma plane that are laid out like \<open>NV12\<close>.\<close>

definition y_only :: "cam_format list" where
  "y_only = [CAM_FORMAT_Y_ONLY, CAM_FORMAT_Y_ONLY_10_BPP, CAM_FORMAT_Y_ONLY_12_BPP, CAM_FORMAT_Y_ONLY_14_BPP]"

section \<open>Layout\<close>

record cam_mp_len_offset =
  mp_len :: uint32
  mp_offset :: uint32
  mp_offset_x :: int32
  mp_offset_y :: int32
  mp_stride :: int32
  mp_stride_in_bytes :: int32
  mp_scanline :: int32
  mp_width :: int32
  mp_height :: int32
  mp_meta_stride :: int32
  mp_meta_scanline :: int32
  mp_meta_len :: int32

text \<open>\<open>mp\<close> has \<open>VIDEO_MAX_PLANES\<close> elements.\<close>

record cam_frame_len_offset =
  num_planes :: uint32
  mp :: "cam_mp_len_offset list"
  frame_len :: uint32

record cam_dimension =
  dim_width :: int32
  dim_height :: int32

record cam_padding_info =
  width_padding :: uint32
  height_padding :: uint32
  plane_padding :: uint32
  min_stride :: uint32
  min_scanline :: uint32
  pad_offset_x :: uint32
  pad_offset_y :: uint32

text \<open>
  What a stream's information says of its layout: the type and the format of the stream, its dimension,
  its planes, and of an offline stream how it is reprocessed: the type of the stream its input
  comes from and, for offline reprocessing, the planes of the input.
\<close>

datatype (plugins only: code size) reproc_config =
    Offline (input_type: cam_stream_type) (input_buf_planes: cam_frame_len_offset)
  | Online (input_stream_type: cam_stream_type)

datatype (plugins only: code size) cam_rotation = ROTATE_0 | ROTATE_90 | ROTATE_180 | ROTATE_270

abbreviation (input) CAM_QCOM_FEATURE_ROTATION :: "64 word" where "CAM_QCOM_FEATURE_ROTATION \<equiv> 8"

record cam_stream_info =
  info_stream_type :: cam_stream_type
  fmt :: cam_format
  dim :: cam_dimension
  buf_planes :: cam_frame_len_offset
  feature_mask :: "64 word"
  rotation :: cam_rotation
  reprocess_config :: reproc_config

section \<open>The platform\<close>

datatype (plugins only: code size) color_fmt = COLOR_FMT_NV12 | COLOR_FMT_NV21 | COLOR_FMT_NV12_UBWC

record platform =
  VENUS_PRESENT :: bool
  UBWC_PRESENT :: bool
  USE_A_FAMILY :: bool
  VENUS_Y_STRIDE :: "color_fmt \<Rightarrow> int32 \<Rightarrow> int32"
  VENUS_Y_SCANLINES :: "color_fmt \<Rightarrow> int32 \<Rightarrow> int32"
  VENUS_UV_STRIDE :: "color_fmt \<Rightarrow> int32 \<Rightarrow> int32"
  VENUS_UV_SCANLINES :: "color_fmt \<Rightarrow> int32 \<Rightarrow> int32"
  VENUS_Y_META_STRIDE :: "color_fmt \<Rightarrow> int32 \<Rightarrow> int32"
  VENUS_Y_META_SCANLINES :: "color_fmt \<Rightarrow> int32 \<Rightarrow> int32"
  VENUS_UV_META_STRIDE :: "color_fmt \<Rightarrow> int32 \<Rightarrow> int32"
  VENUS_UV_META_SCANLINES :: "color_fmt \<Rightarrow> int32 \<Rightarrow> int32"
  VENUS_BUFFER_SIZE :: "color_fmt \<Rightarrow> int32 \<Rightarrow> int32 \<Rightarrow> uint32"
  MSM_MEDIA_ALIGN :: "uint32 \<Rightarrow> uint32 \<Rightarrow> uint32"

section \<open>Arithmetic\<close>

abbreviation (input) CAM_PAD_TO_2 :: uint32 where "CAM_PAD_TO_2 \<equiv> 2"
abbreviation (input) CAM_PAD_TO_4 :: uint32 where "CAM_PAD_TO_4 \<equiv> 4"
abbreviation (input) CAM_PAD_TO_8 :: uint32 where "CAM_PAD_TO_8 \<equiv> 8"
abbreviation (input) CAM_PAD_TO_16 :: uint32 where "CAM_PAD_TO_16 \<equiv> 16"
abbreviation (input) CAM_PAD_TO_32 :: uint32 where "CAM_PAD_TO_32 \<equiv> 32"
abbreviation (input) CAM_PAD_TO_64 :: uint32 where "CAM_PAD_TO_64 \<equiv> 64"
abbreviation (input) CAM_PAD_TO_2K :: uint32 where "CAM_PAD_TO_2K \<equiv> 2048"
abbreviation (input) CAM_PAD_TO_4K :: uint32 where "CAM_PAD_TO_4K \<equiv> 4096"

text \<open>Division of an \<open>int\<close> truncates towards zero.\<close>

definition quot :: "int32 \<Rightarrow> int32 \<Rightarrow> int32" where
  "quot a b = word_of_int (sint a sdiv sint b)"

definition PAD_TO_SIZE :: "32 word \<Rightarrow> uint32 \<Rightarrow> 32 word" where
  "PAD_TO_SIZE sz padding = and (sz + (padding - 1)) (not (padding - 1))"

end
