(* ===== verification/PlaneLayout.thy ===== *)
theory PlaneLayout
  imports PlaneTypes
begin

text \<open>
  The layout of a frame in memory: \<open>mm_stream_calc_offset\<close> and the functions it calls for each type of
  stream, from \<^verbatim>\<open>stack/mm-camera-interface/src/mm_camera_stream.c\<close>.  Each returns a status and the planes
  it has written; the members a branch does not write keep their values.
\<close>

section \<open>Writing a plane\<close>

text \<open>The eight members that nearly every branch writes for a plane.\<close>

definition set_plane ::
  "nat \<Rightarrow> uint32 \<Rightarrow> uint32 \<Rightarrow> int32 \<Rightarrow> int32 \<Rightarrow> int32 \<Rightarrow> int32 \<Rightarrow> int32 \<Rightarrow> int32
     \<Rightarrow> cam_frame_len_offset \<Rightarrow> cam_frame_len_offset" where
  "set_plane i len off x y stride scanline w h p =
     p\<lparr>mp := (mp p)[i := (mp p ! i)\<lparr>mp_len := len, mp_offset := off, mp_offset_x := x, mp_offset_y := y,
         mp_stride := stride, mp_scanline := scanline, mp_width := w, mp_height := h\<rparr>]\<rparr>"

text \<open>The frame is as long as its planes, rounded up to pages.\<close>

definition pages_of_planes :: "nat \<Rightarrow> cam_frame_len_offset \<Rightarrow> cam_frame_len_offset" where
  "pages_of_planes n p = p\<lparr>frame_len := PAD_TO_SIZE (\<Sum>m\<leftarrow>take n (mp p). mp_len m) CAM_PAD_TO_4K\<rparr>"

text \<open>
  The planes of the Venus encoder: the frame has the length the kernel's macro gives, and the second plane
  is what the first one leaves of it.
\<close>

definition venus_planes ::
  "uint32 \<Rightarrow> int32 \<times> int32 \<Rightarrow> int32 \<times> int32 \<Rightarrow> cam_dimension \<Rightarrow> cam_frame_len_offset \<Rightarrow> cam_frame_len_offset" where
  "venus_planes sz luma chroma d p =
     (case luma of (stride, scanline) \<Rightarrow> case chroma of (uv_stride, uv_scanline) \<Rightarrow>
        set_plane 1 (sz - stride * scanline) 0 0 0 uv_stride uv_scanline (dim_width d) (quot (dim_height d) 2)
          (set_plane 0 (stride * scanline) 0 0 0 stride scanline (dim_width d) (dim_height d)
            (p\<lparr>frame_len := sz, num_planes := 2\<rparr>)))"

definition set_meta :: "platform \<Rightarrow> nat \<Rightarrow> int32 \<Rightarrow> int32 \<Rightarrow> cam_frame_len_offset \<Rightarrow> cam_frame_len_offset" where
  "set_meta P i stride scanline p =
     p\<lparr>mp := (mp p)[i := (mp p ! i)\<lparr>mp_meta_stride := stride, mp_meta_scanline := scanline,
         mp_meta_len := MSM_MEDIA_ALIGN P (stride * scanline) 4096\<rparr>]\<rparr>"

text \<open>Compressed frames have a plane of metadata in front of the luma and of the chroma data.\<close>

definition ubwc_planes ::
  "platform \<Rightarrow> uint32 \<Rightarrow> int32 \<times> int32 \<Rightarrow> cam_dimension \<Rightarrow> cam_frame_len_offset \<Rightarrow> cam_frame_len_offset" where
  "ubwc_planes P sz luma d p =
     (case luma of (stride, scanline) \<Rightarrow>
      let c = COLOR_FMT_NV12_UBWC;
          meta_stride = VENUS_Y_META_STRIDE P c (dim_width d);
          meta_scanline = VENUS_Y_META_SCANLINES P c (dim_height d);
          meta_len = MSM_MEDIA_ALIGN P (meta_stride * meta_scanline) 4096;
          len = MSM_MEDIA_ALIGN P (stride * scanline) 4096 + meta_len;
          p = p\<lparr>frame_len := sz, num_planes := 2\<rparr>;
          p = set_meta P 0 meta_stride meta_scanline
                (set_plane 0 len 0 0 0 stride scanline (dim_width d) (dim_height d) p)
      in set_meta P 1 (VENUS_UV_META_STRIDE P c (dim_width d)) (VENUS_UV_META_SCANLINES P c (dim_height d))
           (set_plane 1 (sz - len) 0 0 0 (VENUS_UV_STRIDE P c (dim_width d)) (VENUS_UV_SCANLINES P c (dim_height d))
             (dim_width d) (quot (dim_height d) 2) p))"

text \<open>The dimensions of the two planes as the kernel's macros give them.\<close>

definition venus_luma :: "platform \<Rightarrow> color_fmt \<Rightarrow> cam_dimension \<Rightarrow> int32 \<times> int32" where
  "venus_luma P c d = (VENUS_Y_STRIDE P c (dim_width d), VENUS_Y_SCANLINES P c (dim_height d))"

definition venus_chroma :: "platform \<Rightarrow> color_fmt \<Rightarrow> cam_dimension \<Rightarrow> int32 \<times> int32" where
  "venus_chroma P c d = (VENUS_UV_STRIDE P c (dim_width d), VENUS_UV_SCANLINES P c (dim_height d))"

section \<open>Preview\<close>

text \<open>The dimensions for an offline stream come from its padding, for the others from the format.\<close>

definition padded :: "cam_dimension \<Rightarrow> cam_padding_info \<Rightarrow> int32 \<times> int32" where
  "padded d pad = (PAD_TO_SIZE (dim_width d) (width_padding pad), PAD_TO_SIZE (dim_height d) (height_padding pad))"

definition preview_nv12 ::
  "bool \<Rightarrow> cam_dimension \<Rightarrow> cam_padding_info \<Rightarrow> cam_frame_len_offset \<Rightarrow> cam_frame_len_offset" where
  "preview_nv12 offline d pad p =
     (let hp = (if offline then height_padding pad else CAM_PAD_TO_2);
          stride = PAD_TO_SIZE (dim_width d) (width_padding pad);
          scanline = PAD_TO_SIZE (dim_height d) hp;
          p = set_plane 0 (stride * scanline) 0 0 0 stride scanline (dim_width d) (dim_height d)
                (p\<lparr>num_planes := 2\<rparr>);
          scanline = PAD_TO_SIZE (quot (dim_height d) 2) hp
      in pages_of_planes 2
           (set_plane 1 (stride * scanline) 0 0 0 stride scanline (dim_width d) (quot (dim_height d) 2) p))"

text \<open>The chroma plane of the Adreno format is padded in the same way for every stream.\<close>

definition adreno_planes ::
  "int32 \<times> int32 \<Rightarrow> cam_dimension \<Rightarrow> cam_frame_len_offset \<Rightarrow> cam_frame_len_offset" where
  "adreno_planes luma d p =
     (case luma of (stride, scanline) \<Rightarrow>
      let p = set_plane 0 (PAD_TO_SIZE (stride * scanline) CAM_PAD_TO_4K) 0 0 0 stride scanline
                (dim_width d) (dim_height d) (p\<lparr>num_planes := 2\<rparr>);
          stride = PAD_TO_SIZE (quot (dim_width d) 2) CAM_PAD_TO_32 * 2;
          scanline = PAD_TO_SIZE (quot (dim_height d) 2) CAM_PAD_TO_32
      in pages_of_planes 2
           (set_plane 1 (PAD_TO_SIZE (stride * scanline) CAM_PAD_TO_4K) 0 0 0 stride scanline
             (dim_width d) (quot (dim_height d) 2) p))"

definition yv12_planes ::
  "int32 \<times> int32 \<Rightarrow> cam_dimension \<Rightarrow> cam_frame_len_offset \<Rightarrow> cam_frame_len_offset" where
  "yv12_planes luma d p =
     (case luma of (stride, scanline) \<Rightarrow>
      let p = set_plane 0 (stride * scanline) 0 0 0 stride scanline (dim_width d) (dim_height d)
                (p\<lparr>num_planes := 3\<rparr>);
          stride = PAD_TO_SIZE (quot stride 2) CAM_PAD_TO_16;
          scanline = quot scanline 2;
          chroma = (\<lambda>i. set_plane i (stride * scanline) 0 0 0 stride scanline
                          (quot (dim_width d) 2) (quot (dim_height d) 2))
      in pages_of_planes 3 (chroma 2 (chroma 1 p)))"

definition nv16_planes ::
  "int32 \<times> int32 \<Rightarrow> cam_dimension \<Rightarrow> cam_frame_len_offset \<Rightarrow> cam_frame_len_offset" where
  "nv16_planes luma d p =
     (case luma of (stride, scanline) \<Rightarrow>
      let plane = (\<lambda>i. set_plane i (stride * scanline) 0 0 0 stride scanline (dim_width d) (dim_height d))
      in pages_of_planes 2 (plane 1 (plane 0 (p\<lparr>num_planes := 2\<rparr>))))"

definition preview_venus ::
  "platform \<Rightarrow> color_fmt \<Rightarrow> bool \<Rightarrow> cam_dimension \<Rightarrow> cam_padding_info \<Rightarrow> cam_frame_len_offset \<Rightarrow> cam_frame_len_offset" where
  "preview_venus P c offline d pad p =
     (let (stride, scanline) = (if offline then padded d pad else venus_luma P c d)
      in venus_planes (VENUS_BUFFER_SIZE P c stride scanline) (stride, scanline)
           (if offline then padded d pad else venus_chroma P c d) d p)"

definition preview_ubwc ::
  "platform \<Rightarrow> bool \<Rightarrow> cam_dimension \<Rightarrow> cam_padding_info \<Rightarrow> cam_frame_len_offset \<Rightarrow> cam_frame_len_offset" where
  "preview_ubwc P offline d pad p =
     (let (stride, scanline) = (if offline then padded d pad else venus_luma P COLOR_FMT_NV12_UBWC d)
      in ubwc_planes P (VENUS_BUFFER_SIZE P COLOR_FMT_NV12_UBWC stride scanline) (stride, scanline) d p)"

definition mm_stream_calc_offset_preview ::
  "platform \<Rightarrow> cam_stream_info \<Rightarrow> cam_dimension \<Rightarrow> cam_padding_info \<Rightarrow> cam_frame_len_offset
     \<Rightarrow> int32 \<times> cam_frame_len_offset" where
  "mm_stream_calc_offset_preview P info d pad p =
     (let f = fmt info; offline = (info_stream_type info = CAM_STREAM_TYPE_OFFLINE_PROC) in
      if f = CAM_FORMAT_YUV_420_NV12 \<or> f = CAM_FORMAT_YUV_420_NV21 \<or> f \<in> set y_only
      then (0, preview_nv12 offline d pad p)
      else if f = CAM_FORMAT_YUV_420_NV21_ADRENO
      then (0, adreno_planes
                 (if offline then padded d pad
                  else (PAD_TO_SIZE (dim_width d) CAM_PAD_TO_32, PAD_TO_SIZE (dim_height d) CAM_PAD_TO_32)) d p)
      else if f = CAM_FORMAT_YUV_420_YV12
      then (0, yv12_planes
                 (if offline then padded d pad
                  else (PAD_TO_SIZE (dim_width d) CAM_PAD_TO_16, PAD_TO_SIZE (dim_height d) CAM_PAD_TO_2)) d p)
      else if f = CAM_FORMAT_YUV_422_NV16 \<or> f = CAM_FORMAT_YUV_422_NV61
      then (0, nv16_planes
                 (if offline then padded d pad
                  else (PAD_TO_SIZE (dim_width d) CAM_PAD_TO_16, dim_height d)) d p)
      else if f = CAM_FORMAT_YUV_420_NV12_VENUS
      then (if VENUS_PRESENT P then (0, preview_venus P COLOR_FMT_NV12 offline d pad p) else (- 1, p))
      else if f = CAM_FORMAT_YUV_420_NV21_VENUS
      then (if VENUS_PRESENT P then (0, preview_venus P COLOR_FMT_NV21 offline d pad p) else (- 1, p))
      else if f = CAM_FORMAT_YUV_420_NV12_UBWC
      then (if UBWC_PRESENT P then (0, preview_ubwc P offline d pad p) else (- 1, p))
      else (- 1, p))"

section \<open>Postview\<close>

definition postview_nv12 :: "cam_dimension \<Rightarrow> cam_frame_len_offset \<Rightarrow> cam_frame_len_offset" where
  "postview_nv12 d p =
     (let stride = PAD_TO_SIZE (dim_width d) CAM_PAD_TO_64;
          scanline = PAD_TO_SIZE (dim_height d) CAM_PAD_TO_64;
          p = set_plane 0 (stride * scanline) 0 0 0 stride scanline (dim_width d) (dim_height d)
                (p\<lparr>num_planes := 2\<rparr>);
          scanline = PAD_TO_SIZE (quot (dim_height d) 2) CAM_PAD_TO_64
      in pages_of_planes 2
           (set_plane 1 (stride * scanline) 0 0 0 stride scanline (dim_width d) (quot (dim_height d) 2) p))"

text \<open>The Venus planes whose frame length is computed from the picture's dimension.\<close>

definition venus_of_dim :: "platform \<Rightarrow> color_fmt \<Rightarrow> cam_dimension \<Rightarrow> cam_frame_len_offset \<Rightarrow> cam_frame_len_offset" where
  "venus_of_dim P c d =
     venus_planes (VENUS_BUFFER_SIZE P c (dim_width d) (dim_height d)) (venus_luma P c d) (venus_chroma P c d) d"

definition ubwc_of_dim :: "platform \<Rightarrow> cam_dimension \<Rightarrow> cam_frame_len_offset \<Rightarrow> cam_frame_len_offset" where
  "ubwc_of_dim P d =
     ubwc_planes P (VENUS_BUFFER_SIZE P COLOR_FMT_NV12_UBWC (dim_width d) (dim_height d))
       (venus_luma P COLOR_FMT_NV12_UBWC d) d"

definition mm_stream_calc_offset_post_view ::
  "platform \<Rightarrow> cam_format \<Rightarrow> cam_dimension \<Rightarrow> cam_frame_len_offset \<Rightarrow> int32 \<times> cam_frame_len_offset" where
  "mm_stream_calc_offset_post_view P f d p =
     (if f = CAM_FORMAT_YUV_420_NV12 \<or> f = CAM_FORMAT_YUV_420_NV21 \<or> f \<in> set y_only
      then (0, postview_nv12 d p)
      else if f = CAM_FORMAT_YUV_420_NV21_ADRENO
      then (0, adreno_planes (PAD_TO_SIZE (dim_width d) CAM_PAD_TO_32, PAD_TO_SIZE (dim_height d) CAM_PAD_TO_32) d p)
      else if f = CAM_FORMAT_YUV_420_YV12
      then (0, yv12_planes (PAD_TO_SIZE (dim_width d) CAM_PAD_TO_16, PAD_TO_SIZE (dim_height d) CAM_PAD_TO_2) d p)
      else if f = CAM_FORMAT_YUV_422_NV16 \<or> f = CAM_FORMAT_YUV_422_NV61
      then (0, nv16_planes (PAD_TO_SIZE (dim_width d) CAM_PAD_TO_16, dim_height d) d p)
      else if f = CAM_FORMAT_YUV_420_NV12_VENUS
      then (if VENUS_PRESENT P then (0, venus_of_dim P COLOR_FMT_NV12 d p) else (- 1, p))
      else if f = CAM_FORMAT_YUV_420_NV21_VENUS
      then (if VENUS_PRESENT P then (0, venus_of_dim P COLOR_FMT_NV21 d p) else (- 1, p))
      else if f = CAM_FORMAT_YUV_420_NV12_UBWC
      then (if UBWC_PRESENT P then (0, ubwc_of_dim P d p) else (- 1, p))
      else (- 1, p))"

section \<open>Snapshot and analysis\<close>

text \<open>
  These layouts leave a margin of \<open>x\<close> columns and \<open>y\<close> lines around the picture and round every plane up
  to the plane padding.
\<close>

definition margin_plane ::
  "nat \<Rightarrow> uint32 \<Rightarrow> int32 \<Rightarrow> int32 \<Rightarrow> int32 \<Rightarrow> int32 \<Rightarrow> int32 \<Rightarrow> int32
     \<Rightarrow> cam_frame_len_offset \<Rightarrow> cam_frame_len_offset" where
  "margin_plane i pp x y stride scanline w h =
     set_plane i (PAD_TO_SIZE (stride * scanline) pp) (PAD_TO_SIZE (x + stride * y) pp) x y stride scanline w h"

definition margin_nv12 ::
  "uint32 \<Rightarrow> int32 \<Rightarrow> int32 \<Rightarrow> int32 \<Rightarrow> int32 \<Rightarrow> cam_dimension \<Rightarrow> cam_frame_len_offset \<Rightarrow> cam_frame_len_offset" where
  "margin_nv12 pp x y stride scanline d p =
     pages_of_planes 2
       (margin_plane 1 pp x y stride (quot scanline 2) (dim_width d) (quot (dim_height d) 2)
         (margin_plane 0 pp x y stride scanline (dim_width d) (dim_height d) (p\<lparr>num_planes := 2\<rparr>)))"

definition margin_yv12 ::
  "uint32 \<Rightarrow> int32 \<Rightarrow> int32 \<Rightarrow> int32 \<Rightarrow> int32 \<Rightarrow> cam_dimension \<Rightarrow> cam_frame_len_offset \<Rightarrow> cam_frame_len_offset" where
  "margin_yv12 pp x y stride scanline d p =
     (let luma = margin_plane 0 pp x y stride scanline (dim_width d) (dim_height d);
          chroma = (\<lambda>i. margin_plane i pp x y (PAD_TO_SIZE (quot stride 2) CAM_PAD_TO_16) (quot scanline 2)
                          (quot (dim_width d) 2) (quot (dim_height d) 2))
      in pages_of_planes 3 (chroma 2 (chroma 1 (luma (p\<lparr>num_planes := 3\<rparr>)))))"

definition margin_nv16 ::
  "uint32 \<Rightarrow> int32 \<Rightarrow> int32 \<Rightarrow> int32 \<Rightarrow> int32 \<Rightarrow> cam_dimension \<Rightarrow> cam_frame_len_offset \<Rightarrow> cam_frame_len_offset" where
  "margin_nv16 pp x y stride scanline d p =
     (let plane = (\<lambda>i. margin_plane i pp x y stride scanline (dim_width d) (dim_height d))
      in pages_of_planes 2 (plane 1 (plane 0 (p\<lparr>num_planes := 2\<rparr>))))"

text \<open>The margin of a snapshot and its padded dimension.\<close>

definition snapshot_margin ::
  "platform \<Rightarrow> cam_dimension \<Rightarrow> cam_padding_info \<Rightarrow> int32 \<times> int32 \<times> int32 \<times> int32" where
  "snapshot_margin P d pad =
     (if USE_A_FAMILY P
      then (let scanline = PAD_TO_SIZE (dim_height d) CAM_PAD_TO_16; y = scanline - dim_height d
            in (0, y, dim_width d, scanline + y))
      else (let x = PAD_TO_SIZE (pad_offset_x pad) (plane_padding pad);
                y = PAD_TO_SIZE (pad_offset_y pad) (plane_padding pad)
            in (x, y, PAD_TO_SIZE (dim_width d + 2 * x) (width_padding pad),
                PAD_TO_SIZE (dim_height d + 2 * y) (height_padding pad))))"

text \<open>Without the Venus encoder, \<open>NV12_VENUS\<close> is only logged and \<open>rc\<close> stays 0.\<close>

definition mm_stream_calc_offset_snapshot ::
  "platform \<Rightarrow> cam_format \<Rightarrow> cam_dimension \<Rightarrow> cam_padding_info \<Rightarrow> cam_frame_len_offset
     \<Rightarrow> int32 \<times> cam_frame_len_offset" where
  "mm_stream_calc_offset_snapshot P f d pad p =
     (case snapshot_margin P d pad of (x, y, stride, scanline) \<Rightarrow>
      if f = CAM_FORMAT_YUV_420_NV12 \<or> f = CAM_FORMAT_YUV_420_NV21 \<or> f \<in> set y_only
      then (0, margin_nv12 (plane_padding pad) x y stride scanline d p)
      else if f = CAM_FORMAT_YUV_420_YV12
      then (0, margin_yv12 (plane_padding pad) x y stride scanline d p)
      else if f = CAM_FORMAT_YUV_422_NV16 \<or> f = CAM_FORMAT_YUV_422_NV61
      then (0, margin_nv16 (plane_padding pad) x y stride scanline d p)
      else if f = CAM_FORMAT_YUV_420_NV12_UBWC
      then (if UBWC_PRESENT P then (0, ubwc_of_dim P d p) else (- 1, p))
      else if f = CAM_FORMAT_YUV_420_NV12_VENUS
      then (if VENUS_PRESENT P then (0, venus_of_dim P COLOR_FMT_NV12 d p) else (0, p))
      else if f = CAM_FORMAT_YUV_420_NV21_VENUS
      then (if VENUS_PRESENT P then (0, venus_of_dim P COLOR_FMT_NV21 d p) else (- 1, p))
      else (- 1, p))"

text \<open>An analysis frame has no margin but at least the smallest supported dimension.\<close>

definition analysis_dim :: "cam_dimension \<Rightarrow> cam_padding_info \<Rightarrow> int32 \<times> int32" where
  "analysis_dim d pad =
     (PAD_TO_SIZE (if dim_width d < min_stride pad then min_stride pad else dim_width d) (width_padding pad),
      PAD_TO_SIZE (if dim_height d < min_scanline pad then min_scanline pad else dim_height d) (height_padding pad))"

definition analysis_y_only ::
  "uint32 \<Rightarrow> int32 \<Rightarrow> int32 \<Rightarrow> cam_dimension \<Rightarrow> cam_frame_len_offset \<Rightarrow> cam_frame_len_offset" where
  "analysis_y_only pp stride scanline d p =
     pages_of_planes 1
       (margin_plane 0 pp 0 0 stride scanline (dim_width d) (dim_height d) (p\<lparr>num_planes := 1\<rparr>))"

definition analysis_venus ::
  "platform \<Rightarrow> color_fmt \<Rightarrow> cam_dimension \<Rightarrow> cam_frame_len_offset \<Rightarrow> cam_frame_len_offset" where
  "analysis_venus P c d p =
     (case venus_luma P c d of (stride, scanline) \<Rightarrow>
        venus_planes (VENUS_BUFFER_SIZE P c stride scanline) (stride, scanline) (venus_chroma P c d) d p)"

definition analysis_ubwc :: "platform \<Rightarrow> cam_dimension \<Rightarrow> cam_frame_len_offset \<Rightarrow> cam_frame_len_offset" where
  "analysis_ubwc P d p =
     (case venus_luma P COLOR_FMT_NV12_UBWC d of (stride, scanline) \<Rightarrow>
        ubwc_planes P (VENUS_BUFFER_SIZE P COLOR_FMT_NV12_UBWC stride scanline) (stride, scanline) d p)"

definition mm_stream_calc_offset_analysis ::
  "platform \<Rightarrow> cam_format \<Rightarrow> cam_dimension \<Rightarrow> cam_padding_info \<Rightarrow> cam_frame_len_offset
     \<Rightarrow> int32 \<times> cam_frame_len_offset" where
  "mm_stream_calc_offset_analysis P f d pad p =
     (case analysis_dim d pad of (stride, scanline) \<Rightarrow>
      if f = CAM_FORMAT_YUV_420_NV12 \<or> f = CAM_FORMAT_YUV_420_NV21
      then (0, margin_nv12 (plane_padding pad) 0 0 stride scanline d p)
      else if f = CAM_FORMAT_YUV_420_YV12
      then (0, margin_yv12 (plane_padding pad) 0 0 stride scanline d p)
      else if f = CAM_FORMAT_YUV_422_NV16 \<or> f = CAM_FORMAT_YUV_422_NV61
      then (0, margin_nv16 (plane_padding pad) 0 0 stride scanline d p)
      else if f \<in> set y_only
      then (0, analysis_y_only (plane_padding pad) stride scanline d p)
      else if f = CAM_FORMAT_YUV_420_NV12_VENUS
      then (if VENUS_PRESENT P then (0, analysis_venus P COLOR_FMT_NV12 d p) else (- 1, p))
      else if f = CAM_FORMAT_YUV_420_NV21_VENUS
      then (if VENUS_PRESENT P then (0, analysis_venus P COLOR_FMT_NV21 d p) else (- 1, p))
      else if f = CAM_FORMAT_YUV_420_NV12_UBWC
      then (if UBWC_PRESENT P then (0, analysis_ubwc P d p) else (- 1, p))
      else (- 1, p))"

section \<open>Raw\<close>

definition set_stride_in_bytes :: "nat \<Rightarrow> int32 \<Rightarrow> cam_frame_len_offset \<Rightarrow> cam_frame_len_offset" where
  "set_stride_in_bytes i b p = p\<lparr>mp := (mp p)[i := (mp p ! i)\<lparr>mp_stride_in_bytes := b\<rparr>]\<rparr>"

definition raw_nv21 ::
  "uint32 \<Rightarrow> int32 \<times> int32 \<Rightarrow> cam_dimension \<Rightarrow> cam_frame_len_offset \<Rightarrow> cam_frame_len_offset" where
  "raw_nv21 pp luma d p =
     (case luma of (stride, scanline) \<Rightarrow>
      let p = set_stride_in_bytes 0 stride
                (set_plane 0 (PAD_TO_SIZE (stride * scanline) pp) 0 0 0 stride scanline
                  (dim_width d) (dim_height d) (p\<lparr>num_planes := 2\<rparr>));
          scanline = quot scanline 2
      in pages_of_planes 2
           (set_stride_in_bytes 1 stride
             (set_plane 1 (PAD_TO_SIZE (stride * scanline) pp) 0 0 0 stride scanline
               (dim_width d) (quot (dim_height d) 2) p)))"

text \<open>A packed format has one plane, described as one line of bytes.\<close>

definition raw_plane ::
  "uint32 \<Rightarrow> int32 \<Rightarrow> int32 \<Rightarrow> int32 \<Rightarrow> cam_frame_len_offset \<Rightarrow> cam_frame_len_offset" where
  "raw_plane pp stride bytes scanline p =
     (let len = PAD_TO_SIZE (bytes * scanline) pp
      in set_stride_in_bytes 0 bytes
           (pages_of_planes 1 (set_plane 0 len 0 0 0 stride scanline len 1 (p\<lparr>num_planes := 1\<rparr>))))"

text \<open>The generic raw metadata keeps the width and the height of the plane as they were.\<close>

definition raw_meta ::
  "uint32 \<Rightarrow> int32 \<Rightarrow> int32 \<Rightarrow> int32 \<Rightarrow> cam_frame_len_offset \<Rightarrow> cam_frame_len_offset" where
  "raw_meta pp stride bytes scanline p =
     set_stride_in_bytes 0 bytes
       (pages_of_planes 1
         (set_plane 0 (PAD_TO_SIZE (bytes * scanline) pp) 0 0 0 stride scanline
           (mp_width (mp p ! 0)) (mp_height (mp p ! 0)) (p\<lparr>num_planes := 1\<rparr>)))"

text \<open>The pixels and the bytes of a line of a packed format.\<close>

definition raw_strides :: "cam_format \<Rightarrow> int32 \<Rightarrow> (int32 \<times> int32) option" where
  "raw_strides f w =
     (if f \<in> set raw_yuv \<or> f = CAM_FORMAT_META_RAW_8BIT
      then (let stride = PAD_TO_SIZE w CAM_PAD_TO_16 in Some (stride, stride * 2))
      else if f \<in> set raw_8
      then (let stride = PAD_TO_SIZE w CAM_PAD_TO_16 in Some (stride, stride))
      else if f \<in> set raw_qcom_10
      then (let stride = quot (w + 11) 12 * 12 in Some (stride, quot (stride * 8) 6))
      else if f \<in> set raw_qcom_12
      then (let stride = quot (w + 9) 10 * 10 in Some (stride, quot (stride * 8) 5))
      else if f \<in> set raw_mipi_10
      then (let stride = PAD_TO_SIZE w CAM_PAD_TO_4
            in Some (stride, PAD_TO_SIZE (quot (stride * 5) 4) CAM_PAD_TO_8))
      else if f \<in> set raw_mipi_12
      then (let stride = PAD_TO_SIZE w CAM_PAD_TO_32 in Some (stride, quot (stride * 3) 2))
      else if f \<in> set raw_plain16
      then (let stride = PAD_TO_SIZE w CAM_PAD_TO_8 in Some (stride, stride * 2))
      else if f \<in> set raw_mipi_14
      then (let stride = PAD_TO_SIZE w CAM_PAD_TO_64 in Some (stride, quot (stride * 7) 4))
      else if f \<in> set raw_qcom_14
      then (let stride = PAD_TO_SIZE w CAM_PAD_TO_16 in Some (stride, stride * 2))
      else None)"

definition mm_stream_calc_offset_raw ::
  "cam_format \<Rightarrow> cam_dimension \<Rightarrow> cam_padding_info \<Rightarrow> cam_frame_len_offset \<Rightarrow> int32 \<times> cam_frame_len_offset" where
  "mm_stream_calc_offset_raw f d pad p =
     (let pp = plane_padding pad; scanline = PAD_TO_SIZE (dim_height d) (height_padding pad) in
      if f = CAM_FORMAT_YUV_420_NV21
      then (0, raw_nv21 pp (PAD_TO_SIZE (dim_width d) (width_padding pad), scanline) d p)
      else case raw_strides f (dim_width d) of
        None \<Rightarrow> (- 1, p)
      | Some (stride, bytes) \<Rightarrow>
          (0, (if f = CAM_FORMAT_META_RAW_8BIT then raw_meta else raw_plane) pp stride bytes scanline p))"

section \<open>Video and metadata\<close>

definition video_nv12 :: "cam_dimension \<Rightarrow> cam_frame_len_offset \<Rightarrow> cam_frame_len_offset" where
  "video_nv12 d p =
     (let stride = dim_width d; scanline = dim_height d;
          p = set_plane 0 (PAD_TO_SIZE (stride * scanline) CAM_PAD_TO_2K) 0 0 0 stride scanline
                (dim_width d) (dim_height d) (p\<lparr>num_planes := 2\<rparr>);
          scanline = quot (dim_height d) 2
      in pages_of_planes 2
           (set_plane 1 (PAD_TO_SIZE (stride * scanline) CAM_PAD_TO_2K) 0 0 0 stride scanline
             (dim_width d) (quot (dim_height d) 2) p))"

text \<open>Without the Venus encoder, its two formats are only logged and \<open>rc\<close> stays 0.\<close>

definition mm_stream_calc_offset_video ::
  "platform \<Rightarrow> cam_format \<Rightarrow> cam_dimension \<Rightarrow> cam_frame_len_offset \<Rightarrow> int32 \<times> cam_frame_len_offset" where
  "mm_stream_calc_offset_video P f d p =
     (if f = CAM_FORMAT_YUV_420_NV12 \<or> f \<in> set y_only
      then (0, video_nv12 d p)
      else if f = CAM_FORMAT_YUV_420_NV12_VENUS
      then (if VENUS_PRESENT P then (0, venus_of_dim P COLOR_FMT_NV12 d p) else (0, p))
      else if f = CAM_FORMAT_YUV_420_NV21_VENUS
      then (if VENUS_PRESENT P then (0, venus_of_dim P COLOR_FMT_NV21 d p) else (0, p))
      else if f = CAM_FORMAT_YUV_420_NV12_UBWC
      then (if UBWC_PRESENT P then (0, ubwc_of_dim P d p) else (- 1, p))
      else (- 1, p))"

definition mm_stream_calc_offset_metadata ::
  "cam_dimension \<Rightarrow> cam_padding_info \<Rightarrow> cam_frame_len_offset \<Rightarrow> int32 \<times> cam_frame_len_offset" where
  "mm_stream_calc_offset_metadata d pad p =
     (let len = PAD_TO_SIZE (dim_width d * dim_height d) (plane_padding pad);
          p = set_plane 0 len 0 0 0 (dim_width d) (dim_height d) (dim_width d) (dim_height d)
                (p\<lparr>num_planes := 1\<rparr>)
      in (0, p\<lparr>frame_len := len\<rparr>))"

section \<open>Reprocessing\<close>

text \<open>
  The type of the stream whose layout a reprocessed stream has.  The layout for a type is written in the same
  way for a stream and for what a stream reprocesses, but for a stream that is itself offline.
\<close>

definition calc_offset_of ::
  "platform \<Rightarrow> cam_stream_type \<Rightarrow> cam_stream_info \<Rightarrow> cam_dimension \<Rightarrow> cam_padding_info
     \<Rightarrow> cam_frame_len_offset \<Rightarrow> int32 \<times> cam_frame_len_offset" where
  "calc_offset_of P ty info d pad p =
     (case ty of
        CAM_STREAM_TYPE_PREVIEW \<Rightarrow> mm_stream_calc_offset_preview P info d pad p
      | CAM_STREAM_TYPE_POSTVIEW \<Rightarrow> mm_stream_calc_offset_post_view P (fmt info) d p
      | CAM_STREAM_TYPE_SNAPSHOT \<Rightarrow> mm_stream_calc_offset_snapshot P (fmt info) d pad p
      | CAM_STREAM_TYPE_CALLBACK \<Rightarrow> mm_stream_calc_offset_snapshot P (fmt info) d pad p
      | CAM_STREAM_TYPE_VIDEO \<Rightarrow> mm_stream_calc_offset_video P (fmt info) d p
      | CAM_STREAM_TYPE_RAW \<Rightarrow> mm_stream_calc_offset_raw (fmt info) d pad p
      | CAM_STREAM_TYPE_ANALYSIS \<Rightarrow> mm_stream_calc_offset_analysis P (fmt info) d pad p
      | CAM_STREAM_TYPE_METADATA \<Rightarrow> mm_stream_calc_offset_metadata d pad p
      | CAM_STREAM_TYPE_OFFLINE_PROC \<Rightarrow> mm_stream_calc_offset_snapshot P (fmt info) d pad p
      | _ \<Rightarrow> (- 1, p))"

definition mm_stream_calc_offset_postproc ::
  "platform \<Rightarrow> cam_stream_info \<Rightarrow> cam_padding_info \<Rightarrow> cam_frame_len_offset \<Rightarrow> int32 \<times> cam_frame_len_offset" where
  "mm_stream_calc_offset_postproc P info pad p =
     (case reprocess_config info of
        Offline ty planes \<Rightarrow>
          if ty = CAM_STREAM_TYPE_DEFAULT \<and> frame_len p = 0 then (0, planes)
          else calc_offset_of P ty info (dim info) pad p
      | Online ty \<Rightarrow> calc_offset_of P ty info (dim info) pad p)"

section \<open>The layout of a stream\<close>

text \<open>A stream that the hardware rotates by a quarter has its dimension swapped.\<close>

definition turned_dim :: "cam_stream_info \<Rightarrow> cam_dimension" where
  "turned_dim info =
     (if and (feature_mask info) CAM_QCOM_FEATURE_ROTATION \<noteq> 0
         \<and> info_stream_type info \<noteq> CAM_STREAM_TYPE_VIDEO
         \<and> (rotation info = ROTATE_90 \<or> rotation info = ROTATE_270)
      then \<lparr>dim_width = dim_height (dim info), dim_height = dim_width (dim info)\<rparr>
      else dim info)"

definition mm_stream_calc_offset ::
  "platform \<Rightarrow> cam_padding_info \<Rightarrow> cam_stream_info \<Rightarrow> int32 \<times> cam_stream_info" where
  "mm_stream_calc_offset P pad info =
     (case (if info_stream_type info = CAM_STREAM_TYPE_OFFLINE_PROC
            then mm_stream_calc_offset_postproc P info pad (buf_planes info)
            else calc_offset_of P (info_stream_type info) info (turned_dim info) pad (buf_planes info))
      of (rc, p) \<Rightarrow> (rc, info\<lparr>buf_planes := p\<rparr>))"

section \<open>Least common multiple\<close>

text \<open>The loop adds the larger number until both divide the sum; the sum wraps around.\<close>

partial_function (option) lcm_loop :: "int32 \<Rightarrow> int32 \<Rightarrow> uint32 \<Rightarrow> uint32 \<Rightarrow> uint32 option" where
  "lcm_loop num1 num2 temp l =
     (if l mod num1 = 0 \<and> l mod num2 = 0 then Some l else lcm_loop num1 num2 temp (l + temp))"

definition mm_stream_calc_lcm :: "int32 \<Rightarrow> int32 \<Rightarrow> uint32 option" where
  "mm_stream_calc_lcm num1 num2 =
     (if sint num1 < 1 \<and> sint num2 < 1 then Some 0
      else if sint num1 < 1 then Some num2
      else if sint num2 < 1 then Some num1
      else (let temp = (if sint num1 > sint num2 then num1 else num2) in lcm_loop num1 num2 temp temp))"

end
