(* ===== verification/StreamTypes.thy ===== *)
theory StreamTypes
  imports PlaneLayout
begin

text \<open>
  A stream of the camera interface: the structure \<open>mm_stream_t\<close> of
  \<^verbatim>\<open>stack/mm-camera-interface/inc/mm_camera.h\<close>, the events of its state machine, and the calls it makes of
  the driver, the daemon and its users.

  The calls are a ghost list of the stream.  What they answer is a function of the calls made before and of the
  call itself, so a property that holds for every such function holds whatever driver and users do.  A
  buffer is named by its index in the stream's array, as \<open>buf_idx\<close> does.
\<close>

section \<open>Enumerations\<close>

datatype (plugins only: code size) mm_stream_state_type =
    MM_STREAM_STATE_NOTUSED | MM_STREAM_STATE_INITED | MM_STREAM_STATE_ACQUIRED | MM_STREAM_STATE_CFG
  | MM_STREAM_STATE_BUFFED | MM_STREAM_STATE_REG | MM_STREAM_STATE_ACTIVE

datatype (plugins only: code size) cam_streaming_mode =
    CAM_STREAMING_MODE_CONTINUOUS | CAM_STREAMING_MODE_BURST | CAM_STREAMING_MODE_BATCH

datatype (plugins only: code size) cam_stream_cache_ops =
    CAM_STREAM_CACHE_OPS_CLEAR_FLAGS | CAM_STREAM_CACHE_OPS_HONOUR_FLAGS | CAM_STREAM_CACHE_OPS_DISABLED

datatype (plugins only: code size) cam_mapping_buf_type =
    CAM_MAPPING_BUF_TYPE_CAPABILITY | CAM_MAPPING_BUF_TYPE_PARM_BUF | CAM_MAPPING_BUF_TYPE_SYNC_RELATED_SENSORS_BUF
  | CAM_MAPPING_BUF_TYPE_STREAM_BUF | CAM_MAPPING_BUF_TYPE_STREAM_INFO | CAM_MAPPING_BUF_TYPE_OFFLINE_INPUT_BUF
  | CAM_MAPPING_BUF_TYPE_OFFLINE_META_BUF | CAM_MAPPING_BUF_TYPE_MISC_BUF | CAM_MAPPING_BUF_TYPE_STREAM_USER_BUF

abbreviation (input) CPU_HAS_READ :: uint32 where "CPU_HAS_READ \<equiv> 1"
abbreviation (input) CPU_HAS_WRITTEN :: uint32 where "CPU_HAS_WRITTEN \<equiv> 2"
abbreviation (input) CPU_HAS_READ_WRITTEN :: uint32 where "CPU_HAS_READ_WRITTEN \<equiv> 3"

definition MM_CAMERA_STREAM_BUF_CB_MAX :: nat where
  "MM_CAMERA_STREAM_BUF_CB_MAX = 4"

definition CAM_MAX_NUM_BUFS_PER_STREAM :: nat where
  "CAM_MAX_NUM_BUFS_PER_STREAM = 64"

section \<open>Calls of a stream\<close>

datatype io_call =
    Open | Close | S_parm | Shim_new_stream | Shim_del_stream
  | S_ctrl_sync | S_ctrl_parm | G_ctrl_parm | S_fmt | Shim_s_fmt | Set_config_ops
  | Get_bufs | Put_bufs | Reqbufs uint8 | Qbuf nat | Dqbuf | Return_buf uint32
  | Streamon | Streamoff | Shim_stream_on | Shim_stream_off
  | Poll_add | Poll_del_async | Poll_del_sync | Poll_commit | Wait_mapped | Signal_mapped | Shim_reg_buf
  | Clean_invalidate nat | Invalidate nat | Clean nat
  | Malloc | Launch | Release_thread
  | Callback nat nat

text \<open>
  What the environment answers: the result of a call; the stream id that \<open>VIDIOC_S_PARM\<close> gives; index,
  sequence number and time stamp of the buffer that \<open>VIDIOC_DQBUF\<close> gives; for each buffer that \<open>get_bufs\<close>
  gives, whether it is to be queued initially, whether it is a container of a batch, and the indices it contains.
\<close>

record stream_env =
  answer :: "io_call list \<Rightarrow> io_call \<Rightarrow> int32"
  extended_mode :: "io_call list \<Rightarrow> uint32"
  dequeued :: "io_call list \<Rightarrow> nat \<times> uint32 \<times> int"
  allocated :: "io_call list \<Rightarrow> (bool \<times> bool \<times> int32 list) list"

section \<open>Buffers\<close>

record mm_stream_buf_status =
  buf_refcnt :: uint8
  initial_reg_flag :: bool
  in_kernel :: bool
  map_status :: int

definition no_status :: mm_stream_buf_status where
  "no_status = \<lparr>buf_refcnt = 0, initial_reg_flag = False, in_kernel = False, map_status = 0\<rparr>"

text \<open>
  A buffer: the sequence number and the time stamp (in nanoseconds) of its frame, the flags that say which
  cache operation it needs, and, of a container, the members of \<open>user_buf\<close> and the memory it shares
  with the driver.
\<close>

record stream_buf =
  sb_frame_idx :: uint32
  sb_ts :: int
  cache_flags :: uint32
  userptr :: bool
  bufs_used :: uint8
  buf_in_use :: bool
  ub_idx :: "int32 list"
  cont_cnt :: uint32
  cont_idx :: "int32 list"

definition new_buf :: "bool \<Rightarrow> int32 list \<Rightarrow> stream_buf" where
  "new_buf u ids = \<lparr>sb_frame_idx = 0, sb_ts = 0, cache_flags = 0, userptr = u, bufs_used = 0, buf_in_use = False,
     ub_idx = ids, cont_cnt = 0, cont_idx = []\<rparr>"

record mm_stream_data_cb =
  cb :: ptr
  cb_count :: "8 word"
  cb_sync :: bool

definition no_cb :: mm_stream_data_cb where
  "no_cb = \<lparr>cb = NULL, cb_count = 0, cb_sync = False\<rparr>"

record stream_info = cam_stream_info +
  num_bufs :: uint32
  streaming_mode :: cam_streaming_mode
  frame_buf_cnt :: uint8
  frameInterval :: int
  cache_ops :: cam_stream_cache_ops
  noFrameExpected :: bool

section \<open>The stream\<close>

text \<open>
  \<open>to_channel\<close> and \<open>to_linked\<close> are ghosts: the buffers, with their frames, that were posted to the
  command threads of the channel and of the linked channel.  \<open>cache_ops_set\<close> says that the three cache
  functions of \<open>mem_vtbl\<close> are there.
\<close>

record mm_stream =
  my_hdl :: uint32
  svr_stream_id :: uint32
  st_fd :: int32
  st_state :: mm_stream_state_type
  strm_info :: stream_info
  padding_info :: cam_padding_info
  frame_offset :: cam_frame_len_offset
  cmd_active :: bool
  st_cmd_queue :: "nat list"
  buf_cb :: "mm_stream_data_cb list"
  buf_num :: uint8
  bufs :: "stream_buf list option"
  buf_status :: "mm_stream_buf_status list"
  plane_buf :: "stream_buf list option"
  cur_buf_idx :: int32
  cur_bufs_staged :: uint8
  is_bundled :: bool
  is_linked :: bool
  cache_ops_set :: bool
  queued_buffer_count :: "8 word"
  prev_frameID :: uint32
  prev_timestamp :: int
  to_channel :: "(nat \<times> uint32) list"
  to_linked :: "(nat \<times> uint32) list"
  ios :: "io_call list"

type_synonym 'a strm = "(mm_stream, 'a) state"

definition io :: "stream_env \<Rightarrow> io_call \<Rightarrow> int32 strm" where
  "io E c = State (\<lambda>s. (answer E (ios s) c, s\<lparr>ios := ios s @ [c]\<rparr>))"

definition io0 :: "stream_env \<Rightarrow> io_call \<Rightarrow> unit strm" where
  "io0 E c = do { _ \<leftarrow> io E c; State_Monad.return () }"

abbreviation yields :: "'a \<Rightarrow> 'a strm" where
  "yields x \<equiv> State_Monad.return x"

text \<open>\<open>rc < 0\<close>\<close>

definition failed :: "int32 \<Rightarrow> bool" where
  "failed rc \<longleftrightarrow> sint rc < 0"

definition buf_at :: "nat \<Rightarrow> mm_stream \<Rightarrow> stream_buf" where
  "buf_at i s = the (bufs s) ! i"

definition set_buf :: "nat \<Rightarrow> (stream_buf \<Rightarrow> stream_buf) \<Rightarrow> unit strm" where
  "set_buf i f = modify (\<lambda>s. s\<lparr>bufs := map_option (\<lambda>bs. bs[i := f (bs ! i)]) (bufs s)\<rparr>)"

definition status_at :: "nat \<Rightarrow> mm_stream \<Rightarrow> mm_stream_buf_status" where
  "status_at i s = buf_status s ! i"

definition set_status :: "nat \<Rightarrow> (mm_stream_buf_status \<Rightarrow> mm_stream_buf_status) \<Rightarrow> unit strm" where
  "set_status i f = modify (\<lambda>s. s\<lparr>buf_status := (buf_status s)[i := f (buf_status s ! i)]\<rparr>)"

definition add_ref :: "nat \<Rightarrow> uint8 \<Rightarrow> unit strm" where
  "add_ref i n = set_status i (\<lambda>b. b\<lparr>buf_refcnt := buf_refcnt b + n\<rparr>)"

text \<open>The indices a loop \<open>for (i = 0; i < my_obj->buf_num; i++)\<close> runs through.\<close>

definition all_indices :: "mm_stream \<Rightarrow> nat list" where
  "all_indices s = [0 ..< unat (buf_num s)]"

definition is_batch :: "mm_stream \<Rightarrow> bool" where
  "is_batch s \<longleftrightarrow> streaming_mode (strm_info s) = CAM_STREAMING_MODE_BATCH"

end
