(* ===== verification/StreamBufs.thy ===== *)
theory StreamBufs
  imports StreamTypes
begin

text \<open>
  The buffers of a stream, from \<^verbatim>\<open>stack/mm-camera-interface/src/mm_camera_stream.c\<close>: queueing them to the driver
  and taking them from it, handing them to the channel and to the callbacks, and counting who
  holds them.  What is left out is the content of the structures the driver is given and the logging.
\<close>

unbundle bit_operations_syntax

section \<open>Cache operations\<close>

text \<open>The flags of the buffer, after the policy of the stream, choose the operation.\<close>

definition cache_policy :: "cam_stream_cache_ops \<Rightarrow> bool \<Rightarrow> uint32 \<Rightarrow> uint32" where
  "cache_policy p deque flags =
     (case p of
        CAM_STREAM_CACHE_OPS_CLEAR_FLAGS \<Rightarrow> 0
      | CAM_STREAM_CACHE_OPS_DISABLED \<Rightarrow> if deque then CPU_HAS_READ_WRITTEN else CPU_HAS_READ
      | CAM_STREAM_CACHE_OPS_HONOUR_FLAGS \<Rightarrow> flags)"

definition cache_call :: "stream_env \<Rightarrow> nat \<Rightarrow> uint32 \<Rightarrow> int32 strm" where
  "cache_call E i flags =
     (if flags AND CPU_HAS_READ_WRITTEN = CPU_HAS_READ_WRITTEN then io E (Clean_invalidate i)
      else if flags AND CPU_HAS_READ = CPU_HAS_READ then io E (Invalidate i)
      else if flags AND CPU_HAS_WRITTEN = CPU_HAS_WRITTEN then io E (Clean i)
      else yields 0)"

definition mm_stream_handle_cache_ops :: "stream_env \<Rightarrow> nat \<Rightarrow> bool \<Rightarrow> int32 strm" where
  "mm_stream_handle_cache_ops E i deque = do {
     supported \<leftarrow> gets cache_ops_set;
     if \<not> supported then yields (- 1)
     else do {
       p \<leftarrow> gets (\<lambda>s. cache_ops (strm_info s));
       set_buf i (\<lambda>b. b\<lparr>cache_flags := cache_policy p deque (cache_flags b)\<rparr>);
       flags \<leftarrow> gets (\<lambda>s. cache_flags (buf_at i s));
       rc \<leftarrow> cache_call E i flags;
       (if rc \<noteq> 0 then yields () else set_buf i (\<lambda>b. b\<lparr>cache_flags := 0\<rparr>));
       yields rc
     }
   }"

section \<open>Queueing a buffer to the driver\<close>

text \<open>The stream is polled while the driver has buffers of it.\<close>

definition count_queued :: "8 word \<Rightarrow> unit strm" where
  "count_queued d = modify (\<lambda>s. s\<lparr>queued_buffer_count := queued_buffer_count s + d\<rparr>)"

definition poll_while_queued :: "stream_env \<Rightarrow> 8 word \<Rightarrow> io_call \<Rightarrow> unit strm" where
  "poll_while_queued E n c = do {
     q \<leftarrow> gets queued_buffer_count;
     if q = n then io0 E c else yields ()
   }"

definition mm_stream_qbuf :: "stream_env \<Rightarrow> nat \<Rightarrow> int32 strm" where
  "mm_stream_qbuf E i = do {
     _ \<leftarrow> mm_stream_handle_cache_ops E i False;
     count_queued 1;
     poll_while_queued E 1 Poll_add;
     rc \<leftarrow> io E (Qbuf i);
     (if failed rc
      then do { count_queued (- 1); poll_while_queued E 0 Poll_del_async }
      else yields ());
     yields rc
   }"

section \<open>Batches\<close>

text \<open>A container is queued when its last reference is gone; its memory then lists what it contains.\<close>

definition fill_container :: "nat \<Rightarrow> unit strm" where
  "fill_container i = set_buf i (\<lambda>b. b\<lparr>cont_cnt := ucast (bufs_used b), 
       cont_idx := take (unat (bufs_used b)) (ub_idx b) @ drop (unat (bufs_used b)) (cont_idx b)\<rparr>)"

definition empty_container :: "nat \<Rightarrow> unit strm" where
  "empty_container i = do {
     set_buf i (\<lambda>b. b\<lparr>ub_idx := map (\<lambda>(k, x). if k < unat (cont_cnt b) then - 1 else x) (enumerate 0 (ub_idx b)),
                      buf_in_use := True\<rparr>);
     set_status i (\<lambda>b. b\<lparr>in_kernel := True\<rparr>)
   }"

definition queue_container :: "stream_env \<Rightarrow> nat \<Rightarrow> unit strm \<Rightarrow> int32 strm" where
  "queue_container E i queued = do {
     add_ref i (- 1);
     b \<leftarrow> gets (status_at i);
     if buf_refcnt b = 0
     then do {
       fill_container i;
       rc \<leftarrow> mm_stream_qbuf E i;
       (if failed rc then yields () else do { empty_container i; queued });
       yields rc
     }
     else yields 0
   }"

text \<open>The container that is being filled, or the first one that is free.\<close>

definition pick_container :: "int32 option strm" where
  "pick_container = do {
     s \<leftarrow> gets (\<lambda>s. s);
     let cur = cur_buf_idx s in
     if sint cur < 0 \<or> int (unat (buf_num s)) \<le> sint cur
     then (case find (\<lambda>i. \<not> (in_kernel (status_at i s) \<or> buf_in_use (buf_at i s))) (all_indices s) of
             None \<Rightarrow> yields None
           | Some i \<Rightarrow> do { modify (\<lambda>s. s\<lparr>cur_buf_idx := of_nat i\<rparr>); yields (Some (of_nat i)) })
     else yields (Some cur)
   }"

definition mm_stream_write_user_buf :: "stream_env \<Rightarrow> nat \<Rightarrow> bool \<Rightarrow> int32 strm" where
  "mm_stream_write_user_buf E i container =
     (if container then queue_container E i (yields ())
      else do {
        picked \<leftarrow> pick_container;
        case picked of
          None \<Rightarrow> yields (- 1)
        | Some c \<Rightarrow> do {
            let k = unat c;
            set_buf k (\<lambda>b. b\<lparr>ub_idx := (ub_idx b)[0 := of_nat i]\<rparr>);
            modify (\<lambda>s. s\<lparr>cur_bufs_staged := cur_bufs_staged s + 1\<rparr>);
            s \<leftarrow> gets (\<lambda>s. s);
            if cur_bufs_staged s = bufs_used (buf_at k s)
            then queue_container E k (modify (\<lambda>s. s\<lparr>cur_bufs_staged := 0, cur_buf_idx := - 1\<rparr>))
            else yields 0
          }
      })"

section \<open>Giving a buffer back\<close>

text \<open>
  In batch mode the frame is a container or one of the buffers that containers list; otherwise
  \<open>container\<close> does not matter.
\<close>

definition mm_stream_buf_done :: "stream_env \<Rightarrow> nat \<Rightarrow> bool \<Rightarrow> int32 strm" where
  "mm_stream_buf_done E i container = do {
     b \<leftarrow> gets (status_at i);
     if buf_refcnt b = 0 then yields (- 1)
     else do {
       batch \<leftarrow> gets is_batch;
       if batch
       then mm_stream_write_user_buf E i container
       else do {
         add_ref i (- 1);
         b \<leftarrow> gets (status_at i);
         if buf_refcnt b = 0
         then do {
           rc \<leftarrow> mm_stream_qbuf E i;
           (if failed rc then yields () else set_status i (\<lambda>b. b\<lparr>in_kernel := True\<rparr>));
           yields rc
         }
         else yields 0
       }
     }
   }"

definition mm_stream_cancel_buf :: "stream_env \<Rightarrow> uint32 \<Rightarrow> int32 strm" where
  "mm_stream_cancel_buf E i = do {
     b \<leftarrow> gets (status_at (unat i));
     batch \<leftarrow> gets is_batch;
     if buf_refcnt b \<noteq> 0 then yields (- 1)
     else if batch then yields 0
     else io E (Return_buf i)
   }"

definition mm_stream_get_queued_buf_count :: "int32 strm" where
  "mm_stream_get_queued_buf_count = gets (\<lambda>s. scast (queued_buffer_count s))"

section \<open>Receiving a buffer\<close>

text \<open>
  A batch: the frames of a container get their numbers and the time stamps between the last batch and
  this one.  A batch that is not newer than the last one is queued again at once.  The difference of the
  time stamps is an \<open>int\<close>; it is divided by an unsigned number.
\<close>

definition spread_batch :: "nat \<Rightarrow> int \<Rightarrow> int \<Rightarrow> uint32 \<Rightarrow> mm_stream \<Rightarrow> mm_stream" where
  "spread_batch i start interval frame s =
     (let b = buf_at i s; ids = take (unat (cont_cnt b)) (cont_idx b)
      in s\<lparr>plane_buf := map_option (\<lambda>ps. fold (\<lambda>(k, x) ps.
             ps[unat x := (ps ! unat x)\<lparr>sb_frame_idx := frame + of_nat k, sb_ts := int k * interval + start\<rparr>])
             (enumerate 0 ids) ps) (plane_buf s)\<rparr>)"

definition batch_interval :: "nat \<Rightarrow> int \<Rightarrow> mm_stream \<Rightarrow> int \<times> int" where
  "batch_interval i ts s =
     (let b = buf_at i s; prev = prev_timestamp s in
      if prev = 0 \<or> prev_frameID s \<noteq> sb_frame_idx b + 1
      then (let interval = frameInterval (strm_info s) * 1000000
            in (ts - uint (cont_cnt b) * interval, interval))
      else (prev, uint ((word_of_int (ts - prev) :: int32) div cont_cnt b)))"

definition mm_stream_read_user_buf :: "stream_env \<Rightarrow> nat \<Rightarrow> int32 strm" where
  "mm_stream_read_user_buf E i = do {
     s \<leftarrow> gets (\<lambda>s. s);
     let b = buf_at i s; ts = sb_ts b;
         frame = (if sb_frame_idx b = 1 then 1 else (sb_frame_idx b - 1) * cont_cnt b)
     in if ts \<le> prev_timestamp s
        then do { _ \<leftarrow> mm_stream_qbuf E i; yields 0 }
        else do {
          let (start, interval) = batch_interval i ts s;
          modify (spread_batch i start interval frame);
          set_buf i (\<lambda>b. b\<lparr>ub_idx := take (unat (cont_cnt b)) (cont_idx b) @ drop (unat (cont_cnt b)) (ub_idx b),
                           sb_ts := start, bufs_used := ucast (cont_cnt b), buf_in_use := True\<rparr>);
          modify (\<lambda>s. s\<lparr>prev_timestamp := ts, prev_frameID := sb_frame_idx b\<rparr>);
          yields 0
        }
   }"

text \<open>\<open>Some i\<close> is the buffer; the status is that of the cache operation.\<close>

definition mm_stream_read_msm_frame :: "stream_env \<Rightarrow> (int32 \<times> nat option) strm" where
  "mm_stream_read_msm_frame E = do {
     h \<leftarrow> gets ios;
     rc \<leftarrow> io E Dqbuf;
     if failed rc then yields (rc, None)
     else do {
       count_queued (- 1);
       poll_while_queued E 0 Poll_del_async;
       let (i, frame, ts) = dequeued E h;
       set_buf i (\<lambda>b. b\<lparr>sb_frame_idx := frame, sb_ts := ts, cache_flags := 0\<rparr>);
       container \<leftarrow> gets (\<lambda>s. userptr (buf_at i s));
       (if container then do { _ \<leftarrow> mm_stream_read_user_buf E i; yields () } else yields ());
       rc \<leftarrow> mm_stream_handle_cache_ops E i True;
       yields (rc, Some i)
     }
   }"

text \<open>A callback with a positive count is called that many times and then removed.\<close>

definition set_cb :: "nat \<Rightarrow> (mm_stream_data_cb \<Rightarrow> mm_stream_data_cb) \<Rightarrow> unit strm" where
  "set_cb k f = modify (\<lambda>s. s\<lparr>buf_cb := (buf_cb s)[k := f (buf_cb s ! k)]\<rparr>)"

definition count_cb :: "mm_stream_data_cb \<Rightarrow> mm_stream_data_cb" where
  "count_cb c =
     (if sint (cb_count c) > 0
      then (let c = c\<lparr>cb_count := cb_count c - 1\<rparr> in if cb_count c = 0 then c\<lparr>cb := NULL\<rparr> else c)
      else c)"

definition mm_stream_dispatch_sync_data :: "stream_env \<Rightarrow> nat \<Rightarrow> nat \<Rightarrow> unit strm" where
  "mm_stream_dispatch_sync_data E k i = do {
     c \<leftarrow> gets (\<lambda>s. buf_cb s ! k);
     if cb_sync c \<and> cb_count c \<noteq> 0
     then do { io0 E (Callback k i); set_cb k count_cb }
     else yields ()
   }"

definition mm_stream_notify_channel :: "stream_env \<Rightarrow> ((nat \<times> uint32) \<Rightarrow> unit strm) \<Rightarrow> nat \<Rightarrow> int32 strm" where
  "mm_stream_notify_channel E post i = do {
     node \<leftarrow> io E Malloc;
     if node \<noteq> 0
     then do { frame \<leftarrow> gets (\<lambda>s. sb_frame_idx (buf_at i s)); post (i, frame); yields 0 }
     else yields NO_MEMORY
   }"

definition post_channel :: "nat \<times> uint32 \<Rightarrow> unit strm" where
  "post_channel x = modify (\<lambda>s. s\<lparr>to_channel := to_channel s @ [x]\<rparr>)"

definition post_linked :: "nat \<times> uint32 \<Rightarrow> unit strm" where
  "post_linked x = modify (\<lambda>s. s\<lparr>to_linked := to_linked s @ [x]\<rparr>)"

definition post_app :: "stream_env \<Rightarrow> nat \<Rightarrow> unit strm" where
  "post_app E i = do {
     node \<leftarrow> io E Malloc;
     if node \<noteq> 0 then modify (\<lambda>s. s\<lparr>st_cmd_queue := st_cmd_queue s @ [i]\<rparr>) else yields ()
   }"

definition mm_stream_handle_rcvd_buf :: "stream_env \<Rightarrow> nat \<Rightarrow> bool \<Rightarrow> unit strm" where
  "mm_stream_handle_rcvd_buf E i has_cb = do {
     bundled \<leftarrow> gets is_bundled;
     (if bundled then do { _ \<leftarrow> mm_stream_notify_channel E post_channel i; yields () } else yields ());
     linked \<leftarrow> gets is_linked;
     (if linked then do { add_ref i 1; _ \<leftarrow> mm_stream_notify_channel E post_linked i; yields () } else yields ());
     active \<leftarrow> gets cmd_active;
     if has_cb \<and> active then post_app E i else yields ()
   }"

text \<open>The synchronous callbacks are called in order; whether there is another one is the result.\<close>

fun sync_callbacks :: "stream_env \<Rightarrow> nat \<Rightarrow> nat list \<Rightarrow> bool strm" where
  "sync_callbacks E i [] = yields False"
| "sync_callbacks E i (k # ks) = do {
     c \<leftarrow> gets (\<lambda>s. buf_cb s ! k);
     (if cb c \<noteq> NULL \<and> cb_sync c then mm_stream_dispatch_sync_data E k i else yields ());
     has_cb \<leftarrow> sync_callbacks E i ks;
     yields ((cb c \<noteq> NULL \<and> \<not> cb_sync c) \<or> has_cb)
   }"

definition receive_buf :: "stream_env \<Rightarrow> nat \<Rightarrow> unit strm" where
  "receive_buf E i = do {
     has_cb \<leftarrow> sync_callbacks E i [0 ..< MM_CAMERA_STREAM_BUF_CB_MAX];
     set_status i (\<lambda>b. b\<lparr>in_kernel := False\<rparr>);
     bundled \<leftarrow> gets is_bundled;
     (if bundled then add_ref i 1 else yields ());
     add_ref i (if has_cb then 1 else 0);
     mm_stream_handle_rcvd_buf E i has_cb
   }"

definition mm_stream_data_notify :: "stream_env \<Rightarrow> unit strm" where
  "mm_stream_data_notify E = do {
     st \<leftarrow> gets st_state;
     if st \<noteq> MM_STREAM_STATE_ACTIVE then yields ()
     else do {
       (rc, i) \<leftarrow> mm_stream_read_msm_frame E;
       case i of
         None \<Rightarrow> yields ()
       | Some i \<Rightarrow> if rc \<noteq> 0 then yields () else receive_buf E i
     }
   }"

section \<open>The thread that calls the users\<close>

text \<open>Each asynchronous callback gets a reference of its own; the thread's reference is given back at the end.\<close>

fun async_callbacks :: "stream_env \<Rightarrow> nat \<Rightarrow> nat list \<Rightarrow> unit strm" where
  "async_callbacks E i [] = yields ()"
| "async_callbacks E i (k # ks) = do {
     c \<leftarrow> gets (\<lambda>s. buf_cb s ! k);
     (if cb c \<noteq> NULL \<and> \<not> cb_sync c
      then do {
        (if cb_count c \<noteq> 0 then do { add_ref i 1; io0 E (Callback k i) } else yields ());
        set_cb k count_cb
      }
      else yields ());
     async_callbacks E i ks
   }"

definition mm_stream_dispatch_app_data :: "stream_env \<Rightarrow> nat \<Rightarrow> int32 strm" where
  "mm_stream_dispatch_app_data E i = do {
     async_callbacks E i [0 ..< MM_CAMERA_STREAM_BUF_CB_MAX];
     container \<leftarrow> gets (\<lambda>s. userptr (buf_at i s));
     mm_stream_buf_done E i container
   }"

text \<open>One round of the command thread: the first command of its queue.\<close>

definition cmd_thread_round :: "stream_env \<Rightarrow> unit strm" where
  "cmd_thread_round E = do {
     q \<leftarrow> gets st_cmd_queue;
     case q of
       [] \<Rightarrow> yields ()
     | i # q \<Rightarrow> do {
         modify (\<lambda>s. s\<lparr>st_cmd_queue := q\<rparr>);
         _ \<leftarrow> mm_stream_dispatch_app_data E i;
         yields ()
       }
   }"

definition mm_stream_reg_buf_cb :: "mm_stream_data_cb \<Rightarrow> int32 strm" where
  "mm_stream_reg_buf_cb v = do {
     free \<leftarrow> gets (\<lambda>s. find (\<lambda>k. cb (buf_cb s ! k) = NULL) [0 ..< MM_CAMERA_STREAM_BUF_CB_MAX]);
     case free of
       None \<Rightarrow> yields (- 1)
     | Some k \<Rightarrow> do { set_cb k (\<lambda>_. v); yields 0 }
   }"

end
