(* ===== verification/StreamFsm.thy ===== *)
theory StreamFsm
  imports StreamBufs
begin

text \<open>
  The state machine of a stream, from \<^verbatim>\<open>stack/mm-camera-interface/src/mm_camera_stream.c\<close>: the handlers of
  its states and the operations they call.  The library is built without \<open>DAEMON_PRESENT\<close>, so the calls of
  the shim layer are part of it.
\<close>

section \<open>Mapping buffers to the server\<close>

definition mm_stream_need_wait_for_mapping :: "mm_stream \<Rightarrow> bool" where
  "mm_stream_need_wait_for_mapping s \<longleftrightarrow>
     (case find (\<lambda>i. map_status (status_at i s) < 0) (all_indices s) of
        Some _ \<Rightarrow> False
      | None \<Rightarrow> list_ex (\<lambda>i. map_status (status_at i s) = 0 \<and> in_kernel (status_at i s)) (all_indices s))"

text \<open>Mapping a buffer of the stream, or of its batches, is recorded and may wake the start of the stream.\<close>

definition stream_mapping :: "cam_mapping_buf_type \<Rightarrow> mm_stream \<Rightarrow> bool" where
  "stream_mapping ty s \<longleftrightarrow>
     ty = CAM_MAPPING_BUF_TYPE_STREAM_BUF \<or> (ty = CAM_MAPPING_BUF_TYPE_STREAM_USER_BUF \<and> is_batch s)"

definition signal_mapped :: "stream_env \<Rightarrow> unit strm" where
  "signal_mapped E = do {
     wait \<leftarrow> gets mm_stream_need_wait_for_mapping;
     if wait then yields () else io0 E Signal_mapped
   }"

definition mm_stream_map_buf :: "stream_env \<Rightarrow> cam_mapping_buf_type \<Rightarrow> nat \<Rightarrow> int32 strm" where
  "mm_stream_map_buf E ty i = do {
     rc \<leftarrow> io E Shim_reg_buf;
     mine \<leftarrow> gets (stream_mapping ty);
     (if mine
      then do { set_status i (\<lambda>b. b\<lparr>map_status := (if failed rc then - 1 else 1)\<rparr>); signal_mapped E }
      else yields ());
     yields rc
   }"

fun set_mapped :: "int32 \<Rightarrow> nat list \<Rightarrow> unit strm" where
  "set_mapped rc [] = yields ()"
| "set_mapped rc (i # is) = do {
     set_status i (\<lambda>b. b\<lparr>map_status := (if failed rc then - 1 else 1)\<rparr>);
     set_mapped rc is
   }"

text \<open>The list of buffers is their number and the type of the first.\<close>

definition mm_stream_map_bufs :: "stream_env \<Rightarrow> cam_mapping_buf_type \<Rightarrow> nat \<Rightarrow> int32 strm" where
  "mm_stream_map_bufs E ty n =
     (if n < 1 then yields 0
      else do {
        rc \<leftarrow> io E Shim_reg_buf;
        mine \<leftarrow> gets (stream_mapping ty);
        (if mine then do { set_mapped rc [0 ..< n]; signal_mapped E } else yields ());
        yields rc
      })"

definition mm_stream_unmap_buf :: "stream_env \<Rightarrow> nat \<Rightarrow> int32 strm" where
  "mm_stream_unmap_buf E i = do {
     rc \<leftarrow> io E Shim_reg_buf;
     set_status i (\<lambda>b. b\<lparr>map_status := 0\<rparr>);
     yields rc
   }"

section \<open>Acquiring and configuring\<close>

definition mm_stream_set_ext_mode :: "stream_env \<Rightarrow> int32 strm" where
  "mm_stream_set_ext_mode E = do {
     h \<leftarrow> gets ios;
     rc \<leftarrow> io E S_parm;
     if rc = 0
     then do { modify (\<lambda>s. s\<lparr>svr_stream_id := extended_mode E h\<rparr>); io E Shim_new_stream }
     else yields rc
   }"

definition mm_stream_sync_info :: "platform \<Rightarrow> stream_env \<Rightarrow> int32 strm" where
  "mm_stream_sync_info P E = do {
     s \<leftarrow> gets (\<lambda>s. s);
     let (rc, info) = mm_stream_calc_offset P (padding_info s) (cam_stream_info.truncate (strm_info s))
     in do {
       modify (\<lambda>s. s\<lparr>strm_info := (strm_info s)\<lparr>buf_planes := buf_planes info\<rparr>,
                     frame_offset := buf_planes info\<rparr>);
       if rc = 0 then io E S_ctrl_sync else yields rc
     }
   }"

definition mm_stream_set_fmt :: "stream_env \<Rightarrow> int32 strm" where
  "mm_stream_set_fmt E = do {
     d \<leftarrow> gets (\<lambda>s. dim (strm_info s));
     if dim_width d = 0 \<or> dim_height d = 0 then yields (- 1)
     else do {
       rc \<leftarrow> io E S_fmt;
       if failed rc then yields rc else io E Shim_s_fmt
     }
   }"

record stream_config =
  cfg_info :: stream_info
  cfg_padding :: cam_padding_info
  cfg_cache_ops :: bool
  cfg_set_config_ops :: bool
  cfg_cb_sync :: ptr
  cfg_cb :: ptr

text \<open>A synchronous callback is placed first, the asynchronous one behind it.\<close>

definition config_cbs :: "stream_config \<Rightarrow> mm_stream_data_cb list \<Rightarrow> mm_stream_data_cb list" where
  "config_cbs cfg cbs =
     (let async = \<lparr>cb = cfg_cb cfg, cb_count = - 1, cb_sync = False\<rparr> in
      if cfg_cb_sync cfg \<noteq> NULL
      then cbs[0 := \<lparr>cb = cfg_cb_sync cfg, cb_count = - 1, cb_sync = True\<rparr>, 1 := async]
      else cbs[0 := async])"

definition mm_stream_config :: "platform \<Rightarrow> stream_env \<Rightarrow> stream_config \<Rightarrow> int32 strm" where
  "mm_stream_config P E cfg = do {
     modify (\<lambda>s. s\<lparr>strm_info := cfg_info cfg, buf_num := ucast (num_bufs (cfg_info cfg)),
                   cache_ops_set := cfg_cache_ops cfg, padding_info := cfg_padding cfg,
                   buf_cb := config_cbs cfg (buf_cb s)\<rparr>);
     rc \<leftarrow> mm_stream_sync_info P E;
     rc \<leftarrow> (if rc = 0 then mm_stream_set_fmt E else yields rc);
     (if cfg_set_config_ops cfg then io0 E Set_config_ops else yields ());
     yields rc
   }"

text \<open>\<open>memset\<close> clears the whole structure; then only the descriptor is set.\<close>

definition no_planes :: cam_frame_len_offset where
  "no_planes = \<lparr>num_planes = 0, mp = replicate 8 \<lparr>mp_len = 0, mp_offset = 0, mp_offset_x = 0, mp_offset_y = 0,
     mp_stride = 0, mp_stride_in_bytes = 0, mp_scanline = 0, mp_width = 0, mp_height = 0,
     mp_meta_stride = 0, mp_meta_scanline = 0, mp_meta_len = 0\<rparr>, frame_len = 0\<rparr>"

definition cleared :: "mm_stream \<Rightarrow> mm_stream" where
  "cleared s = s\<lparr>my_hdl := 0, svr_stream_id := 0, st_fd := - 1, st_state := MM_STREAM_STATE_NOTUSED,
     padding_info := \<lparr>width_padding = 0, height_padding = 0, plane_padding = 0, min_stride = 0, min_scanline = 0,
       pad_offset_x = 0, pad_offset_y = 0\<rparr>,
     frame_offset := no_planes, cmd_active := False, st_cmd_queue := [],
     buf_cb := replicate MM_CAMERA_STREAM_BUF_CB_MAX no_cb, buf_num := 0, bufs := None,
     buf_status := replicate CAM_MAX_NUM_BUFS_PER_STREAM no_status, plane_buf := None, cur_buf_idx := 0,
     cur_bufs_staged := 0, is_bundled := False, is_linked := False, cache_ops_set := False,
     queued_buffer_count := 0, prev_frameID := 0, prev_timestamp := 0\<rparr>"

definition mm_stream_release :: "stream_env \<Rightarrow> int32 strm" where
  "mm_stream_release E = do {
     fd \<leftarrow> gets st_fd;
     (if sint fd \<ge> 0 then do { io0 E Shim_del_stream; io0 E Close } else yields ());
     modify cleared;
     yields 0
   }"

section \<open>Allocating and registering\<close>

definition mm_stream_deinit_bufs :: "stream_env \<Rightarrow> int32 strm" where
  "mm_stream_deinit_bufs E = do {
     b \<leftarrow> gets bufs;
     if b = None then yields 0
     else do {
       rc \<leftarrow> io E Put_bufs;
       modify (\<lambda>s. s\<lparr>plane_buf := None, bufs := None\<rparr>);
       yields rc
     }
   }"

text \<open>
  What \<open>get_bufs\<close> gives: for each buffer its initial flag and whether it is a container.  A container uses
  \<open>frame_buf_cnt\<close> buffers of the batch.
\<close>

definition take_bufs :: "(bool \<times> bool \<times> int32 list) list \<Rightarrow> mm_stream \<Rightarrow> mm_stream" where
  "take_bufs bs s =
     s\<lparr>buf_num := of_nat (length bs),
       bufs := Some (map (\<lambda>(reg, u, ids). let b = new_buf u ids in
                 if u then b\<lparr>bufs_used := frame_buf_cnt (strm_info s), buf_in_use := reg\<rparr> else b) bs),
       buf_status := map (\<lambda>(i, st). if i < length bs then st\<lparr>initial_reg_flag := fst (bs ! i)\<rparr> else st)
                       (enumerate 0 (buf_status s))\<rparr>"

text \<open>The buffers of the batches belong to the first container.\<close>

definition take_batches :: "mm_stream \<Rightarrow> mm_stream" where
  "take_batches s =
     (if is_batch s
      then s\<lparr>plane_buf := Some (replicate (unat (buf_num s) * unat (frame_buf_cnt (strm_info s))) (new_buf False [])),
             cur_bufs_staged := 0, cur_buf_idx := - 1\<rparr>
      else s)"

definition mm_stream_init_bufs :: "stream_env \<Rightarrow> int32 strm" where
  "mm_stream_init_bufs E = do {
     b \<leftarrow> gets bufs;
     (if b \<noteq> None then do { _ \<leftarrow> mm_stream_deinit_bufs E; yields () } else yields ());
     h \<leftarrow> gets ios;
     rc \<leftarrow> io E Get_bufs;
     if rc \<noteq> 0 then yields rc
     else do {
       modify (take_bufs (allocated E h));
       modify take_batches;
       modify (\<lambda>s. s\<lparr>strm_info := (strm_info s)\<lparr>num_bufs := ucast (buf_num s)\<rparr>\<rparr>);
       yields rc
     }
   }"

definition mm_stream_request_buf :: "stream_env \<Rightarrow> int32 strm" where
  "mm_stream_request_buf E = do {
     n \<leftarrow> gets buf_num;
     if CAM_MAX_NUM_BUFS_PER_STREAM < unat n then yields (- 1) else io E (Reqbufs n)
   }"

text \<open>Every buffer is queued to the driver or counted as held by the upper layer.\<close>

fun reg_bufs :: "stream_env \<Rightarrow> nat list \<Rightarrow> int32 strm" where
  "reg_bufs E [] = yields 0"
| "reg_bufs E (i # is) = do {
     b \<leftarrow> gets (status_at i);
     if initial_reg_flag b
     then do {
       rc \<leftarrow> mm_stream_qbuf E i;
       if rc \<noteq> 0 then yields rc
       else do { set_status i (\<lambda>b. b\<lparr>buf_refcnt := 0, in_kernel := True\<rparr>); reg_bufs E is }
     }
     else do { set_status i (\<lambda>b. b\<lparr>buf_refcnt := 1, in_kernel := False\<rparr>); reg_bufs E is }
   }"

definition mm_stream_reg_buf :: "stream_env \<Rightarrow> int32 strm" where
  "mm_stream_reg_buf E = do {
     rc \<leftarrow> mm_stream_request_buf E;
     if rc \<noteq> 0 then yields rc
     else do {
       modify (\<lambda>s. s\<lparr>queued_buffer_count := 0\<rparr>);
       all \<leftarrow> gets all_indices;
       reg_bufs E all
     }
   }"

fun unreg_bufs :: "nat list \<Rightarrow> unit strm" where
  "unreg_bufs [] = yields ()"
| "unreg_bufs (i # is) = do {
     set_status i (\<lambda>b. b\<lparr>buf_refcnt := 0, in_kernel := False\<rparr>);
     unreg_bufs is
   }"

definition mm_stream_unreg_buf :: "stream_env \<Rightarrow> int32 strm" where
  "mm_stream_unreg_buf E = do {
     rc \<leftarrow> io E (Reqbufs 0);
     all \<leftarrow> gets all_indices;
     unreg_bufs all;
     yields rc
   }"

section \<open>Starting and stopping\<close>

abbreviation (input) ETIMEDOUT :: int32 where "ETIMEDOUT \<equiv> 110"

text \<open>The first buffer the driver has unmapped is waited for; one whose mapping failed ends the start.\<close>

fun await_mapped :: "stream_env \<Rightarrow> nat list \<Rightarrow> int32 strm" where
  "await_mapped E [] = yields 0"
| "await_mapped E (i # is) = do {
     b \<leftarrow> gets (status_at i);
     if map_status b = 0 \<and> in_kernel b
     then do { rc \<leftarrow> io E Wait_mapped; yields (if rc = ETIMEDOUT then - 1 else rc) }
     else if map_status b < 0 then yields (- 1)
     else await_mapped E is
   }"

definition mm_stream_streamon :: "stream_env \<Rightarrow> int32 strm" where
  "mm_stream_streamon E = do {
     all \<leftarrow> gets all_indices;
     rc \<leftarrow> await_mapped E all;
     if failed rc then do { io0 E Poll_del_sync; yields rc }
     else do {
       rc \<leftarrow> io E Streamon;
       n \<leftarrow> gets (\<lambda>s. num_bufs (strm_info s));
       if failed rc \<and> n \<noteq> 0 then do { io0 E Poll_del_sync; yields rc }
       else do {
         rc \<leftarrow> io E Shim_stream_on;
         (if failed rc then do { io0 E Streamoff; io0 E Poll_del_sync } else yields ());
         yields rc
       }
     }
   }"

definition mm_stream_streamoff :: "stream_env \<Rightarrow> int32 strm" where
  "mm_stream_streamoff E = do {
     rc \<leftarrow> io E Poll_del_sync;
     rc \<leftarrow> (if failed rc
           then do { rc \<leftarrow> io E Poll_commit; yields (if failed rc then 0 else rc) }
           else yields rc);
     off \<leftarrow> io E Shim_stream_off;
     ioc \<leftarrow> io E Streamoff;
     yields (rc OR off OR ioc)
   }"

text \<open>The thread for the asynchronous callbacks runs while the stream is started with one.\<close>

definition has_async_cb :: "mm_stream \<Rightarrow> bool" where
  "has_async_cb s \<longleftrightarrow> list_ex (\<lambda>c. cb c \<noteq> NULL \<and> \<not> cb_sync c) (take MM_CAMERA_STREAM_BUF_CB_MAX (buf_cb s))"

definition launch_thread :: "stream_env \<Rightarrow> unit strm" where
  "launch_thread E = do { io0 E Launch; modify (\<lambda>s. s\<lparr>cmd_active := True, st_cmd_queue := []\<rparr>) }"

text \<open>
  The command to exit goes to the end of the queue, so the thread handles what is queued before it is joined.
  Without memory for the command the thread goes on.
\<close>

fun drain :: "stream_env \<Rightarrow> nat list \<Rightarrow> unit strm" where
  "drain E [] = yields ()"
| "drain E (i # is) = do { _ \<leftarrow> mm_stream_dispatch_app_data E i; drain E is }"

definition release_thread :: "stream_env \<Rightarrow> unit strm" where
  "release_thread E = do {
     node \<leftarrow> io E Malloc;
     if node = 0 then yields ()
     else do {
       q \<leftarrow> gets st_cmd_queue;
       modify (\<lambda>s. s\<lparr>st_cmd_queue := []\<rparr>);
       drain E q;
       io0 E Release_thread;
       modify (\<lambda>s. s\<lparr>cmd_active := False\<rparr>)
     }
   }"

definition to_state :: "mm_stream_state_type \<Rightarrow> unit strm" where
  "to_state st = modify (\<lambda>s. s\<lparr>st_state := st\<rparr>)"

definition start_stream :: "stream_env \<Rightarrow> int32 strm" where
  "start_stream E = do {
     has_cb \<leftarrow> gets has_async_cb;
     (if has_cb then launch_thread E else yields ());
     to_state MM_STREAM_STATE_ACTIVE;
     rc \<leftarrow> mm_stream_streamon E;
     (if rc \<noteq> 0
      then do { (if has_cb then release_thread E else yields ()); to_state MM_STREAM_STATE_REG }
      else yields ());
     yields rc
   }"

definition stop_stream :: "stream_env \<Rightarrow> int32 strm" where
  "stop_stream E = do {
     rc \<leftarrow> mm_stream_streamoff E;
     has_cb \<leftarrow> gets has_async_cb;
     (if has_cb then release_thread E else yields ());
     to_state MM_STREAM_STATE_REG;
     yields rc
   }"

section \<open>The state machine\<close>

text \<open>
  An event with what \<open>in_val\<close> points to.  The parameters and actions that the server reads from shared memory
  are not looked at here; \<open>True\<close> says that the pointer is there.
\<close>

datatype mm_stream_evt_type =
    MM_STREAM_EVT_ACQUIRE | MM_STREAM_EVT_RELEASE | MM_STREAM_EVT_SET_FMT stream_config
  | MM_STREAM_EVT_GET_BUF | MM_STREAM_EVT_PUT_BUF | MM_STREAM_EVT_REG_BUF | MM_STREAM_EVT_UNREG_BUF
  | MM_STREAM_EVT_START | MM_STREAM_EVT_STOP | MM_STREAM_EVT_QBUF nat bool
  | MM_STREAM_EVT_SET_PARM bool | MM_STREAM_EVT_GET_PARM bool | MM_STREAM_EVT_DO_ACTION bool
  | MM_STREAM_EVT_GET_QUEUED_BUF_COUNT | MM_STREAM_EVT_CANCEL_BUF uint32

definition mm_stream_set_parm :: "stream_env \<Rightarrow> bool \<Rightarrow> int32 strm" where
  "mm_stream_set_parm E v = (if v then io E S_ctrl_parm else yields (- 1))"

definition mm_stream_get_parm :: "stream_env \<Rightarrow> bool \<Rightarrow> int32 strm" where
  "mm_stream_get_parm E v = (if v then io E G_ctrl_parm else yields (- 1))"

definition mm_stream_do_action :: "stream_env \<Rightarrow> bool \<Rightarrow> int32 strm" where
  "mm_stream_do_action E v = (if v then io E S_ctrl_parm else yields (- 1))"

text \<open>
  Opening the device can fail; the descriptor is closed again when the stream's mode cannot be set.  The
  channel, the camera and the name of the device are taken to be there.
\<close>

definition acquire_stream :: "stream_env \<Rightarrow> int32 strm" where
  "acquire_stream E = do {
     fd \<leftarrow> io E Open;
     modify (\<lambda>s. s\<lparr>st_fd := fd\<rparr>);
     if failed fd then yields (- 1)
     else do {
       rc \<leftarrow> mm_stream_set_ext_mode E;
       (if rc = 0 then to_state MM_STREAM_STATE_ACQUIRED
        else do { io0 E Close; modify (\<lambda>s. s\<lparr>st_fd := - 1\<rparr>) });
       yields rc
     }
   }"

definition mm_stream_fsm_inited :: "stream_env \<Rightarrow> mm_stream_evt_type \<Rightarrow> int32 strm" where
  "mm_stream_fsm_inited E e =
     (case e of MM_STREAM_EVT_ACQUIRE \<Rightarrow> acquire_stream E | _ \<Rightarrow> yields 0)"

definition mm_stream_fsm_acquired :: "platform \<Rightarrow> stream_env \<Rightarrow> mm_stream_evt_type \<Rightarrow> int32 strm" where
  "mm_stream_fsm_acquired P E e =
     (case e of
        MM_STREAM_EVT_SET_FMT cfg \<Rightarrow>
          do { rc \<leftarrow> mm_stream_config P E cfg; to_state MM_STREAM_STATE_CFG; yields rc }
      | MM_STREAM_EVT_RELEASE \<Rightarrow>
          do { rc \<leftarrow> mm_stream_release E; to_state MM_STREAM_STATE_NOTUSED; yields rc }
      | MM_STREAM_EVT_SET_PARM v \<Rightarrow> mm_stream_set_parm E v
      | MM_STREAM_EVT_GET_PARM v \<Rightarrow> mm_stream_get_parm E v
      | _ \<Rightarrow> yields 0)"

definition mm_stream_fsm_cfg :: "platform \<Rightarrow> stream_env \<Rightarrow> mm_stream_evt_type \<Rightarrow> int32 strm" where
  "mm_stream_fsm_cfg P E e =
     (case e of
        MM_STREAM_EVT_SET_FMT cfg \<Rightarrow>
          do { rc \<leftarrow> mm_stream_config P E cfg; to_state MM_STREAM_STATE_CFG; yields rc }
      | MM_STREAM_EVT_RELEASE \<Rightarrow>
          do { rc \<leftarrow> mm_stream_release E; to_state MM_STREAM_STATE_NOTUSED; yields rc }
      | MM_STREAM_EVT_SET_PARM v \<Rightarrow> mm_stream_set_parm E v
      | MM_STREAM_EVT_GET_PARM v \<Rightarrow> mm_stream_get_parm E v
      | MM_STREAM_EVT_GET_BUF \<Rightarrow>
          do { rc \<leftarrow> mm_stream_init_bufs E;
               (if rc = 0 then to_state MM_STREAM_STATE_BUFFED else yields ()); yields rc }
      | _ \<Rightarrow> yields 0)"

definition mm_stream_fsm_buffed :: "stream_env \<Rightarrow> mm_stream_evt_type \<Rightarrow> int32 strm" where
  "mm_stream_fsm_buffed E e =
     (case e of
        MM_STREAM_EVT_PUT_BUF \<Rightarrow>
          do { rc \<leftarrow> mm_stream_deinit_bufs E; to_state MM_STREAM_STATE_CFG; yields rc }
      | MM_STREAM_EVT_REG_BUF \<Rightarrow>
          do { rc \<leftarrow> mm_stream_reg_buf E;
               (if rc = 0 then to_state MM_STREAM_STATE_REG else yields ()); yields rc }
      | MM_STREAM_EVT_SET_PARM v \<Rightarrow> mm_stream_set_parm E v
      | MM_STREAM_EVT_GET_PARM v \<Rightarrow> mm_stream_get_parm E v
      | _ \<Rightarrow> yields 0)"

definition mm_stream_fsm_reg :: "stream_env \<Rightarrow> mm_stream_evt_type \<Rightarrow> int32 strm" where
  "mm_stream_fsm_reg E e =
     (case e of
        MM_STREAM_EVT_UNREG_BUF \<Rightarrow>
          do { rc \<leftarrow> mm_stream_unreg_buf E; to_state MM_STREAM_STATE_BUFFED; yields rc }
      | MM_STREAM_EVT_START \<Rightarrow> start_stream E
      | MM_STREAM_EVT_SET_PARM v \<Rightarrow> mm_stream_set_parm E v
      | MM_STREAM_EVT_GET_PARM v \<Rightarrow> mm_stream_get_parm E v
      | _ \<Rightarrow> yields 0)"

definition mm_stream_fsm_active :: "stream_env \<Rightarrow> mm_stream_evt_type \<Rightarrow> int32 strm" where
  "mm_stream_fsm_active E e =
     (case e of
        MM_STREAM_EVT_QBUF i container \<Rightarrow> mm_stream_buf_done E i container
      | MM_STREAM_EVT_CANCEL_BUF i \<Rightarrow> mm_stream_cancel_buf E i
      | MM_STREAM_EVT_GET_QUEUED_BUF_COUNT \<Rightarrow> mm_stream_get_queued_buf_count
      | MM_STREAM_EVT_STOP \<Rightarrow> stop_stream E
      | MM_STREAM_EVT_SET_PARM v \<Rightarrow> mm_stream_set_parm E v
      | MM_STREAM_EVT_GET_PARM v \<Rightarrow> mm_stream_get_parm E v
      | MM_STREAM_EVT_DO_ACTION v \<Rightarrow> mm_stream_do_action E v
      | _ \<Rightarrow> yields 0)"

definition mm_stream_fsm_fn :: "platform \<Rightarrow> stream_env \<Rightarrow> mm_stream_evt_type \<Rightarrow> int32 strm" where
  "mm_stream_fsm_fn P E e = do {
     st \<leftarrow> gets st_state;
     case st of
       MM_STREAM_STATE_NOTUSED \<Rightarrow> yields (- 1)
     | MM_STREAM_STATE_INITED \<Rightarrow> mm_stream_fsm_inited E e
     | MM_STREAM_STATE_ACQUIRED \<Rightarrow> mm_stream_fsm_acquired P E e
     | MM_STREAM_STATE_CFG \<Rightarrow> mm_stream_fsm_cfg P E e
     | MM_STREAM_STATE_BUFFED \<Rightarrow> mm_stream_fsm_buffed E e
     | MM_STREAM_STATE_REG \<Rightarrow> mm_stream_fsm_reg E e
     | MM_STREAM_STATE_ACTIVE \<Rightarrow> mm_stream_fsm_active E e
   }"

end
