(* ===== verification/StreamDiagram.thy ===== *)
theory StreamDiagram
  imports StreamFsm
begin

text \<open>
  What an operation leaves alone, and the diagram of the states of a stream: the changes of state the
  handlers can make.
\<close>

section \<open>What an operation leaves alone\<close>

definition keeps :: "('s \<Rightarrow> 'b) \<Rightarrow> ('s, 'a) state \<Rightarrow> bool" where
  "keeps f m \<longleftrightarrow> (\<forall>s. f (snd (run_state m s)) = f s)"

named_theorems keeps_intros \<open>operations that keep a member\<close>

lemma keeps_return [keeps_intros]: "keeps f (State_Monad.return a)"
  by (simp add: keeps_def State_Monad.return_def)

lemma keeps_bind [keeps_intros]: "keeps f m \<Longrightarrow> (\<And>a. keeps f (g a)) \<Longrightarrow> keeps f (m \<bind> g)"
  by (simp add: keeps_def State_Monad.bind_def split: prod.splits) (metis snd_conv)

lemma keeps_gets [keeps_intros]: "keeps f (gets g)"
  by (simp add: keeps_def)

lemma keeps_modify [keeps_intros]: "(\<And>s. f (g s) = f s) \<Longrightarrow> keeps f (modify g)"
  by (simp add: keeps_def)

lemma keeps_io [keeps_intros]: "(\<And>s. f (s\<lparr>ios := ios s @ [c]\<rparr>) = f s) \<Longrightarrow> keeps f (io E c)"
  by (simp add: keeps_def io_def)

lemma keeps_io0 [keeps_intros]: "(\<And>s. f (s\<lparr>ios := ios s @ [c]\<rparr>) = f s) \<Longrightarrow> keeps f (io0 E c)"
  unfolding io0_def by (intro keeps_intros)

lemma keeps_split [keeps_intros]:
  "(b \<Longrightarrow> keeps f m) \<Longrightarrow> (\<not> b \<Longrightarrow> keeps f n) \<Longrightarrow> keeps f (if b then m else n)"
  "(x = None \<Longrightarrow> keeps f m) \<Longrightarrow> (\<And>y. x = Some y \<Longrightarrow> keeps f (g y)) \<Longrightarrow> keeps f (case x of None \<Rightarrow> m | Some y \<Rightarrow> g y)"
  "(xs = [] \<Longrightarrow> keeps f m) \<Longrightarrow> (\<And>y ys. xs = y # ys \<Longrightarrow> keeps f (k y ys)) \<Longrightarrow> keeps f (case xs of [] \<Rightarrow> m | y # ys \<Rightarrow> k y ys)"
  "(\<And>a b. z = (a, b) \<Longrightarrow> keeps f (l a b)) \<Longrightarrow> keeps f (case z of (a, b) \<Rightarrow> l a b)"
  "keeps f (h v) \<Longrightarrow> keeps f (let x = v in h x)"
  by (simp_all split: option.split list.split prod.split add: Let_def)

lemma keeps_members [keeps_intros]:
  "(\<And>s h. f (s\<lparr>bufs := map_option h (bufs s)\<rparr>) = f s) \<Longrightarrow> keeps f (set_buf i g)"
  "(\<And>s b. f (s\<lparr>buf_status := b\<rparr>) = f s) \<Longrightarrow> keeps f (set_status i k)"
  "(\<And>s b. f (s\<lparr>buf_status := b\<rparr>) = f s) \<Longrightarrow> keeps f (add_ref i n)"
  "(\<And>s b. f (s\<lparr>queued_buffer_count := b\<rparr>) = f s) \<Longrightarrow> keeps f (count_queued d)"
  "(\<And>s b. f (s\<lparr>buf_cb := b\<rparr>) = f s) \<Longrightarrow> keeps f (set_cb j l)"
  "(\<And>s. f (s\<lparr>ios := ios s @ [c]\<rparr>) = f s) \<Longrightarrow> keeps f (poll_while_queued E p c)"
  unfolding add_ref_def set_buf_def set_status_def count_queued_def set_cb_def poll_while_queued_def
  by (intro keeps_intros; simp)+

section \<open>What a stream holds\<close>

text \<open>
  How often a call was made with success, less how often the call that takes it back was made.
\<close>

definition outstanding :: "(int32 \<Rightarrow> bool) \<Rightarrow> stream_env \<Rightarrow> io_call \<Rightarrow> io_call \<Rightarrow> io_call list \<Rightarrow> int" where
  "outstanding ok E c d h =
     int (length (filter (\<lambda>k. h ! k = c \<and> ok (answer E (take k h) c)) [0 ..< length h])) - int (count_list h d)"

lemma outstanding_Nil [simp]: "outstanding ok E c d [] = 0"
  by (simp add: outstanding_def)

lemma outstanding_snoc [simp]:
  "outstanding ok E c d (h @ [x]) = outstanding ok E c d h
     + (if x = c \<and> ok (answer E h c) then 1 else 0) - (if x = d then 1 else 0)"
proof -
  have "filter (\<lambda>k. (h @ [x]) ! k = c \<and> ok (answer E (take k (h @ [x])) c)) [0 ..< length h]
      = filter (\<lambda>k. h ! k = c \<and> ok (answer E (take k h) c)) [0 ..< length h]"
    by (rule filter_cong) (auto simp: nth_append)
  then show ?thesis
    by (simp add: outstanding_def)
qed

lemma outstanding_snocs [simp]:
  "outstanding ok E c d (h @ [x, y]) = outstanding ok E c d (h @ [x])
     + (if y = c \<and> ok (answer E (h @ [x]) c) then 1 else 0) - (if y = d then 1 else 0)"
  "outstanding ok E c d (h @ [x, y, z]) = outstanding ok E c d (h @ [x, y])
     + (if z = c \<and> ok (answer E (h @ [x, y]) c) then 1 else 0) - (if z = d then 1 else 0)"
  "outstanding ok E c d (h @ [x, y, z, w]) = outstanding ok E c d (h @ [x, y, z])
     + (if w = c \<and> ok (answer E (h @ [x, y, z]) c) then 1 else 0) - (if w = d then 1 else 0)"
  using outstanding_snoc [of ok E c d "h @ [x]" y] outstanding_snoc [of ok E c d "h @ [x, y]" z]
    outstanding_snoc [of ok E c d "h @ [x, y, z]" w] by simp_all

text \<open>Descriptors of the device that are open, and allocations of buffers.\<close>

definition open_fds :: "stream_env \<Rightarrow> mm_stream \<Rightarrow> int" where
  "open_fds E s = outstanding (\<lambda>rc. \<not> failed rc) E Open Close (ios s)"

definition buf_sets :: "stream_env \<Rightarrow> mm_stream \<Rightarrow> int" where
  "buf_sets E s = outstanding (\<lambda>rc. rc = 0) E Get_bufs Put_bufs (ios s)"

text \<open>What only the handlers of the state machine change.\<close>

definition skel :: "stream_env \<Rightarrow> mm_stream \<Rightarrow> mm_stream_state_type \<times> uint32 \<times> int32 \<times> bool \<times> int \<times> int" where
  "skel E s = (st_state s, my_hdl s, st_fd s, bufs s = None, open_fds E s, buf_sets E s)"

lemma skel_simps:
  "skel E (s\<lparr>ios := ios s @ [c]\<rparr>) = skel E s
     \<longleftrightarrow> (c = Open \<longrightarrow> failed (answer E (ios s) Open)) \<and> (c = Get_bufs \<longrightarrow> answer E (ios s) Get_bufs \<noteq> 0)
       \<and> c \<noteq> Close \<and> c \<noteq> Put_bufs"
  by (cases c) (auto simp: skel_def open_fds_def buf_sets_def)

section \<open>The state is only changed by the handlers\<close>


lemma keeps_if_act:
  "keeps f m \<Longrightarrow> keeps f (if b then m else yields ())"
  by (simp add: keeps_return)

lemma keeps_loops [keeps_intros]:
  "keeps (skel E) (set_mapped rc is)"
  "keeps (skel E) (await_mapped E is)"
  "keeps (skel E) (unreg_bufs is)"
proof -
  show "keeps (skel E) (set_mapped rc is)"
    by (induction "is") (simp_all only: set_mapped.simps await_mapped.simps unreg_bufs.simps, (intro keeps_intros; simp add: skel_def open_fds_def buf_sets_def)+)
  show "keeps (skel E) (await_mapped E is)"
    by (induction "is") (simp_all only: set_mapped.simps await_mapped.simps unreg_bufs.simps, (intro keeps_intros; simp add: skel_def open_fds_def buf_sets_def)+)
  show "keeps (skel E) (unreg_bufs is)"
    by (induction "is") (simp_all only: set_mapped.simps await_mapped.simps unreg_bufs.simps, (intro keeps_intros; simp add: skel_def open_fds_def buf_sets_def)+)
qed

lemma keeps_cache [keeps_intros]: "keeps (skel E) (mm_stream_handle_cache_ops E i d)"
  unfolding mm_stream_handle_cache_ops_def cache_call_def by (intro keeps_intros; simp add: skel_def open_fds_def buf_sets_def)

lemma keeps_qbuf [keeps_intros]: "keeps (skel E) (mm_stream_qbuf E i)"
  unfolding mm_stream_qbuf_def by (intro keeps_intros; simp add: skel_def open_fds_def buf_sets_def)

lemma keeps_queue_container [keeps_intros]: "keeps (skel E) m \<Longrightarrow> keeps (skel E) (queue_container E i m)"
  unfolding queue_container_def fill_container_def empty_container_def by (intro keeps_intros; simp add: skel_def open_fds_def buf_sets_def)

lemma keeps_write_user_buf [keeps_intros]: "keeps (skel E) (mm_stream_write_user_buf E i c)"
  unfolding mm_stream_write_user_buf_def pick_container_def by (intro keeps_intros; simp add: skel_def open_fds_def buf_sets_def)

lemma keeps_buf_done [keeps_intros]: "keeps (skel E) (mm_stream_buf_done E i c)"
  unfolding mm_stream_buf_done_def by (intro keeps_intros; simp add: skel_def open_fds_def buf_sets_def)

lemma keeps_cancel [keeps_intros]:
  "keeps (skel E) (mm_stream_cancel_buf E w)" "keeps (skel E) mm_stream_get_queued_buf_count"
  unfolding mm_stream_cancel_buf_def mm_stream_get_queued_buf_count_def by (intro keeps_intros; simp add: skel_def open_fds_def buf_sets_def)+

lemma keeps_async [keeps_intros]: "keeps (skel E) (async_callbacks E i ks)"
  by (induction ks) (simp_all, (intro keeps_intros; simp add: skel_def open_fds_def buf_sets_def)+)

lemma keeps_dispatch_app [keeps_intros]: "keeps (skel E) (mm_stream_dispatch_app_data E i)"
  unfolding mm_stream_dispatch_app_data_def by (intro keeps_intros; simp add: skel_def open_fds_def buf_sets_def)

lemma keeps_drain [keeps_intros]: "keeps (skel E) (drain E is)"
  by (induction "is") (simp_all, (intro keeps_intros; simp add: skel_def open_fds_def buf_sets_def)+)

lemma keeps_threads [keeps_intros]:
  "keeps (skel E) (release_thread E)" "keeps (skel E) (launch_thread E)"
  unfolding release_thread_def launch_thread_def by (intro keeps_intros; simp add: skel_def open_fds_def buf_sets_def)+

lemma keeps_config [keeps_intros]: "keeps (skel E) (mm_stream_config P E cfg)"
  unfolding mm_stream_config_def mm_stream_sync_info_def mm_stream_set_fmt_def by (intro keeps_intros; simp add: skel_def open_fds_def buf_sets_def)

lemma keeps_parms [keeps_intros]:
  "keeps (skel E) (mm_stream_set_parm E v)" "keeps (skel E) (mm_stream_get_parm E v)"
  "keeps (skel E) (mm_stream_do_action E v)" "keeps (skel E) (mm_stream_set_ext_mode E)"
  unfolding mm_stream_set_parm_def mm_stream_get_parm_def mm_stream_do_action_def mm_stream_set_ext_mode_def
  by (intro keeps_intros; simp add: skel_def open_fds_def buf_sets_def)+

lemma keeps_reg_bufs [keeps_intros]: "keeps (skel E) (reg_bufs E is)"
  by (induction "is") (simp_all, (intro keeps_intros; simp add: skel_def open_fds_def buf_sets_def)+)

lemma keeps_reg [keeps_intros]:
  "keeps (skel E) (mm_stream_reg_buf E)" "keeps (skel E) (mm_stream_unreg_buf E)"
  unfolding mm_stream_reg_buf_def mm_stream_request_buf_def mm_stream_unreg_buf_def
  by (intro keeps_intros; simp add: skel_def open_fds_def buf_sets_def)+

lemma keeps_streamon [keeps_intros]:
  "keeps (skel E) (mm_stream_streamon E)" "keeps (skel E) (mm_stream_streamoff E)"
  unfolding mm_stream_streamon_def mm_stream_streamoff_def by (intro keeps_intros; simp add: skel_def open_fds_def buf_sets_def)+

lemma keeps_received [keeps_intros]:
  "keeps (skel E) (mm_stream_read_user_buf E i)"
  "keeps (skel E) (mm_stream_read_msm_frame E)"
  unfolding mm_stream_read_msm_frame_def mm_stream_read_user_buf_def
  by (intro keeps_intros; simp add: skel_def open_fds_def buf_sets_def spread_batch_def Let_def)+

lemma keeps_sync [keeps_intros]: "keeps (skel E) (sync_callbacks E i ks)"
  unfolding mm_stream_dispatch_sync_data_def
  by (induction ks) (simp_all only: sync_callbacks.simps mm_stream_dispatch_sync_data_def,
    (intro keeps_intros; simp add: skel_def open_fds_def buf_sets_def)+)

lemma keeps_notify [keeps_intros]:
  "keeps (skel E) (mm_stream_notify_channel E post_channel i)" "keeps (skel E) (mm_stream_notify_channel E post_linked i)"
  "keeps (skel E) (post_app E i)"
  unfolding mm_stream_notify_channel_def post_channel_def post_linked_def post_app_def
  by (intro keeps_intros; simp add: skel_def open_fds_def buf_sets_def)+

lemma keeps_data_notify [keeps_intros]:
  "keeps (skel E) (mm_stream_data_notify E)" "keeps (skel E) (cmd_thread_round E)"
  "keeps (skel E) (mm_stream_reg_buf_cb v)"
  unfolding mm_stream_data_notify_def receive_buf_def mm_stream_handle_rcvd_buf_def cmd_thread_round_def
    mm_stream_reg_buf_cb_def
  by (intro keeps_intros; simp add: skel_def open_fds_def buf_sets_def)+

lemma skel_keeps: "keeps (skel E) m \<Longrightarrow> skel E (snd (run_state m s)) = skel E s"
  by (simp add: keeps_def)

lemmas skel_members = skel_def prod.inject

section \<open>The diagram\<close>

text \<open>The state a handled event leads to, from the state before and from what the handler returns.\<close>

definition stream_edge :: "mm_stream_state_type \<Rightarrow> mm_stream_evt_type \<Rightarrow> int32 \<Rightarrow> mm_stream_state_type" where
  "stream_edge st e rc =
     (case st of
        MM_STREAM_STATE_NOTUSED \<Rightarrow> st
      | MM_STREAM_STATE_INITED \<Rightarrow> (case e of
          MM_STREAM_EVT_ACQUIRE \<Rightarrow> if rc = 0 then MM_STREAM_STATE_ACQUIRED else st
        | _ \<Rightarrow> st)
      | MM_STREAM_STATE_ACQUIRED \<Rightarrow> (case e of
          MM_STREAM_EVT_SET_FMT c \<Rightarrow> MM_STREAM_STATE_CFG
        | MM_STREAM_EVT_RELEASE \<Rightarrow> MM_STREAM_STATE_NOTUSED
        | _ \<Rightarrow> st)
      | MM_STREAM_STATE_CFG \<Rightarrow> (case e of
          MM_STREAM_EVT_RELEASE \<Rightarrow> MM_STREAM_STATE_NOTUSED
        | MM_STREAM_EVT_GET_BUF \<Rightarrow> if rc = 0 then MM_STREAM_STATE_BUFFED else st
        | _ \<Rightarrow> st)
      | MM_STREAM_STATE_BUFFED \<Rightarrow> (case e of
          MM_STREAM_EVT_PUT_BUF \<Rightarrow> MM_STREAM_STATE_CFG
        | MM_STREAM_EVT_REG_BUF \<Rightarrow> if rc = 0 then MM_STREAM_STATE_REG else st
        | _ \<Rightarrow> st)
      | MM_STREAM_STATE_REG \<Rightarrow> (case e of
          MM_STREAM_EVT_UNREG_BUF \<Rightarrow> MM_STREAM_STATE_BUFFED
        | MM_STREAM_EVT_START \<Rightarrow> if rc = 0 then MM_STREAM_STATE_ACTIVE else st
        | _ \<Rightarrow> st)
      | MM_STREAM_STATE_ACTIVE \<Rightarrow> (case e of
          MM_STREAM_EVT_STOP \<Rightarrow> MM_STREAM_STATE_REG
        | _ \<Rightarrow> st))"

text \<open>The events a state handles; the others are answered without a trace.\<close>

definition stream_handles :: "mm_stream_state_type \<Rightarrow> mm_stream_evt_type \<Rightarrow> bool" where
  "stream_handles st e =
     (case e of
        MM_STREAM_EVT_ACQUIRE \<Rightarrow> st = MM_STREAM_STATE_INITED
      | MM_STREAM_EVT_SET_FMT _ \<Rightarrow> st \<in> {MM_STREAM_STATE_ACQUIRED, MM_STREAM_STATE_CFG}
      | MM_STREAM_EVT_RELEASE \<Rightarrow> st \<in> {MM_STREAM_STATE_ACQUIRED, MM_STREAM_STATE_CFG}
      | MM_STREAM_EVT_GET_BUF \<Rightarrow> st = MM_STREAM_STATE_CFG
      | MM_STREAM_EVT_PUT_BUF \<Rightarrow> st = MM_STREAM_STATE_BUFFED
      | MM_STREAM_EVT_REG_BUF \<Rightarrow> st = MM_STREAM_STATE_BUFFED
      | MM_STREAM_EVT_UNREG_BUF \<Rightarrow> st = MM_STREAM_STATE_REG
      | MM_STREAM_EVT_START \<Rightarrow> st = MM_STREAM_STATE_REG
      | MM_STREAM_EVT_SET_PARM _ \<Rightarrow> st \<notin> {MM_STREAM_STATE_NOTUSED, MM_STREAM_STATE_INITED}
      | MM_STREAM_EVT_GET_PARM _ \<Rightarrow> st \<notin> {MM_STREAM_STATE_NOTUSED, MM_STREAM_STATE_INITED}
      | _ \<Rightarrow> st = MM_STREAM_STATE_ACTIVE)"

lemmas handler_defs = mm_stream_fsm_inited_def mm_stream_fsm_acquired_def mm_stream_fsm_cfg_def
  mm_stream_fsm_buffed_def mm_stream_fsm_reg_def mm_stream_fsm_active_def

lemma run_to_state [simp]: "run_state (to_state st) s = ((), s\<lparr>st_state := st\<rparr>)"
  by (simp add: to_state_def)

lemma run_bind: "run_state (m \<bind> g) s = run_state (g (fst (run_state m s))) (snd (run_state m s))"
  by (simp add: State_Monad.bind_def split: prod.split)

lemma run_return [simp]: "run_state (State_Monad.return a) s = (a, s)"
  by (simp add: State_Monad.return_def)

lemma unhandled_event:
  "\<not> stream_handles (st_state s) e
     \<Longrightarrow> run_state (mm_stream_fsm_fn P E e) s = (if st_state s = MM_STREAM_STATE_NOTUSED then - 1 else 0, s)"
  by (cases "st_state s"; cases e) (simp_all add: mm_stream_fsm_fn_def handler_defs stream_handles_def run_bind)

text \<open>A handler that calls \<open>m\<close> and then sets the state.\<close>

lemma run_then_state:
  "run_state (do { rc \<leftarrow> m; to_state st; yields rc }) s
     = (fst (run_state m s), (snd (run_state m s))\<lparr>st_state := st\<rparr>)"
  by (simp add: case_prod_beta prod_eq_iff)

lemma run_then_when:
  "run_state (do { rc \<leftarrow> m; (if rc = 0 then to_state st else yields ()); yields rc }) s
     = (fst (run_state m s), if fst (run_state m s) = 0 then (snd (run_state m s))\<lparr>st_state := st\<rparr>
                             else snd (run_state m s))"
  by (simp add: case_prod_beta prod_eq_iff)

lemma keeps_state: "keeps (skel E) m \<Longrightarrow> st_state (snd (run_state m s)) = st_state s"
  by (simp add: keeps_def skel_def)

lemma init_bufs_state: "st_state (snd (run_state (mm_stream_init_bufs E) s)) = st_state s"
  by (simp add: mm_stream_init_bufs_def mm_stream_deinit_bufs_def case_prod_beta io_def take_bufs_def take_batches_def)

lemma deinit_bufs_state: "st_state (snd (run_state (mm_stream_deinit_bufs E) s)) = st_state s"
  by (simp add: mm_stream_deinit_bufs_def case_prod_beta io_def)

lemma acquire_state:
  "st_state (snd (run_state (acquire_stream E) s))
     = (if fst (run_state (acquire_stream E) s) = 0 then MM_STREAM_STATE_ACQUIRED else st_state s)"
  by (simp add: acquire_stream_def mm_stream_set_ext_mode_def case_prod_beta io_def io0_def)

lemma start_state:
  assumes "st_state s = MM_STREAM_STATE_REG"
  shows "st_state (snd (run_state (start_stream E) s))
     = (if fst (run_state (start_stream E) s) = 0 then MM_STREAM_STATE_ACTIVE else MM_STREAM_STATE_REG)"
  by (simp add: start_stream_def case_prod_beta keeps_state [OF keeps_streamon(1)])

lemma stop_state: "st_state (snd (run_state (stop_stream E) s)) = MM_STREAM_STATE_REG"
  by (simp add: stop_stream_def case_prod_beta)

lemmas kept_states = keeps_parms [THEN keeps_state] keeps_buf_done [THEN keeps_state] keeps_cancel [THEN keeps_state]
  keeps_reg [THEN keeps_state] keeps_config [THEN keeps_state]

lemma stream_edges_exact:
  "st_state (snd (run_state (mm_stream_fsm_fn P E e) s)) = stream_edge (st_state s) e (fst (run_state (mm_stream_fsm_fn P E e) s))"
  by (cases "st_state s"; cases e)
    (simp_all add: mm_stream_fsm_fn_def handler_defs stream_edge_def case_prod_beta kept_states
      init_bufs_state acquire_state start_state stop_state)

text \<open>The handle is cleared when the stream is released, and else kept.\<close>

lemma keeps_hdl: "keeps (skel E) m \<Longrightarrow> my_hdl (snd (run_state m s)) = my_hdl s"
  by (simp add: keeps_def skel_def)

lemmas kept_hdls = keeps_parms [THEN keeps_hdl] keeps_buf_done [THEN keeps_hdl] keeps_cancel [THEN keeps_hdl]
  keeps_reg [THEN keeps_hdl] keeps_config [THEN keeps_hdl] keeps_streamon [THEN keeps_hdl] keeps_threads [THEN keeps_hdl]

lemma handler_hdl:
  "my_hdl (snd (run_state (mm_stream_init_bufs E) s)) = my_hdl s"
  "my_hdl (snd (run_state (mm_stream_deinit_bufs E) s)) = my_hdl s"
  "my_hdl (snd (run_state (acquire_stream E) s)) = my_hdl s"
  "my_hdl (snd (run_state (start_stream E) s)) = my_hdl s"
  "my_hdl (snd (run_state (stop_stream E) s)) = my_hdl s"
  by (simp_all add: mm_stream_init_bufs_def mm_stream_deinit_bufs_def acquire_stream_def mm_stream_set_ext_mode_def
      start_stream_def stop_stream_def case_prod_beta io_def io0_def take_bufs_def take_batches_def kept_hdls)

lemma fsm_hdl:
  "my_hdl (snd (run_state (mm_stream_fsm_fn P E e) s))
     = (if e = MM_STREAM_EVT_RELEASE \<and> stream_handles (st_state s) e then 0 else my_hdl s)"
  by (cases "st_state s"; cases e)
    (simp_all add: mm_stream_fsm_fn_def handler_defs stream_handles_def case_prod_beta kept_hdls handler_hdl
      mm_stream_release_def cleared_def)

section \<open>What a stream holds in its states\<close>

text \<open>
  The descriptor is open in the states that have one, the buffers are allocated in the states
  that have them, and nothing else is.
\<close>

definition tidy :: "stream_env \<Rightarrow> mm_stream \<Rightarrow> bool" where
  "tidy E s \<longleftrightarrow>
     (sint (st_fd s) \<ge> 0 \<longleftrightarrow> st_state s \<notin> {MM_STREAM_STATE_NOTUSED, MM_STREAM_STATE_INITED})
     \<and> (bufs s \<noteq> None \<longleftrightarrow> st_state s \<in> {MM_STREAM_STATE_BUFFED, MM_STREAM_STATE_REG, MM_STREAM_STATE_ACTIVE})
     \<and> open_fds E s = (if sint (st_fd s) \<ge> 0 then 1 else 0)
     \<and> buf_sets E s = (if bufs s \<noteq> None then 1 else 0)"

lemma tidy_skel: "skel E t = skel E s \<Longrightarrow> tidy E t = tidy E s"
  by (simp add: skel_def tidy_def)

lemma keeps_tidy: "keeps (skel E) m \<Longrightarrow> tidy E s \<Longrightarrow> tidy E (snd (run_state m s))"
  using tidy_skel by (metis keeps_def)

lemma tidy_same_state:
  "tidy E s \<Longrightarrow> st_state s = a \<Longrightarrow> (a \<in> {MM_STREAM_STATE_NOTUSED, MM_STREAM_STATE_INITED}
      \<longleftrightarrow> b \<in> {MM_STREAM_STATE_NOTUSED, MM_STREAM_STATE_INITED})
    \<Longrightarrow> (a \<in> {MM_STREAM_STATE_BUFFED, MM_STREAM_STATE_REG, MM_STREAM_STATE_ACTIVE}
      \<longleftrightarrow> b \<in> {MM_STREAM_STATE_BUFFED, MM_STREAM_STATE_REG, MM_STREAM_STATE_ACTIVE})
    \<Longrightarrow> tidy E (s\<lparr>st_state := b\<rparr>)"
  unfolding tidy_def open_fds_def buf_sets_def by simp blast

lemma acquire_tidy:
  assumes "tidy E s" and "st_state s = MM_STREAM_STATE_INITED"
  shows "tidy E (snd (run_state (acquire_stream E) s))"
  using assms
  by (auto simp: acquire_stream_def mm_stream_set_ext_mode_def case_prod_beta io_def io0_def tidy_def
      open_fds_def buf_sets_def failed_def split: if_splits)

lemma release_tidy:
  assumes "tidy E s" and "st_state s \<in> {MM_STREAM_STATE_ACQUIRED, MM_STREAM_STATE_CFG}"
  shows "tidy E (snd (run_state (mm_stream_release E) s))"
  using assms
  by (auto simp add: mm_stream_release_def case_prod_beta io_def io0_def tidy_def cleared_def
      open_fds_def buf_sets_def)

lemma init_tidy:
  assumes "tidy E s" and "st_state s = MM_STREAM_STATE_CFG"
  shows "tidy E (snd (run_state (do { rc \<leftarrow> mm_stream_init_bufs E;
    (if rc = 0 then to_state MM_STREAM_STATE_BUFFED else yields ()); yields rc }) s))"
  using assms
  by (simp add: mm_stream_init_bufs_def case_prod_beta io_def tidy_def take_bufs_def take_batches_def
      open_fds_def buf_sets_def)

lemma deinit_tidy:
  assumes "tidy E s" and "st_state s = MM_STREAM_STATE_BUFFED"
  shows "tidy E (snd (run_state (do { rc \<leftarrow> mm_stream_deinit_bufs E; to_state MM_STREAM_STATE_CFG; yields rc }) s))"
  using assms
  by (auto simp add: mm_stream_deinit_bufs_def case_prod_beta io_def tidy_def open_fds_def buf_sets_def)

text \<open>In the states that have buffers, the state can be set to any of them.\<close>

definition held :: "stream_env \<Rightarrow> mm_stream \<Rightarrow> bool" where
  "held E s \<longleftrightarrow> tidy E s \<and> st_state s \<in> {MM_STREAM_STATE_BUFFED, MM_STREAM_STATE_REG, MM_STREAM_STATE_ACTIVE}"

lemma held_state:
  "held E s \<Longrightarrow> b \<in> {MM_STREAM_STATE_BUFFED, MM_STREAM_STATE_REG, MM_STREAM_STATE_ACTIVE}
    \<Longrightarrow> held E (s\<lparr>st_state := b\<rparr>)"
  by (auto simp: held_def intro!: tidy_same_state)

lemma keeps_held: "keeps (skel E) m \<Longrightarrow> held E s \<Longrightarrow> held E (snd (run_state m s))"
  by (simp add: held_def keeps_tidy keeps_state)

lemma held_tidy: "held E s \<Longrightarrow> tidy E s"
  by (simp add: held_def)

lemma start_held: "held E s \<Longrightarrow> held E (snd (run_state (start_stream E) s))"
  by (simp add: start_stream_def case_prod_beta held_state keeps_held keeps_intros)

lemma stop_held: "held E s \<Longrightarrow> held E (snd (run_state (stop_stream E) s))"
  by (simp add: stop_stream_def case_prod_beta held_state keeps_held keeps_intros)

lemma reg_held: "held E s \<Longrightarrow> held E (snd (run_state (mm_stream_fsm_buffed E MM_STREAM_EVT_REG_BUF) s))"
  by (simp add: mm_stream_fsm_buffed_def case_prod_beta held_state keeps_held keeps_intros)

lemma unreg_held: "held E s \<Longrightarrow> held E (snd (run_state (mm_stream_fsm_reg E MM_STREAM_EVT_UNREG_BUF) s))"
  by (simp add: mm_stream_fsm_reg_def case_prod_beta held_state keeps_held keeps_intros)

lemma config_tidy:
  assumes "tidy E s" and "st_state s \<in> {MM_STREAM_STATE_ACQUIRED, MM_STREAM_STATE_CFG}"
  shows "tidy E (snd (run_state (do { rc \<leftarrow> mm_stream_config P E cfg; to_state MM_STREAM_STATE_CFG; yields rc }) s))"
  using keeps_tidy [OF keeps_config assms(1), of P cfg] keeps_state [OF keeps_config, of P E cfg s] assms(2)
  by (auto simp: case_prod_beta intro!: tidy_same_state)

lemma released_tidy:
  assumes "tidy E s" and "st_state s \<in> {MM_STREAM_STATE_ACQUIRED, MM_STREAM_STATE_CFG}"
  shows "tidy E (snd (run_state (do { rc \<leftarrow> mm_stream_release E; to_state MM_STREAM_STATE_NOTUSED; yields rc }) s))"
proof -
  have "st_state (snd (run_state (mm_stream_release E) s)) = MM_STREAM_STATE_NOTUSED"
    by (simp add: mm_stream_release_def case_prod_beta cleared_def)
  with release_tidy [OF assms] show ?thesis
    by (auto simp: case_prod_beta intro!: tidy_same_state)
qed

lemma fsm_tidy:
  assumes t: "tidy E s"
  shows "tidy E (snd (run_state (mm_stream_fsm_fn P E e) s))"
proof (cases "st_state s")
  case MM_STREAM_STATE_NOTUSED
  with t show ?thesis
    by (simp add: mm_stream_fsm_fn_def)
next
  case MM_STREAM_STATE_INITED
  with t show ?thesis
    by (cases e) (simp_all add: mm_stream_fsm_fn_def mm_stream_fsm_inited_def acquire_tidy)
next
  case MM_STREAM_STATE_ACQUIRED
  with t show ?thesis
    using config_tidy [OF t] released_tidy [OF t]
    by (cases e) (simp_all add: mm_stream_fsm_fn_def mm_stream_fsm_acquired_def keeps_tidy keeps_parms)
next
  case MM_STREAM_STATE_CFG
  with t show ?thesis
    using config_tidy [OF t] released_tidy [OF t] init_tidy [OF t]
    by (cases e) (simp_all add: mm_stream_fsm_fn_def mm_stream_fsm_cfg_def keeps_tidy keeps_parms)
next
  case MM_STREAM_STATE_BUFFED
  with t have "held E s"
    by (simp add: held_def)
  from reg_held [OF this] MM_STREAM_STATE_BUFFED t deinit_tidy [OF t] show ?thesis
    by (cases e) (simp_all add: mm_stream_fsm_fn_def mm_stream_fsm_buffed_def keeps_tidy keeps_parms held_tidy)
next
  case MM_STREAM_STATE_REG
  with t have "held E s"
    by (simp add: held_def)
  from unreg_held [OF this] start_held [OF this] MM_STREAM_STATE_REG t show ?thesis
    by (cases e) (simp_all add: mm_stream_fsm_fn_def mm_stream_fsm_reg_def keeps_tidy keeps_parms held_tidy)
next
  case MM_STREAM_STATE_ACTIVE
  with t have "held E s"
    by (simp add: held_def)
  from stop_held [OF this] MM_STREAM_STATE_ACTIVE t show ?thesis
    by (cases e) (simp_all add: mm_stream_fsm_fn_def mm_stream_fsm_active_def keeps_tidy keeps_parms held_tidy
      keeps_buf_done keeps_cancel)
qed

section \<open>Runs of a stream\<close>

text \<open>
  What can happen to a stream: an event of the state machine, a buffer that is ready, a command of its
  thread, and a callback that is registered.
\<close>

datatype stream_step =
    Event mm_stream_evt_type | Buf_ready | Thread_round | Register mm_stream_data_cb

fun stream_do :: "platform \<Rightarrow> stream_env \<Rightarrow> stream_step \<Rightarrow> unit strm" where
  "stream_do P E (Event e) = do { _ \<leftarrow> mm_stream_fsm_fn P E e; yields () }"
| "stream_do P E Buf_ready = mm_stream_data_notify E"
| "stream_do P E Thread_round = cmd_thread_round E"
| "stream_do P E (Register c) = do { _ \<leftarrow> mm_stream_reg_buf_cb c; yields () }"

fun stream_run :: "platform \<Rightarrow> stream_env \<Rightarrow> stream_step list \<Rightarrow> mm_stream \<Rightarrow> mm_stream" where
  "stream_run P E [] s = s"
| "stream_run P E (x # xs) s = stream_run P E xs (snd (run_state (stream_do P E x) s))"

lemma stream_step_tidy: "tidy E s \<Longrightarrow> tidy E (snd (run_state (stream_do P E x) s))"
  by (cases x) (simp_all add: case_prod_beta fsm_tidy keeps_tidy keeps_data_notify)

lemma stream_run_tidy: "tidy E s \<Longrightarrow> tidy E (stream_run P E xs s)"
  by (induction xs arbitrary: s) (simp_all add: stream_step_tidy)

section \<open>The stream at first\<close>

text \<open>
  The object that \<open>mm_channel_add_stream\<close> of \<^verbatim>\<open>mm_camera_channel.c\<close> prepares: all zero but for its handle, its
  descriptor and its state.
\<close>

definition no_padding :: cam_padding_info where
  "no_padding = \<lparr>width_padding = 0, height_padding = 0, plane_padding = 0, min_stride = 0, min_scanline = 0,
     pad_offset_x = 0, pad_offset_y = 0\<rparr>"

definition no_info :: stream_info where
  "no_info = \<lparr>info_stream_type = CAM_STREAM_TYPE_DEFAULT, fmt = 0, dim = \<lparr>dim_width = 0, dim_height = 0\<rparr>,
     buf_planes = no_planes, feature_mask = 0, rotation = ROTATE_0,
     reprocess_config = Offline CAM_STREAM_TYPE_DEFAULT no_planes,
     num_bufs = 0, streaming_mode = CAM_STREAMING_MODE_CONTINUOUS, frame_buf_cnt = 0, frameInterval = 0,
     cache_ops = CAM_STREAM_CACHE_OPS_HONOUR_FLAGS, noFrameExpected = False\<rparr>"

definition new_stream :: "uint32 \<Rightarrow> mm_stream" where
  "new_stream h = \<lparr>my_hdl = h, svr_stream_id = 0, st_fd = - 1, st_state = MM_STREAM_STATE_INITED,
     strm_info = no_info, padding_info = no_padding, frame_offset = no_planes, cmd_active = False, st_cmd_queue = [],
     buf_cb = replicate MM_CAMERA_STREAM_BUF_CB_MAX no_cb, buf_num = 0, bufs = None,
     buf_status = replicate CAM_MAX_NUM_BUFS_PER_STREAM no_status, plane_buf = None, cur_buf_idx = 0,
     cur_bufs_staged = 0, is_bundled = False, is_linked = False, cache_ops_set = False, queued_buffer_count = 0,
     prev_frameID = 0, prev_timestamp = 0, to_channel = [], to_linked = [], ios = []\<rparr>"

lemma new_stream_tidy: "tidy E (new_stream h)"
  by (simp add: new_stream_def tidy_def open_fds_def buf_sets_def)

end
