(* ===== verification/FrameSync.thy ===== *)
theory FrameSync
  imports MMTypes
begin

text \<open>
  The frames that both cameras of a dual camera have: the static \<open>fs\<close> of
  \<^verbatim>\<open>stack/mm-camera-interface/src/mm_camera_channel.c\<close> and the functions \<open>mm_frame_sync_...\<close>.  The
  frames are kept in four slots that are used in turn; a slot says which channels have the frame.
  The functions are called with \<open>fs_lock\<close> held, so each is one step.  A channel is its address.
\<close>

record sync_node =
  sync_frame_idx :: uint32
  frame_valid :: "bool list"
  sync_matched :: bool

record frame_sync =
  num_cam :: nat
  sync_pos :: nat
  sync_nodes :: "sync_node list"
  sync_ch :: "ptr list"

definition MAX_NUM_CAMERA_PER_BUNDLE :: nat where "MAX_NUM_CAMERA_PER_BUNDLE = 2"

definition MM_CAMERA_FRAME_SYNC_NODES :: nat where "MM_CAMERA_FRAME_SYNC_NODES = 4"

definition no_sync_node :: sync_node where
  "no_sync_node =
     \<lparr>sync_frame_idx = 0, frame_valid = replicate MAX_NUM_CAMERA_PER_BUNDLE False,
      sync_matched = False\<rparr>"

definition mm_frame_sync_reset :: frame_sync where
  "mm_frame_sync_reset =
     \<lparr>num_cam = 0, sync_pos = 0, sync_nodes = replicate MM_CAMERA_FRAME_SYNC_NODES no_sync_node,
      sync_ch = replicate MAX_NUM_CAMERA_PER_BUNDLE NULL\<rparr>"

text \<open>The index of the first element with a property, as the searching loops compute it.\<close>

fun index_of :: "('a \<Rightarrow> bool) \<Rightarrow> 'a list \<Rightarrow> nat option" where
  "index_of P [] = None"
| "index_of P (x # xs) = (if P x then Some 0 else map_option Suc (index_of P xs))"

definition mm_frame_sync_register_channel :: "ptr \<Rightarrow> frame_sync \<Rightarrow> int32 \<times> frame_sync" where
  "mm_frame_sync_register_channel ch fs =
     (if MAX_NUM_CAMERA_PER_BUNDLE \<le> num_cam fs \<or> ch = NULL then (- 1, fs)
      else let fs = (if num_cam fs = 0 then mm_frame_sync_reset else fs) in
        case index_of (\<lambda>c. c = NULL) (sync_ch fs) of
          Some i \<Rightarrow> (0, fs\<lparr>sync_ch := (sync_ch fs)[i := ch], num_cam := num_cam fs + 1\<rparr>)
        | None \<Rightarrow> (- 1, fs))"

definition mm_frame_sync_unregister_channel :: "ptr \<Rightarrow> frame_sync \<Rightarrow> int32 \<times> frame_sync" where
  "mm_frame_sync_unregister_channel ch fs =
     (if num_cam fs = 0 \<or> ch = NULL then (- 1, fs)
      else let fs = (case index_of (\<lambda>c. c = ch) (sync_ch fs) of
                 Some i \<Rightarrow> fs\<lparr>sync_ch := (sync_ch fs)[i := NULL], num_cam := num_cam fs - 1\<rparr>
               | None \<Rightarrow> fs)
        in (0, if num_cam fs = 0 then mm_frame_sync_reset else fs))"

definition mm_frame_sync_find_frame_index :: "uint32 \<Rightarrow> frame_sync \<Rightarrow> nat option" where
  "mm_frame_sync_find_frame_index frame_id fs =
     index_of (\<lambda>n. sync_frame_idx n = frame_id) (sync_nodes fs)"

text \<open>The last part of \<open>mm_frame_sync_add\<close>: a frame that as many channels have as are registered is matched.\<close>

definition mark_matched :: "nat \<Rightarrow> sync_node \<Rightarrow> sync_node" where
  "mark_matched cams n =
     (if \<not> sync_matched n \<and> length (filter (\<lambda>v. v) (frame_valid n)) = cams
      then n\<lparr>sync_matched := True\<rparr> else n)"

definition mm_frame_sync_add :: "uint32 \<Rightarrow> ptr \<Rightarrow> frame_sync \<Rightarrow> int32 \<times> frame_sync" where
  "mm_frame_sync_add frame_id ch fs =
     (if frame_id = 0 \<or> ch = NULL then (- 1, fs)
      else case index_of (\<lambda>c. c = ch) (sync_ch fs) of
        None \<Rightarrow> (- 1, fs)
      | Some ch_idx \<Rightarrow>
          let (i, fs) =
            (case mm_frame_sync_find_frame_index frame_id fs of
               Some i \<Rightarrow>
                 (i, fs\<lparr>sync_nodes := (sync_nodes fs)
                      [i := (sync_nodes fs ! i)\<lparr>frame_valid := (frame_valid (sync_nodes fs ! i))[ch_idx := True]\<rparr>]\<rparr>)
             | None \<Rightarrow>
                 let i = (if MM_CAMERA_FRAME_SYNC_NODES \<le> sync_pos fs then 0 else sync_pos fs)
                 in (i, fs\<lparr>sync_pos := i + 1,
                          sync_nodes := (sync_nodes fs)
                            [i := no_sync_node\<lparr>sync_frame_idx := frame_id,
                                frame_valid := (frame_valid no_sync_node)[ch_idx := True],
                                sync_matched := (num_cam fs = 1)\<rparr>]\<rparr>))
          in (0, fs\<lparr>sync_nodes := (sync_nodes fs)[i := mark_matched (num_cam fs) (sync_nodes fs ! i)]\<rparr>))"

definition mm_frame_sync_remove :: "uint32 \<Rightarrow> frame_sync \<Rightarrow> int32 \<times> frame_sync" where
  "mm_frame_sync_remove frame_id fs =
     (if frame_id = 0 then (- 1, fs)
      else case mm_frame_sync_find_frame_index frame_id fs of
        Some i \<Rightarrow> (0, fs\<lparr>sync_nodes := (sync_nodes fs)[i := no_sync_node]\<rparr>)
      | None \<Rightarrow> (0, fs))"

text \<open>
  The search for a matched frame: the first one, or with \<open>oldest\<close> the smallest.  \<open>0\<close> is none.
\<close>

fun find_matched_from :: "bool \<Rightarrow> uint32 \<Rightarrow> sync_node list \<Rightarrow> uint32" where
  "find_matched_from oldest frame [] = frame"
| "find_matched_from oldest frame (n # ns) =
     (if sync_matched n then
        (let curr = sync_frame_idx n;
             frame = (if frame = 0 then curr else frame)
         in if \<not> oldest then frame
            else find_matched_from oldest (if curr < frame then curr else frame) ns)
      else find_matched_from oldest frame ns)"

definition mm_frame_sync_find_matched :: "bool \<Rightarrow> frame_sync \<Rightarrow> uint32" where
  "mm_frame_sync_find_matched oldest fs = find_matched_from oldest 0 (sync_nodes fs)"

end
