(* ===== verification/Superbuf.thy ===== *)
theory Superbuf
  imports FrameSync
begin

text \<open>
  The queue of superbuffers of \<^verbatim>\<open>stack/mm-camera-interface/src/mm_camera_channel.c\<close>: frames that the
  bundled streams deliver one by one are put together, by frame number, to superbuffers that have a
  buffer of every stream.  The queue's list is a HOL list of its nodes (the links are those of
  \<open>CamList\<close>); a position in it is an index.  The functions take the address of the channel, the
  channel and the frames that are synchronised with the other camera.
\<close>

section \<open>Giving buffers back\<close>

text \<open>The loops over the buffers of a node, with the test for a frame number or for a buffer.\<close>

definition node_entries :: "queue_node \<Rightarrow> mm_camera_buf_info list" where
  "node_entries n = take (num_of_bufs n) (super_buf n)"

definition qbuf_frames :: "queue_node \<Rightarrow> mm_channel \<Rightarrow> mm_channel" where
  "qbuf_frames n c =
     fold (\<lambda>e c. if frame_idx e \<noteq> 0 then mm_channel_qbuf (buf e) c else c) (node_entries n) c"

definition qbuf_buffers :: "queue_node \<Rightarrow> mm_channel \<Rightarrow> mm_channel" where
  "qbuf_buffers n c =
     fold (\<lambda>e c. if buf e \<noteq> None then mm_channel_qbuf (buf e) c else c) (node_entries n) c"

definition mm_channel_node_qbuf :: "queue_node \<Rightarrow> mm_channel \<Rightarrow> mm_channel" where
  "mm_channel_node_qbuf n c = fold (\<lambda>e. mm_channel_qbuf (buf e)) (node_entries n) c"

section \<open>Taking superbuffers out\<close>

definition frame_sync_remove :: "queue_node \<Rightarrow> mm_channel \<Rightarrow> frame_sync \<Rightarrow> frame_sync" where
  "frame_sync_remove n c fs =
     (if enable_frame_sync (attr (superbuf_queue c))
      then snd (mm_frame_sync_remove (node_frame_idx n) fs) else fs)"

definition mm_channel_superbuf_dequeue_internal ::
  "bool \<Rightarrow> mm_channel \<times> frame_sync \<Rightarrow> queue_node option \<times> mm_channel \<times> frame_sync" where
  "mm_channel_superbuf_dequeue_internal matched_only cf =
     (case cf of (c, fs) \<Rightarrow>
       (case que (superbuf_queue c) of
          [] \<Rightarrow> (None, c, fs)
        | n # ns \<Rightarrow>
            if matched_only \<and> \<not> matched n then (None, c, fs)
            else
              let c = upd_queue (\<lambda>q. q\<lparr>que := ns, que_size := que_size q - 1\<rparr>) c in
              if matched n
              then (Some n, upd_queue (\<lambda>q. q\<lparr>match_cnt := match_cnt q - 1\<rparr>) c,
                    frame_sync_remove n c fs)
              else (Some n, c, fs)))"

definition mm_channel_superbuf_dequeue ::
  "mm_channel \<times> frame_sync \<Rightarrow> queue_node option \<times> mm_channel \<times> frame_sync" where
  "mm_channel_superbuf_dequeue = mm_channel_superbuf_dequeue_internal True"

definition mm_channel_superbuf_dequeue_frame_internal ::
  "uint32 \<Rightarrow> mm_channel \<Rightarrow> queue_node option \<times> mm_channel" where
  "mm_channel_superbuf_dequeue_frame_internal frame c =
     (let ns = que (superbuf_queue c) in
      case index_of (\<lambda>n. matched n \<and> node_frame_idx n = frame) ns of
        None \<Rightarrow> (None, c)
      | Some i \<Rightarrow>
          (Some (ns ! i),
           upd_queue (\<lambda>q. q\<lparr>que := take i ns @ drop (i + 1) ns, que_size := que_size q - 1,
                            match_cnt := match_cnt q - 1\<rparr>) c))"

text \<open>
  The loops that keep the queue small.  A round that finds the first superbuffer incomplete changes
  nothing, so the loop then runs for ever.
\<close>

partial_function (option) trim_loop ::
  "uint8 \<Rightarrow> mm_channel \<times> frame_sync \<Rightarrow> (mm_channel \<times> frame_sync) option" where
  "trim_loop limit cf =
     (if match_cnt (superbuf_queue (fst cf)) \<le> ucast limit then Some cf
      else case mm_channel_superbuf_dequeue_internal True cf of
        (None, cf) \<Rightarrow> trim_loop limit cf
      | (Some n, c, fs) \<Rightarrow> trim_loop limit (qbuf_buffers n c, fs))"

definition mm_channel_superbuf_bufdone_overflow ::
  "mm_channel \<times> frame_sync \<Rightarrow> (mm_channel \<times> frame_sync) option" where
  "mm_channel_superbuf_bufdone_overflow cf =
     (let a = attr (superbuf_queue (fst cf)) in
      if notify_mode a = NOTIFY_CONTINUOUS then Some cf else trim_loop (water_mark a) cf)"

definition mm_channel_superbuf_skip ::
  "mm_channel \<times> frame_sync \<Rightarrow> (mm_channel \<times> frame_sync) option" where
  "mm_channel_superbuf_skip cf =
     (let a = attr (superbuf_queue (fst cf)) in
      if notify_mode a = NOTIFY_CONTINUOUS then Some cf else trim_loop (look_back a) cf)"

text \<open>
  Flushing: of the buffers of a node, those of the stream type asked for are given back
  (\<open>CAM_STREAM_TYPE_DEFAULT\<close> asks for all).
\<close>

definition wanted_type :: "cam_stream_type \<Rightarrow> mm_camera_buf_info \<Rightarrow> bool" where
  "wanted_type t e \<longleftrightarrow>
     (case buf e of None \<Rightarrow> False | Some b \<Rightarrow> t = CAM_STREAM_TYPE_DEFAULT \<or> t = stream_type b)"

definition qbuf_type :: "cam_stream_type \<Rightarrow> queue_node \<Rightarrow> mm_channel \<Rightarrow> mm_channel" where
  "qbuf_type t n c =
     fold (\<lambda>e c. if wanted_type t e then mm_channel_qbuf (buf e) c else c) (node_entries n) c"

lemma qbuf_queue [simp]:
  "superbuf_queue (mm_channel_qbuf b c) = superbuf_queue c"
  "superbuf_queue (qbuf_frames n c) = superbuf_queue c"
  "superbuf_queue (qbuf_buffers n c) = superbuf_queue c"
  "superbuf_queue (mm_channel_node_qbuf n c) = superbuf_queue c"
  "superbuf_queue (qbuf_type t n c) = superbuf_queue c"
proof -
  show b: "superbuf_queue (mm_channel_qbuf b c) = superbuf_queue c" for b c
    by (simp add: mm_channel_qbuf_def split: option.split)
  have "superbuf_queue (fold f es c) = superbuf_queue c"
    if "\<And>e c. superbuf_queue (f e c) = superbuf_queue c" for f :: "mm_camera_buf_info \<Rightarrow> mm_channel \<Rightarrow> mm_channel"
      and es c
    using that by (induction es arbitrary: c) simp_all
  then show
    "superbuf_queue (qbuf_frames n c) = superbuf_queue c"
    "superbuf_queue (qbuf_buffers n c) = superbuf_queue c"
    "superbuf_queue (mm_channel_node_qbuf n c) = superbuf_queue c"
    "superbuf_queue (qbuf_type t n c) = superbuf_queue c"
    by (simp_all add: qbuf_frames_def qbuf_buffers_def mm_channel_node_qbuf_def qbuf_type_def b)
qed

lemma upd_queue_simps [simp]:
  "superbuf_queue (upd_queue f c) = f (superbuf_queue c)"
  "qbufs (upd_queue f c) = qbufs c"
  by (simp_all add: upd_queue_def)

function mm_channel_superbuf_flush ::
  "cam_stream_type \<Rightarrow> mm_channel \<times> frame_sync \<Rightarrow> mm_channel \<times> frame_sync" where
  "mm_channel_superbuf_flush t cf =
     (case mm_channel_superbuf_dequeue_internal False cf of
        (None, cf) \<Rightarrow> cf
      | (Some n, c, fs) \<Rightarrow> mm_channel_superbuf_flush t (qbuf_type t n c, fs))"
  by pat_completeness auto

termination
  by (relation "measure (\<lambda>(t, c, fs). length (que (superbuf_queue c)))")
    (auto simp: mm_channel_superbuf_dequeue_internal_def Let_def split: list.splits if_splits prod.splits)

declare mm_channel_superbuf_flush.simps [simp del]

function mm_channel_superbuf_flush_matched ::
  "mm_channel \<times> frame_sync \<Rightarrow> mm_channel \<times> frame_sync" where
  "mm_channel_superbuf_flush_matched cf =
     (case mm_channel_superbuf_dequeue_internal True cf of
        (None, cf) \<Rightarrow> cf
      | (Some n, c, fs) \<Rightarrow> mm_channel_superbuf_flush_matched (qbuf_buffers n c, fs))"
  by pat_completeness auto

termination
  by (relation "measure (\<lambda>(c, fs). length (que (superbuf_queue c)))")
    (auto simp: mm_channel_superbuf_dequeue_internal_def Let_def split: list.splits if_splits prod.splits)

declare mm_channel_superbuf_flush_matched.simps [simp del]

end
