(* ===== verification/SuperbufMeta.thy ===== *)
theory SuperbufMeta
  imports Superbuf
begin

text \<open>
  \<open>mm_channel_handle_metadata\<close>: what the metadata of a frame says about the frames to come.  Its body
  is cut into the blocks of the source, each a function on the channel.  An array read outside its
  bounds (\<open>capture_frame_id\<close> when all 32 batches are done) is an unspecified value, as in C.
\<close>

definition MM_CAMERA_MAX_FUTURE_FRAME_WAIT :: uint32 where
  "MM_CAMERA_MAX_FUTURE_FRAME_WAIT = 100"

definition set_expected :: "uint32 \<Rightarrow> mm_channel \<Rightarrow> mm_channel" where
  "set_expected f = upd_queue (\<lambda>q. q\<lparr>expected_frame_id := f\<rparr>)"

definition set_good :: "uint32 \<Rightarrow> mm_channel \<Rightarrow> mm_channel" where
  "set_good f = upd_queue (\<lambda>q. q\<lparr>good_frame_id := f\<rparr>)"

definition wait_future_frame :: "mm_channel \<Rightarrow> mm_channel" where
  "wait_future_frame =
     upd_queue (\<lambda>q. q\<lparr>expected_frame_id := expected_frame_id q + MM_CAMERA_MAX_FUTURE_FRAME_WAIT\<rparr>)"

definition mm_channel_util_get_stream_by_handler :: "mm_channel \<Rightarrow> uint32 \<Rightarrow> stream_slot option" where
  "mm_channel_util_get_stream_by_handler c handler =
     find (\<lambda>s. slot_used s \<and> handler = slot_hdl s) (streams c)"

text \<open>Whether the crop data say that the snapshot stream is not zoomed.\<close>

definition snapshot_stream_id :: "mm_channel \<Rightarrow> uint32" where
  "snapshot_stream_id c =
     (case find (\<lambda>s. slot_used s \<and> slot_type s = Some CAM_STREAM_TYPE_SNAPSHOT) (streams c) of
        None \<Rightarrow> 0 | Some s \<Rightarrow> server_stream_id s)"

definition is_crop_1x_found :: "mm_channel \<Rightarrow> metadata_buffer \<Rightarrow> bool" where
  "is_crop_1x_found c m =
     (case meta_crop_data m of
        None \<Rightarrow> False
      | Some infos \<Rightarrow>
          list_ex (\<lambda>(sid, left, top). snapshot_stream_id c = sid \<and> left = 0 \<and> top = 0) infos)"

definition meta_divert :: "metadata_buffer \<Rightarrow> uint32 \<Rightarrow> mm_channel \<Rightarrow> mm_channel" where
  "meta_divert m frame c =
     (case meta_divert_frame_id m of
        None \<Rightarrow> c
      | Some f \<Rightarrow> c\<lparr>diverted_frame_id := (if frame \<le> f then ucast f else 0)\<rparr>)"

definition meta_zoom ::
  "metadata_buffer \<Rightarrow> uint32 \<Rightarrow> mm_channel \<times> frame_sync \<Rightarrow> mm_channel \<times> frame_sync" where
  "meta_zoom m frame cf =
     (case cf of (c, fs) \<Rightarrow>
        if is_crop_1x_found c m
        then (set_expected (frame + 1) (c\<lparr>isZoom1xFrameRequested := False\<rparr>), fs)
        else mm_channel_superbuf_flush_matched (wait_future_frame c, fs))"

definition meta_prep ::
  "metadata_buffer \<Rightarrow> mm_channel \<times> frame_sync \<Rightarrow> mm_channel \<times> frame_sync" where
  "meta_prep m cf =
     (case cf of (c, fs) \<Rightarrow>
       (case meta_need_future_frame m of
          None \<Rightarrow> (c, fs)
        | Some need \<Rightarrow>
            let c = c\<lparr>bWaitForPrepSnapshotDone := False\<rparr> in
            if need
            then (case mm_channel_superbuf_flush CAM_STREAM_TYPE_DEFAULT (wait_future_frame c, fs) of
                    (c, fs) \<Rightarrow> (c\<lparr>needLEDFlash := True\<rparr>, fs))
            else (c\<lparr>needLEDFlash := False\<rparr>, fs)))"

definition meta_good_range ::
  "metadata_buffer \<Rightarrow> mm_channel \<times> frame_sync \<Rightarrow> mm_channel \<times> frame_sync" where
  "meta_good_range m cf =
     (case cf of (c, fs) \<Rightarrow>
       (case meta_good_frame_idx_range m of
          Some r \<Rightarrow>
            let c = set_good (min_frame_idx r) (set_expected (min_frame_idx r) c) in
            (if needLEDFlash c \<and> 1 < burstSnapNum c
             then upd_queue (\<lambda>q. q\<lparr>led_on_start_frame_id := min_frame_idx r,
                    led_off_start_frame_id := max_frame_idx r, once := False,
                    led_on_num_frames := num_led_on_frames r,
                    frame_skip_count := range_skip_count r\<rparr>) c
             else c, fs)
        | None \<Rightarrow>
            if bracketingState c = BRACKETING_WAIT_GOOD_FRAME_IDX \<and> meta_need_future_frame m = None
            then (case mm_channel_superbuf_flush_matched (c, fs) of
                    (c, fs) \<Rightarrow> (wait_future_frame c, fs))
            else (c, fs)))"

definition meta_bracketing :: "metadata_buffer \<Rightarrow> mm_channel \<Rightarrow> mm_channel" where
  "meta_bracketing m c =
     (case meta_good_frame_idx_range m of
        None \<Rightarrow> c
      | Some r \<Rightarrow>
          if isFlashBracketingEnabled c
          then set_good (min_frame_idx r)
                 (upd_queue (\<lambda>q. q\<lparr>expected_frame_id_without_led := max_frame_idx r\<rparr>)
                   (set_expected (min_frame_idx r) c))
          else set_good (min_frame_idx r)
                 ((set_expected (min_frame_idx r) c)\<lparr>bracketingState := BRACKETING_ACTIVE\<rparr>))"

definition meta_config_capture :: "metadata_buffer \<Rightarrow> mm_channel \<Rightarrow> mm_channel" where
  "meta_config_capture m c =
     (case meta_good_frame_idx_range m of
        None \<Rightarrow> c
      | Some r \<Rightarrow>
          if isConfigCapture c \<and> unat (config_batch_idx r) < num_batch (frameConfig c)
          then
            let batch = unat (config_batch_idx r);
                c = c\<lparr>capture_frame_id := (capture_frame_id c)[batch := min_frame_idx r]\<rparr>;
                f = (if cur_capture_idx c = batch then min_frame_idx r
                     else capture_frame_id c ! cur_capture_idx c)
            in set_good f (set_expected f c)
          else c)"

definition meta_burst :: "uint32 \<Rightarrow> mm_channel \<Rightarrow> mm_channel" where
  "meta_burst frame c =
     (let q = superbuf_queue c in
      if 1 < burstSnapNum c \<and> needLEDFlash c \<and> \<not> isFlashBracketingEnabled c
         \<and> bracketingState c = BRACKETING_OFF \<and> \<not> isConfigCapture c
         \<and> led_off_start_frame_id q \<le> frame \<and> \<not> once q
      then (upd_queue (\<lambda>q. q\<lparr>expected_frame_id := led_off_start_frame_id q + frame_skip_count q,
                           once := True\<rparr>) c)
             \<lparr>stopZslSnapshot := True, needLEDFlash := False\<rparr>
      else c)"

definition meta_apply_low_light :: "metadata_buffer \<Rightarrow> mm_channel \<Rightarrow> mm_channel" where
  "meta_apply_low_light m c =
     (case meta_low_light m of None \<Rightarrow> c | Some on \<Rightarrow> c\<lparr>needLowLightZSL := on\<rparr>)"

definition reset_user_expected :: "mm_channel \<Rightarrow> mm_channel" where
  "reset_user_expected =
     upd_queue (\<lambda>q. q\<lparr>attr := (attr q)\<lparr>user_expected_frame_id := 0\<rparr>\<rparr>)"

definition meta_instant_capture :: "metadata_buffer \<Rightarrow> uint32 \<Rightarrow> mm_channel \<Rightarrow> mm_channel" where
  "meta_instant_capture m frame c =
     (let user = user_expected_frame_id (attr (superbuf_queue c)) in
      if 0 < user then
        if frame < ucast user
        then (if meta_aec_settled m = Some True then reset_user_expected (set_expected frame c) else c)
        else reset_user_expected c
      else c)"

definition handle_meta_entries ::
  "metadata_buffer \<Rightarrow> uint32 \<Rightarrow> mm_channel \<times> frame_sync \<Rightarrow> mm_channel \<times> frame_sync" where
  "handle_meta_entries m frame cf =
     (let cf = map_prod (meta_divert m frame) id cf in
      if isZoom1xFrameRequested (fst cf) then meta_zoom m frame cf
      else map_prod
             (meta_instant_capture m frame \<circ> meta_apply_low_light m \<circ> meta_burst frame
              \<circ> meta_config_capture m \<circ> meta_bracketing m) id
             (meta_good_range m (meta_prep m cf)))"

definition mm_channel_handle_metadata ::
  "mm_camera_buf_info \<Rightarrow> mm_channel \<times> frame_sync \<Rightarrow> int32 \<times> mm_channel \<times> frame_sync" where
  "mm_channel_handle_metadata b cf =
     (case mm_channel_util_get_stream_by_handler (fst cf) (stream_id b) of
        None \<Rightarrow> (- 1, cf)
      | Some s \<Rightarrow>
         (case slot_type s of
            None \<Rightarrow> (- 1, cf)
          | Some t \<Rightarrow>
              if t = CAM_STREAM_TYPE_METADATA \<and> (slot_owned s \<or> slot_linked s)
              then (case Option.bind (buf b) buffer_meta of
                      None \<Rightarrow> (- 1, cf)
                    | Some m \<Rightarrow> (0, handle_meta_entries m (frame_idx b) cf))
              else (0, cf)))"

end
