(* ===== verification/SuperbufMatch.thy ===== *)
theory SuperbufMatch
  imports SuperbufMeta
begin

text \<open>
  \<open>mm_channel_superbuf_comp_and_enqueue\<close>: an incoming buffer is put into the superbuffer of its frame,
  or into a new one.  The function locks the queue, so it is one step.

  The loop that removes old incomplete superbuffers goes on with the node it has just freed.  When it
  ends there the node's stale link is not used; when it does not end there the code works on freed
  memory, and the model has no result (None).
\<close>

section \<open>The walk over the queue\<close>

definition is_metadata :: "mm_camera_buf_info \<Rightarrow> bool" where
  "is_metadata b =
     (case buf b of None \<Rightarrow> False | Some d \<Rightarrow> stream_type d = CAM_STREAM_TYPE_METADATA)"

text \<open>Whether an incomplete superbuffer takes the buffer, which is of the \<open>s\<close>-th bundled stream.\<close>

definition takes :: "superbuf_priority \<Rightarrow> nat \<Rightarrow> mm_camera_buf_info \<Rightarrow> queue_node \<Rightarrow> bool" where
  "takes p s b n \<longleftrightarrow>
     frame_idx b = node_frame_idx n
     \<or> p = PRIORITY_LOW \<and> frame_idx (super_buf n ! s) = 0 \<and> is_metadata b
       \<and> node_frame_idx n < frame_idx b
     \<or> p = PRIORITY_LOW \<and> \<not> is_metadata b \<and> frame_idx (super_buf n ! s) = 0
       \<and> frame_idx b < unmatched_meta_idx n"

text \<open>
  What the walk finds: the index of the superbuffer that takes the buffer, the number of incomplete
  superbuffers before it, the first of them that is older than the buffer and the first that is newer.
\<close>

record walk =
  found :: "nat option"
  unmatched_bundles :: uint8
  last_buf :: "nat option"
  insert_before_buf :: "nat option"

definition pass :: "mm_camera_buf_info \<Rightarrow> nat \<Rightarrow> queue_node \<Rightarrow> walk \<Rightarrow> walk" where
  "pass b i n w =
     w\<lparr>unmatched_bundles := unmatched_bundles w + 1,
       last_buf := (if last_buf w = None \<and> node_frame_idx n < frame_idx b then Some i else last_buf w),
       insert_before_buf :=
         (if insert_before_buf w = None \<and> frame_idx b < node_frame_idx n then Some i
          else insert_before_buf w)\<rparr>"

fun walk_queue ::
  "superbuf_priority \<Rightarrow> nat \<Rightarrow> mm_camera_buf_info \<Rightarrow> nat \<Rightarrow> queue_node list \<Rightarrow> walk \<Rightarrow> walk" where
  "walk_queue p s b i [] w = w"
| "walk_queue p s b i (n # ns) w =
     (if matched n then walk_queue p s b (i + 1) ns w
      else if takes p s b n then w\<lparr>found := Some i\<rparr>
      else walk_queue p s b (i + 1) ns (pass b i n w))"

definition start_walk :: walk where
  "start_walk =
     \<lparr>found = None, unmatched_bundles = 0, last_buf = None, insert_before_buf = None\<rparr>"

section \<open>Filling a superbuffer\<close>

definition sync_added :: "ptr \<Rightarrow> uint32 \<Rightarrow> mm_channel \<Rightarrow> frame_sync \<Rightarrow> frame_sync" where
  "sync_added self frame c fs =
     (if enable_frame_sync (attr (superbuf_queue c))
      then snd (mm_frame_sync_add frame self fs) else fs)"

text \<open>A superbuffer that had metadata only takes the frame number of its first picture.\<close>

definition settle_idx :: "uint32 \<Rightarrow> queue_node \<Rightarrow> queue_node" where
  "settle_idx frame n =
     (if 0 < unmatched_meta_idx n then n\<lparr>unmatched_meta_idx := 0, node_frame_idx := frame\<rparr> else n)"

definition put_buf :: "nat \<Rightarrow> mm_camera_buf_info \<Rightarrow> queue_node \<Rightarrow> queue_node" where
  "put_buf s b n =
     (let n = n\<lparr>super_buf := (super_buf n)[s := b]\<rparr>
      in n\<lparr>matched := list_all (\<lambda>e. frame_idx e \<noteq> 0) (node_entries n)\<rparr>)"

definition set_node :: "nat \<Rightarrow> queue_node \<Rightarrow> mm_channel \<Rightarrow> mm_channel" where
  "set_node i n = upd_queue (\<lambda>q. q\<lparr>que := (que q)[i := n]\<rparr>)"

definition next_expected :: "uint32 \<Rightarrow> mm_channel \<Rightarrow> mm_channel" where
  "next_expected frame c =
     (if isFlashBracketingEnabled c
      then (let f = expected_frame_id_without_led (superbuf_queue c);
                c = set_expected f c
            in if f \<le> frame then c\<lparr>isFlashBracketingEnabled := False\<rparr> else c)
      else set_expected (frame + ucast (post_frame_skip (attr (superbuf_queue c)))) c)"

definition count_match :: "mm_channel \<Rightarrow> mm_channel" where
  "count_match = upd_queue (\<lambda>q. q\<lparr>match_cnt := match_cnt q + 1\<rparr>)"

text \<open>The superbuffers at the positions from \<open>l\<close> up to (not including) \<open>i\<close> are released.\<close>

definition remove_nodes :: "nat \<Rightarrow> nat \<Rightarrow> mm_channel \<Rightarrow> mm_channel" where
  "remove_nodes l i c =
     (let ns = que (superbuf_queue c) in
      upd_queue (\<lambda>q. q\<lparr>que := take l ns @ drop i ns, que_size := que_size q - of_nat (i - l)\<rparr>)
        (fold qbuf_frames (take (i - l) (drop l ns)) c))"

definition fill_superbuf ::
  "ptr \<Rightarrow> nat \<Rightarrow> mm_camera_buf_info \<Rightarrow> nat \<Rightarrow> nat option \<Rightarrow> mm_channel \<times> frame_sync
     \<Rightarrow> mm_channel \<times> frame_sync" where
  "fill_superbuf self s b i lastb cf =
     (case cf of (c, fs) \<Rightarrow>
        let n = settle_idx (frame_idx b) (que (superbuf_queue c) ! i) in
        if frame_idx (super_buf n ! s) \<noteq> 0
        then (mm_channel_qbuf (buf b) (set_node i n c), fs)
        else
          let n = put_buf s b n in
          if matched n
          then
            let c = count_match (set_node i (n\<lparr>expected_frame := False\<rparr>) (next_expected (frame_idx b) c));
                fs = sync_added self (frame_idx b) c fs
            in (case lastb of None \<Rightarrow> c | Some l \<Rightarrow> remove_nodes l i c, fs)
          else if ucast (diverted_frame_id c) = frame_idx b
          then ((set_node i (n\<lparr>expected_frame := True\<rparr>) c)\<lparr>diverted_frame_id := 0\<rparr>, fs)
          else (set_node i n c, fs))"

section \<open>Inserting a new superbuffer\<close>

text \<open>
  The loop that removes an old incomplete superbuffer: the first one from \<open>last_buf\<close> on that is not
  expected and is not the one to insert before.
\<close>

definition removable :: "nat option \<Rightarrow> queue_node list \<Rightarrow> nat \<Rightarrow> bool" where
  "removable before ns k \<longleftrightarrow> \<not> expected_frame (ns ! k) \<and> Some k \<noteq> before"

definition drop_old ::
  "uint8 \<Rightarrow> walk \<Rightarrow> mm_channel \<Rightarrow> (mm_channel \<times> uint8 \<times> nat option) option" where
  "drop_old limit w c =
     (let u = unmatched_bundles w; before = insert_before_buf w; ns = que (superbuf_queue c) in
      case last_buf w of
        None \<Rightarrow> Some (c, u, before)
      | Some l \<Rightarrow>
          if u \<le> limit then Some (c, u, before)
          else case find (removable before ns) [l ..< length ns] of
            None \<Rightarrow> Some (c, u, before)
          | Some k \<Rightarrow>
              if u - 1 \<le> limit
              then Some (remove_nodes k (k + 1) c, u - 1,
                         map_option (\<lambda>i. if k < i then i - 1 else i) before)
              else None)"

text \<open>When none could be removed there, the first old one is removed, expected or not.\<close>

definition drop_last ::
  "uint8 \<Rightarrow> walk \<Rightarrow> mm_channel \<times> uint8 \<times> nat option \<Rightarrow> mm_channel \<times> nat option" where
  "drop_last limit w x =
     (case x of (c, u, before) \<Rightarrow>
       (case last_buf w of
          None \<Rightarrow> (c, before)
        | Some l \<Rightarrow>
            if u \<le> limit then (c, before)
            else (remove_nodes l (l + 1) c, map_option (\<lambda>i. if l < i then i - 1 else i) before)))"

definition new_superbuf :: "nat \<Rightarrow> mm_camera_buf_info \<Rightarrow> channel_queue \<Rightarrow> queue_node" where
  "new_superbuf s b q =
     \<lparr>num_of_bufs = num_streams q,
      super_buf = (replicate MAX_STREAM_NUM_IN_BUNDLE no_buf)[s := b],
      matched = False, expected_frame = False, node_frame_idx = frame_idx b,
      unmatched_meta_idx =
        (if priority (attr q) = PRIORITY_LOW \<and> is_metadata b then frame_idx b else 0)\<rparr>"

definition insert_node :: "nat option \<Rightarrow> queue_node \<Rightarrow> mm_channel \<Rightarrow> mm_channel" where
  "insert_node before n =
     upd_queue (\<lambda>q. q\<lparr>que := (case before of None \<Rightarrow> que q @ [n]
                               | Some i \<Rightarrow> take i (que q) @ n # drop i (que q)),
                       que_size := que_size q + 1\<rparr>)"

definition add_superbuf ::
  "ptr \<Rightarrow> nat \<Rightarrow> mm_camera_buf_info \<Rightarrow> nat option \<Rightarrow> mm_channel \<times> frame_sync
     \<Rightarrow> mm_channel \<times> frame_sync" where
  "add_superbuf self s b before cf =
     (case cf of (c, fs) \<Rightarrow>
        let q = superbuf_queue c; n = new_superbuf s b q;
            diverted = ucast (diverted_frame_id c) = frame_idx b \<or> frame_idx b = good_frame_id q;
            n = n\<lparr>expected_frame := diverted\<rparr>;
            c = (if diverted then c\<lparr>diverted_frame_id := 0\<rparr> else c)
        in if num_streams q = 1
           then
             let c = insert_node before (n\<lparr>matched := True, expected_frame := False\<rparr>) c;
                 c = count_match
                       (set_expected (frame_idx b + ucast (post_frame_skip (attr q))) c)
             in (c, sync_added self (frame_idx b) c fs)
           else (insert_node before n c, fs))"

definition start_superbuf ::
  "ptr \<Rightarrow> bool \<Rightarrow> nat \<Rightarrow> mm_camera_buf_info \<Rightarrow> walk \<Rightarrow> mm_channel \<times> frame_sync
     \<Rightarrow> (mm_channel \<times> frame_sync) option" where
  "start_superbuf self memory s b w cf =
     (case cf of (c, fs) \<Rightarrow>
        let limit = max_unmatched_frames (attr (superbuf_queue c)) in
        if limit < unmatched_bundles w \<and> last_buf w = None
        then Some (mm_channel_qbuf (buf b) c, fs)
        else
          (case drop_old limit w c of
             None \<Rightarrow> None
           | Some x \<Rightarrow>
               (case drop_last limit w x of (c, before) \<Rightarrow>
                  Some (if memory then add_superbuf self s b before (c, fs)
                        else (mm_channel_qbuf (buf b) c, fs)))))"

section \<open>The function\<close>

definition mm_channel_validate_super_buf :: "channel_queue \<Rightarrow> mm_camera_buf_info \<Rightarrow> bool" where
  "mm_channel_validate_super_buf q b =
     list_ex (\<lambda>n. expected_frame n \<and> frame_idx b = node_frame_idx n) (que q)"

definition mm_channel_util_seq_comp_w_rollover :: "uint32 \<Rightarrow> uint32 \<Rightarrow> int" where
  "mm_channel_util_seq_comp_w_rollover v1 v2 = (if v2 < v1 then 1 else if v1 < v2 then - 1 else 0)"

definition match_buf ::
  "ptr \<Rightarrow> bool \<Rightarrow> nat \<Rightarrow> mm_camera_buf_info \<Rightarrow> mm_channel \<times> frame_sync
     \<Rightarrow> (mm_channel \<times> frame_sync) option" where
  "match_buf self memory s b cf =
     (let q = superbuf_queue (fst cf);
          w = walk_queue (priority (attr q)) s b 0 (que q) start_walk
      in case found w of
           Some i \<Rightarrow> Some (fill_superbuf self s b i (last_buf w) cf)
         | None \<Rightarrow> start_superbuf self memory s b w cf)"

definition mm_channel_superbuf_comp_and_enqueue ::
  "ptr \<Rightarrow> bool \<Rightarrow> mm_camera_buf_info \<Rightarrow> mm_channel \<times> frame_sync
     \<Rightarrow> (int32 \<times> mm_channel \<times> frame_sync) option" where
  "mm_channel_superbuf_comp_and_enqueue self memory b cf =
     (let q = superbuf_queue (fst cf) in
      case index_of (\<lambda>hdl. stream_id b = hdl) (take (num_streams q) (bundled_streams q)) of
        None \<Rightarrow> Some (- 1, cf)
      | Some s \<Rightarrow>
          if frame_idx b = 0 then Some (0, map_prod (mm_channel_qbuf (buf b)) id cf)
          else
            (case mm_channel_handle_metadata b cf of (rc, cf) \<Rightarrow>
               if sint rc < 0 then Some (- 1, map_prod (mm_channel_qbuf (buf b)) id cf)
               else if mm_channel_util_seq_comp_w_rollover (frame_idx b)
                         (expected_frame_id (superbuf_queue (fst cf))) < 0
                       \<and> \<not> mm_channel_validate_super_buf (superbuf_queue (fst cf)) b
               then Some (0, map_prod (mm_channel_qbuf (buf b)) id cf)
               else map_option (Pair 0) (match_buf self memory s b cf)))"

end
