(* ===== verification/SuperbufInv.thy ===== *)
theory SuperbufInv
  imports SuperbufMatch "HOL-Library.Multiset"
begin

text \<open>
  Where the buffers are: a buffer that has come in is in the queue or has been given back
  (\<open>all_bufs\<close> counts both), and no function of the queue loses or duplicates one.
\<close>

section \<open>Well-formed nodes\<close>

definition entry_ok :: "mm_camera_buf_info \<Rightarrow> bool" where
  "entry_ok e \<longleftrightarrow> (frame_idx e = 0 \<longleftrightarrow> buf e = None)"

definition node_ok :: "nat \<Rightarrow> queue_node \<Rightarrow> bool" where
  "node_ok k n \<longleftrightarrow>
     num_of_bufs n = k \<and> length (super_buf n) = MAX_STREAM_NUM_IN_BUNDLE
     \<and> list_all entry_ok (super_buf n)
     \<and> (matched n \<longleftrightarrow> list_all (\<lambda>e. frame_idx e \<noteq> 0) (node_entries n))
     \<and> list_ex (\<lambda>e. frame_idx e \<noteq> 0) (node_entries n)"

definition queue_ok :: "channel_queue \<Rightarrow> bool" where
  "queue_ok q \<longleftrightarrow>
     num_streams q \<le> MAX_STREAM_NUM_IN_BUNDLE \<and> num_streams q \<le> length (bundled_streams q)
     \<and> list_all (node_ok (num_streams q)) (que q)
     \<and> que_size q = of_nat (length (que q))"

definition counted :: "channel_queue \<Rightarrow> bool" where
  "counted q \<longleftrightarrow> match_cnt q = of_nat (length (filter matched (que q)))"

definition held_of :: "queue_node \<Rightarrow> mm_camera_buf_def list" where
  "held_of n = List.map_filter buf (node_entries n)"

definition held :: "queue_node list \<Rightarrow> mm_camera_buf_def multiset" where
  "held ns = mset (concat (map held_of ns))"

definition all_bufs :: "mm_channel \<Rightarrow> mm_camera_buf_def multiset" where
  "all_bufs c = mset (qbufs c) + held (que (superbuf_queue c))"

lemma held_simps [simp]:
  "held [] = {#}" "held (n # ns) = mset (held_of n) + held ns" "held (ms @ ns) = held ms + held ns"
  by (simp_all add: held_def)

lemma held_cong: "held_of m = held_of n \<Longrightarrow> held (xs @ m # ys) = held (xs @ n # ys)"
  by simp

section \<open>Giving buffers back\<close>

lemma qbufs_qbuf [simp]:
  "qbufs (mm_channel_qbuf b c) = qbufs c @ (case b of None \<Rightarrow> [] | Some b \<Rightarrow> [b])"
  by (simp add: mm_channel_qbuf_def split: option.split)

lemma map_filter_qbufs:
  assumes "\<And>e c. e \<in> set es \<Longrightarrow> qbufs (f e c) = qbufs c @ (case buf e of None \<Rightarrow> [] | Some b \<Rightarrow> [b])"
  shows "qbufs (fold f es c) = qbufs c @ List.map_filter buf es"
  using assms by (induction es arbitrary: c) (simp_all add: List.map_filter_def split: option.split)

lemma entries_ok: "node_ok k n \<Longrightarrow> e \<in> set (node_entries n) \<Longrightarrow> entry_ok e"
  by (auto simp: node_ok_def node_entries_def list_all_iff dest: in_set_takeD)

lemma qbufs_qbuf_frames: "node_ok k n \<Longrightarrow> qbufs (qbuf_frames n c) = qbufs c @ held_of n"
  unfolding qbuf_frames_def held_of_def
  by (rule map_filter_qbufs) (auto dest: entries_ok simp: entry_ok_def)

lemma qbufs_qbuf_buffers: "qbufs (qbuf_buffers n c) = qbufs c @ held_of n"
  unfolding qbuf_buffers_def held_of_def by (rule map_filter_qbufs) auto

lemma qbufs_node_qbuf: "qbufs (mm_channel_node_qbuf n c) = qbufs c @ held_of n"
  unfolding mm_channel_node_qbuf_def held_of_def by (rule map_filter_qbufs) auto

lemma qbufs_qbuf_all: "qbufs (qbuf_type CAM_STREAM_TYPE_DEFAULT n c) = qbufs c @ held_of n"
  unfolding qbuf_type_def held_of_def
  by (rule map_filter_qbufs) (auto simp: wanted_type_def split: option.split)

lemma qbufs_fold_frames:
  "list_all (node_ok k) ns \<Longrightarrow> mset (qbufs (fold qbuf_frames ns c)) = mset (qbufs c) + held ns"
  by (induction ns arbitrary: c) (auto simp: qbufs_qbuf_frames [of k])

lemma fold_frames_queue [simp]: "superbuf_queue (fold qbuf_frames ns c) = superbuf_queue c"
  by (induction ns arbitrary: c) simp_all

section \<open>Taking superbuffers out\<close>

definition cw_queue :: "mm_channel \<times> frame_sync \<Rightarrow> channel_queue" where
  "cw_queue cf = superbuf_queue (fst cf)"

text \<open>What a change of the queue keeps: the members that are set up with the channel.\<close>

definition same_setup :: "channel_queue \<Rightarrow> channel_queue \<Rightarrow> bool" where
  "same_setup q q' \<longleftrightarrow> num_streams q' = num_streams q \<and> bundled_streams q' = bundled_streams q"

lemma dequeue_internal_cases:
  obtains
    (empty) "que (superbuf_queue c) = []"
      "mm_channel_superbuf_dequeue_internal mo (c, fs) = (None, c, fs)"
  | (refused) n ns where "que (superbuf_queue c) = n # ns" "mo" "\<not> matched n"
      "mm_channel_superbuf_dequeue_internal mo (c, fs) = (None, c, fs)"
  | (taken) n ns c' fs' where "que (superbuf_queue c) = n # ns" "mo \<Longrightarrow> matched n"
      "mm_channel_superbuf_dequeue_internal mo (c, fs) = (Some n, c', fs')"
      "qbufs c' = qbufs c"
      "superbuf_queue c' = (superbuf_queue c)\<lparr>que := ns, que_size := que_size (superbuf_queue c) - 1,
         match_cnt := match_cnt (superbuf_queue c) - (if matched n then 1 else 0)\<rparr>"
proof (cases "que (superbuf_queue c)")
  case Nil
  then show ?thesis
    using empty by (simp add: mm_channel_superbuf_dequeue_internal_def)
next
  case (Cons n ns)
  show ?thesis
  proof (cases "mo \<and> \<not> matched n")
    case True
    with Cons show ?thesis
      using refused by (simp add: mm_channel_superbuf_dequeue_internal_def)
  next
    case False
    with Cons show ?thesis
      using taken by (cases "matched n") (auto simp: mm_channel_superbuf_dequeue_internal_def Let_def)
  qed
qed

lemma queue_ok_tail:
  assumes "que q = n # ns"
  shows "queue_ok q \<Longrightarrow> queue_ok (q\<lparr>que := ns, que_size := que_size q - 1,
      match_cnt := match_cnt q - (if matched n then 1 else 0)\<rparr>)"
    and "counted q \<Longrightarrow> counted (q\<lparr>que := ns, que_size := que_size q - 1,
      match_cnt := match_cnt q - (if matched n then 1 else 0)\<rparr>)"
  using assms by (simp_all add: queue_ok_def counted_def)

lemma flush_keeps:
  assumes "queue_ok (superbuf_queue c)"
  shows "case mm_channel_superbuf_flush CAM_STREAM_TYPE_DEFAULT (c, fs) of (c', fs') \<Rightarrow>
    que (superbuf_queue c') = [] \<and> queue_ok (superbuf_queue c') \<and> all_bufs c' = all_bufs c
    \<and> same_setup (superbuf_queue c) (superbuf_queue c')
    \<and> (counted (superbuf_queue c) \<longrightarrow> counted (superbuf_queue c'))
    \<and> expected_frame_id (superbuf_queue c') = expected_frame_id (superbuf_queue c)
    \<and> attr (superbuf_queue c') = attr (superbuf_queue c)"
  using assms
proof (induction "length (que (superbuf_queue c))" arbitrary: c fs)
  case 0
  then show ?case
    by (subst mm_channel_superbuf_flush.simps)
      (simp add: mm_channel_superbuf_dequeue_internal_def same_setup_def)
next
  case (Suc k)
  obtain n ns where q: "que (superbuf_queue c) = n # ns" "k = length ns"
    using Suc.hyps(2) by (metis length_Suc_conv)
  show ?case
  proof (cases rule: dequeue_internal_cases [of c False fs])
    case (taken n' ns' c' fs')
    have "queue_ok (superbuf_queue (qbuf_type CAM_STREAM_TYPE_DEFAULT n c'))"
      using queue_ok_tail(1) [OF q(1) Suc.prems] taken(1,5) q(1) by simp
    from Suc.hyps(1) [OF _ this, of fs'] taken q queue_ok_tail(2) [OF q(1)] show ?thesis
      by (subst mm_channel_superbuf_flush.simps)
        (auto simp: qbufs_qbuf_all all_bufs_def same_setup_def split: prod.splits)
  qed (use q in auto)
qed

lemma flush_matched_keeps:
  assumes "queue_ok (superbuf_queue c)"
  shows "case mm_channel_superbuf_flush_matched (c, fs) of (c', fs') \<Rightarrow>
    que (superbuf_queue c') = dropWhile matched (que (superbuf_queue c))
    \<and> queue_ok (superbuf_queue c') \<and> all_bufs c' = all_bufs c
    \<and> same_setup (superbuf_queue c) (superbuf_queue c')
    \<and> (counted (superbuf_queue c) \<longrightarrow> counted (superbuf_queue c'))
    \<and> expected_frame_id (superbuf_queue c') = expected_frame_id (superbuf_queue c)
    \<and> attr (superbuf_queue c') = attr (superbuf_queue c)"
  using assms
proof (induction "length (que (superbuf_queue c))" arbitrary: c fs)
  case 0
  then show ?case
    by (subst mm_channel_superbuf_flush_matched.simps)
      (simp add: mm_channel_superbuf_dequeue_internal_def same_setup_def)
next
  case (Suc k)
  obtain n ns where q: "que (superbuf_queue c) = n # ns" "k = length ns"
    using Suc.hyps(2) by (metis length_Suc_conv)
  show ?case
  proof (cases rule: dequeue_internal_cases [of c True fs])
    case (refused n' ns')
    with Suc.prems show ?thesis
      by (subst mm_channel_superbuf_flush_matched.simps) (simp add: same_setup_def)
  next
    case (taken n' ns' c' fs')
    have "queue_ok (superbuf_queue (qbuf_buffers n c'))"
      using queue_ok_tail(1) [OF q(1) Suc.prems] taken(1,5) q(1) by simp
    from Suc.hyps(1) [OF _ this, of fs'] taken q queue_ok_tail(2) [OF q(1)] show ?thesis
      by (subst mm_channel_superbuf_flush_matched.simps)
        (auto simp: qbufs_qbuf_buffers all_bufs_def same_setup_def split: prod.splits)
  qed (use q in auto)
qed

end
