(* ===== verification/SuperbufWalk.thy ===== *)
theory SuperbufWalk
  imports SuperbufInv
begin

text \<open>
  What the walk over the queue finds: its bounds for any queue, and for a queue in order (complete
  superbuffers first, then the incomplete ones by increasing frame number) the exact cut.
\<close>

section \<open>The walk over a queue in order\<close>

lemma walk_matched:
  "list_all matched ms \<Longrightarrow> walk_queue p s b i (ms @ us) w = walk_queue p s b (i + length ms) us w"
  by (induction ms arbitrary: i) (simp_all add: add.commute add.left_commute)

lemma walk_older:
  assumes "p \<noteq> PRIORITY_LOW" and "list_all (\<lambda>n. \<not> matched n \<and> node_frame_idx n < frame_idx b) xs"
  shows "walk_queue p s b i (xs @ us) w = walk_queue p s b (i + length xs) us
    (w\<lparr>unmatched_bundles := unmatched_bundles w + of_nat (length xs),
       last_buf := (if last_buf w = None \<and> xs \<noteq> [] then Some i else last_buf w)\<rparr>)"
  using assms(2)
proof (induction xs arbitrary: i w)
  case (Cons x xs)
  then have "\<not> frame_idx b < node_frame_idx x" "node_frame_idx x \<noteq> frame_idx b"
    by auto
  with Cons assms(1) show ?case
    by (auto simp: takes_def pass_def add.commute add.left_commute)
qed simp

lemma walk_newer:
  assumes "p \<noteq> PRIORITY_LOW" and "list_all (\<lambda>n. \<not> matched n \<and> frame_idx b < node_frame_idx n) ys"
  shows "walk_queue p s b i ys w =
    w\<lparr>unmatched_bundles := unmatched_bundles w + of_nat (length ys),
       insert_before_buf := (if insert_before_buf w = None \<and> ys \<noteq> [] then Some i else insert_before_buf w)\<rparr>"
  using assms(2)
proof (induction ys arbitrary: i w)
  case (Cons y ys)
  then have "\<not> node_frame_idx y < frame_idx b" "node_frame_idx y \<noteq> frame_idx b"
    by auto
  with Cons assms(1) show ?case
    by (auto simp: takes_def pass_def add.commute add.left_commute)
qed simp

text \<open>A list of incomplete superbuffers in order, cut at a frame number.\<close>

lemma sorted_cut:
  fixes f :: uint32
  assumes "sorted_wrt (<) (map node_frame_idx us)"
  obtains xs n ys where "us = xs @ n # ys" "node_frame_idx n = f"
      "list_all (\<lambda>n. node_frame_idx n < f) xs" "list_all (\<lambda>n. f < node_frame_idx n) ys"
  | xs ys where "us = xs @ ys"
      "list_all (\<lambda>n. node_frame_idx n < f) xs" "list_all (\<lambda>n. f < node_frame_idx n) ys"
proof -
  let ?xs = "takeWhile (\<lambda>n. node_frame_idx n < f) us"
  let ?r = "dropWhile (\<lambda>n. node_frame_idx n < f) us"
  have xs: "list_all (\<lambda>n. node_frame_idx n < f) ?xs"
    by (auto simp: list_all_iff dest: set_takeWhileD)
  have us: "us = ?xs @ ?r"
    by simp
  have srt: "sorted_wrt (<) (map node_frame_idx ?r)"
    using assms by (subst (asm) us) (simp only: map_append sorted_wrt_append)
  show ?thesis
  proof (cases ?r)
    case Nil
    with us xs show ?thesis
      by (intro that(2) [of us "[]"]) auto
  next
    case (Cons n ys)
    then have n: "\<not> node_frame_idx n < f"
      using hd_dropWhile [of "\<lambda>n. node_frame_idx n < f" us] by simp
    have ys: "list_all (\<lambda>m. node_frame_idx n < node_frame_idx m) ys"
      using srt Cons by (simp add: list_all_iff)
    show ?thesis
    proof (cases "node_frame_idx n = f")
      case True
      with us xs ys Cons show ?thesis
        by (intro that(1) [of ?xs n ys]) auto
    next
      case False
      with n have "f < node_frame_idx n"
        by simp
      with us xs ys Cons show ?thesis
        by (intro that(2) [of ?xs "n # ys"]) (auto simp: list_all_iff)
    qed
  qed
qed

end
