(* ===== verification/SuperbufSafe.thy ===== *)
theory SuperbufSafe
  imports SuperbufWalk
begin

text \<open>
  No function of the queue of superbuffers loses a buffer: after each of them the buffers in the queue
  and the buffers given back are those of before, and the incoming one.  This holds for every
  priority and every order of the queue.
\<close>

section \<open>The walk and the nodes\<close>

lemma walk_bounds:
  assumes "w' = walk_queue p s b i ns w"
    and "found w = None"
    and "\<And>l. last_buf w = Some l \<Longrightarrow> l < i" and "\<And>l. insert_before_buf w = Some l \<Longrightarrow> l < i"
  shows "(\<forall>k. found w' = Some k \<longrightarrow> i \<le> k \<and> k < i + length ns \<and> \<not> matched (ns ! (k - i))
             \<and> takes p s b (ns ! (k - i)))
    \<and> (\<forall>l. last_buf w' = Some l \<longrightarrow> l < i + length ns \<and> (\<forall>k. found w' = Some k \<longrightarrow> l < k))
    \<and> (\<forall>l. insert_before_buf w' = Some l \<longrightarrow> l < i + length ns)"
  using assms
proof (induction ns arbitrary: i w)
  case (Cons n ns)
  show ?case
  proof (cases "matched n")
    case True
    have "w' = walk_queue p s b (i + 1) ns w"
      using Cons.prems(1) True by simp
    note IH = Cons.IH [OF this Cons.prems(2)]
    show ?thesis
      using IH Cons.prems(3,4) by (fastforce simp: nth_Cons' less_Suc_eq)
  next
    case False
    show ?thesis
    proof (cases "takes p s b n")
      case True
      with False Cons.prems show ?thesis
        by (fastforce simp: less_Suc_eq)
    next
      case unfit: False
      have "w' = walk_queue p s b (i + 1) ns (pass b i n w)"
        using Cons.prems(1) False unfit by simp
      note IH = Cons.IH [OF this]
      show ?thesis
        using IH Cons.prems(2,3,4) by (fastforce simp: nth_Cons' less_Suc_eq pass_def split: if_splits)
    qed
  qed
qed auto

lemma map_filter_append: "List.map_filter f (xs @ ys) = List.map_filter f xs @ List.map_filter f ys"
  by (induction xs) (auto simp: List.map_filter_def)

lemma mset_map_filter_update:
  assumes "i < length xs" and "f (xs ! i) = None" and "f y = Some d"
  shows "mset (List.map_filter f (xs[i := y])) = mset (List.map_filter f xs) + {#d#}"
proof -
  have "mset (List.map_filter f (us @ y # vs)) = mset (List.map_filter f (us @ x # vs)) + {#d#}"
    if "f x = None" for us x vs
    using that assms(3) by (simp add: map_filter_append List.map_filter_simps)
  from this [OF assms(2)] show ?thesis
    using assms(1) by (metis id_take_nth_drop upd_conv_take_nth_drop)
qed

lemma put_buf_sel [simp]:
  "num_of_bufs (put_buf s b n) = num_of_bufs n"
  "super_buf (put_buf s b n) = (super_buf n)[s := b]"
  "node_entries (put_buf s b n) = (node_entries n)[s := b]"
  "matched (put_buf s b n) \<longleftrightarrow> list_all (\<lambda>e. frame_idx e \<noteq> 0) ((node_entries n)[s := b])"
  "node_frame_idx (put_buf s b n) = node_frame_idx n"
  "unmatched_meta_idx (put_buf s b n) = unmatched_meta_idx n"
  by (simp_all add: put_buf_def Let_def node_entries_def take_update_swap)

lemma put_buf_held:
  assumes "node_ok k n" and "s < k" and "k \<le> MAX_STREAM_NUM_IN_BUNDLE"
    and "frame_idx (super_buf n ! s) = 0" and "buf b = Some d"
  shows "mset (held_of (put_buf s b n)) = mset (held_of n) + {#d#}"
proof -
  have s: "s < length (node_entries n)" "node_entries n ! s = super_buf n ! s"
    using assms(1-3) by (simp_all add: node_ok_def node_entries_def)
  have "entry_ok (super_buf n ! s)"
    using s entries_ok [OF assms(1)] nth_mem by metis
  then have "buf (node_entries n ! s) = None"
    using assms(4) s(2) by (simp add: entry_ok_def)
  from mset_map_filter_update [where f = buf, OF s(1) this assms(5)] show ?thesis
    by (simp add: held_of_def)
qed

lemma put_buf_ok:
  assumes "node_ok k n" and "s < k" and "k \<le> MAX_STREAM_NUM_IN_BUNDLE"
    and "entry_ok b" and "frame_idx b \<noteq> 0"
  shows "node_ok k (put_buf s b n)"
proof -
  have "s < length (node_entries n)"
    using assms(1-3) by (simp add: node_ok_def node_entries_def)
  then have "b \<in> set ((node_entries n)[s := b])"
    by (rule set_update_memI)
  with assms(5) have "list_ex (\<lambda>e. frame_idx e \<noteq> 0) ((node_entries n)[s := b])"
    by (auto simp: list_ex_iff)
  then show ?thesis
    using assms(1,4)
    by (auto simp: node_ok_def list_all_iff dest!: subsetD [OF set_update_subset_insert])
qed

section \<open>The functions on the queue\<close>

text \<open>What setting up and the ghosts say about the parts of the matching.\<close>

lemma set_node_sel [simp]:
  "superbuf_queue (set_node i n c) = (superbuf_queue c)\<lparr>que := (que (superbuf_queue c))[i := n]\<rparr>"
  "qbufs (set_node i n c) = qbufs c"
  by (simp_all add: set_node_def)

lemma next_expected_sel [simp]:
  "que (superbuf_queue (next_expected f c)) = que (superbuf_queue c)"
  "que_size (superbuf_queue (next_expected f c)) = que_size (superbuf_queue c)"
  "match_cnt (superbuf_queue (next_expected f c)) = match_cnt (superbuf_queue c)"
  "num_streams (superbuf_queue (next_expected f c)) = num_streams (superbuf_queue c)"
  "bundled_streams (superbuf_queue (next_expected f c)) = bundled_streams (superbuf_queue c)"
  "attr (superbuf_queue (next_expected f c)) = attr (superbuf_queue c)"
  "qbufs (next_expected f c) = qbufs c"
  by (simp_all add: next_expected_def set_expected_def Let_def)

lemma count_match_sel [simp]:
  "superbuf_queue (count_match c) = (superbuf_queue c)\<lparr>match_cnt := match_cnt (superbuf_queue c) + 1\<rparr>"
  "qbufs (count_match c) = qbufs c"
  by (simp_all add: count_match_def)

lemma remove_nodes_sel:
  assumes "list_all (node_ok k) (que (superbuf_queue c))" and "l \<le> i" and "i \<le> length (que (superbuf_queue c))"
  shows "que (superbuf_queue (remove_nodes l i c)) = take l (que (superbuf_queue c)) @ drop i (que (superbuf_queue c))"
    and "all_bufs (remove_nodes l i c) = all_bufs c"
    and "queue_ok (superbuf_queue c) \<Longrightarrow> queue_ok (superbuf_queue (remove_nodes l i c))"
    and "same_setup (superbuf_queue c) (superbuf_queue (remove_nodes l i c))"
    and "attr (superbuf_queue (remove_nodes l i c)) = attr (superbuf_queue c)"
    and "match_cnt (superbuf_queue (remove_nodes l i c)) = match_cnt (superbuf_queue c)"
proof -
  let ?ns = "que (superbuf_queue c)"
  have cut: "?ns = take l ?ns @ take (i - l) (drop l ?ns) @ drop i ?ns"
    using assms(2) by (metis append_take_drop_id drop_drop le_add_diff_inverse2)
  have ok: "list_all (node_ok k) (take (i - l) (drop l ?ns))"
    using assms(1) by (auto simp: list_all_iff dest!: in_set_takeD in_set_dropD)
  have "held ?ns = held (take l ?ns) + held (take (i - l) (drop l ?ns)) + held (drop i ?ns)"
    by (subst cut) simp
  then show "all_bufs (remove_nodes l i c) = all_bufs c"
    by (simp add: all_bufs_def remove_nodes_def Let_def qbufs_fold_frames [OF ok])
  show "queue_ok (superbuf_queue (remove_nodes l i c))" if "queue_ok (superbuf_queue c)"
    using that assms(2,3)
    by (auto simp: queue_ok_def remove_nodes_def Let_def list_all_iff of_nat_diff algebra_simps
        dest!: in_set_takeD in_set_dropD)
qed (simp_all add: remove_nodes_def Let_def same_setup_def)

section \<open>A buffer goes into a superbuffer\<close>

lemma list_all_update:
  "list_all P xs \<Longrightarrow> P x \<Longrightarrow> list_all P (xs[i := x])"
  by (auto simp: list_all_iff dest!: subsetD [OF set_update_subset_insert])

lemma held_update:
  "i < length ns \<Longrightarrow> held (ns[i := n]) + mset (held_of (ns ! i)) = held ns + mset (held_of n)"
  by (subst (2) id_take_nth_drop [of i ns]) (simp_all add: upd_conv_take_nth_drop)

lemma settle_sel [simp]:
  "num_of_bufs (settle_idx f n) = num_of_bufs n"
  "super_buf (settle_idx f n) = super_buf n"
  "matched (settle_idx f n) = matched n"
  "node_entries (settle_idx f n) = node_entries n"
  "held_of (settle_idx f n) = held_of n"
  "node_ok k (settle_idx f n) = node_ok k n"
  by (simp_all add: settle_idx_def node_entries_def held_of_def node_ok_def)

lemma expected_sel [simp]:
  "node_entries (n\<lparr>expected_frame := x\<rparr>) = node_entries n"
  "held_of (n\<lparr>expected_frame := x\<rparr>) = held_of n"
  "node_ok k (n\<lparr>expected_frame := x\<rparr>) = node_ok k n"
  by (simp_all add: node_entries_def held_of_def node_ok_def)

lemma fill_superbuf_safe:
  assumes "queue_ok (superbuf_queue c)" and "s < num_streams (superbuf_queue c)"
    and "buf b = Some d" and "entry_ok b"
    and "i < length (que (superbuf_queue c))" and "\<And>l. last_walk = Some l \<Longrightarrow> l < i"
  shows "case fill_superbuf self s b i last_walk (c, fs) of (c', fs') \<Rightarrow>
    queue_ok (superbuf_queue c') \<and> all_bufs c' = all_bufs c + {#d#}
    \<and> same_setup (superbuf_queue c) (superbuf_queue c')
    \<and> attr (superbuf_queue c') = attr (superbuf_queue c)"
proof -
  let ?q = "superbuf_queue c"
  let ?n = "settle_idx (frame_idx b) (que ?q ! i)"
  let ?k = "num_streams ?q"
  have k: "?k \<le> MAX_STREAM_NUM_IN_BUNDLE" and nodes: "list_all (node_ok ?k) (que ?q)"
    using assms(1) by (simp_all add: queue_ok_def)
  have n: "node_ok ?k ?n"
    using nodes assms(5) by (simp add: list_all_length)
  have b0: "frame_idx b \<noteq> 0"
    using assms(3,4) by (simp add: entry_ok_def)
  show ?thesis
  proof (cases "frame_idx (super_buf ?n ! s) = 0")
    case False
    with assms n held_update [OF assms(5), of ?n] show ?thesis
      by (simp add: fill_superbuf_def Let_def queue_ok_def list_all_update all_bufs_def same_setup_def)
  next
    case True
    let ?m = "put_buf s b ?n"
    have m: "node_ok ?k ?m" "mset (held_of ?m) = mset (held_of (que ?q ! i)) + {#d#}"
      using put_buf_ok [OF n assms(2) k assms(4) b0] put_buf_held [OF n assms(2) k True assms(3)]
      by simp_all
    then have h: "held ((que ?q)[i := ?m]) = held (que ?q) + {#d#}"
      "held ((que ?q)[i := ?m\<lparr>expected_frame := x\<rparr>]) = held (que ?q) + {#d#}" for x
      using held_update [OF assms(5), of ?m] held_update [OF assms(5), of "?m\<lparr>expected_frame := x\<rparr>"]
      by simp_all
    show ?thesis
    proof (cases "matched ?m")
      case False
      with True assms(1) m h show ?thesis
        by (simp add: fill_superbuf_def Let_def queue_ok_def list_all_update all_bufs_def same_setup_def)
    next
      case matched: True
      let ?c = "count_match (set_node i (?m\<lparr>expected_frame := False\<rparr>) (next_expected (frame_idx b) c))"
      have c: "queue_ok (superbuf_queue ?c)" "all_bufs ?c = all_bufs c + {#d#}"
        "same_setup ?q (superbuf_queue ?c)" "attr (superbuf_queue ?c) = attr ?q"
        "length (que (superbuf_queue ?c)) = length (que ?q)"
        using assms(1) m h by (simp_all add: queue_ok_def list_all_update all_bufs_def same_setup_def)
      have "list_all (node_ok (num_streams (superbuf_queue ?c))) (que (superbuf_queue ?c))"
        using c(1) by (simp only: queue_ok_def)
      note remove = remove_nodes_sel [OF this, of _ i]
      show ?thesis
      proof (cases last_walk)
        case None
        with True matched c show ?thesis
          by (simp add: fill_superbuf_def Let_def)
      next
        case (Some l)
        then have "l \<le> i" "i \<le> length (que (superbuf_queue ?c))"
          using assms(5,6) c(5) by (auto dest: less_imp_le)
        note remove = remove(2-5) [OF this]
        show ?thesis
          using True matched Some c remove(1,3,4) remove(2) [OF c(1)]
          by (simp add: fill_superbuf_def Let_def same_setup_def)
      qed
    qed
  qed
qed

section \<open>A new superbuffer\<close>

lemma insert_node_sel [simp]:
  "qbufs (insert_node before n c) = qbufs c"
  "superbuf_queue (insert_node before n c) = (superbuf_queue c)\<lparr>
     que := (case before of None \<Rightarrow> que (superbuf_queue c) @ [n]
             | Some i \<Rightarrow> take i (que (superbuf_queue c)) @ n # drop i (que (superbuf_queue c))),
     que_size := que_size (superbuf_queue c) + 1\<rparr>"
  by (simp_all add: insert_node_def)

lemma set_expected_sel [simp]:
  "qbufs (set_expected f c) = qbufs c"
  "superbuf_queue (set_expected f c) = (superbuf_queue c)\<lparr>expected_frame_id := f\<rparr>"
  by (simp_all add: set_expected_def)

lemma list_all_cut: "list_all P xs \<Longrightarrow> list_all P (take i xs)" "list_all P xs \<Longrightarrow> list_all P (drop i xs)"
  by (auto simp: list_all_iff dest: in_set_takeD in_set_dropD)

lemma held_cut: "held (take i ns) + held (drop i ns) = held ns"
  by (metis append_take_drop_id held_simps(3))

lemma length_cut: "i \<le> length ns \<Longrightarrow> of_nat (length ns - i) + of_nat (min (length ns) i) = (of_nat (length ns) :: uint32)"
  by (simp add: of_nat_diff min_def)

lemma insert_node_safe:
  assumes "queue_ok (superbuf_queue c)" and "node_ok (num_streams (superbuf_queue c)) n"
  shows "queue_ok (superbuf_queue (insert_node before n c))"
    and "all_bufs (insert_node before n c) = all_bufs c + mset (held_of n)"
proof -
  show "queue_ok (superbuf_queue (insert_node before n c))"
    using assms by (auto simp: queue_ok_def list_all_cut of_nat_diff min_def split: option.split)
  show "all_bufs (insert_node before n c) = all_bufs c + mset (held_of n)"
    using held_cut [of _ "que (superbuf_queue c)"]
    by (auto simp: all_bufs_def split: option.split)
qed

lemma map_filter_replicate_update:
  "s < k \<Longrightarrow> f x = None \<Longrightarrow> f y = Some d \<Longrightarrow> List.map_filter f ((replicate k x)[s := y]) = [d]"
  by (simp add: upd_conv_take_nth_drop map_filter_append List.map_filter_simps)
    (simp add: List.map_filter_def)

lemma no_buf_sel [simp]: "frame_idx no_buf = 0" "buf no_buf = None" "entry_ok no_buf"
  by (simp_all add: no_buf_def entry_ok_def)

lemma new_superbuf_sel [simp]:
  "num_of_bufs (new_superbuf s b q) = num_streams q"
  "node_frame_idx (new_superbuf s b q) = frame_idx b"
  "super_buf (new_superbuf s b q) = (replicate MAX_STREAM_NUM_IN_BUNDLE no_buf)[s := b]"
  "\<not> matched (new_superbuf s b q)" "\<not> expected_frame (new_superbuf s b q)"
  by (simp_all add: new_superbuf_def)

lemma new_superbuf_entries:
  assumes "num_streams q \<le> MAX_STREAM_NUM_IN_BUNDLE"
  shows "node_entries (new_superbuf s b q) = (replicate (num_streams q) no_buf)[s := b]"
  using assms by (simp add: node_entries_def take_update_swap min_def)

lemma node_entries_matched [simp]: "node_entries (n\<lparr>matched := x\<rparr>) = node_entries n"
  by (simp add: node_entries_def)

lemma new_superbuf_ok:
  assumes "s < num_streams q" and "num_streams q \<le> MAX_STREAM_NUM_IN_BUNDLE"
    and "entry_ok b" and "buf b = Some d"
    and "m \<longleftrightarrow> num_streams q = 1"
  shows "node_ok (num_streams q) (new_superbuf s b q\<lparr>matched := m, expected_frame := x\<rparr>)"
    and "held_of (new_superbuf s b q\<lparr>matched := m, expected_frame := x\<rparr>) = [d]"
proof -
  let ?n = "new_superbuf s b q\<lparr>matched := m, expected_frame := x\<rparr>"
  have e: "node_entries ?n = (replicate (num_streams q) no_buf)[s := b]"
    using new_superbuf_entries [OF assms(2)] by simp
  show "held_of ?n = [d]"
    using assms(1,4) unfolding held_of_def e by (simp add: map_filter_replicate_update)
  have b0: "frame_idx b \<noteq> 0"
    using assms(3,4) by (simp add: entry_ok_def)
  have b: "b \<in> set ((replicate (num_streams q) no_buf)[s := b])"
    using assms(1) by (simp add: set_update_memI)
  have all: "list_all entry_ok ((replicate MAX_STREAM_NUM_IN_BUNDLE no_buf)[s := b])"
    by (rule list_all_update) (auto simp: list_all_iff assms(3))
  have matched: "list_all (\<lambda>e. frame_idx e \<noteq> 0) ((replicate (num_streams q) no_buf)[s := b])
      \<longleftrightarrow> num_streams q = 1"
  proof
    assume l: "list_all (\<lambda>e. frame_idx e \<noteq> 0) ((replicate (num_streams q) no_buf)[s := b])"
    show "num_streams q = 1"
    proof (rule ccontr)
      assume "num_streams q \<noteq> 1"
      with assms(1) obtain j where "j < num_streams q" "j \<noteq> s"
        by (cases "s = 0") (auto intro: that [of 1] that [of 0])
      with l show False
        by (auto simp: list_all_length nth_list_update)
    qed
  next
    assume "num_streams q = 1"
    with assms(1) b0 show "list_all (\<lambda>e. frame_idx e \<noteq> 0) ((replicate (num_streams q) no_buf)[s := b])"
      by simp
  qed
  from b b0 all matched assms(5) show "node_ok (num_streams q) ?n"
    unfolding node_ok_def e by (auto simp: list_ex_iff)
qed

lemma add_superbuf_safe:
  assumes "queue_ok (superbuf_queue c)" and "s < num_streams (superbuf_queue c)"
    and "buf b = Some d" and "entry_ok b"
  shows "case add_superbuf self s b before (c, fs) of (c', fs') \<Rightarrow>
    queue_ok (superbuf_queue c') \<and> all_bufs c' = all_bufs c + {#d#}
    \<and> same_setup (superbuf_queue c) (superbuf_queue c')
    \<and> attr (superbuf_queue c') = attr (superbuf_queue c)"
proof -
  let ?q = "superbuf_queue c"
  have k: "num_streams ?q \<le> MAX_STREAM_NUM_IN_BUNDLE"
    using assms(1) by (simp add: queue_ok_def)
  note n = new_superbuf_ok [OF assms(2) k assms(4,3)]
  let ?div = "ucast (diverted_frame_id c) = frame_idx b \<or> frame_idx b = good_frame_id ?q"
  define c1 where "c1 = (if ?div then c\<lparr>diverted_frame_id := 0\<rparr> else c)"
  have c1: "superbuf_queue c1 = ?q" "qbufs c1 = qbufs c" "all_bufs c1 = all_bufs c"
    by (simp_all add: c1_def all_bufs_def)
  show ?thesis
  proof (cases "num_streams ?q = 1")
    case True
    let ?n = "new_superbuf s b ?q\<lparr>matched := True, expected_frame := False\<rparr>"
    have "queue_ok (superbuf_queue (insert_node before ?n c1))"
      "all_bufs (insert_node before ?n c1) = all_bufs c + {#d#}"
      using insert_node_safe [of c1 ?n before] n [of True False] True assms(1) c1 by simp_all
    with True c1 show ?thesis
      by (simp add: add_superbuf_def Let_def flip: c1_def)
        (simp add: queue_ok_def all_bufs_def same_setup_def)
  next
    case False
    let ?n = "new_superbuf s b ?q\<lparr>expected_frame := ?div\<rparr>"
    have m: "?n = new_superbuf s b ?q\<lparr>matched := False, expected_frame := ?div\<rparr>"
      by (simp add: new_superbuf_def)
    have "queue_ok (superbuf_queue (insert_node before ?n c1))"
      "all_bufs (insert_node before ?n c1) = all_bufs c + {#d#}"
      using insert_node_safe [of c1 ?n before] n [of False ?div] False assms(1) c1
      unfolding m by simp_all
    with False c1 show ?thesis
      by (simp add: add_superbuf_def Let_def flip: c1_def) (simp add: same_setup_def)
  qed
qed

end
