(* ===== verification/SuperbufConserve.thy ===== *)
theory SuperbufConserve
  imports SuperbufSafe
begin

text \<open>
  The incoming buffer is conserved: after \<open>mm_channel_superbuf_comp_and_enqueue\<close> it is in the queue or
  has been given back, and so are all the buffers that were in the queue before, whatever the metadata
  of the frame have flushed.
\<close>

section \<open>Making room\<close>

lemma find_upt:
  assumes "find P [l ..< n] = Some k"
  shows "l \<le> k" "k < n" "P k" "\<And>j. l \<le> j \<Longrightarrow> j < k \<Longrightarrow> \<not> P j"
proof -
  obtain i where i: "i < n - l" "k = l + i" "P (l + i)" "\<And>j. j < i \<Longrightarrow> \<not> P (l + j)"
    using assms by (auto simp: find_Some_iff)
  then show "l \<le> k" "k < n" "P k"
    by auto
  show "\<not> P j" if "l \<le> j" "j < k" for j
    using i(4) [of "j - l"] i(2) that by auto
qed

lemma remove_one_safe:
  assumes "queue_ok (superbuf_queue c)" and "k < length (que (superbuf_queue c))"
  shows "queue_ok (superbuf_queue (remove_nodes k (k + 1) c))"
    and "all_bufs (remove_nodes k (k + 1) c) = all_bufs c"
    and "same_setup (superbuf_queue c) (superbuf_queue (remove_nodes k (k + 1) c))"
    and "attr (superbuf_queue (remove_nodes k (k + 1) c)) = attr (superbuf_queue c)"
    and "length (que (superbuf_queue (remove_nodes k (k + 1) c))) = length (que (superbuf_queue c)) - 1"
proof -
  have "list_all (node_ok (num_streams (superbuf_queue c))) (que (superbuf_queue c))"
    using assms(1) by (simp add: queue_ok_def)
  note r = remove_nodes_sel [OF this, of k "k + 1"]
  show "queue_ok (superbuf_queue (remove_nodes k (k + 1) c))"
    "all_bufs (remove_nodes k (k + 1) c) = all_bufs c"
    "same_setup (superbuf_queue c) (superbuf_queue (remove_nodes k (k + 1) c))"
    "attr (superbuf_queue (remove_nodes k (k + 1) c)) = attr (superbuf_queue c)"
    "length (que (superbuf_queue (remove_nodes k (k + 1) c))) = length (que (superbuf_queue c)) - 1"
    using assms r by simp_all
qed

lemma drop_old_safe:
  assumes "queue_ok (superbuf_queue c)" and "drop_old limit w c = Some (c', u, before)"
    and "\<And>l. last_buf w = Some l \<Longrightarrow> l < length (que (superbuf_queue c))"
  shows "queue_ok (superbuf_queue c')" and "all_bufs c' = all_bufs c"
    and "same_setup (superbuf_queue c) (superbuf_queue c')"
    and "attr (superbuf_queue c') = attr (superbuf_queue c)"
    and "last_buf w = Some l \<Longrightarrow> limit < u \<Longrightarrow> l < length (que (superbuf_queue c'))"
  using assms remove_one_safe(1-4) [OF assms(1)]
  by (auto simp: drop_old_def Let_def same_setup_def dest: find_upt(2) split: option.splits if_splits)

lemma start_superbuf_safe:
  assumes "queue_ok (superbuf_queue c)" and "s < num_streams (superbuf_queue c)"
    and "buf b = Some d" and "entry_ok b"
    and "\<And>l. last_buf w = Some l \<Longrightarrow> l < length (que (superbuf_queue c))"
    and "start_superbuf self memory s b w (c, fs) = Some (c', fs')"
  shows "queue_ok (superbuf_queue c') \<and> all_bufs c' = all_bufs c + {#d#}
    \<and> same_setup (superbuf_queue c) (superbuf_queue c')
    \<and> attr (superbuf_queue c') = attr (superbuf_queue c)"
proof -
  let ?limit = "max_unmatched_frames (attr (superbuf_queue c))"
  have qbuf: "queue_ok (superbuf_queue (mm_channel_qbuf (buf b) c1))
      \<and> all_bufs (mm_channel_qbuf (buf b) c1) = all_bufs c1 + {#d#}"
    if "queue_ok (superbuf_queue c1)" for c1
    using that assms(3) by (simp add: all_bufs_def)
  show ?thesis
  proof (cases "?limit < unmatched_bundles w \<and> last_buf w = None")
    case True
    with assms(1,6) qbuf show ?thesis
      by (auto simp: start_superbuf_def Let_def same_setup_def)
  next
    case False
    then obtain c1 u before c2 before2 where old: "drop_old ?limit w c = Some (c1, u, before)"
      and lst: "drop_last ?limit w (c1, u, before) = (c2, before2)"
      and res: "(if memory then add_superbuf self s b before2 (c2, fs)
                 else (mm_channel_qbuf (buf b) c2, fs)) = (c', fs')"
      using assms(6) by (auto simp: start_superbuf_def Let_def split: option.splits prod.splits)
    note d = drop_old_safe [OF assms(1) old assms(5), simplified]
    have c2: "queue_ok (superbuf_queue c2)" "all_bufs c2 = all_bufs c"
      "same_setup (superbuf_queue c) (superbuf_queue c2)" "attr (superbuf_queue c2) = attr (superbuf_queue c)"
      using lst d remove_one_safe(1-4) [OF d(1)]
      by (auto simp: drop_last_def same_setup_def split: option.splits if_splits)
    have "s < num_streams (superbuf_queue c2)"
      using c2(3) assms(2) by (simp add: same_setup_def)
    from add_superbuf_safe [OF c2(1) this assms(3,4), of self before2 fs] qbuf [OF c2(1)] c2 res
    show ?thesis
      by (auto simp: same_setup_def split: if_splits)
  qed
qed

section \<open>The metadata\<close>

text \<open>What the metadata of a frame may change of the queue.\<close>

definition kept :: "mm_channel \<Rightarrow> mm_channel \<Rightarrow> bool" where
  "kept c c' \<longleftrightarrow> (queue_ok (superbuf_queue c) \<longrightarrow>
     queue_ok (superbuf_queue c') \<and> all_bufs c' = all_bufs c
     \<and> same_setup (superbuf_queue c) (superbuf_queue c')
     \<and> (counted (superbuf_queue c) \<longrightarrow> counted (superbuf_queue c'))
     \<and> (\<exists>ns. que (superbuf_queue c) = ns @ que (superbuf_queue c'))
     \<and> priority (attr (superbuf_queue c')) = priority (attr (superbuf_queue c))
     \<and> max_unmatched_frames (attr (superbuf_queue c')) = max_unmatched_frames (attr (superbuf_queue c)))"

lemma kept_trans: "kept c d \<Longrightarrow> kept d e \<Longrightarrow> kept c e"
  by (auto simp: kept_def same_setup_def)

lemma kept_same:
  "qbufs c' = qbufs c \<Longrightarrow> que (superbuf_queue c') = que (superbuf_queue c)
    \<Longrightarrow> que_size (superbuf_queue c') = que_size (superbuf_queue c)
    \<Longrightarrow> match_cnt (superbuf_queue c') = match_cnt (superbuf_queue c)
    \<Longrightarrow> same_setup (superbuf_queue c) (superbuf_queue c')
    \<Longrightarrow> priority (attr (superbuf_queue c')) = priority (attr (superbuf_queue c))
    \<Longrightarrow> max_unmatched_frames (attr (superbuf_queue c')) = max_unmatched_frames (attr (superbuf_queue c))
    \<Longrightarrow> kept c c'"
  by (auto simp: kept_def all_bufs_def queue_ok_def counted_def same_setup_def)

lemma kept_flush:
  "kept c (fst (mm_channel_superbuf_flush CAM_STREAM_TYPE_DEFAULT (c, fs)))"
  using flush_keeps [of c fs] by (auto simp: kept_def split: prod.splits)

lemma kept_flush_matched: "kept c (fst (mm_channel_superbuf_flush_matched (c, fs)))"
proof -
  have "\<exists>ms. ns = ms @ dropWhile matched ns" for ns
    by (metis takeWhile_dropWhile_id)
  then show ?thesis
    using flush_matched_keeps [of c fs] by (auto simp: kept_def split: prod.splits)
qed

lemmas meta_defs = meta_divert_def meta_bracketing_def meta_config_capture_def meta_burst_def
  meta_apply_low_light_def meta_instant_capture_def reset_user_expected_def set_good_def
  wait_future_frame_def

lemma kept_blocks:
  "kept c (wait_future_frame c)" "kept c (set_expected f c)"
  "kept c (c\<lparr>bWaitForPrepSnapshotDone := x\<rparr>)" "kept c (c\<lparr>needLEDFlash := x\<rparr>)"
  "kept c (c\<lparr>isZoom1xFrameRequested := x\<rparr>)"
  "kept c (meta_divert m frame c)" "kept c (meta_bracketing m c)"
  "kept c (meta_config_capture m c)" "kept c (meta_burst frame c)"
  "kept c (meta_apply_low_light m c)" "kept c (meta_instant_capture m frame c)"
  by (rule kept_same; simp add: meta_defs same_setup_def Let_def split: option.split)+

lemma kept_zoom: "kept c (fst (meta_zoom m frame (c, fs)))"
  by (auto simp: meta_zoom_def intro: kept_trans [OF kept_blocks(5) kept_blocks(2)]
      kept_trans [OF kept_blocks(1) kept_flush_matched])

lemma kept_prep: "kept c (fst (meta_prep m (c, fs)))"
proof -
  have "kept c (fst (mm_channel_superbuf_flush CAM_STREAM_TYPE_DEFAULT
      (wait_future_frame (c\<lparr>bWaitForPrepSnapshotDone := False\<rparr>), fs)))"
    by (rule kept_trans [OF kept_blocks(3) kept_trans [OF kept_blocks(1) kept_flush]])
  from kept_trans [OF this kept_blocks(4)] show ?thesis
    by (auto simp: meta_prep_def Let_def intro: kept_trans [OF kept_blocks(3) kept_blocks(4)] kept_same
        simp: same_setup_def split: option.split prod.splits)
qed

lemma kept_good_range: "kept c (fst (meta_good_range m (c, fs)))"
proof (cases "meta_good_frame_idx_range m")
  case None
  have "kept c c"
    by (rule kept_same) (simp_all add: same_setup_def)
  then show ?thesis
    using None kept_trans [OF kept_flush_matched [of c fs] kept_blocks(1)]
    by (auto simp: meta_good_range_def split: prod.splits)
next
  case (Some r)
  then show ?thesis
    by (intro kept_same) (simp_all add: meta_good_range_def same_setup_def set_good_def Let_def)
qed

lemma handle_metadata_kept:
  "kept c (fst (snd (mm_channel_handle_metadata b (c, fs))))"
proof -
  have refl: "kept c c"
    by (rule kept_same) (simp_all add: same_setup_def)
  have "kept c (fst (handle_meta_entries m frame (c, fs)))" for m frame
  proof -
    let ?c = "meta_divert m frame c"
    have d: "kept c ?c"
      by (rule kept_blocks)
    obtain c1 fs1 where p: "meta_prep m (?c, fs) = (c1, fs1)"
      by fastforce
    obtain c2 fs2 where g: "meta_good_range m (c1, fs1) = (c2, fs2)"
      by fastforce
    have "kept ?c c1" "kept c1 c2"
      using kept_prep [of ?c m fs] kept_good_range [of c1 m fs1] p g by simp_all
    then have c2: "kept c c2"
      using d kept_trans by blast
    have "kept c (meta_instant_capture m frame (meta_apply_low_light m (meta_burst frame
        (meta_config_capture m (meta_bracketing m c2)))))"
      by (rule kept_trans [OF kept_trans [OF kept_trans [OF kept_trans [OF kept_trans
          [OF c2 kept_blocks(7)] kept_blocks(8)] kept_blocks(9)] kept_blocks(10)] kept_blocks(11)])
    moreover have "kept c (fst (meta_zoom m frame (?c, fs)))"
      by (rule kept_trans [OF d kept_zoom])
    ultimately show ?thesis
      by (simp add: handle_meta_entries_def Let_def p g)
  qed
  with refl show ?thesis
    by (simp add: mm_channel_handle_metadata_def split: option.split)
qed

section \<open>The function as a whole\<close>

lemma index_of_Some: "index_of P xs = Some i \<Longrightarrow> i < length xs \<and> P (xs ! i)"
  by (induction xs arbitrary: i) (auto split: if_splits)

lemma index_of_None: "index_of P xs = None \<longleftrightarrow> (\<forall>x \<in> set xs. \<not> P x)"
  by (induction xs) auto

lemma walk_start:
  assumes "w' = walk_queue p s b 0 ns start_walk"
  shows "found w' = Some k \<Longrightarrow> k < length ns \<and> \<not> matched (ns ! k) \<and> takes p s b (ns ! k)"
    and "last_buf w' = Some l \<Longrightarrow> l < length ns"
    and "last_buf w' = Some l \<Longrightarrow> found w' = Some k \<Longrightarrow> l < k"
    and "insert_before_buf w' = Some l \<Longrightarrow> l < length ns"
  using walk_bounds [OF assms] by (simp_all add: start_walk_def)

lemma match_buf_safe:
  assumes "queue_ok (superbuf_queue c)" and "s < num_streams (superbuf_queue c)"
    and "buf b = Some d" and "entry_ok b"
    and "match_buf self memory s b (c, fs) = Some (c', fs')"
  shows "queue_ok (superbuf_queue c') \<and> all_bufs c' = all_bufs c + {#d#}
    \<and> same_setup (superbuf_queue c) (superbuf_queue c')
    \<and> attr (superbuf_queue c') = attr (superbuf_queue c)"
proof -
  let ?w = "walk_queue (priority (attr (superbuf_queue c))) s b 0 (que (superbuf_queue c)) start_walk"
  note w = walk_start [OF refl, of "priority (attr (superbuf_queue c))" s b "que (superbuf_queue c)"]
  show ?thesis
  proof (cases "found ?w")
    case None
    have "\<And>l. last_buf ?w = Some l \<Longrightarrow> l < length (que (superbuf_queue c))"
      using w(2) by blast
    from start_superbuf_safe [OF assms(1-4) this, where self = self and memory = memory and fs = fs
        and c' = c' and fs' = fs'] None assms(5)
    show ?thesis
      by (simp add: match_buf_def Let_def)
  next
    case (Some i)
    then have "i < length (que (superbuf_queue c))" "\<And>l. last_buf ?w = Some l \<Longrightarrow> l < i"
      using w(1,3) by blast+
    note fill = fill_superbuf_safe [OF assms(1-4) this(1), of "last_buf ?w" self fs, OF this(2)]
    from fill Some assms(5) show ?thesis
      by (simp add: match_buf_def Let_def)
  qed
qed

lemma comp_and_enqueue_conserves:
  assumes "queue_ok (superbuf_queue c)" and "buf b = Some d"
    and "stream_id b \<in> set (take (num_streams (superbuf_queue c)) (bundled_streams (superbuf_queue c)))"
    and "mm_channel_superbuf_comp_and_enqueue self memory b (c, fs) = Some (rc, c', fs')"
  shows "queue_ok (superbuf_queue c') \<and> all_bufs c' = all_bufs c + {#d#}
    \<and> same_setup (superbuf_queue c) (superbuf_queue c')
    \<and> priority (attr (superbuf_queue c')) = priority (attr (superbuf_queue c))
    \<and> max_unmatched_frames (attr (superbuf_queue c')) = max_unmatched_frames (attr (superbuf_queue c))"
proof -
  obtain s where s: "index_of (\<lambda>hdl. stream_id b = hdl)
      (take (num_streams (superbuf_queue c)) (bundled_streams (superbuf_queue c))) = Some s"
    using assms(3) index_of_None by (metis not_Some_eq)
  then have sn: "s < num_streams (superbuf_queue c)"
    using index_of_Some by fastforce
  obtain rc1 c1 fs1 where h: "mm_channel_handle_metadata b (c, fs) = (rc1, c1, fs1)"
    by (metis prod_cases3)
  have k: "kept c c1"
    using handle_metadata_kept [of c b fs] h by simp
  have c1: "queue_ok (superbuf_queue c1)" "all_bufs c1 = all_bufs c"
    "same_setup (superbuf_queue c) (superbuf_queue c1)"
    "priority (attr (superbuf_queue c1)) = priority (attr (superbuf_queue c))"
    "max_unmatched_frames (attr (superbuf_queue c1)) = max_unmatched_frames (attr (superbuf_queue c))"
    using k assms(1) by (simp_all add: kept_def)
  have given: "queue_ok (superbuf_queue (mm_channel_qbuf (buf b) c2))
      \<and> all_bufs (mm_channel_qbuf (buf b) c2) = all_bufs c2 + {#d#}
      \<and> same_setup (superbuf_queue c2) (superbuf_queue (mm_channel_qbuf (buf b) c2))"
    if "queue_ok (superbuf_queue c2)" for c2
    using that assms(2) by (simp add: all_bufs_def same_setup_def)
  show ?thesis
  proof (cases "frame_idx b = 0")
    case True
    with s assms(4) given [OF assms(1)] show ?thesis
      by (auto simp: mm_channel_superbuf_comp_and_enqueue_def Let_def)
  next
    case False
    then have e: "entry_ok b"
      using assms(2) by (simp add: entry_ok_def)
    have s1: "s < num_streams (superbuf_queue c1)"
      using sn c1(3) by (simp add: same_setup_def)
    from match_buf_safe [OF c1(1) s1 assms(2) e, of self memory fs1 c' fs'] False s h assms(4)
      given [OF c1(1)] c1
    show ?thesis
      by (auto simp: mm_channel_superbuf_comp_and_enqueue_def Let_def same_setup_def split: if_splits)
  qed
qed

section \<open>Flushing one type of stream\<close>

definition of_type :: "cam_stream_type \<Rightarrow> mm_camera_buf_def \<Rightarrow> bool" where
  "of_type t d \<longleftrightarrow> t = CAM_STREAM_TYPE_DEFAULT \<or> t = stream_type d"

lemma qbufs_qbuf_type: "qbufs (qbuf_type t n c) = qbufs c @ filter (of_type t) (held_of n)"
proof -
  have "qbufs (fold (\<lambda>e c. if wanted_type t e then mm_channel_qbuf (buf e) c else c) es c)
      = qbufs c @ filter (of_type t) (List.map_filter buf es)" for es
    by (induction es arbitrary: c)
      (auto simp: List.map_filter_simps wanted_type_def of_type_def split: option.split)
  then show ?thesis
    by (simp add: qbuf_type_def held_of_def)
qed

lemma flush_type:
  "que (superbuf_queue (fst (mm_channel_superbuf_flush t (c, fs)))) = []
    \<and> qbufs (fst (mm_channel_superbuf_flush t (c, fs))) = qbufs c
        @ filter (of_type t) (concat (map held_of (que (superbuf_queue c))))"
proof (induction "length (que (superbuf_queue c))" arbitrary: c fs)
  case 0
  then show ?case
    by (subst (1 2) mm_channel_superbuf_flush.simps) (simp add: mm_channel_superbuf_dequeue_internal_def)
next
  case (Suc k)
  then obtain n ns where q: "que (superbuf_queue c) = n # ns" "k = length ns"
    by (metis length_Suc_conv)
  show ?case
  proof (cases rule: dequeue_internal_cases [of c False fs])
    case (taken n' ns' c' fs')
    have "k = length (que (superbuf_queue (qbuf_type t n c')))"
      using taken(1,5) q by simp
    from Suc.hyps(1) [OF this, of fs'] taken q show ?thesis
      by (subst (1 2) mm_channel_superbuf_flush.simps) (simp add: qbufs_qbuf_type)
  qed (use q in auto)
qed

end
