(* ===== verification/SuperbufOrder.thy ===== *)
theory SuperbufOrder
  imports SuperbufConserve
begin

text \<open>
  The queue in order.  For every priority but \<open>PRIORITY_LOW\<close> the complete superbuffers come first, then
  the incomplete ones by strictly increasing frame number, at most one more than
  \<open>max_unmatched_frames\<close>; all buffers of a superbuffer have its frame number.  An incoming buffer keeps
  this, and while it holds the loop that removes old superbuffers never goes on with freed memory.
\<close>

section \<open>The invariant\<close>

definition one_frame :: "queue_node \<Rightarrow> bool" where
  "one_frame n \<longleftrightarrow> unmatched_meta_idx n = 0
     \<and> list_all (\<lambda>e. frame_idx e \<noteq> 0 \<longrightarrow> frame_idx e = node_frame_idx n) (node_entries n)"

definition incomplete :: "queue_node list \<Rightarrow> queue_node list" where
  "incomplete ns = dropWhile matched ns"

definition in_order :: "uint8 \<Rightarrow> queue_node list \<Rightarrow> bool" where
  "in_order limit ns \<longleftrightarrow>
     list_all one_frame ns
     \<and> list_all (\<lambda>n. \<not> matched n) (incomplete ns)
     \<and> sorted_wrt (<) (map node_frame_idx (incomplete ns))
     \<and> length (incomplete ns) \<le> unat limit + 1"

lemma incomplete_append:
  "list_all matched ms \<Longrightarrow> incomplete (ms @ us) = incomplete us"
  "list_all (\<lambda>n. \<not> matched n) us \<Longrightarrow> incomplete us = us"
  by (auto simp: incomplete_def list_all_iff dropWhile_eq_self_iff)

lemma in_orderE:
  assumes "in_order limit ns"
  obtains ms us where "ns = ms @ us" "list_all matched ms" "list_all (\<lambda>n. \<not> matched n) us"
    "sorted_wrt (<) (map node_frame_idx us)" "length us \<le> unat limit + 1"
    "list_all one_frame ms" "list_all one_frame us"
proof -
  have ns: "ns = takeWhile matched ns @ incomplete ns"
    by (simp add: incomplete_def)
  have "list_all matched (takeWhile matched ns)"
    by (auto simp: list_all_iff dest: set_takeWhileD)
  moreover have "list_all one_frame (takeWhile matched ns)" "list_all one_frame (incomplete ns)"
    using assms by (subst (asm) ns, simp add: in_order_def)+
  ultimately show ?thesis
    using assms that [OF ns] by (simp add: in_order_def)
qed

lemma in_orderI:
  assumes "list_all matched ms" "list_all (\<lambda>n. \<not> matched n) us"
    "sorted_wrt (<) (map node_frame_idx us)" "length us \<le> unat limit + 1"
    "list_all one_frame ms" "list_all one_frame us"
  shows "in_order limit (ms @ us)"
  using assms by (simp add: in_order_def incomplete_append)

lemma in_order_suffix:
  assumes "in_order limit (xs @ ns)"
  shows "in_order limit ns"
proof -
  obtain ms us where u: "xs @ ns = ms @ us" "list_all matched ms" "list_all (\<lambda>n. \<not> matched n) us"
    "sorted_wrt (<) (map node_frame_idx us)" "length us \<le> unat limit + 1"
    "list_all one_frame ms" "list_all one_frame us"
    using assms by (rule in_orderE)
  from u(1) consider zs where "xs = ms @ zs" "us = zs @ ns" | zs where "ms = xs @ zs" "ns = zs @ us"
    by (auto simp: append_eq_append_conv2)
  then show ?thesis
  proof cases
    case 1
    with u in_orderI [of "[]" ns limit] show ?thesis
      by (simp add: sorted_wrt_append)
  next
    case 2
    with u in_orderI [of zs us limit] show ?thesis
      by simp
  qed
qed

lemma counted_cut:
  assumes "que q = ms @ us" "list_all matched ms" "list_all (\<lambda>n. \<not> matched n) us"
  shows "counted q \<longleftrightarrow> match_cnt q = of_nat (length ms)"
proof -
  have "filter matched ms = ms" "filter matched us = []"
    using assms(2,3) by (simp_all add: list_all_iff filter_id_conv filter_empty_conv)
  with assms(1) show ?thesis
    by (simp add: counted_def)
qed

section \<open>A buffer goes into a superbuffer\<close>

lemma put_buf_one_frame:
  assumes "one_frame n" and "frame_idx b = node_frame_idx n"
  shows "one_frame (put_buf s b n)"
  using assms by (auto simp: one_frame_def list_all_iff dest!: subsetD [OF set_update_subset_insert])

lemma settle_one_frame: "one_frame n \<Longrightarrow> settle_idx f n = n"
  by (simp add: settle_idx_def one_frame_def)

lemma one_frame_expected [simp]: "one_frame (n\<lparr>expected_frame := x\<rparr>) = one_frame n"
  by (simp add: one_frame_def)

definition ordered :: "mm_channel \<Rightarrow> bool" where
  "ordered c \<longleftrightarrow> counted (superbuf_queue c)
     \<and> in_order (max_unmatched_frames (attr (superbuf_queue c))) (que (superbuf_queue c))"

lemma orderedI:
  assumes "que (superbuf_queue c) = ms @ us" "list_all matched ms" "list_all (\<lambda>n. \<not> matched n) us"
    "sorted_wrt (<) (map node_frame_idx us)"
    "length us \<le> unat (max_unmatched_frames (attr (superbuf_queue c))) + 1"
    "list_all one_frame ms" "list_all one_frame us"
    "match_cnt (superbuf_queue c) = of_nat (length ms)"
  shows "ordered c"
  using assms counted_cut [OF assms(1-3)] in_orderI [OF assms(2-7)] by (simp add: ordered_def)

lemma orderedE:
  assumes "ordered c"
  obtains ms us where "que (superbuf_queue c) = ms @ us" "list_all matched ms"
    "list_all (\<lambda>n. \<not> matched n) us" "sorted_wrt (<) (map node_frame_idx us)"
    "length us \<le> unat (max_unmatched_frames (attr (superbuf_queue c))) + 1"
    "list_all one_frame ms" "list_all one_frame us"
    "match_cnt (superbuf_queue c) = of_nat (length ms)"
proof -
  have "in_order (max_unmatched_frames (attr (superbuf_queue c))) (que (superbuf_queue c))"
    "counted (superbuf_queue c)"
    using assms by (simp_all add: ordered_def)
  from in_orderE [OF this(1)] that counted_cut this(2) show ?thesis
    by metis
qed

lemma fill_ordered:
  assumes "que (superbuf_queue c) = ms @ xs @ n # ys" "list_all matched ms"
    "list_all (\<lambda>n. \<not> matched n) (xs @ n # ys)" "sorted_wrt (<) (map node_frame_idx (xs @ n # ys))"
    "length (xs @ n # ys) \<le> unat (max_unmatched_frames (attr (superbuf_queue c))) + 1"
    "list_all one_frame ms" "list_all one_frame (xs @ n # ys)"
    "match_cnt (superbuf_queue c) = of_nat (length ms)"
    and "frame_idx b = node_frame_idx n"
  shows "ordered (fst (fill_superbuf self s b (length ms + length xs)
    (if xs = [] then None else Some (length ms)) (c, fs)))"
proof -
  let ?i = "length ms + length xs"
  have n: "que (superbuf_queue c) ! ?i = n" "settle_idx (frame_idx b) n = n" "one_frame n"
    using assms(1,7) settle_one_frame by (simp_all add: nth_append)
  have upd: "(que (superbuf_queue c))[?i := m] = ms @ xs @ m # ys" for m
    using assms(1) by (simp add: list_update_append)
  let ?m = "put_buf s b n"
  have m: "one_frame ?m" "node_frame_idx ?m = node_frame_idx n"
    using put_buf_one_frame [OF n(3) assms(9)] by simp_all
  show ?thesis
  proof (cases "frame_idx (super_buf n ! s) = 0")
    case False
    have "ordered (mm_channel_qbuf (buf b) (set_node ?i n c))"
      using assms upd by (intro orderedI [of _ ms "xs @ n # ys"]) auto
    with False n show ?thesis
      by (simp add: fill_superbuf_def)
  next
    case free: True
    show ?thesis
    proof (cases "matched ?m")
      case False
      have "ordered ((set_node ?i (?m\<lparr>expected_frame := x\<rparr>) c)\<lparr>diverted_frame_id := y\<rparr>)" for x y
        using assms upd m False by (intro orderedI [of _ ms "xs @ ?m\<lparr>expected_frame := x\<rparr> # ys"]) auto
      moreover have "ordered (set_node ?i ?m c)"
        using assms upd m False by (intro orderedI [of _ ms "xs @ ?m # ys"]) auto
      ultimately show ?thesis
        using free False n by (simp add: fill_superbuf_def Let_def)
    next
      case True
      let ?n = "?m\<lparr>expected_frame := False\<rparr>"
      let ?c = "count_match (set_node ?i ?n (next_expected (frame_idx b) c))"
      have c: "que (superbuf_queue ?c) = ms @ xs @ ?n # ys"
        "match_cnt (superbuf_queue ?c) = of_nat (length (ms @ [?n]))"
        "attr (superbuf_queue ?c) = attr (superbuf_queue c)"
        using upd assms(8) by (simp_all add: add.commute)
      have n': "matched ?n" "one_frame ?n"
        using True m by simp_all
      have "ordered (if xs = [] then ?c else remove_nodes (length ms) ?i ?c)"
        using assms c n' by (intro orderedI [of _ "ms @ [?n]" ys])
          (auto simp: remove_nodes_def Let_def sorted_wrt_append)
      then show ?thesis
        using free True n by (simp add: fill_superbuf_def Let_def split: if_splits)
    qed
  qed
qed

section \<open>A new superbuffer\<close>

text \<open>The incomplete superbuffers, cut at the frame of the buffer that comes in.\<close>

definition cut_at :: "uint32 \<Rightarrow> queue_node list \<Rightarrow> queue_node list \<Rightarrow> queue_node list \<Rightarrow> mm_channel \<Rightarrow> bool" where
  "cut_at f ms xs ys c \<longleftrightarrow>
     que (superbuf_queue c) = ms @ xs @ ys \<and> list_all matched ms
     \<and> list_all (\<lambda>n. \<not> matched n) (xs @ ys) \<and> sorted_wrt (<) (map node_frame_idx (xs @ ys))
     \<and> list_all (\<lambda>n. node_frame_idx n < f) xs \<and> list_all (\<lambda>n. f < node_frame_idx n) ys
     \<and> list_all one_frame ms \<and> list_all one_frame (xs @ ys)
     \<and> match_cnt (superbuf_queue c) = of_nat (length ms)"

definition place :: "queue_node list \<Rightarrow> queue_node list \<Rightarrow> queue_node list \<Rightarrow> nat option" where
  "place ms xs ys = (if ys = [] then None else Some (length ms + length xs))"

lemma sorted_remove:
  assumes "sorted_wrt P (map f (us @ xs @ vs))" and "j < length xs"
  shows "sorted_wrt P (map f (us @ (take j xs @ drop (j + 1) xs) @ vs))"
proof -
  have "xs = take j xs @ xs ! j # drop (j + 1) xs"
    using assms(2) by (simp add: id_take_nth_drop)
  then have "map f (us @ xs @ vs) = map f us @ map f (take j xs) @ f (xs ! j) # map f (drop (j + 1) xs) @ map f vs"
    by (metis append_assoc append_Cons list.simps(9) map_append)
  with assms(1) have
    "sorted_wrt P (map f us @ map f (take j xs) @ f (xs ! j) # map f (drop (j + 1) xs) @ map f vs)"
    by simp
  then show ?thesis
    by (auto simp: sorted_wrt_append)
qed

lemma remove_cut:
  assumes "cut_at f ms xs ys c" and "length ms \<le> k" and "k < length ms + length xs + length ys"
    and "Some k \<noteq> place ms xs ys"
  obtains xs' ys' where "cut_at f ms xs' ys' (remove_nodes k (k + 1) c)"
    "length xs' + length ys' + 1 = length xs + length ys"
    "map_option (\<lambda>i. if k < i then i - 1 else i) (place ms xs ys) = place ms xs' ys'"
    "attr (superbuf_queue (remove_nodes k (k + 1) c)) = attr (superbuf_queue c)"
proof -
  have "que (superbuf_queue c) = ms @ xs @ ys"
    using assms(1) by (simp add: cut_at_def)
  then have que: "que (superbuf_queue (remove_nodes k (k + 1) c))
      = take k (ms @ xs @ ys) @ drop (k + 1) (ms @ xs @ ys)"
    by (simp add: remove_nodes_def Let_def)
  have sel: "match_cnt (superbuf_queue (remove_nodes k (k + 1) c)) = match_cnt (superbuf_queue c)"
    "attr (superbuf_queue (remove_nodes k (k + 1) c)) = attr (superbuf_queue c)"
    by (simp_all add: remove_nodes_def Let_def)
  show ?thesis
  proof (cases "k < length ms + length xs")
    case True
    define j where "j = k - length ms"
    have k: "k = length ms + j" "j < length xs"
      using True assms(2) by (simp_all add: j_def)
    let ?xs = "take j xs @ drop (j + 1) xs"
    have "sorted_wrt (<) (map node_frame_idx (?xs @ ys))"
      using assms(1) sorted_remove [of "(<)" node_frame_idx "[]" xs ys, OF _ k(2)]
      by (simp add: cut_at_def)
    then have "cut_at f ms ?xs ys (remove_nodes k (k + 1) c)"
      using assms(1) k que sel by (simp add: cut_at_def list_all_cut)
    moreover have "length ?xs + length ys + 1 = length xs + length ys"
      using k(2) by simp
    moreover have "map_option (\<lambda>i. if k < i then i - 1 else i) (place ms xs ys) = place ms ?xs ys"
      using k by (auto simp: place_def)
    ultimately show ?thesis
      using that sel(2) by blast
  next
    case False
    define j where "j = k - length ms - length xs"
    have k: "k = length ms + length xs + j" "j < length ys"
      using False assms(3) by (simp_all add: j_def)
    then have "0 < j"
      using assms(4) by (cases j) (auto simp: place_def)
    let ?ys = "take j ys @ drop (j + 1) ys"
    have "sorted_wrt (<) (map node_frame_idx (xs @ ?ys))"
      using assms(1) sorted_remove [of "(<)" node_frame_idx xs ys "[]", OF _ k(2)]
      by (simp add: cut_at_def)
    then have "cut_at f ms xs ?ys (remove_nodes k (k + 1) c)"
      using assms(1) k que sel by (simp add: cut_at_def list_all_cut)
    moreover have "length xs + length ?ys + 1 = length xs + length ys"
      using k(2) by simp
    moreover have "map_option (\<lambda>i. if k < i then i - 1 else i) (place ms xs ys) = place ms xs ?ys"
      using k \<open>0 < j\<close> by (auto simp: place_def)
    ultimately show ?thesis
      using that sel(2) by blast
  qed
qed

lemma one_frame_matched [simp]: "one_frame (n\<lparr>matched := x\<rparr>) = one_frame n"
  by (simp add: one_frame_def)

lemma new_superbuf_one_frame:
  assumes "priority (attr q) \<noteq> PRIORITY_LOW" and "num_streams q \<le> MAX_STREAM_NUM_IN_BUNDLE"
  shows "one_frame (new_superbuf s b q)"
proof -
  have "unmatched_meta_idx (new_superbuf s b q) = 0"
    using assms(1) by (simp add: new_superbuf_def)
  then show ?thesis
    using new_superbuf_entries [OF assms(2), of s b]
    by (auto simp: one_frame_def list_all_iff dest!: subsetD [OF set_update_subset_insert])
qed

text \<open>A new superbuffer of a bundle of several streams goes between the older and the newer ones.\<close>

lemma cut_new:
  assumes "cut_at (frame_idx b) ms xs ys c" and "entry_ok b" "buf b = Some d"
    and "s < num_streams (superbuf_queue c)" "num_streams (superbuf_queue c) \<le> MAX_STREAM_NUM_IN_BUNDLE"
    and "num_streams (superbuf_queue c) \<noteq> 1" "priority (attr (superbuf_queue c)) \<noteq> PRIORITY_LOW"
    and "length xs + length ys \<le> unat (max_unmatched_frames (attr (superbuf_queue c)))"
  shows "ordered (fst (add_superbuf self s b (place ms xs ys) (c, fs)))"
proof -
  let ?n = "\<lambda>x. new_superbuf s b (superbuf_queue c)\<lparr>expected_frame := x\<rparr>"
  have one: "one_frame (?n x)" for x
    using new_superbuf_one_frame [OF assms(7,5)] by simp
  have "ordered (insert_node (place ms xs ys) (?n x) c1)"
    if "superbuf_queue c1 = superbuf_queue c" for x c1
    using assms one that
    by (intro orderedI [of _ ms "xs @ ?n x # ys"])
      (auto simp: cut_at_def place_def sorted_wrt_append list_all_iff)
  with assms(6) show ?thesis
    by (simp add: add_superbuf_def Let_def)
qed

lemma of_nat_uint8: "n < 256 \<Longrightarrow> unat (of_nat n :: uint8) = n"
  by (simp add: unsigned_of_nat take_bit_nat_eq_self)

text \<open>What the walk finds when no superbuffer has the frame of the buffer.\<close>

lemma walk_cut:
  assumes "p \<noteq> PRIORITY_LOW" and "cut_at (frame_idx b) ms xs ys c"
  shows "walk_queue p s b 0 (que (superbuf_queue c)) start_walk =
    \<lparr>found = None, unmatched_bundles = of_nat (length xs + length ys),
     last_buf = (if xs = [] then None else Some (length ms)),
     insert_before_buf = place ms xs ys\<rparr>"
proof -
  have "list_all matched ms" "list_all (\<lambda>n. \<not> matched n \<and> node_frame_idx n < frame_idx b) xs"
    "list_all (\<lambda>n. \<not> matched n \<and> frame_idx b < node_frame_idx n) ys"
    "que (superbuf_queue c) = ms @ xs @ ys"
    using assms(2) by (auto simp: cut_at_def list_all_iff)
  then show ?thesis
    using assms(1) by (simp add: walk_matched walk_older walk_newer start_walk_def place_def)
qed

lemma add_one_stream:
  assumes "queue_ok (superbuf_queue c)" "num_streams (superbuf_queue c) = 1"
    and "ordered c" "s = 0" "entry_ok b" "buf b = Some d"
    and "priority (attr (superbuf_queue c)) \<noteq> PRIORITY_LOW"
  shows "ordered (fst (add_superbuf self s b None (c, fs)))"
proof -
  have nodes: "list_all matched (que (superbuf_queue c))"
    using assms(1,2) unfolding queue_ok_def
    by (auto simp: node_ok_def node_entries_def list_all_iff list_ex_iff MAX_STREAM_NUM_IN_BUNDLE_def
        take_Suc_conv_app_nth)
  let ?q = "superbuf_queue c"
  let ?n = "new_superbuf s b ?q\<lparr>matched := True, expected_frame := False\<rparr>"
  have "list_all one_frame (que ?q)" "match_cnt ?q = of_nat (length (que ?q))"
    using assms(3) nodes counted_cut [of ?q "que ?q" "[]"]
    by (simp_all add: ordered_def in_order_def)
  moreover have "one_frame ?n"
    using new_superbuf_one_frame [OF assms(7)] assms(2) by (simp add: MAX_STREAM_NUM_IN_BUNDLE_def)
  ultimately have "ordered (count_match (set_expected f (insert_node None ?n c1)))"
    if "superbuf_queue c1 = ?q" for f c1
    using that nodes by (intro orderedI [of _ "que ?q @ [?n]" "[]"]) (simp_all add: add.commute)
  with assms(2) show ?thesis
    by (simp add: add_superbuf_def Let_def)
qed

lemma one_stream_matched:
  assumes "queue_ok q" "num_streams q = 1"
  shows "list_all matched (que q)"
  using assms unfolding queue_ok_def
  by (auto simp: node_ok_def node_entries_def list_all_iff list_ex_iff MAX_STREAM_NUM_IN_BUNDLE_def
      take_Suc_conv_app_nth)

lemma cut_ordered:
  assumes "cut_at f ms xs ys c"
    and "length xs + length ys \<le> unat (max_unmatched_frames (attr (superbuf_queue c))) + 1"
  shows "ordered c"
  using assms by (intro orderedI [of _ ms "xs @ ys"]) (simp_all add: cut_at_def)

lemma make_room:
  assumes "cut_at f ms xs ys c" and "limit = max_unmatched_frames (attr (superbuf_queue c))"
    and "length xs + length ys \<le> unat limit + 1" and "limit < 255"
    and "xs \<noteq> [] \<or> length ys \<le> unat limit"
    and w: "w = \<lparr>found = None, unmatched_bundles = of_nat (length xs + length ys),
        last_buf = (if xs = [] then None else Some (length ms)), insert_before_buf = place ms xs ys\<rparr>"
  obtains x c' xs' ys' where "drop_old limit w c = Some x" "drop_last limit w x = (c', place ms xs' ys')"
    "cut_at f ms xs' ys' c'" "length xs' + length ys' \<le> unat limit"
    "attr (superbuf_queue c') = attr (superbuf_queue c)"
proof -
  let ?k = "length xs + length ys"
  have "unat limit < 255"
    using assms(4) by (simp add: word_less_nat_alt)
  then have u: "unat (of_nat ?k :: uint8) = ?k"
    using assms(3) by (intro of_nat_uint8) simp
  then have le: "of_nat ?k \<le> limit \<longleftrightarrow> ?k \<le> unat limit"
    by (simp add: word_le_nat_alt)
  show ?thesis
  proof (cases "?k \<le> unat limit")
    case True
    with le assms(1) show ?thesis
      by (intro that [of "(c, of_nat ?k, place ms xs ys)" c xs ys])
        (simp_all add: w drop_old_def drop_last_def)
  next
    case False
    then have k: "?k = unat limit + 1" and xs: "xs \<noteq> []"
      using assms(3,5) by auto
    have "unat (of_nat ?k - 1 :: uint8) = unat limit"
      using k by (simp add: of_nat_uint8)
    then have le1: "of_nat ?k - 1 \<le> limit"
      by (simp add: word_le_nat_alt)
    have que: "length (que (superbuf_queue c)) = length ms + length xs + length ys"
      using assms(1) by (simp add: cut_at_def)
    show ?thesis
    proof (cases "find (removable (place ms xs ys) (que (superbuf_queue c)))
        [length ms ..< length (que (superbuf_queue c))]")
      case None
      have "Some (length ms) \<noteq> place ms xs ys"
        using xs by (simp add: place_def)
      from remove_cut [OF assms(1) _ _ this] xs obtain xs' ys' where
        r: "cut_at f ms xs' ys' (remove_nodes (length ms) (length ms + 1) c)"
        "length xs' + length ys' + 1 = ?k"
        "map_option (\<lambda>i. if length ms < i then i - 1 else i) (place ms xs ys) = place ms xs' ys'"
        "attr (superbuf_queue (remove_nodes (length ms) (length ms + 1) c)) = attr (superbuf_queue c)"
        by auto
      show ?thesis
        using None xs le False k r
        by (intro that [of "(c, of_nat ?k, place ms xs ys)" "remove_nodes (length ms) (length ms + 1) c" xs' ys'])
          (simp_all add: w drop_old_def drop_last_def Let_def)
    next
      case (Some j)
      have j: "length ms \<le> j" "j < length ms + length xs + length ys" "Some j \<noteq> place ms xs ys"
        using find_upt(1-3) [OF Some] que by (simp_all add: removable_def)
      from remove_cut [OF assms(1) j] obtain xs' ys' where
        r: "cut_at f ms xs' ys' (remove_nodes j (j + 1) c)" "length xs' + length ys' + 1 = ?k"
        "map_option (\<lambda>i. if j < i then i - 1 else i) (place ms xs ys) = place ms xs' ys'"
        "attr (superbuf_queue (remove_nodes j (j + 1) c)) = attr (superbuf_queue c)"
        by blast
      show ?thesis
        using Some xs le le1 False k r
        by (intro that [of "(remove_nodes j (j + 1) c, of_nat ?k - 1, place ms xs' ys')"
              "remove_nodes j (j + 1) c" xs' ys'])
          (simp_all add: w drop_old_def drop_last_def Let_def)
    qed
  qed
qed

section \<open>The function keeps the order\<close>

lemma start_ordered:
  assumes "queue_ok (superbuf_queue c)" "s < num_streams (superbuf_queue c)"
    and "entry_ok b" "buf b = Some d" "priority (attr (superbuf_queue c)) \<noteq> PRIORITY_LOW"
    and "cut_at (frame_idx b) ms xs ys c"
    and "length xs + length ys \<le> unat (max_unmatched_frames (attr (superbuf_queue c))) + 1"
    and "max_unmatched_frames (attr (superbuf_queue c)) < 255"
    and w: "w = \<lparr>found = None, unmatched_bundles = of_nat (length xs + length ys),
        last_buf = (if xs = [] then None else Some (length ms)), insert_before_buf = place ms xs ys\<rparr>"
  shows "\<exists>c' fs'. start_superbuf self memory s b w (c, fs) = Some (c', fs') \<and> ordered c'"
proof -
  let ?limit = "max_unmatched_frames (attr (superbuf_queue c))"
  have "unat ?limit < 255"
    using assms(8) by (simp add: word_less_nat_alt)
  then have u: "?limit < of_nat (length xs + length ys) \<longleftrightarrow> unat ?limit < length xs + length ys"
    using assms(7) by (simp add: word_less_nat_alt of_nat_uint8 del: of_nat_add)
  have qbuf: "ordered (mm_channel_qbuf (buf b) c1) = ordered c1" for c1
    by (simp add: ordered_def)
  show ?thesis
  proof (cases "?limit < unmatched_bundles w \<and> last_buf w = None")
    case True
    with cut_ordered [OF assms(6,7)] qbuf show ?thesis
      by (simp add: start_superbuf_def Let_def)
  next
    case False
    then have "xs \<noteq> [] \<or> length ys \<le> unat ?limit"
      using u by (auto simp: w not_less)
    from make_room [OF assms(6) refl assms(7,8) this w]
    obtain x c2 xs2 ys2 where r: "drop_old ?limit w c = Some x"
      "drop_last ?limit w x = (c2, place ms xs2 ys2)" "cut_at (frame_idx b) ms xs2 ys2 c2"
      "length xs2 + length ys2 \<le> unat ?limit" "attr (superbuf_queue c2) = attr (superbuf_queue c)"
      by blast
    obtain c1 u1 b1 where x: "x = (c1, u1, b1)"
      by (metis prod_cases3)
    have lst: "last_buf w = Some l \<Longrightarrow> l < length (que (superbuf_queue c))" for l
      using assms(6) by (auto simp: w cut_at_def split: if_splits)
    note d = drop_old_safe [OF assms(1) r(1) [unfolded x] lst, simplified]
    have c2: "queue_ok (superbuf_queue c2)" "num_streams (superbuf_queue c2) = num_streams (superbuf_queue c)"
      using r(2) d remove_one_safe(1-4) [OF d(1)]
      by (auto simp: x drop_last_def same_setup_def split: option.splits if_splits)
    have ord: "ordered c2"
      using cut_ordered [OF r(3)] r(4,5) by simp
    have k: "num_streams (superbuf_queue c2) \<le> MAX_STREAM_NUM_IN_BUNDLE"
      using c2(1) by (simp add: queue_ok_def)
    have "ordered (fst (add_superbuf self s b (place ms xs2 ys2) (c2, fs)))"
    proof (cases "num_streams (superbuf_queue c2) = 1")
      case True
      have "list_all matched (xs2 @ ys2)" "list_all (\<lambda>n. \<not> matched n) (xs2 @ ys2)"
        using one_stream_matched [OF c2(1) True] r(3) by (simp_all add: cut_at_def)
      then have "xs2 = []" "ys2 = []"
        by (cases xs2; cases ys2; simp)+
      with add_one_stream [OF c2(1) True ord _ assms(3,4), of s self fs] assms(2,5) c2(2) r(5) True
      show ?thesis
        by (simp add: place_def)
    next
      case False
      then show ?thesis
        using assms(2,5) c2(2) k r(4,5) by (intro cut_new [OF r(3) assms(3,4)]) simp_all
    qed
    moreover have "start_superbuf self memory s b w (c, fs) =
        Some (if memory then add_superbuf self s b (place ms xs2 ys2) (c2, fs)
              else (mm_channel_qbuf (buf b) c2, fs))"
      unfolding start_superbuf_def Let_def prod.case if_not_P [OF False] r(1) option.case r(2) ..
    ultimately show ?thesis
      using ord qbuf by (cases memory) (simp_all add: prod_eq_iff)
  qed
qed

lemma match_ordered:
  assumes "queue_ok (superbuf_queue c)" "s < num_streams (superbuf_queue c)"
    and "entry_ok b" "buf b = Some d" "priority (attr (superbuf_queue c)) \<noteq> PRIORITY_LOW"
    and "max_unmatched_frames (attr (superbuf_queue c)) < 255" and "ordered c"
  shows "\<exists>c' fs'. match_buf self memory s b (c, fs) = Some (c', fs') \<and> ordered c'"
proof -
  obtain ms us where q: "que (superbuf_queue c) = ms @ us" "list_all matched ms"
    "list_all (\<lambda>n. \<not> matched n) us" "sorted_wrt (<) (map node_frame_idx us)"
    "length us \<le> unat (max_unmatched_frames (attr (superbuf_queue c))) + 1"
    "list_all one_frame ms" "list_all one_frame us"
    "match_cnt (superbuf_queue c) = of_nat (length ms)"
    using assms(7) by (rule orderedE)
  show ?thesis
  proof (cases rule: sorted_cut [OF q(4), of "frame_idx b"])
    case (1 xs n ys)
    have "list_all (\<lambda>n. \<not> matched n \<and> node_frame_idx n < frame_idx b) xs" "\<not> matched n"
      using q(3) 1 by (auto simp: list_all_iff)
    then have "walk_queue (priority (attr (superbuf_queue c))) s b 0 (que (superbuf_queue c)) start_walk
      = \<lparr>found = Some (length ms + length xs), unmatched_bundles = of_nat (length xs),
         last_buf = (if xs = [] then None else Some (length ms)), insert_before_buf = None\<rparr>"
      using q(1,2) 1 assms(5) by (simp add: walk_matched walk_older start_walk_def takes_def)
    moreover have "ordered (fst (fill_superbuf self s b (length ms + length xs)
        (if xs = [] then None else Some (length ms)) (c, fs)))"
      by (rule fill_ordered [OF q(1) [unfolded 1(1)] q(2) q(3-5) [unfolded 1(1)] q(6) q(7) [unfolded 1(1)] q(8)
            1(2) [symmetric]])
    ultimately show ?thesis
      by (simp add: match_buf_def Let_def prod_eq_iff)
  next
    case (2 xs ys)
    then have cut: "cut_at (frame_idx b) ms xs ys c"
      using q by (simp add: cut_at_def)
    note w = walk_cut [OF assms(5) cut]
    have "length xs + length ys \<le> unat (max_unmatched_frames (attr (superbuf_queue c))) + 1"
      using q(5) 2(1) by simp
    from start_ordered [OF assms(1-5) cut this assms(6) refl, of self memory fs] w show ?thesis
      by (simp add: match_buf_def Let_def)
  qed
qed

lemma kept_ordered:
  assumes "kept c c'" "queue_ok (superbuf_queue c)" "ordered c"
  shows "ordered c'"
proof -
  obtain ns where "que (superbuf_queue c) = ns @ que (superbuf_queue c')"
    "counted (superbuf_queue c) \<longrightarrow> counted (superbuf_queue c')"
    "max_unmatched_frames (attr (superbuf_queue c')) = max_unmatched_frames (attr (superbuf_queue c))"
    using assms(1,2) by (auto simp: kept_def)
  then show ?thesis
    using assms(3) in_order_suffix unfolding ordered_def by metis
qed

lemma comp_and_enqueue_ordered:
  assumes "queue_ok (superbuf_queue c)" and "buf b = Some d"
    and "priority (attr (superbuf_queue c)) \<noteq> PRIORITY_LOW"
    and "max_unmatched_frames (attr (superbuf_queue c)) < 255" and "ordered c"
  shows "\<exists>rc c' fs'. mm_channel_superbuf_comp_and_enqueue self memory b (c, fs) = Some (rc, c', fs')
    \<and> ordered c'"
proof -
  have given: "ordered (mm_channel_qbuf x c1) = ordered c1" for x c1
    by (simp add: ordered_def)
  obtain rc1 c1 fs1 where h: "mm_channel_handle_metadata b (c, fs) = (rc1, c1, fs1)"
    by (metis prod_cases3)
  have k: "kept c c1"
    using handle_metadata_kept [of c b fs] h by simp
  then have c1: "queue_ok (superbuf_queue c1)" "ordered c1"
    "num_streams (superbuf_queue c1) = num_streams (superbuf_queue c)"
    "priority (attr (superbuf_queue c1)) \<noteq> PRIORITY_LOW"
    "max_unmatched_frames (attr (superbuf_queue c1)) < 255"
    using assms kept_ordered [OF k] by (simp_all add: kept_def same_setup_def)
  show ?thesis
  proof (cases "index_of (\<lambda>hdl. stream_id b = hdl)
      (take (num_streams (superbuf_queue c)) (bundled_streams (superbuf_queue c)))")
    case None
    with assms(5) show ?thesis
      by (simp add: mm_channel_superbuf_comp_and_enqueue_def)
  next
    case (Some s)
    then have s: "s < num_streams (superbuf_queue c1)"
      using index_of_Some c1(3) by fastforce
    show ?thesis
    proof (cases "frame_idx b = 0")
      case True
      with Some assms(5) given show ?thesis
        by (simp add: mm_channel_superbuf_comp_and_enqueue_def)
    next
      case False
      then have e: "entry_ok b"
        using assms(2) by (simp add: entry_ok_def)
      obtain c2 fs2 where m: "match_buf self memory s b (c1, fs1) = Some (c2, fs2)" "ordered c2"
        using match_ordered [OF c1(1) s e assms(2) c1(4,5,2)] by blast
      with False Some given c1(2) h show ?thesis
        by (simp add: mm_channel_superbuf_comp_and_enqueue_def Let_def)
    qed
  qed
qed

end
