(* ===== verification/SuperbufTrim.thy ===== *)
theory SuperbufTrim
  imports SuperbufOrder
begin

text \<open>
  The loops that keep the queue of superbuffers small end while complete superbuffers come first, and
  never end when an incomplete one does.  And: every buffer of a superbuffer is of the bundled stream
  that its place stands for.
\<close>

section \<open>The loops that keep the queue small\<close>

lemma dequeue_ordered:
  assumes "queue_ok (superbuf_queue c)" "ordered c" "que (superbuf_queue c) = n # ns" "matched n"
    and c': "superbuf_queue c' = (superbuf_queue c)\<lparr>que := ns, que_size := que_size (superbuf_queue c) - 1,
         match_cnt := match_cnt (superbuf_queue c) - 1\<rparr>"
  shows "queue_ok (superbuf_queue c')" "ordered c'"
proof -
  show "queue_ok (superbuf_queue c')"
    using queue_ok_tail(1) [OF assms(3,1)] assms(4) c' by simp
  have "counted (superbuf_queue c')"
    using queue_ok_tail(2) [OF assms(3)] assms(2,4) c' by (simp add: ordered_def)
  moreover have "in_order (max_unmatched_frames (attr (superbuf_queue c))) ([n] @ ns)"
    using assms(2,3) by (simp add: ordered_def)
  ultimately show "ordered c'"
    using in_order_suffix [of _ "[n]" ns] c' by (simp add: ordered_def)
qed

lemma head_matched:
  assumes "ordered c" "match_cnt (superbuf_queue c) \<noteq> 0"
  obtains n ns where "que (superbuf_queue c) = n # ns" "matched n"
proof -
  obtain ms us where q: "que (superbuf_queue c) = ms @ us" "list_all matched ms"
    "match_cnt (superbuf_queue c) = of_nat (length ms)"
    using assms(1) by (rule orderedE)
  then have "ms \<noteq> []"
    using assms(2) by auto
  with q that show ?thesis
    by (cases ms) auto
qed

text \<open>While complete superbuffers come first the loop ends, with at most \<open>limit\<close> of them left.\<close>

lemma trim_loop_ends:
  assumes "queue_ok (superbuf_queue c)" "ordered c"
  shows "\<exists>c' fs'. trim_loop limit (c, fs) = Some (c', fs')
    \<and> match_cnt (superbuf_queue c') \<le> ucast limit
    \<and> queue_ok (superbuf_queue c') \<and> ordered c' \<and> all_bufs c' = all_bufs c
    \<and> same_setup (superbuf_queue c) (superbuf_queue c')
    \<and> attr (superbuf_queue c') = attr (superbuf_queue c)
    \<and> (\<exists>ns. que (superbuf_queue c) = ns @ que (superbuf_queue c') \<and> list_all matched ns)"
  using assms
proof (induction "length (que (superbuf_queue c))" arbitrary: c fs)
  case (0 c fs)
  then have "match_cnt (superbuf_queue c) = 0"
    by (simp add: ordered_def counted_def)
  with 0 show ?case
    by (subst trim_loop.simps) (auto simp: same_setup_def)
next
  case (Suc k c fs)
  show ?case
  proof (cases "match_cnt (superbuf_queue c) \<le> ucast limit")
    case True
    with Suc.prems show ?thesis
      by (subst trim_loop.simps) (auto simp: same_setup_def)
  next
    case False
    then have "match_cnt (superbuf_queue c) \<noteq> 0"
      by auto
    then obtain n ns where h: "que (superbuf_queue c) = n # ns" "matched n"
      using head_matched [OF Suc.prems(2)] by metis
    show ?thesis
    proof (cases rule: dequeue_internal_cases [of c True fs])
      case (taken n' ns' c' fs')
      then have q: "superbuf_queue (qbuf_buffers n c') = (superbuf_queue c)\<lparr>que := ns,
          que_size := que_size (superbuf_queue c) - 1, match_cnt := match_cnt (superbuf_queue c) - 1\<rparr>"
        "n' = n" "qbufs c' = qbufs c"
        using h by simp_all
      note d = dequeue_ordered [OF Suc.prems h q(1)]
      have "k = length (que (superbuf_queue (qbuf_buffers n c')))"
        using Suc.hyps(2) h q(1) by simp
      from Suc.hyps(1) [OF this d, of fs'] obtain c2 fs2 xs where
        r: "trim_loop limit (qbuf_buffers n c', fs') = Some (c2, fs2)"
          "match_cnt (superbuf_queue c2) \<le> ucast limit"
          "queue_ok (superbuf_queue c2)" "ordered c2" "all_bufs c2 = all_bufs (qbuf_buffers n c')"
          "same_setup (superbuf_queue (qbuf_buffers n c')) (superbuf_queue c2)"
          "attr (superbuf_queue c2) = attr (superbuf_queue (qbuf_buffers n c'))"
          "que (superbuf_queue (qbuf_buffers n c')) = xs @ que (superbuf_queue c2)" "list_all matched xs"
        by blast
      have "trim_loop limit (c, fs) = Some (c2, fs2)"
        using False taken(3) r(1) q(2) by (subst trim_loop.simps) simp
      moreover have "all_bufs (qbuf_buffers n c') = all_bufs c"
        using h q by (simp add: all_bufs_def qbufs_qbuf_buffers)
      moreover have "que (superbuf_queue c) = (n # xs) @ que (superbuf_queue c2)"
        using h(1) q(1) r(8) by simp
      moreover have "list_all matched (n # xs)"
        using h(2) r(9) by simp
      moreover have "same_setup (superbuf_queue c) (superbuf_queue c2)" "attr (superbuf_queue c2) = attr (superbuf_queue c)"
        using r(6,7) q(1) by (simp_all add: same_setup_def)
      ultimately show ?thesis
        using r(2,3,4,5) by metis
    qed (use h in auto)
  qed
qed

text \<open>When an incomplete superbuffer comes first the loop never ends.\<close>

lemma trim_loop_stuck:
  assumes "que (superbuf_queue c) = n # ns" "\<not> matched n" "ucast limit < match_cnt (superbuf_queue c)"
  shows "trim_loop limit (c, fs) = None"
proof -
  have "\<not> (cf = (c, fs) \<and> l = limit)" if "trim_loop l cf = Some y" for l cf y
  proof (rule trim_loop.raw_induct [where P = "\<lambda>l cf y. \<not> (cf = (c, fs) \<and> l = limit)", OF _ that])
    fix f l cf y
    assume IH: "\<And>l cf y. f l cf = Some y \<Longrightarrow> \<not> (cf = (c, fs) \<and> l = limit)"
      and eq: "(if match_cnt (superbuf_queue (fst cf)) \<le> ucast l then Some cf
        else case mm_channel_superbuf_dequeue_internal True cf of
          (None, cf) \<Rightarrow> f l cf
        | (Some n, c, fs) \<Rightarrow> f l (qbuf_buffers n c, fs)) = Some y"
    show "\<not> (cf = (c, fs) \<and> l = limit)"
    proof
      assume e: "cf = (c, fs) \<and> l = limit"
      with assms eq have "f limit (c, fs) = Some y"
        by (simp add: mm_channel_superbuf_dequeue_internal_def not_le [symmetric])
      with IH show False
        by blast
    qed
  qed
  then show ?thesis
    by (metis not_Some_eq)
qed

section \<open>Which buffers are in a superbuffer\<close>

text \<open>Every filled entry of a superbuffer is of the bundled stream of its place.\<close>

definition node_in_place :: "channel_queue \<Rightarrow> queue_node \<Rightarrow> bool" where
  "node_in_place q n \<longleftrightarrow> (\<forall>s < num_streams q. frame_idx (super_buf n ! s) \<noteq> 0 \<longrightarrow>
     stream_id (super_buf n ! s) = bundled_streams q ! s)"

definition in_place :: "channel_queue \<Rightarrow> bool" where
  "in_place q \<longleftrightarrow> list_all (node_in_place q) (que q)"

lemmas in_place_iff = in_place_def

lemma node_in_place_sel [simp]:
  "node_in_place q (n\<lparr>expected_frame := x\<rparr>) = node_in_place q n"
  "node_in_place q (n\<lparr>matched := y\<rparr>) = node_in_place q n"
  "node_in_place q (settle_idx f n) = node_in_place q n"
  by (simp_all add: node_in_place_def)

lemma node_in_place_cong:
  "same_setup q q' \<Longrightarrow> node_in_place q' = node_in_place q"
  by (simp add: fun_eq_iff node_in_place_def same_setup_def)

lemma put_buf_in_place:
  assumes "node_in_place q n" "length (super_buf n) = MAX_STREAM_NUM_IN_BUNDLE" "s < MAX_STREAM_NUM_IN_BUNDLE"
    and "stream_id b = bundled_streams q ! s"
  shows "node_in_place q (put_buf s b n)"
  using assms by (auto simp: node_in_place_def nth_list_update)

lemma new_superbuf_in_place:
  assumes "s < MAX_STREAM_NUM_IN_BUNDLE" "num_streams q \<le> MAX_STREAM_NUM_IN_BUNDLE"
    and "stream_id b = bundled_streams q ! s"
  shows "node_in_place q (new_superbuf s b q)"
  using assms by (auto simp: node_in_place_def nth_list_update)

lemma que_remove_nodes:
  "que (superbuf_queue (remove_nodes l i c)) = take l (que (superbuf_queue c)) @ drop i (que (superbuf_queue c))"
  by (simp add: remove_nodes_def Let_def)

lemma list_all_remove:
  "list_all P (que (superbuf_queue c)) \<Longrightarrow> list_all P (que (superbuf_queue (remove_nodes l i c)))"
  by (simp add: que_remove_nodes list_all_cut)

lemma fill_in_place:
  assumes "queue_ok (superbuf_queue c)" "in_place (superbuf_queue c)"
    and "s < num_streams (superbuf_queue c)" "stream_id b = bundled_streams (superbuf_queue c) ! s"
    and "i < length (que (superbuf_queue c))"
  shows "list_all (node_in_place (superbuf_queue c))
    (que (superbuf_queue (fst (fill_superbuf self s b i l (c, fs)))))"
proof -
  let ?P = "node_in_place (superbuf_queue c)"
  let ?n = "settle_idx (frame_idx b) (que (superbuf_queue c) ! i)"
  have all: "list_all ?P (que (superbuf_queue c))"
    using assms(2) by (simp add: in_place_iff)
  have n: "?P ?n" "length (super_buf ?n) = MAX_STREAM_NUM_IN_BUNDLE"
    using all assms(1,5) by (simp_all add: list_all_length queue_ok_def node_ok_def)
  have s: "s < MAX_STREAM_NUM_IN_BUNDLE"
    using assms(1,3) by (simp add: queue_ok_def)
  have m: "?P (put_buf s b ?n)"
    by (rule put_buf_in_place [OF n s assms(4)])
  have set: "list_all ?P ((que (superbuf_queue c))[i := x])" if "?P x" for x
    using all that by (rule list_all_update)
  show ?thesis
    using set [OF n(1)] set [OF m] set [of "put_buf s b ?n\<lparr>expected_frame := False\<rparr>"]
      set [of "put_buf s b ?n\<lparr>expected_frame := True\<rparr>"] m
    by (auto simp: fill_superbuf_def Let_def intro!: list_all_remove split: option.split)
qed

lemma drop_in_place:
  assumes "list_all P (que (superbuf_queue c))" "drop_old limit w c = Some x" "drop_last limit w x = (c', before)"
  shows "list_all P (que (superbuf_queue c'))"
proof -
  obtain c1 u b1 where x: "x = (c1, u, b1)"
    by (metis prod_cases3)
  have "list_all P (que (superbuf_queue c1))"
    using assms(1,2) list_all_remove by (auto simp: x drop_old_def Let_def split: option.splits if_splits)
  then show ?thesis
    using assms(3) list_all_remove by (auto simp: x drop_last_def split: option.splits if_splits)
qed

lemma drop_setup:
  assumes "drop_old limit w c = Some x" "drop_last limit w x = (c', before)"
  shows "same_setup (superbuf_queue c) (superbuf_queue c')"
    and "attr (superbuf_queue c') = attr (superbuf_queue c)"
proof -
  obtain c1 u b1 where x: "x = (c1, u, b1)"
    by (metis prod_cases3)
  have r: "same_setup (superbuf_queue c) (superbuf_queue (remove_nodes l i c))"
    "attr (superbuf_queue (remove_nodes l i c)) = attr (superbuf_queue c)" for l i c
    by (simp_all add: remove_nodes_def Let_def same_setup_def)
  have "same_setup (superbuf_queue c) (superbuf_queue c1) \<and> attr (superbuf_queue c1) = attr (superbuf_queue c)"
    using assms(1) r by (auto simp: x drop_old_def Let_def same_setup_def split: option.splits if_splits)
  then show "same_setup (superbuf_queue c) (superbuf_queue c')" "attr (superbuf_queue c') = attr (superbuf_queue c)"
    using assms(2) r by (auto simp: x drop_last_def same_setup_def split: option.splits if_splits)
qed

lemma add_in_place:
  assumes "list_all (node_in_place (superbuf_queue c)) (que (superbuf_queue c))"
    and "node_in_place (superbuf_queue c) (new_superbuf s b (superbuf_queue c))"
  shows "list_all (node_in_place (superbuf_queue c))
    (que (superbuf_queue (fst (add_superbuf self s b before (c, fs)))))"
  using assms by (auto simp: add_superbuf_def Let_def list_all_cut split: option.split)

lemma start_in_place:
  assumes "in_place (superbuf_queue c)" "s < num_streams (superbuf_queue c)"
    "num_streams (superbuf_queue c) \<le> MAX_STREAM_NUM_IN_BUNDLE"
    "stream_id b = bundled_streams (superbuf_queue c) ! s"
    and "start_superbuf self memory s b w (c, fs) = Some (c', fs')"
  shows "list_all (node_in_place (superbuf_queue c)) (que (superbuf_queue c'))"
proof (cases "max_unmatched_frames (attr (superbuf_queue c)) < unmatched_bundles w \<and> last_buf w = None")
  case True
  with assms(1,5) show ?thesis
    by (auto simp: start_superbuf_def in_place_iff)
next
  case False
  then obtain x c2 before where
    x: "drop_old (max_unmatched_frames (attr (superbuf_queue c))) w c = Some x"
    "drop_last (max_unmatched_frames (attr (superbuf_queue c))) w x = (c2, before)"
    and r: "(if memory then add_superbuf self s b before (c2, fs) else (mm_channel_qbuf (buf b) c2, fs)) = (c', fs')"
    using assms(5) by (auto simp: start_superbuf_def Let_def split: option.splits prod.splits)
  have all: "list_all (node_in_place (superbuf_queue c)) (que (superbuf_queue c2))"
    using drop_in_place [OF _ x] assms(1) by (simp add: in_place_iff)
  note same = drop_setup [OF x]
  have eq: "node_in_place (superbuf_queue c2) = node_in_place (superbuf_queue c)"
    by (rule node_in_place_cong [OF same(1)])
  have "node_in_place (superbuf_queue c2) (new_superbuf s b (superbuf_queue c2))"
    using same(1) assms(2-4) by (intro new_superbuf_in_place) (simp_all add: same_setup_def)
  from add_in_place [OF _ this, of self before fs] all r eq show ?thesis
    by (auto split: if_splits)
qed

lemma comp_and_enqueue_in_place:
  assumes "queue_ok (superbuf_queue c)" "in_place (superbuf_queue c)" "buf b = Some d"
    and r: "mm_channel_superbuf_comp_and_enqueue self memory b (c, fs) = Some (rc, c', fs')"
  shows "in_place (superbuf_queue c')"
proof -
  obtain rc1 c1 fs1 where h: "mm_channel_handle_metadata b (c, fs) = (rc1, c1, fs1)"
    by (metis prod_cases3)
  have k: "kept c c1"
    using handle_metadata_kept [of c b fs] h by simp
  then have ok: "queue_ok (superbuf_queue c1)" and same: "same_setup (superbuf_queue c) (superbuf_queue c1)"
    using assms(1) by (simp_all add: kept_def)
  obtain ns where "que (superbuf_queue c) = ns @ que (superbuf_queue c1)"
    using k assms(1) by (auto simp: kept_def)
  then have c1: "in_place (superbuf_queue c1)"
    using assms(2) node_in_place_cong [OF same] by (simp add: in_place_iff)
  show ?thesis
  proof (cases "index_of (\<lambda>hdl. stream_id b = hdl)
      (take (num_streams (superbuf_queue c)) (bundled_streams (superbuf_queue c)))")
    case None
    with assms(2) r show ?thesis
      by (simp add: mm_channel_superbuf_comp_and_enqueue_def)
  next
    case (Some s)
    then have "s < num_streams (superbuf_queue c)" "stream_id b = bundled_streams (superbuf_queue c) ! s"
      using index_of_Some [OF Some] by simp_all
    then have s: "s < num_streams (superbuf_queue c1)" "stream_id b = bundled_streams (superbuf_queue c1) ! s"
      using same by (simp_all add: same_setup_def)
    have num: "num_streams (superbuf_queue c1) \<le> MAX_STREAM_NUM_IN_BUNDLE"
      using ok by (simp add: queue_ok_def)
    consider "c' = mm_channel_qbuf (buf b) c" | "c' = mm_channel_qbuf (buf b) c1"
      | "match_buf self memory s b (c1, fs1) = Some (c', fs')" "frame_idx b \<noteq> 0"
      using r Some h
      by (auto simp: mm_channel_superbuf_comp_and_enqueue_def Let_def split: if_splits)
    then show ?thesis
    proof cases
      case 3
      let ?w = "walk_queue (priority (attr (superbuf_queue c1))) s b 0 (que (superbuf_queue c1)) start_walk"
      have "entry_ok b"
        using 3(2) assms(3) by (simp add: entry_ok_def)
      from match_buf_safe [OF ok s(1) assms(3) this 3(1)]
      have eq: "node_in_place (superbuf_queue c') = node_in_place (superbuf_queue c1)"
        using node_in_place_cong by blast
      show ?thesis
      proof (cases "found ?w")
        case None
        with 3(1) have "start_superbuf self memory s b ?w (c1, fs1) = Some (c', fs')"
          by (simp add: match_buf_def Let_def)
        from start_in_place [OF c1 s(1) num s(2) this] eq show ?thesis
          by (simp add: in_place_iff)
      next
        case (Some i)
        then have "i < length (que (superbuf_queue c1))"
          using walk_start(1) by blast
        from fill_in_place [OF ok c1 s this, of self "last_buf ?w" fs1] Some 3(1) eq show ?thesis
          by (simp add: match_buf_def Let_def in_place_iff)
      qed
    qed (use assms(2) c1 in simp_all)
  qed
qed

end
