(* ===== verification/ChannelProcess.thy ===== *)
theory ChannelProcess
  imports SuperbufTrim
begin

text \<open>
  The command thread of a channel: \<open>mm_channel_process_stream_buf\<close> and \<open>mm_channel_send_super_buf\<close> of
  \<^verbatim>\<open>stack/mm-camera-interface/src/mm_camera_channel.c\<close>.  It is called for one command at a time.  The
  world holds the channels by their addresses, the frames synchronised between cameras, and two
  ghosts: the superbuffers sent to the callback threads and the calls that start and stop the ZSL
  snapshot at the server.

  None is the result of a call that does not return, or that reads or writes outside an array or
  through a pointer to no channel.
\<close>

section \<open>Commands and the world\<close>

datatype (plugins only: code size) gen_cmd_type =
    AE_BRACKETING | AF_BRACKETING | FLASH_BRACKETING | ZOOM_1X | CAPTURE_SETTING | INVALID_GEN_CMD

record req_buf =
  req_buf_type :: req_buf_type
  num_buf_requested :: uint32
  num_retro_buf_requested :: uint32

datatype (plugins only: code size) cmdcb =
    DATA_CB mm_camera_buf_info
  | REQ_DATA_CB req_buf
  | START_ZSL
  | STOP_ZSL
  | CONFIG_NOTIFY notify_mode
  | FLUSH_QUEUE uint32 cam_stream_type
  | GENERAL gen_cmd_type uint32 frame_config
  | OTHER_CMD

record superbuf_msg =
  camera_handle :: uint32
  ch_id :: uint32
  msg_bufs :: "mm_camera_buf_def option list"
  bReadyForPrepareSnapshot :: bool
  bUnlockAEC :: bool

datatype (plugins only: code size) zsl_call = Start_ZSL ptr | Stop_ZSL ptr

record cam_world =
  chans :: "ptr \<Rightarrow> mm_channel option"
  sync :: frame_sync
  out_of_memory :: "bool list"
  sent :: "(ptr \<times> superbuf_msg) list"
  zsl_calls :: "zsl_call list"

text \<open>
  Each \<open>malloc\<close> of a command takes an element of \<open>out_of_memory\<close>: True when it fails.
\<close>

definition malloc :: "cam_world \<Rightarrow> bool \<times> cam_world" where
  "malloc w = (case out_of_memory w of [] \<Rightarrow> (True, w) | f # fs \<Rightarrow> (\<not> f, w\<lparr>out_of_memory := fs\<rparr>))"

definition put_chan :: "ptr \<Rightarrow> mm_channel \<Rightarrow> cam_world \<Rightarrow> cam_world" where
  "put_chan self c w = w\<lparr>chans := (chans w)(self \<mapsto> c)\<rparr>"

definition put_cf :: "ptr \<Rightarrow> mm_channel \<times> frame_sync \<Rightarrow> cam_world \<Rightarrow> cam_world" where
  "put_cf self cf w = put_chan self (fst cf) w\<lparr>sync := snd cf\<rparr>"

definition MAX_CAPTURE_BATCH_NUM :: nat where
  "MAX_CAPTURE_BATCH_NUM = 32"

section \<open>The command\<close>

definition process_request :: "req_buf \<Rightarrow> mm_channel \<Rightarrow> mm_channel" where
  "process_request r c =
     (let pending = num_buf_requested r; retro = num_retro_buf_requested r;
          retro = (if pending = 0 \<or> pending < retro then pending else retro)
      in c\<lparr>pending_cnt := pending, pending_retro_cnt := retro, req_type := req_buf_type r,
           bWaitForPrepSnapshotDone := False,
           needLEDFlash := (if 0 < retro then False else needLEDFlash c),
           stopZslSnapshot := False, unLockAEC := False\<rparr>)"

definition no_configs :: "(cam_capture_type \<times> uint32) list" where
  "no_configs = replicate MAX_CAPTURE_BATCH_NUM (CAPTURE_NORMAL, 0)"

definition set_frame_config :: "frame_config \<Rightarrow> frame_config" where
  "set_frame_config f =
     (let sel = filter (\<lambda>(t, _). t \<noteq> CAPTURE_RESET) (take (num_batch f) (configs f))
      in \<lparr>num_batch = length sel, configs = sel @ drop (length sel) no_configs\<rparr>)"

definition process_general ::
  "gen_cmd_type \<Rightarrow> uint32 \<Rightarrow> frame_config \<Rightarrow> mm_channel \<times> frame_sync \<Rightarrow> (mm_channel \<times> frame_sync) option" where
  "process_general t start f cf =
     (let flushed = mm_channel_superbuf_flush CAM_STREAM_TYPE_DEFAULT cf in
      case t of
        AE_BRACKETING \<Rightarrow> Some (apfst (\<lambda>c. c\<lparr>bracketingState :=
          (if start \<noteq> 0 then BRACKETING_WAIT_GOOD_FRAME_IDX else BRACKETING_OFF)\<rparr>) flushed)
      | AF_BRACKETING \<Rightarrow> Some (apfst (\<lambda>c. c\<lparr>bracketingState :=
          (if start \<noteq> 0 then BRACKETING_WAIT_GOOD_FRAME_IDX else BRACKETING_OFF)\<rparr>) flushed)
      | FLASH_BRACKETING \<Rightarrow> Some (apfst (\<lambda>c. c\<lparr>isFlashBracketingEnabled := (start \<noteq> 0)\<rparr>) flushed)
      | ZOOM_1X \<Rightarrow> Some (apfst (\<lambda>c. c\<lparr>isZoom1xFrameRequested := (start \<noteq> 0)\<rparr>) flushed)
      | CAPTURE_SETTING \<Rightarrow>
          if start \<noteq> 0 \<and> MAX_CAPTURE_BATCH_NUM < num_batch f then None
          else Some (apfst (\<lambda>c. c\<lparr>
            frameConfig := (if start \<noteq> 0 then set_frame_config f
                            else \<lparr>num_batch = 0, configs = no_configs\<rparr>),
            isConfigCapture := (start \<noteq> 0), cur_capture_idx := 0,
            capture_frame_id := replicate 8 0 @ drop 8 (capture_frame_id c)\<rparr>) cf)
      | INVALID_GEN_CMD \<Rightarrow> Some cf)"

text \<open>
  The first part of the function; \<open>memory\<close> says whether a new superbuffer can be allocated.
\<close>

definition process_cmd :: "bool \<Rightarrow> ptr \<Rightarrow> cmdcb \<Rightarrow> cam_world \<Rightarrow> cam_world option" where
  "process_cmd memory self cmd w =
     (case chans w self of None \<Rightarrow> None | Some c \<Rightarrow>
       (let cf = (c, sync w) in
        case cmd of
          DATA_CB b \<Rightarrow>
            map_option (\<lambda>(rc, cf). put_cf self cf w) (mm_channel_superbuf_comp_and_enqueue self memory b cf)
        | REQ_DATA_CB r \<Rightarrow>
            map_option (\<lambda>cf. put_cf self cf w) (mm_channel_superbuf_skip (apfst (process_request r) cf))
        | START_ZSL \<Rightarrow>
            Some ((put_chan self (c\<lparr>manualZSLSnapshot := True\<rparr>) w)\<lparr>zsl_calls := zsl_calls w @ [Start_ZSL self]\<rparr>)
        | STOP_ZSL \<Rightarrow>
            Some ((put_chan self (c\<lparr>manualZSLSnapshot := False\<rparr>) w)\<lparr>zsl_calls := zsl_calls w @ [Stop_ZSL self]\<rparr>)
        | CONFIG_NOTIFY m \<Rightarrow>
            Some (put_chan self (upd_queue (\<lambda>q. q\<lparr>attr := (attr q)\<lparr>notify_mode := m\<rparr>\<rparr>) c) w)
        | FLUSH_QUEUE frame t \<Rightarrow>
            Some (put_cf self (mm_channel_superbuf_flush t (apfst (set_expected frame) cf)) w)
        | GENERAL t start f \<Rightarrow> map_option (\<lambda>cf. put_cf self cf w) (process_general t start f cf)
        | OTHER_CMD \<Rightarrow> Some w))"

section \<open>Starting and stopping the ZSL snapshot\<close>

definition needStartZSL :: "mm_channel \<Rightarrow> bool" where
  "needStartZSL c \<longleftrightarrow>
     0 < pending_cnt c \<and> isConfigCapture c \<and> \<not> manualZSLSnapshot c \<and> \<not> startZSlSnapshotCalled c
     \<and> \<not> list_ex (\<lambda>(t, _). t = CAPTURE_FLASH \<and> \<not> needLEDFlash c \<or> t = CAPTURE_LOW_LIGHT \<and> \<not> needLowLightZSL c)
           (drop (cur_capture_idx c) (take (num_batch (frameConfig c)) (configs (frameConfig c))))"

definition zsl_started :: "mm_channel \<Rightarrow> mm_channel" where
  "zsl_started c = c\<lparr>startZSlSnapshotCalled := True, burstSnapNum := pending_cnt c,
     bWaitForPrepSnapshotDone := False\<rparr>"

definition wait_batches :: "mm_channel \<Rightarrow> mm_channel" where
  "wait_batches c =
     (let f = expected_frame_id (superbuf_queue c) + MM_CAMERA_MAX_FUTURE_FRAME_WAIT in
      c\<lparr>capture_frame_id := fold (\<lambda>i ids. ids[i := f]) [cur_capture_idx c ..< num_batch (frameConfig c)]
          (capture_frame_id c)\<rparr>)"

definition update_zsl :: "ptr \<Rightarrow> cam_world \<Rightarrow> cam_world option" where
  "update_zsl self w =
     (case chans w self of None \<Rightarrow> None | Some c \<Rightarrow>
        if isConfigCapture c \<and> needStartZSL c
        then (case mm_channel_superbuf_flush CAM_STREAM_TYPE_DEFAULT (wait_batches c, sync w) of (c, fs) \<Rightarrow>
                Some ((put_cf self (zsl_started c, fs) w)\<lparr>zsl_calls := zsl_calls w @ [Start_ZSL self]\<rparr>))
        else if 0 < pending_cnt c \<and> (needLEDFlash c \<or> bracketingState c \<noteq> BRACKETING_OFF)
             \<and> \<not> manualZSLSnapshot c \<and> \<not> startZSlSnapshotCalled c
        then Some ((put_chan self (zsl_started c) w)\<lparr>zsl_calls := zsl_calls w @ [Start_ZSL self]\<rparr>)
        else if (pending_cnt c = 0 \<or> stopZslSnapshot c) \<and> \<not> manualZSLSnapshot c \<and> startZSlSnapshotCalled c
        then Some ((put_chan self (c\<lparr>startZSlSnapshotCalled := False, needLEDFlash := False,
                 burstSnapNum := 0, stopZslSnapshot := False, bWaitForPrepSnapshotDone := False,
                 unLockAEC := True, bracketingState := BRACKETING_OFF, isConfigCapture := False\<rparr>) w)
               \<lparr>zsl_calls := zsl_calls w @ [Stop_ZSL self]\<rparr>)
        else Some w)"

section \<open>Taking superbuffers for the callback threads\<close>

definition overflow :: "ptr \<Rightarrow> cam_world \<Rightarrow> cam_world option" where
  "overflow self w =
     (case chans w self of None \<Rightarrow> None | Some c \<Rightarrow>
        map_option (\<lambda>cf. put_cf self cf w) (mm_channel_superbuf_bufdone_overflow (c, sync w)))"

text \<open>From each registered channel the superbuffer of the frame, when the channel has it.\<close>

fun take_frame :: "uint32 \<Rightarrow> ptr list \<Rightarrow> cam_world \<Rightarrow> ((ptr \<times> queue_node) list \<times> cam_world) option" where
  "take_frame frame [] w = Some ([], w)"
| "take_frame frame (p # ps) w =
     (if p = NULL then take_frame frame ps w
      else case chans w p of
        None \<Rightarrow> None
      | Some c \<Rightarrow>
         (case mm_channel_superbuf_dequeue_frame_internal frame c of
            (None, c) \<Rightarrow> take_frame frame ps (put_chan p c w)
          | (Some n, c) \<Rightarrow>
              map_option (apfst ((#) (p, n))) (take_frame frame ps (put_chan p c w))))"

definition node_qbuf :: "ptr \<times> queue_node \<Rightarrow> cam_world \<Rightarrow> cam_world" where
  "node_qbuf pn w =
     (case chans w (fst pn) of None \<Rightarrow> w
      | Some c \<Rightarrow> put_chan (fst pn) (mm_channel_node_qbuf (snd pn) c) w)"

definition take_synced :: "cam_world \<Rightarrow> ((ptr \<times> queue_node) list \<times> cam_world) option" where
  "take_synced w =
     (let frame = mm_frame_sync_find_matched False (sync w) in
      if frame = 0 then Some ([], w)
      else case take_frame frame (sync_ch (sync w)) w of
        None \<Rightarrow> None
      | Some (info, w) \<Rightarrow>
          let w = w\<lparr>sync := snd (mm_frame_sync_remove frame (sync w))\<rparr> in
          if length info \<noteq> num_cam (sync w) then Some ([], fold node_qbuf info w)
          else Some (info, w))"

definition take_own :: "ptr \<Rightarrow> mm_channel \<Rightarrow> cam_world \<Rightarrow> ((ptr \<times> queue_node) list \<times> cam_world) option" where
  "take_own self c w =
     (case mm_channel_superbuf_dequeue (c, sync w) of
        (None, cf) \<Rightarrow> Some ([], put_cf self cf w)
      | (Some n, c, fs) \<Rightarrow>
          if isConfigCapture c
          then if MAX_CAPTURE_BATCH_NUM \<le> cur_capture_idx c then None
               else if node_frame_idx n < capture_frame_id c ! cur_capture_idx c
               then Some ([], put_cf self (mm_channel_node_qbuf n c, fs) w)
               else Some ([(self, n)], put_cf self (c, fs) w)
          else Some ([(self, n)], put_cf self (c, fs) w))"

definition take_superbufs :: "ptr \<Rightarrow> mm_channel \<Rightarrow> cam_world \<Rightarrow> ((ptr \<times> queue_node) list \<times> cam_world) option" where
  "take_superbufs self c w =
     (if req_type c = REQ_FRAME_SYNC_BUF then take_synced w else take_own self c w)"

section \<open>Counting down the request\<close>

definition count_pending :: "mm_channel \<Rightarrow> mm_channel" where
  "count_pending c =
     (let c = c\<lparr>pending_cnt := pending_cnt c - 1\<rparr> in
      if 0 < pending_retro_cnt c
      then c\<lparr>bWaitForPrepSnapshotDone := (pending_retro_cnt c = 1 \<or> bWaitForPrepSnapshotDone c),
             pending_retro_cnt := pending_retro_cnt c - 1\<rparr>
      else c)"

definition all_received :: "mm_channel \<Rightarrow> bool" where
  "all_received c \<longleftrightarrow> (pending_cnt c = 0 \<or> stopZslSnapshot c) \<and> \<not> manualZSLSnapshot c \<and> startZSlSnapshotCalled c"

definition end_zsl :: "mm_channel \<Rightarrow> mm_channel" where
  "end_zsl c = c\<lparr>startZSlSnapshotCalled := False, burstSnapNum := 0, stopZslSnapshot := False,
     unLockAEC := True, needLEDFlash := False, bracketingState := BRACKETING_OFF, isConfigCapture := False\<rparr>"

text \<open>The count of the batch of a configured capture; after its last frame the next batch begins.\<close>

definition count_batch :: "mm_channel \<Rightarrow> mm_channel option" where
  "count_batch c =
     (if \<not> isConfigCapture c then Some c
      else let i = cur_capture_idx c in
        if MAX_CAPTURE_BATCH_NUM \<le> i then None
        else
          let cfg = configs (frameConfig c);
              left = (if snd (cfg ! i) \<noteq> 0 then snd (cfg ! i) - 1 else 0);
              c = c\<lparr>frameConfig := (frameConfig c)\<lparr>configs := cfg[i := (fst (cfg ! i), left)]\<rparr>\<rparr>
          in if left \<noteq> 0 then Some c
             else if MAX_CAPTURE_BATCH_NUM \<le> i + 1 then None
             else let f = capture_frame_id c ! (i + 1)
                  in Some (set_good f (set_expected f (c\<lparr>cur_capture_idx := i + 1\<rparr>))))"

definition count_sent :: "ptr \<Rightarrow> cam_world \<Rightarrow> cam_world option" where
  "count_sent self w =
     (case chans w self of None \<Rightarrow> None | Some c \<Rightarrow>
       (let c = count_pending c; stop = all_received c; c = (if stop then end_zsl c else c) in
        map_option (\<lambda>c. (put_chan self c w)
            \<lparr>zsl_calls := zsl_calls w @ (if stop then [Stop_ZSL self] else [])\<rparr>)
          (count_batch c)))"

section \<open>Sending\<close>

definition superbuf_of :: "mm_channel \<Rightarrow> queue_node \<Rightarrow> superbuf_msg" where
  "superbuf_of c n =
     \<lparr>camera_handle = cam_hdl c, ch_id = ch_hdl c, msg_bufs = map buf (node_entries n),
      bReadyForPrepareSnapshot = bWaitForPrepSnapshotDone c, bUnlockAEC = unLockAEC c\<rparr>"

definition send_node :: "ptr \<times> queue_node \<Rightarrow> cam_world \<Rightarrow> cam_world" where
  "send_node pn w =
     (case pn of (p, n) \<Rightarrow>
        case chans w p of None \<Rightarrow> w | Some c \<Rightarrow>
          if super_buf_notify_cb c
          then (case malloc w of (ok, w) \<Rightarrow>
                 if ok
                 then (put_chan p (c\<lparr>unLockAEC := False\<rparr>) w)\<lparr>sent := sent w @ [(p, superbuf_of c n)]\<rparr>
                 else put_chan p (mm_channel_node_qbuf n c) w)
          else put_chan p (mm_channel_node_qbuf n c) w)"

definition mm_channel_send_super_buf :: "(ptr \<times> queue_node) list \<Rightarrow> cam_world \<Rightarrow> cam_world" where
  "mm_channel_send_super_buf = fold send_node"

section \<open>The loop that dispatches\<close>

text \<open>
  The loop ends because every superbuffer that is sent has left the channel's queue or has taken its
  frame from the synchronised frames.
\<close>

definition open_frames :: "frame_sync \<Rightarrow> nat" where
  "open_frames fs = length (filter (\<lambda>n. sync_frame_idx n \<noteq> 0) (sync_nodes fs))"

definition own_length :: "ptr \<Rightarrow> cam_world \<Rightarrow> nat" where
  "own_length self w = (case chans w self of None \<Rightarrow> 0 | Some c \<Rightarrow> length (que (superbuf_queue c)))"

definition count_if_burst :: "notify_mode \<Rightarrow> ptr \<Rightarrow> cam_world \<Rightarrow> cam_world option" where
  "count_if_burst mode self w = (if mode = NOTIFY_BURST then count_sent self w else Some w)"

lemma put_chan_simps [simp]:
  "chans (put_chan p c w) = (chans w)(p \<mapsto> c)" "sync (put_chan p c w) = sync w"
  "sent (put_chan p c w) = sent w" "zsl_calls (put_chan p c w) = zsl_calls w"
  "out_of_memory (put_chan p c w) = out_of_memory w"
  by (simp_all add: put_chan_def)

lemma put_cf_simps [simp]:
  "chans (put_cf p cf w) = (chans w)(p \<mapsto> fst cf)" "sync (put_cf p cf w) = snd cf"
  "sent (put_cf p cf w) = sent w" "zsl_calls (put_cf p cf w) = zsl_calls w"
  by (simp_all add: put_cf_def)

lemma own_length_cong:
  "(\<And>p c. chans w' p = Some c \<Longrightarrow> \<exists>d. chans w p = Some d \<and> length (que (superbuf_queue c)) \<le> length (que (superbuf_queue d)))
    \<Longrightarrow> own_length self w' \<le> own_length self w"
  by (fastforce simp: own_length_def split: option.split)

lemma send_node_queues:
  "sync (send_node pn w) = sync w" "own_length self (send_node pn w) = own_length self w"
  by (auto simp: send_node_def own_length_def malloc_def split: prod.split option.split list.split)

lemma send_queues:
  "sync (mm_channel_send_super_buf info w) = sync w"
  "own_length self (mm_channel_send_super_buf info w) = own_length self w"
  unfolding mm_channel_send_super_buf_def
  by (induction info arbitrary: w) (simp_all add: send_node_queues)

lemma count_batch_queues: "count_batch c = Some c' \<Longrightarrow> que (superbuf_queue c') = que (superbuf_queue c)"
  by (auto simp: count_batch_def Let_def set_good_def set_expected_def split: if_splits)

lemma count_sent_queues:
  assumes "count_if_burst mode self w = Some w'"
  shows "sync w' = sync w" "own_length p w' = own_length p w"
proof -
  have "sync w' = sync w \<and> own_length p w' = own_length p w"
    using assms
    by (auto simp: count_if_burst_def count_sent_def Let_def own_length_def count_pending_def end_zsl_def
        dest!: count_batch_queues split: option.splits if_splits)
  then show "sync w' = sync w" "own_length p w' = own_length p w"
    by simp_all
qed

lemma find_matched_from_in:
  "find_matched_from oldest f ns = f
    \<or> (\<exists>n \<in> set ns. sync_matched n \<and> sync_frame_idx n = find_matched_from oldest f ns)"
proof (induction ns arbitrary: f)
  case (Cons n ns)
  let ?f = "if f = 0 then sync_frame_idx n else f"
  show ?case
    using Cons.IH [of f] Cons.IH [of "sync_frame_idx n"] Cons.IH [of ?f]
    by (cases "sync_matched n"; cases oldest; cases "f = 0"; cases "sync_frame_idx n < f")
      (auto simp: Let_def)
qed simp

lemma find_matched_in:
  "find_matched_from oldest f ns \<noteq> f
    \<Longrightarrow> \<exists>n \<in> set ns. sync_matched n \<and> sync_frame_idx n = find_matched_from oldest f ns"
  using find_matched_from_in by blast

lemma length_filter_update:
  assumes "i < length xs" "P (xs ! i)" "\<not> P y"
  shows "length (filter P (xs[i := y])) < length (filter P xs)"
  using assms by (subst (2) id_take_nth_drop [of i xs]) (simp_all add: upd_conv_take_nth_drop)

lemma open_frames_remove:
  "open_frames (snd (mm_frame_sync_remove f fs)) \<le> open_frames fs"
  "f \<noteq> 0 \<Longrightarrow> n \<in> set (sync_nodes fs) \<Longrightarrow> sync_frame_idx n = f
    \<Longrightarrow> open_frames (snd (mm_frame_sync_remove f fs)) < open_frames fs"
proof -
  have less: "open_frames (snd (mm_frame_sync_remove f fs)) < open_frames fs"
    if "f \<noteq> 0" "mm_frame_sync_find_frame_index f fs = Some i" for i
  proof -
    have "i < length (sync_nodes fs)" "sync_frame_idx (sync_nodes fs ! i) = f"
      using index_of_Some that(2) unfolding mm_frame_sync_find_frame_index_def by fastforce+
    then show ?thesis
      using that length_filter_update [of i "sync_nodes fs" "\<lambda>n. sync_frame_idx n \<noteq> 0" no_sync_node]
      by (simp add: mm_frame_sync_remove_def open_frames_def no_sync_node_def)
  qed
  show "open_frames (snd (mm_frame_sync_remove f fs)) \<le> open_frames fs"
    using less by (auto simp: mm_frame_sync_remove_def dest: less_imp_le split: option.split)
  show "open_frames (snd (mm_frame_sync_remove f fs)) < open_frames fs"
    if "f \<noteq> 0" "n \<in> set (sync_nodes fs)" "sync_frame_idx n = f"
    using that less index_of_None [of "\<lambda>n. sync_frame_idx n = f" "sync_nodes fs"]
    by (cases "mm_frame_sync_find_frame_index f fs") (auto simp: mm_frame_sync_find_frame_index_def)
qed

lemma dequeue_frame_queue:
  assumes "mm_channel_superbuf_dequeue_frame_internal f c = (r, c')"
  shows "length (que (superbuf_queue c')) \<le> length (que (superbuf_queue c))"
  using assms by (auto simp: mm_channel_superbuf_dequeue_frame_internal_def Let_def split: option.splits)

lemma own_length_put:
  "chans w p = Some d \<Longrightarrow> length (que (superbuf_queue c)) \<le> length (que (superbuf_queue d))
    \<Longrightarrow> own_length self (put_chan p c w) \<le> own_length self w"
  by (auto simp: own_length_def)

lemma take_frame_queues:
  "take_frame f ps w = Some (info, w') \<Longrightarrow> sync w' = sync w \<and> own_length self w' \<le> own_length self w"
proof (induction ps arbitrary: w info)
  case (Cons p ps)
  show ?case
  proof (cases "p = NULL")
    case False
    with Cons.prems obtain c r c1 where c: "chans w p = Some c"
      "mm_channel_superbuf_dequeue_frame_internal f c = (r, c1)"
      by (auto split: option.splits prod.splits)
    then obtain info1 where "take_frame f ps (put_chan p c1 w) = Some (info1, w')"
      using False Cons.prems by (auto split: option.splits)
    from Cons.IH [OF this] own_length_put [OF c(1) dequeue_frame_queue [OF c(2)], of self] show ?thesis
      by simp
  qed (use Cons in simp)
qed simp

lemma take_less:
  assumes "chans w self = Some c" "take_superbufs self c w = Some (info, w')" "info \<noteq> []"
  shows "open_frames (sync w') + own_length self w' < open_frames (sync w) + own_length self w"
proof (cases "req_type c = REQ_FRAME_SYNC_BUF")
  case True
  let ?f = "mm_frame_sync_find_matched False (sync w)"
  obtain w1 where f: "?f \<noteq> 0" "take_frame ?f (sync_ch (sync w)) w = Some (info, w1)"
    "w' = w1\<lparr>sync := snd (mm_frame_sync_remove ?f (sync w1))\<rparr>"
    using assms(2,3) True
    by (auto simp: take_superbufs_def take_synced_def Let_def split: if_splits option.splits)
  obtain n where n: "n \<in> set (sync_nodes (sync w))" "sync_frame_idx n = ?f"
    using f(1) find_matched_in [of False 0 "sync_nodes (sync w)"]
    unfolding mm_frame_sync_find_matched_def by auto
  have "own_length self w' = own_length self w1"
    using f(3) by (simp add: own_length_def)
  then show ?thesis
    using take_frame_queues [OF f(2), of self] open_frames_remove(2) [OF f(1) n] f(3) by simp
next
  case False
  then have t: "take_own self c w = Some (info, w')"
    using assms(2) by (simp add: take_superbufs_def)
  show ?thesis
  proof (cases rule: dequeue_internal_cases [of c True "sync w"])
    case (taken n ns c' fs')
    have "open_frames fs' \<le> open_frames (sync w)"
      using taken(3) open_frames_remove(1)
      by (auto simp: mm_channel_superbuf_dequeue_internal_def frame_sync_remove_def Let_def
          split: list.splits if_splits)
    with t taken assms(1,3) show ?thesis
      by (auto simp: take_own_def mm_channel_superbuf_dequeue_def own_length_def split: if_splits)
  qed (use t assms(3) in \<open>auto simp: take_own_def mm_channel_superbuf_dequeue_def\<close>)
qed

lemma dispatch_decreases:
  assumes "chans w self = Some c" "take_superbufs self c w = Some (info, w1)" "info \<noteq> []"
    and "count_if_burst mode self w1 = Some w2"
  shows "open_frames (sync (mm_channel_send_super_buf info w2)) + own_length self (mm_channel_send_super_buf info w2)
    < open_frames (sync w) + own_length self w"
  using take_less [OF assms(1-3)] count_sent_queues [OF assms(4)] by (simp add: send_queues)

function dispatch_loop :: "ptr \<Rightarrow> notify_mode \<Rightarrow> cam_world \<Rightarrow> cam_world option" where
  "dispatch_loop self mode w =
     (case chans w self of None \<Rightarrow> None | Some c \<Rightarrow>
        if (0 < pending_cnt c \<or> mode = NOTIFY_CONTINUOUS) \<and> \<not> bWaitForPrepSnapshotDone c
        then (case take_superbufs self c w of
                None \<Rightarrow> None
              | Some (info, w1) \<Rightarrow>
                  if info = [] then Some w1
                  else (case count_if_burst mode self w1 of
                          None \<Rightarrow> None
                        | Some w2 \<Rightarrow> dispatch_loop self mode (mm_channel_send_super_buf info w2)))
        else Some w)"
  by pat_completeness auto

termination
  by (relation "measure (\<lambda>(self, mode, w). open_frames (sync w) + own_length self w)")
    (auto intro: dispatch_decreases)

declare dispatch_loop.simps [simp del]

definition mm_channel_process_stream_buf ::
  "bool \<Rightarrow> ptr \<Rightarrow> cmdcb \<Rightarrow> cam_world \<Rightarrow> cam_world option" where
  "mm_channel_process_stream_buf memory self cmd w =
     (case process_cmd memory self cmd w of
        None \<Rightarrow> None
      | Some w1 \<Rightarrow>
          (case cmd of FLUSH_QUEUE _ _ \<Rightarrow> Some w1
           | _ \<Rightarrow>
             (case chans w1 self of None \<Rightarrow> None | Some c \<Rightarrow>
                let mode = notify_mode (attr (superbuf_queue c)) in
                (case update_zsl self w1 of
                   None \<Rightarrow> None
                 | Some w2 \<Rightarrow> Option.bind (overflow self w2) (dispatch_loop self mode)))))"

end
