(* ===== verification/ChannelTypes.thy ===== *)
theory ChannelTypes
  imports StreamDiagram ChannelProcess
begin

text \<open>
  The channels of the cameras, from \<^verbatim>\<open>stack/mm-camera-interface/inc/mm_camera.h\<close>, and the handles that
  \<^verbatim>\<open>mm_camera_interface.c\<close> gives out.

  The objects are in a store: a channel is found by its address, a stream by the address of its channel and
  its place in the array.  The members of \<open>mm_channel_t\<close> that the frame path works on are those of the world
  of the command threads, which the store holds; the streams are here.
\<close>

section \<open>Types\<close>

datatype (plugins only: code size) mm_channel_state_type =
    MM_CHANNEL_STATE_NOTUSED | MM_CHANNEL_STATE_STOPPED | MM_CHANNEL_STATE_ACTIVE | MM_CHANNEL_STATE_PAUSED

text \<open>
  An element of the array \<open>streams\<close>: the stream, the channel it belongs to, the stream it was copied
  from when it is linked, and the channel that it is linked to.
\<close>

record chan_slot =
  sl_obj :: mm_stream
  sl_ch :: ptr
  sl_linked :: "(ptr \<times> nat) option"
  sl_user :: ptr

text \<open>
  \<open>cmd_on\<close> says that the command thread runs, so that its queue is initialised; \<open>cmds\<close> is that queue.
\<close>

record chan =
  ch_state :: mm_channel_state_type
  slots :: "chan_slot list"
  bundle_active :: bool
  cmd_on :: bool
  cmds :: "cmdcb list"

text \<open>
  \<open>broken\<close> is a ghost: a function of the command thread did not return, or an access went through a NULL
  pointer.  From then on the model says nothing.
\<close>

record channels =
  chs :: "ptr \<Rightarrow> chan"
  cworld :: cam_world
  g_handler_history_count :: "16 word"
  broken :: bool

type_synonym 'a chm = "(channels, 'a) state"

type_synonym chan_env = "ptr \<Rightarrow> nat \<Rightarrow> stream_env"

section \<open>Objects that are all zero\<close>

definition zero_attr :: channel_attr where
  "zero_attr = \<lparr>notify_mode = NOTIFY_BURST, water_mark = 0, look_back = 0, post_frame_skip = 0,
     max_unmatched_frames = 0, enable_frame_sync = False, priority = PRIORITY_NORMAL, user_expected_frame_id = 0\<rparr>"

definition zero_queue :: channel_queue where
  "zero_queue = \<lparr>que = [], que_size = 0, num_streams = 0, bundled_streams = replicate MAX_STREAM_NUM_IN_BUNDLE 0,
     attr = zero_attr, expected_frame_id = 0, match_cnt = 0, expected_frame_id_without_led = 0,
     led_on_start_frame_id = 0, led_off_start_frame_id = 0, led_on_num_frames = 0, once = False,
     frame_skip_count = 0, good_frame_id = 0\<rparr>"

definition zero_channel :: mm_channel where
  "zero_channel = \<lparr>ch_hdl = 0, cam_hdl = 0, super_buf_notify_cb = False, superbuf_queue = zero_queue,
     pending_cnt = 0, pending_retro_cnt = 0, req_type = REQ_SUPER_BUF, bWaitForPrepSnapshotDone = False,
     unLockAEC = False, stopZslSnapshot = False, streams = [], manualZSLSnapshot = False,
     startZSlSnapshotCalled = False, needLEDFlash = False, bracketingState = BRACKETING_OFF,
     isFlashBracketingEnabled = False, isZoom1xFrameRequested = False, burstSnapNum = 0, diverted_frame_id = 0,
     isConfigCapture = False, cur_capture_idx = 0, capture_frame_id = replicate MAX_CAPTURE_BATCH_NUM 0,
     frameConfig = \<lparr>num_batch = 0, configs = no_configs\<rparr>, needLowLightZSL = False, qbufs = []\<rparr>"

text \<open>
  Setting the memory of a stream to zero forgets everything but the ghosts: the calls made for the streams of
  this place, and what they posted.
\<close>

definition fresh_stream :: "uint32 \<Rightarrow> mm_stream \<Rightarrow> mm_stream" where
  "fresh_stream h s = (new_stream h)\<lparr>to_channel := to_channel s, to_linked := to_linked s, ios := ios s\<rparr>"

definition zero_stream :: "mm_stream \<Rightarrow> mm_stream" where
  "zero_stream s = (fresh_stream 0 s)\<lparr>st_fd := 0, st_state := MM_STREAM_STATE_NOTUSED\<rparr>"

definition zero_slot :: "chan_slot \<Rightarrow> chan_slot" where
  "zero_slot x = \<lparr>sl_obj = zero_stream (sl_obj x), sl_ch = NULL, sl_linked = None, sl_user = NULL\<rparr>"

definition zero_chan :: "chan \<Rightarrow> chan" where
  "zero_chan c = \<lparr>ch_state = MM_CHANNEL_STATE_NOTUSED, slots = map zero_slot (slots c), bundle_active = False,
     cmd_on = False, cmds = []\<rparr>"

definition no_slot :: chan_slot where
  "no_slot = \<lparr>sl_obj = (new_stream 0)\<lparr>st_fd := 0, st_state := MM_STREAM_STATE_NOTUSED\<rparr>, sl_ch = NULL,
     sl_linked = None, sl_user = NULL\<rparr>"

definition no_chan :: chan where
  "no_chan = \<lparr>ch_state = MM_CHANNEL_STATE_NOTUSED, slots = replicate MAX_STREAM_NUM_IN_BUNDLE no_slot,
     bundle_active = False, cmd_on = False, cmds = []\<rparr>"

definition no_channels :: channels where
  "no_channels = \<lparr>chs = (\<lambda>p. no_chan),
     cworld = \<lparr>chans = (\<lambda>p. None), sync = mm_frame_sync_reset, out_of_memory = [], sent = [], zsl_calls = []\<rparr>,
     g_handler_history_count = 0, broken = False\<rparr>"

section \<open>Access\<close>

definition upd_chan :: "ptr \<Rightarrow> (chan \<Rightarrow> chan) \<Rightarrow> channels \<Rightarrow> channels" where
  "upd_chan p f s = s\<lparr>chs := (chs s)(p := f (chs s p))\<rparr>"

definition slot :: "ptr \<Rightarrow> nat \<Rightarrow> channels \<Rightarrow> chan_slot" where
  "slot p i s = slots (chs s p) ! i"

definition upd_slot :: "ptr \<Rightarrow> nat \<Rightarrow> (chan_slot \<Rightarrow> chan_slot) \<Rightarrow> channels \<Rightarrow> channels" where
  "upd_slot p i f = upd_chan p (\<lambda>c. c\<lparr>slots := (slots c)[i := f (slots c ! i)]\<rparr>)"

definition stream :: "ptr \<Rightarrow> nat \<Rightarrow> channels \<Rightarrow> mm_stream" where
  "stream p i s = sl_obj (slot p i s)"

text \<open>An operation on a stream, run on the stream in the store.\<close>

definition on_stream :: "ptr \<Rightarrow> nat \<Rightarrow> 'a strm \<Rightarrow> 'a chm" where
  "on_stream p i m = State (\<lambda>s. case run_state m (stream p i s) of
     (a, t) \<Rightarrow> (a, upd_slot p i (\<lambda>x. x\<lparr>sl_obj := t\<rparr>) s))"

definition path :: "ptr \<Rightarrow> channels \<Rightarrow> mm_channel" where
  "path p s = (case chans (cworld s) p of None \<Rightarrow> zero_channel | Some c \<Rightarrow> c)"

definition upd_path :: "ptr \<Rightarrow> (mm_channel \<Rightarrow> mm_channel) \<Rightarrow> channels \<Rightarrow> channels" where
  "upd_path p f s = s\<lparr>cworld := put_chan p (f (path p s)) (cworld s)\<rparr>"

definition breaks :: "unit chm" where
  "breaks = modify (\<lambda>s. s\<lparr>broken := True\<rparr>)"

text \<open>\<open>malloc\<close>\<close>

definition alloc :: "bool chm" where
  "alloc = State (\<lambda>s. case malloc (cworld s) of (ok, w) \<Rightarrow> (ok, s\<lparr>cworld := w\<rparr>))"

abbreviation ret :: "'a \<Rightarrow> 'a chm" where
  "ret x \<equiv> State_Monad.return x"

section \<open>Handles\<close>

text \<open>A handle is a count of 16 bits that is never zero, and behind it the place of the object.\<close>

definition next_count :: "16 word \<Rightarrow> 16 word" where
  "next_count n = (if n + 1 = 0 then 1 else n + 1)"

definition handler_of :: "16 word \<Rightarrow> uint8 \<Rightarrow> uint32" where
  "handler_of n idx = or (push_bit 8 (ucast n)) (ucast idx)"

definition mm_camera_util_generate_handler :: "uint8 \<Rightarrow> uint32 chm" where
  "mm_camera_util_generate_handler idx = do {
     modify (\<lambda>s. s\<lparr>g_handler_history_count := next_count (g_handler_history_count s)\<rparr>);
     n \<leftarrow> gets g_handler_history_count;
     ret (handler_of n idx)
   }"

definition mm_camera_util_get_index_by_handler :: "uint32 \<Rightarrow> uint8" where
  "mm_camera_util_get_index_by_handler handler = ucast (and handler 0xff)"

section \<open>What a channel knows of its streams\<close>

text \<open>\<open>stream_info\<close> is NULL until the stream is configured.\<close>

definition has_info :: "mm_stream \<Rightarrow> bool" where
  "has_info t \<longleftrightarrow> st_state t \<notin> {MM_STREAM_STATE_NOTUSED, MM_STREAM_STATE_INITED, MM_STREAM_STATE_ACQUIRED}"

definition stream_user :: "ptr \<times> nat \<Rightarrow> channels \<Rightarrow> ptr" where
  "stream_user qj s = sl_user (slot (fst qj) (snd qj) s)"

definition slot_view :: "channels \<Rightarrow> ptr \<Rightarrow> chan_slot \<Rightarrow> stream_slot" where
  "slot_view s p x =
     (let t = sl_obj x in
      \<lparr>slot_used = (st_state t \<noteq> MM_STREAM_STATE_NOTUSED), slot_hdl = my_hdl t,
       slot_type = (if has_info t then Some (info_stream_type (strm_info t)) else None),
       server_stream_id = svr_stream_id t, slot_owned = (sl_ch x = p),
       slot_linked = (case sl_linked x of None \<Rightarrow> False | Some qj \<Rightarrow> stream_user qj s = p)\<rparr>)"

definition with_views :: "channels \<Rightarrow> cam_world" where
  "with_views s = (cworld s)\<lparr>chans := (\<lambda>p. map_option
     (\<lambda>c. c\<lparr>streams := map (slot_view s p) (slots (chs s p))\<rparr>) (chans (cworld s) p))\<rparr>"

definition all_slots :: "nat list" where
  "all_slots = [0 ..< MAX_STREAM_NUM_IN_BUNDLE]"

definition free_slot :: "ptr \<Rightarrow> channels \<Rightarrow> nat option" where
  "free_slot p s = find (\<lambda>i. st_state (stream p i s) = MM_STREAM_STATE_NOTUSED) all_slots"

text \<open>\<open>mm_channel_util_get_stream_by_handler\<close>\<close>

definition find_stream :: "ptr \<Rightarrow> uint32 \<Rightarrow> channels \<Rightarrow> nat option" where
  "find_stream p handler s =
     find (\<lambda>i. st_state (stream p i s) \<noteq> MM_STREAM_STATE_NOTUSED \<and> handler = my_hdl (stream p i s)) all_slots"

text \<open>The streams of the channel's array that have a handle, each looked up by it.\<close>

definition streams_of :: "ptr \<Rightarrow> channels \<Rightarrow> nat list" where
  "streams_of p s = List.map_filter
     (\<lambda>i. if my_hdl (stream p i s) > 0 then find_stream p (my_hdl (stream p i s)) s else None) all_slots"

text \<open>Whether a stream belongs to the channel; the others are linked to it.\<close>

definition owns :: "ptr \<Rightarrow> nat \<Rightarrow> channels \<Rightarrow> bool" where
  "owns p i s \<longleftrightarrow> sl_ch (slot p i s) = p"

definition type_of :: "ptr \<Rightarrow> nat \<Rightarrow> channels \<Rightarrow> cam_stream_type" where
  "type_of p i s = info_stream_type (strm_info (stream p i s))"

text \<open>Reading \<open>stream_info\<close> of a stream that is not configured.\<close>

definition check_info :: "ptr \<Rightarrow> nat list \<Rightarrow> unit chm" where
  "check_info p is = do {
     ok \<leftarrow> gets (\<lambda>s. list_all (\<lambda>i. has_info (stream p i s)) is);
     if ok then ret () else breaks
   }"

end
