(* ===== verification/ChannelFsm.thy ===== *)
theory ChannelFsm
  imports ChannelTypes
begin

text \<open>
  The operations of a channel on its streams and on its command thread, and its state machine, from
  \<^verbatim>\<open>stack/mm-camera-interface/src/mm_camera_channel.c\<close>.  \<open>E\<close> gives, for each place of each channel, what the
  driver, the daemon and the users answer to the stream there.
\<close>

section \<open>Streams of a channel\<close>

definition stream_fsm :: "platform \<Rightarrow> chan_env \<Rightarrow> ptr \<times> nat \<Rightarrow> mm_stream_evt_type \<Rightarrow> int32 chm" where
  "stream_fsm P E qj e = on_stream (fst qj) (snd qj) (mm_stream_fsm_fn P (E (fst qj) (snd qj)) e)"

text \<open>
  An operation on the stream with a handle: one that does nothing for linked streams, or one that goes to the
  stream the linked one was copied from.
\<close>

definition own_stream :: "ptr \<Rightarrow> uint32 \<Rightarrow> (nat \<Rightarrow> int32 chm) \<Rightarrow> int32 chm" where
  "own_stream p h f = do {
     i \<leftarrow> gets (find_stream p h);
     case i of
       None \<Rightarrow> ret (- 1)
     | Some i \<Rightarrow> do { own \<leftarrow> gets (owns p i); if own then f i else ret 0 }
   }"

definition any_stream :: "ptr \<Rightarrow> uint32 \<Rightarrow> (ptr \<times> nat \<Rightarrow> int32 chm) \<Rightarrow> int32 chm" where
  "any_stream p h f = do {
     i \<leftarrow> gets (find_stream p h);
     case i of
       None \<Rightarrow> ret (- 1)
     | Some i \<Rightarrow> do {
         x \<leftarrow> gets (slot p i);
         if sl_ch x = p then f (p, i)
         else (case sl_linked x of None \<Rightarrow> do { breaks; ret 0 } | Some qj \<Rightarrow> f qj)
       }
   }"

definition mm_channel_add_stream :: "platform \<Rightarrow> chan_env \<Rightarrow> ptr \<Rightarrow> uint32 chm" where
  "mm_channel_add_stream P E p = do {
     free \<leftarrow> gets (free_slot p);
     case free of
       None \<Rightarrow> ret 0
     | Some i \<Rightarrow> do {
         h \<leftarrow> mm_camera_util_generate_handler (of_nat i);
         modify (upd_slot p i (\<lambda>x. \<lparr>sl_obj = fresh_stream h (sl_obj x), sl_ch = p, sl_linked = None, sl_user = NULL\<rparr>));
         rc \<leftarrow> stream_fsm P E (p, i) MM_STREAM_EVT_ACQUIRE;
         if rc = 0 then ret h else do { modify (upd_slot p i zero_slot); ret 0 }
       }
   }"

text \<open>
  Linking copies the stream of the other channel into a free place, but not the ghosts of that place.
\<close>

definition link_copy :: "chan_slot \<Rightarrow> ptr \<times> nat \<Rightarrow> chan_slot \<Rightarrow> chan_slot" where
  "link_copy y qj x = y\<lparr>sl_obj := (sl_obj y)\<lparr>to_channel := to_channel (sl_obj x), to_linked := to_linked (sl_obj x),
     ios := ios (sl_obj x)\<rparr>, sl_linked := Some qj\<rparr>"

definition mm_channel_link_stream :: "ptr \<Rightarrow> ptr \<Rightarrow> uint32 \<Rightarrow> uint32 chm" where
  "mm_channel_link_stream p q h = do {
     j \<leftarrow> gets (find_stream q h);
     free \<leftarrow> gets (free_slot p);
     case (j, free) of
       (Some j, Some i) \<Rightarrow> do {
         y \<leftarrow> gets (slot q j);
         modify (upd_slot p i (link_copy y (q, j)));
         ret (my_hdl (sl_obj y))
       }
     | _ \<Rightarrow> ret 0
   }"

text \<open>The stream a linked one was copied from is told who uses it, or that nobody does.\<close>

definition set_user :: "ptr \<Rightarrow> ptr \<Rightarrow> nat \<Rightarrow> unit chm" where
  "set_user u p i = do {
     x \<leftarrow> gets (slot p i);
     case sl_linked x of
       None \<Rightarrow> breaks
     | Some (q, j) \<Rightarrow> modify (upd_slot q j (\<lambda>y.
         y\<lparr>sl_user := u, sl_obj := (sl_obj y)\<lparr>is_linked := (u \<noteq> NULL)\<rparr>\<rparr>))
   }"

text \<open>\<open>mm_stream_release\<close> sets the memory of the stream to zero, and with it its pointers.\<close>

definition unlink_unused :: "chan_slot \<Rightarrow> chan_slot" where
  "unlink_unused x =
     (if st_state (sl_obj x) = MM_STREAM_STATE_NOTUSED then x\<lparr>sl_ch := NULL, sl_linked := None, sl_user := NULL\<rparr> else x)"

definition mm_channel_del_stream :: "platform \<Rightarrow> chan_env \<Rightarrow> ptr \<Rightarrow> uint32 \<Rightarrow> int32 chm" where
  "mm_channel_del_stream P E p h = do {
     i \<leftarrow> gets (find_stream p h);
     case i of
       None \<Rightarrow> ret (- 1)
     | Some i \<Rightarrow> do {
         own \<leftarrow> gets (owns p i);
         if own then do { rc \<leftarrow> stream_fsm P E (p, i) MM_STREAM_EVT_RELEASE; modify (upd_slot p i unlink_unused); ret rc }
         else do { set_user NULL p i; modify (upd_slot p i zero_slot); ret 0 }
       }
   }"

definition mm_channel_config_stream :: "platform \<Rightarrow> chan_env \<Rightarrow> ptr \<Rightarrow> uint32 \<Rightarrow> stream_config \<Rightarrow> int32 chm" where
  "mm_channel_config_stream P E p h cfg =
     own_stream p h (\<lambda>i. stream_fsm P E (p, i) (MM_STREAM_EVT_SET_FMT cfg))"

definition mm_channel_reg_stream_buf_cb :: "ptr \<Rightarrow> uint32 \<Rightarrow> mm_stream_data_cb \<Rightarrow> int32 chm" where
  "mm_channel_reg_stream_buf_cb p h v = own_stream p h (\<lambda>i. on_stream p i (mm_stream_reg_buf_cb v))"

definition mm_channel_set_stream_parm :: "platform \<Rightarrow> chan_env \<Rightarrow> ptr \<Rightarrow> uint32 \<Rightarrow> bool \<Rightarrow> int32 chm" where
  "mm_channel_set_stream_parm P E p h v =
     own_stream p h (\<lambda>i. stream_fsm P E (p, i) (MM_STREAM_EVT_SET_PARM v))"

definition mm_channel_get_stream_parm :: "platform \<Rightarrow> chan_env \<Rightarrow> ptr \<Rightarrow> uint32 \<Rightarrow> bool \<Rightarrow> int32 chm" where
  "mm_channel_get_stream_parm P E p h v =
     own_stream p h (\<lambda>i. stream_fsm P E (p, i) (MM_STREAM_EVT_GET_PARM v))"

definition mm_channel_do_stream_action :: "platform \<Rightarrow> chan_env \<Rightarrow> ptr \<Rightarrow> uint32 \<Rightarrow> bool \<Rightarrow> int32 chm" where
  "mm_channel_do_stream_action P E p h v =
     own_stream p h (\<lambda>i. stream_fsm P E (p, i) (MM_STREAM_EVT_DO_ACTION v))"

definition mm_channel_map_stream_buf :: "chan_env \<Rightarrow> ptr \<Rightarrow> uint32 \<Rightarrow> cam_mapping_buf_type \<Rightarrow> nat \<Rightarrow> int32 chm" where
  "mm_channel_map_stream_buf E p h ty k = own_stream p h (\<lambda>i. on_stream p i (mm_stream_map_buf (E p i) ty k))"

text \<open>The list of buffers is the stream and the type of its first, and its length.\<close>

definition mm_channel_map_stream_bufs :: "chan_env \<Rightarrow> ptr \<Rightarrow> uint32 \<Rightarrow> cam_mapping_buf_type \<Rightarrow> nat \<Rightarrow> int32 chm" where
  "mm_channel_map_stream_bufs E p h ty n =
     (if n = 0 then ret (- 1) else own_stream p h (\<lambda>i. on_stream p i (mm_stream_map_bufs (E p i) ty n)))"

definition mm_channel_unmap_stream_buf :: "chan_env \<Rightarrow> ptr \<Rightarrow> uint32 \<Rightarrow> nat \<Rightarrow> int32 chm" where
  "mm_channel_unmap_stream_buf E p h k = own_stream p h (\<lambda>i. on_stream p i (mm_stream_unmap_buf (E p i) k))"

text \<open>A buffer is given back to the driver of the stream it is from; \<open>container\<close> is its type.\<close>

definition channel_qbuf :: "platform \<Rightarrow> chan_env \<Rightarrow> ptr \<Rightarrow> uint32 \<Rightarrow> nat \<Rightarrow> bool \<Rightarrow> int32 chm" where
  "channel_qbuf P E p h k container = any_stream p h (\<lambda>qj. stream_fsm P E qj (MM_STREAM_EVT_QBUF k container))"

definition mm_channel_cancel_buf :: "platform \<Rightarrow> chan_env \<Rightarrow> ptr \<Rightarrow> uint32 \<Rightarrow> uint32 \<Rightarrow> int32 chm" where
  "mm_channel_cancel_buf P E p h k = any_stream p h (\<lambda>qj. stream_fsm P E qj (MM_STREAM_EVT_CANCEL_BUF k))"

definition mm_channel_get_queued_buf_count :: "platform \<Rightarrow> chan_env \<Rightarrow> ptr \<Rightarrow> uint32 \<Rightarrow> int32 chm" where
  "mm_channel_get_queued_buf_count P E p h =
     any_stream p h (\<lambda>qj. stream_fsm P E qj MM_STREAM_EVT_GET_QUEUED_BUF_COUNT)"

record cam_bundle_config =
  bundle_id :: uint32
  num_of_streams :: nat
  stream_ids :: "uint32 list"

definition no_bundle :: cam_bundle_config where
  "no_bundle = \<lparr>bundle_id = 0, num_of_streams = 0, stream_ids = replicate MAX_STREAM_NUM_IN_BUNDLE 0\<rparr>"

text \<open>Every stream that has a handle is found by it or its state is \<open>NOTUSED\<close>, which is an error.\<close>

definition lost_stream :: "ptr \<Rightarrow> channels \<Rightarrow> bool" where
  "lost_stream p s \<longleftrightarrow> list_ex (\<lambda>i. my_hdl (stream p i s) > 0 \<and> find_stream p (my_hdl (stream p i s)) s = None) all_slots"

definition mm_channel_get_bundle_info :: "ptr \<Rightarrow> (int32 \<times> cam_bundle_config) chm" where
  "mm_channel_get_bundle_info p = do {
     is \<leftarrow> gets (streams_of p);
     check_info p is;
     s \<leftarrow> gets (\<lambda>s. s);
     let ids = map (\<lambda>i. svr_stream_id (stream p i s))
                 (filter (\<lambda>i. type_of p i s \<noteq> CAM_STREAM_TYPE_METADATA \<and> owns p i s) is)
     in if lost_stream p s then ret (- 1, no_bundle)
        else ret (0, \<lparr>bundle_id = ch_hdl (path p s), num_of_streams = length ids,
               stream_ids = ids @ drop (length ids) (stream_ids no_bundle)\<rparr>)
   }"

section \<open>The command thread\<close>

text \<open>
  Handling a command gives buffers back with \<open>mm_channel_qbuf\<close>, whose result is not looked at: the buffers are
  given back here in the order in which the command thread gave them back.
\<close>

fun give_back :: "platform \<Rightarrow> chan_env \<Rightarrow> ptr \<Rightarrow> mm_camera_buf_def list \<Rightarrow> unit chm" where
  "give_back P E p [] = ret ()"
| "give_back P E p (b # bs) = do {
     _ \<leftarrow> any_stream p (buf_stream_id b) (\<lambda>qj. do {
       container \<leftarrow> gets (\<lambda>s. userptr (buf_at (unat (buf_idx b)) (stream (fst qj) (snd qj) s)));
       stream_fsm P E qj (MM_STREAM_EVT_QBUF (unat (buf_idx b)) container)
     });
     give_back P E p bs
   }"

fun give_back_all :: "platform \<Rightarrow> chan_env \<Rightarrow> (ptr \<times> nat) list \<Rightarrow> unit chm" where
  "give_back_all P E [] = ret ()"
| "give_back_all P E ((p, n) # ps) = do {
     bs \<leftarrow> gets (\<lambda>s. drop n (qbufs (path p s)));
     give_back P E p bs;
     give_back_all P E ps
   }"

text \<open>The channels whose buffers a command can touch: its own and the synchronised ones.\<close>

definition touched :: "ptr \<Rightarrow> channels \<Rightarrow> ptr list" where
  "touched p s = remdups (p # filter (\<lambda>q. q \<noteq> NULL) (sync_ch (sync (cworld s))))"

definition run_cmd :: "platform \<Rightarrow> chan_env \<Rightarrow> ptr \<Rightarrow> cmdcb \<Rightarrow> unit chm" where
  "run_cmd P E p cmd = do {
     memory \<leftarrow> alloc;
     r \<leftarrow> gets (\<lambda>s. mm_channel_process_stream_buf memory p cmd (with_views s));
     counts \<leftarrow> gets (\<lambda>s. map (\<lambda>q. (q, length (qbufs (path q s)))) (touched p s));
     case r of
       None \<Rightarrow> breaks
     | Some w \<Rightarrow> do { modify (\<lambda>s. s\<lparr>cworld := w\<rparr>); give_back_all P E counts }
   }"

fun run_cmds :: "platform \<Rightarrow> chan_env \<Rightarrow> ptr \<Rightarrow> cmdcb list \<Rightarrow> unit chm" where
  "run_cmds P E p [] = ret ()"
| "run_cmds P E p (c # cs) = do { run_cmd P E p c; run_cmds P E p cs }"

text \<open>All that is in the queue of the thread is handled before what is posted next.\<close>

definition catch_up :: "platform \<Rightarrow> chan_env \<Rightarrow> ptr \<Rightarrow> cmdcb list \<Rightarrow> unit chm" where
  "catch_up P E p extra = do {
     cs \<leftarrow> gets (\<lambda>s. cmds (chs s p));
     modify (upd_chan p (\<lambda>c. c\<lparr>cmds := []\<rparr>));
     run_cmds P E p (cs @ extra)
   }"

text \<open>The queue of a thread that does not run is not initialised, and adding to it reads through NULL.\<close>

definition post :: "ptr \<Rightarrow> cmdcb \<Rightarrow> int32 chm" where
  "post p cmd = do {
     node \<leftarrow> alloc;
     on \<leftarrow> gets (\<lambda>s. cmd_on (chs s p));
     if \<not> node then ret (- 1)
     else do {
       (if on then modify (upd_chan p (\<lambda>c. c\<lparr>cmds := cmds c @ [cmd]\<rparr>)) else breaks);
       ret 0
     }
   }"

definition mm_channel_request_super_buf :: "ptr \<Rightarrow> req_buf option \<Rightarrow> int32 chm" where
  "mm_channel_request_super_buf p r = (case r of None \<Rightarrow> ret (- 1) | Some r \<Rightarrow> post p (REQ_DATA_CB r))"

definition mm_channel_cancel_super_buf_request :: "ptr \<Rightarrow> int32 chm" where
  "mm_channel_cancel_super_buf_request p = mm_channel_request_super_buf p
     (Some \<lparr>req_buf_type = REQ_SUPER_BUF, num_buf_requested = 0, num_retro_buf_requested = 0\<rparr>)"

definition mm_channel_config_notify_mode :: "ptr \<Rightarrow> notify_mode \<Rightarrow> int32 chm" where
  "mm_channel_config_notify_mode p m = post p (CONFIG_NOTIFY m)"

definition mm_channel_start_zsl_snapshot :: "ptr \<Rightarrow> int32 chm" where
  "mm_channel_start_zsl_snapshot p = post p START_ZSL"

definition mm_channel_stop_zsl_snapshot :: "ptr \<Rightarrow> int32 chm" where
  "mm_channel_stop_zsl_snapshot p = post p STOP_ZSL"

definition mm_channel_proc_general_cmd :: "ptr \<Rightarrow> gen_cmd_type \<Rightarrow> uint32 \<Rightarrow> frame_config \<Rightarrow> int32 chm" where
  "mm_channel_proc_general_cmd p t start f = post p (GENERAL t start f)"

text \<open>The caller waits until the thread has flushed the queue.\<close>

definition mm_channel_flush_super_buf_queue ::
  "platform \<Rightarrow> chan_env \<Rightarrow> ptr \<Rightarrow> uint32 \<Rightarrow> cam_stream_type \<Rightarrow> int32 chm" where
  "mm_channel_flush_super_buf_queue P E p frame t = do {
     node \<leftarrow> alloc;
     on \<leftarrow> gets (\<lambda>s. cmd_on (chs s p));
     if \<not> node then ret (- 1)
     else do { (if on then catch_up P E p [FLUSH_QUEUE frame t] else breaks); ret 0 }
   }"

definition launch_threads :: "ptr \<Rightarrow> unit chm" where
  "launch_threads p = modify (upd_chan p (\<lambda>c. c\<lparr>cmd_on := True, cmds := []\<rparr>))"

text \<open>
  The thread ends after what is in its queue; without memory for the command to exit it goes on.  The second
  thread, for the callbacks, needs memory for its own.
\<close>

definition release_threads :: "platform \<Rightarrow> chan_env \<Rightarrow> ptr \<Rightarrow> unit chm" where
  "release_threads P E p = do {
     node \<leftarrow> alloc;
     (if node then do { catch_up P E p []; modify (upd_chan p (\<lambda>c. c\<lparr>cmd_on := False\<rparr>)) } else ret ());
     _ \<leftarrow> alloc;
     ret ()
   }"

section \<open>Starting\<close>

text \<open>The place in the list of the last metadata stream of the channel's own; the first when there is none.\<close>

definition own_meta :: "ptr \<Rightarrow> nat \<Rightarrow> channels \<Rightarrow> bool" where
  "own_meta p i s \<longleftrightarrow> type_of p i s = CAM_STREAM_TYPE_METADATA \<and> owns p i s"

definition meta_idx :: "ptr \<Rightarrow> nat list \<Rightarrow> channels \<Rightarrow> nat" where
  "meta_idx p is s = fold (\<lambda>k m. if own_meta p (is ! k) s then k else m) [0 ..< length is] 0"

definition swap_at :: "nat \<Rightarrow> nat \<Rightarrow> 'a list \<Rightarrow> 'a list" where
  "swap_at j k xs = xs[j := xs ! k, k := xs ! j]"

definition meta_first :: "ptr \<Rightarrow> nat list \<Rightarrow> channels \<Rightarrow> nat list" where
  "meta_first p is s = (let k = meta_idx p is s in if 0 < k then swap_at 0 k is else is)"

definition meta_last :: "ptr \<Rightarrow> nat list \<Rightarrow> channels \<Rightarrow> nat list" where
  "meta_last p is s = (let k = meta_idx p is s in if k + 1 < length is then swap_at (length is - 1) k is else is)"

text \<open>The queue of superbuffers for the streams with frames; the attributes are kept.\<close>

definition fresh_queue :: "uint32 list \<Rightarrow> channel_queue \<Rightarrow> channel_queue" where
  "fresh_queue hs q = q\<lparr>que := [], que_size := 0, num_streams := length hs,
     expected_frame_id := ucast (user_expected_frame_id (attr q)), expected_frame_id_without_led := 0,
     led_off_start_frame_id := 0, led_on_start_frame_id := 0, led_on_num_frames := 0, good_frame_id := 0,
     bundled_streams := hs @ drop (length hs) (bundled_streams q)\<rparr>"

fun mark_bundled :: "ptr \<Rightarrow> nat list \<Rightarrow> unit chm" where
  "mark_bundled p [] = ret ()"
| "mark_bundled p (i # is) = do {
     own \<leftarrow> gets (owns p i);
     (if own then on_stream p i (modify (\<lambda>t. t\<lparr>is_bundled := True\<rparr>)) else ret ());
     mark_bundled p is
   }"

definition start_bundle :: "ptr \<Rightarrow> nat list \<Rightarrow> unit chm" where
  "start_bundle p is = do {
     fs \<leftarrow> gets (\<lambda>s. filter (\<lambda>i. \<not> noFrameExpected (strm_info (stream p i s))) is);
     hs \<leftarrow> gets (\<lambda>s. map (\<lambda>i. my_hdl (stream p i s)) fs);
     modify (upd_path p (upd_queue (fresh_queue hs)));
     mark_bundled p fs;
     launch_threads p;
     modify (upd_chan p (\<lambda>c. c\<lparr>bundle_active := True\<rparr>))
   }"

text \<open>Setting the user of the streams of the list that are linked to the channel.\<close>

fun set_users :: "ptr \<Rightarrow> ptr \<Rightarrow> nat list \<Rightarrow> unit chm" where
  "set_users u p [] = ret ()"
| "set_users u p (i # is) = do {
     own \<leftarrow> gets (owns p i);
     (if own then ret () else set_user u p i);
     set_users u p is
   }"

text \<open>Bringing up one stream: buffers are allocated and registered, and the stream is started.\<close>

definition bring_up :: "(mm_stream_evt_type \<Rightarrow> ('s, int32) state) \<Rightarrow> ('s, int32) state" where
  "bring_up f = do {
     rc \<leftarrow> f MM_STREAM_EVT_GET_BUF;
     if rc \<noteq> 0 then State_Monad.return rc
     else do {
       rc \<leftarrow> f MM_STREAM_EVT_REG_BUF;
       if rc \<noteq> 0 then State_Monad.return rc else f MM_STREAM_EVT_START
     }
   }"

text \<open>The streams are started in order up to the first that fails, whose place is the other result.\<close>

fun start_streams :: "platform \<Rightarrow> chan_env \<Rightarrow> ptr \<Rightarrow> nat list \<Rightarrow> nat \<Rightarrow> (int32 \<times> nat) chm" where
  "start_streams P E p [] n = ret (0, n)"
| "start_streams P E p (i # is) n = do {
     own \<leftarrow> gets (owns p i);
     st \<leftarrow> gets (\<lambda>s. st_state (stream p i s));
     if \<not> own then start_streams P E p is (n + 1)
     else if st = MM_STREAM_STATE_ACTIVE then ret (- 1, n)
     else do {
       rc \<leftarrow> bring_up (stream_fsm P E (p, i));
       if rc \<noteq> 0 then ret (rc, n) else start_streams P E p is (n + 1)
     }
   }"

text \<open>The streams linked to the channel are unlinked and their places cleared.\<close>

fun unlink_failed :: "platform \<Rightarrow> chan_env \<Rightarrow> ptr \<Rightarrow> nat \<Rightarrow> nat list \<Rightarrow> unit chm" where
  "unlink_failed P E p k [] = ret ()"
| "unlink_failed P E p k (i # is) = do {
     own \<leftarrow> gets (owns p i);
     (if own then ret ()
      else do {
        set_user NULL p i;
        active \<leftarrow> gets (\<lambda>s. bundle_active (chs s p));
        t \<leftarrow> gets (type_of p k);
        (if active then do { _ \<leftarrow> mm_channel_flush_super_buf_queue P E p 0 t; ret () } else ret ());
        modify (upd_slot p i zero_slot)
      });
     unlink_failed P E p k is
   }"

definition stop_unreg :: "(mm_stream_evt_type \<Rightarrow> ('s, int32) state) \<Rightarrow> ('s, unit) state" where
  "stop_unreg f = do {
     _ \<leftarrow> f MM_STREAM_EVT_STOP;
     _ \<leftarrow> f MM_STREAM_EVT_UNREG_BUF;
     State_Monad.return ()
   }"

definition put_back :: "(mm_stream_evt_type \<Rightarrow> ('s, int32) state) \<Rightarrow> ('s, unit) state" where
  "put_back f = do { _ \<leftarrow> f MM_STREAM_EVT_PUT_BUF; State_Monad.return () }"

definition take_down :: "(mm_stream_evt_type \<Rightarrow> ('s, int32) state) \<Rightarrow> ('s, unit) state" where
  "take_down f = do { stop_unreg f; put_back f }"

text \<open>An operation on each of the channel's own streams of the list.\<close>

fun each_own :: "(nat \<Rightarrow> unit chm) \<Rightarrow> ptr \<Rightarrow> nat list \<Rightarrow> unit chm" where
  "each_own f p [] = ret ()"
| "each_own f p (i # is) = do {
     own \<leftarrow> gets (owns p i);
     (if own then f i else ret ());
     each_own f p is
   }"

text \<open>Both ends of a bundle release the threads and free the queue; its size goes with it.\<close>

definition end_bundle :: "platform \<Rightarrow> chan_env \<Rightarrow> ptr \<Rightarrow> (channel_queue \<Rightarrow> channel_queue) \<Rightarrow> unit chm" where
  "end_bundle P E p f = do {
     release_threads P E p;
     modify (upd_path p (upd_queue (\<lambda>q. f (q\<lparr>que := [], que_size := 0\<rparr>))));
     modify (upd_chan p (\<lambda>c. c\<lparr>bundle_active := False\<rparr>))
   }"

definition undo_start :: "platform \<Rightarrow> chan_env \<Rightarrow> ptr \<Rightarrow> nat list \<Rightarrow> nat \<Rightarrow> unit chm" where
  "undo_start P E p is n = do {
     unlink_failed P E p (is ! n) is;
     each_own (\<lambda>i. take_down (stream_fsm P E (p, i))) p (take (n + 1) is);
     active \<leftarrow> gets (\<lambda>s. bundle_active (chs s p));
     if active then end_bundle P E p (\<lambda>q. zero_queue) else ret ()
   }"

definition on_sync :: "(frame_sync \<Rightarrow> int32 \<times> frame_sync) \<Rightarrow> unit chm" where
  "on_sync f = modify (\<lambda>s. s\<lparr>cworld := (cworld s)\<lparr>sync := snd (f (sync (cworld s)))\<rparr>\<rparr>)"

definition frame_synced :: "ptr \<Rightarrow> channels \<Rightarrow> bool" where
  "frame_synced p s \<longleftrightarrow> enable_frame_sync (attr (superbuf_queue (path p s)))"

definition mm_channel_start :: "platform \<Rightarrow> chan_env \<Rightarrow> ptr \<Rightarrow> int32 chm" where
  "mm_channel_start P E p = do {
     is \<leftarrow> gets (streams_of p);
     check_info p is;
     is \<leftarrow> gets (meta_first p is);
     has_cb \<leftarrow> gets (\<lambda>s. super_buf_notify_cb (path p s));
     (if has_cb then start_bundle p is else ret ());
     set_users p p is;
     (rc, n) \<leftarrow> start_streams P E p is 0;
     (if rc \<noteq> 0 then undo_start P E p is n else ret ());
     modify (upd_path p (\<lambda>c. c\<lparr>bWaitForPrepSnapshotDone := False\<rparr>));
     synced \<leftarrow> gets (frame_synced p);
     (if synced then on_sync (mm_frame_sync_register_channel p) else ret ());
     ret rc
   }"

section \<open>Stopping\<close>

text \<open>The places of linked streams are cleared.\<close>

fun clear_linked :: "ptr \<Rightarrow> nat list \<Rightarrow> unit chm" where
  "clear_linked p [] = ret ()"
| "clear_linked p (i # is) = do {
     own \<leftarrow> gets (owns p i);
     (if own then ret () else modify (upd_slot p i zero_slot));
     clear_linked p is
   }"

definition mm_channel_stop :: "platform \<Rightarrow> chan_env \<Rightarrow> ptr \<Rightarrow> int32 chm" where
  "mm_channel_stop P E p = do {
     synced \<leftarrow> gets (frame_synced p);
     (if synced then on_sync (mm_frame_sync_unregister_channel p) else ret ());
     is \<leftarrow> gets (streams_of p);
     own \<leftarrow> gets (\<lambda>s. filter (\<lambda>i. owns p i s) is);
     check_info p own;
     is \<leftarrow> gets (meta_last p is);
     each_own (\<lambda>i. stop_unreg (stream_fsm P E (p, i))) p is;
     set_users NULL p is;
     active \<leftarrow> gets (\<lambda>s. bundle_active (chs s p));
     (if active
      then do {
        _ \<leftarrow> mm_channel_flush_super_buf_queue P E p 0 CAM_STREAM_TYPE_DEFAULT;
        end_bundle P E p (\<lambda>q. q\<lparr>expected_frame_id := 0, good_frame_id := 0, match_cnt := 0\<rparr>)
      }
      else ret ());
     each_own (\<lambda>i. put_back (stream_fsm P E (p, i))) p is;
     clear_linked p is;
     ret 0
   }"

section \<open>The state machine\<close>

text \<open>
  An event with what \<open>in_val\<close> points to: handles of streams, whether a pointer to parameters is there, the
  type and the index of a buffer to be mapped or the length of a list of them.
\<close>

datatype mm_channel_evt_type =
    MM_CHANNEL_EVT_ADD_STREAM | MM_CHANNEL_EVT_DEL_STREAM uint32 | MM_CHANNEL_EVT_LINK_STREAM ptr uint32
  | MM_CHANNEL_EVT_CONFIG_STREAM uint32 stream_config | MM_CHANNEL_EVT_GET_BUNDLE_INFO
  | MM_CHANNEL_EVT_START | MM_CHANNEL_EVT_STOP | MM_CHANNEL_EVT_PAUSE | MM_CHANNEL_EVT_RESUME
  | MM_CHANNEL_EVT_REQUEST_SUPER_BUF "req_buf option" | MM_CHANNEL_EVT_CANCEL_REQUEST_SUPER_BUF
  | MM_CHANNEL_EVT_FLUSH_SUPER_BUF_QUEUE uint32 | MM_CHANNEL_EVT_CONFIG_NOTIFY_MODE notify_mode
  | MM_CHANNEL_EVT_START_ZSL_SNAPSHOT | MM_CHANNEL_EVT_STOP_ZSL_SNAPSHOT
  | MM_CHANNEL_EVT_MAP_STREAM_BUF uint32 cam_mapping_buf_type nat
  | MM_CHANNEL_EVT_UNMAP_STREAM_BUF uint32 cam_mapping_buf_type nat
  | MM_CHANNEL_EVT_SET_STREAM_PARM uint32 bool | MM_CHANNEL_EVT_GET_STREAM_PARM uint32 bool
  | MM_CHANNEL_EVT_DO_STREAM_ACTION uint32 bool | MM_CHANNEL_EVT_DELETE
  | MM_CHANNEL_EVT_AF_BRACKETING uint32 | MM_CHANNEL_EVT_AE_BRACKETING uint32
  | MM_CHANNEL_EVT_FLASH_BRACKETING uint32 | MM_CHANNEL_EVT_ZOOM_1X uint32
  | MM_CAMERA_EVT_CAPTURE_SETTING "frame_config option"
  | MM_CHANNEL_EVT_GET_STREAM_QUEUED_BUF_COUNT uint32
  | MM_CHANNEL_EVT_MAP_STREAM_BUFS uint32 cam_mapping_buf_type nat
  | MM_CHANNEL_EVT_REG_STREAM_BUF_CB uint32 mm_stream_data_cb

text \<open>What \<open>out_val\<close> and \<open>in_val\<close> are filled with.\<close>

datatype chan_out = No_out | Stream_hdl uint32 | Bundle_info cam_bundle_config

definition plain :: "int32 chm \<Rightarrow> (int32 \<times> chan_out) chm" where
  "plain m = do { rc \<leftarrow> m; ret (rc, No_out) }"

definition to_chan_state :: "ptr \<Rightarrow> mm_channel_state_type \<Rightarrow> unit chm" where
  "to_chan_state p st = modify (upd_chan p (\<lambda>c. c\<lparr>ch_state := st\<rparr>))"

text \<open>
  \<open>mm_channel_init\<close>: the callback and the attributes are set and the channel is stopped.  \<open>mm_channel_release\<close>
  clears what belongs to the bundle.
\<close>

definition mm_channel_init :: "ptr \<Rightarrow> channel_attr option \<Rightarrow> bool \<Rightarrow> int32 chm" where
  "mm_channel_init p a has_cb = do {
     modify (upd_path p (\<lambda>c. c\<lparr>super_buf_notify_cb := has_cb\<rparr>));
     (case a of None \<Rightarrow> ret () | Some a \<Rightarrow> modify (upd_path p (upd_queue (\<lambda>q. q\<lparr>attr := a\<rparr>))));
     to_chan_state p MM_CHANNEL_STATE_STOPPED;
     ret 0
   }"

definition mm_channel_release :: "ptr \<Rightarrow> unit chm" where
  "mm_channel_release p = do {
     modify (upd_path p (\<lambda>c. c\<lparr>super_buf_notify_cb := False, superbuf_queue := zero_queue\<rparr>));
     modify (upd_chan p (\<lambda>c. c\<lparr>bundle_active := False\<rparr>));
     to_chan_state p MM_CHANNEL_STATE_NOTUSED
   }"

definition mm_channel_fsm_fn_stopped ::
  "platform \<Rightarrow> chan_env \<Rightarrow> ptr \<Rightarrow> mm_channel_evt_type \<Rightarrow> (int32 \<times> chan_out) chm" where
  "mm_channel_fsm_fn_stopped P E p e =
     (case e of
        MM_CHANNEL_EVT_ADD_STREAM \<Rightarrow> do { h \<leftarrow> mm_channel_add_stream P E p; ret (0, Stream_hdl h) }
      | MM_CHANNEL_EVT_LINK_STREAM q h \<Rightarrow> do { h \<leftarrow> mm_channel_link_stream p q h; ret (0, Stream_hdl h) }
      | MM_CHANNEL_EVT_DEL_STREAM h \<Rightarrow> plain (mm_channel_del_stream P E p h)
      | MM_CHANNEL_EVT_START \<Rightarrow> plain (do {
          rc \<leftarrow> mm_channel_start P E p;
          (if rc = 0 then to_chan_state p MM_CHANNEL_STATE_ACTIVE else ret ());
          ret rc })
      | MM_CHANNEL_EVT_CONFIG_STREAM h cfg \<Rightarrow> plain (mm_channel_config_stream P E p h cfg)
      | MM_CHANNEL_EVT_GET_BUNDLE_INFO \<Rightarrow>
          do { (rc, b) \<leftarrow> mm_channel_get_bundle_info p; ret (rc, Bundle_info b) }
      | MM_CHANNEL_EVT_DELETE \<Rightarrow> plain (do { mm_channel_release p; ret 0 })
      | MM_CHANNEL_EVT_SET_STREAM_PARM h v \<Rightarrow> plain (mm_channel_set_stream_parm P E p h v)
      | MM_CHANNEL_EVT_GET_STREAM_QUEUED_BUF_COUNT h \<Rightarrow> plain (mm_channel_get_queued_buf_count P E p h)
      | MM_CHANNEL_EVT_GET_STREAM_PARM h v \<Rightarrow> plain (mm_channel_get_stream_parm P E p h v)
      | MM_CHANNEL_EVT_DO_STREAM_ACTION h v \<Rightarrow> plain (mm_channel_do_stream_action P E p h v)
      | MM_CHANNEL_EVT_MAP_STREAM_BUF h ty k \<Rightarrow> plain (mm_channel_map_stream_buf E p h ty k)
      | MM_CHANNEL_EVT_MAP_STREAM_BUFS h ty n \<Rightarrow> plain (mm_channel_map_stream_bufs E p h ty n)
      | MM_CHANNEL_EVT_UNMAP_STREAM_BUF h ty k \<Rightarrow> plain (mm_channel_unmap_stream_buf E p h k)
      | MM_CHANNEL_EVT_REG_STREAM_BUF_CB h v \<Rightarrow> plain (mm_channel_reg_stream_buf_cb p h v)
      | _ \<Rightarrow> ret (0, No_out))"

text \<open>While the channel is active, only the buffers of offline processing are mapped.\<close>

definition offline :: "cam_mapping_buf_type \<Rightarrow> bool" where
  "offline ty \<longleftrightarrow> ty = CAM_MAPPING_BUF_TYPE_OFFLINE_INPUT_BUF \<or> ty = CAM_MAPPING_BUF_TYPE_OFFLINE_META_BUF"

definition no_frame_config :: frame_config where
  "no_frame_config = \<lparr>num_batch = 0, configs = no_configs\<rparr>"

definition mm_channel_fsm_fn_active ::
  "platform \<Rightarrow> chan_env \<Rightarrow> ptr \<Rightarrow> mm_channel_evt_type \<Rightarrow> (int32 \<times> chan_out) chm" where
  "mm_channel_fsm_fn_active P E p e = plain
     (case e of
        MM_CHANNEL_EVT_STOP \<Rightarrow>
          do { rc \<leftarrow> mm_channel_stop P E p; to_chan_state p MM_CHANNEL_STATE_STOPPED; ret rc }
      | MM_CHANNEL_EVT_REQUEST_SUPER_BUF r \<Rightarrow> mm_channel_request_super_buf p r
      | MM_CHANNEL_EVT_CANCEL_REQUEST_SUPER_BUF \<Rightarrow> mm_channel_cancel_super_buf_request p
      | MM_CHANNEL_EVT_FLUSH_SUPER_BUF_QUEUE frame \<Rightarrow>
          mm_channel_flush_super_buf_queue P E p frame CAM_STREAM_TYPE_DEFAULT
      | MM_CHANNEL_EVT_START_ZSL_SNAPSHOT \<Rightarrow> mm_channel_start_zsl_snapshot p
      | MM_CHANNEL_EVT_STOP_ZSL_SNAPSHOT \<Rightarrow> mm_channel_stop_zsl_snapshot p
      | MM_CHANNEL_EVT_CONFIG_NOTIFY_MODE m \<Rightarrow> mm_channel_config_notify_mode p m
      | MM_CHANNEL_EVT_SET_STREAM_PARM h v \<Rightarrow> mm_channel_set_stream_parm P E p h v
      | MM_CHANNEL_EVT_GET_STREAM_QUEUED_BUF_COUNT h \<Rightarrow> mm_channel_get_queued_buf_count P E p h
      | MM_CHANNEL_EVT_GET_STREAM_PARM h v \<Rightarrow> mm_channel_get_stream_parm P E p h v
      | MM_CHANNEL_EVT_DO_STREAM_ACTION h v \<Rightarrow> mm_channel_do_stream_action P E p h v
      | MM_CHANNEL_EVT_MAP_STREAM_BUF h ty k \<Rightarrow>
          if offline ty then mm_channel_map_stream_buf E p h ty k else ret 0
      | MM_CHANNEL_EVT_MAP_STREAM_BUFS h ty n \<Rightarrow>
          if 0 < n \<and> offline ty then mm_channel_map_stream_bufs E p h ty n else ret 0
      | MM_CHANNEL_EVT_UNMAP_STREAM_BUF h ty k \<Rightarrow>
          if offline ty then mm_channel_unmap_stream_buf E p h k else ret 0
      | MM_CHANNEL_EVT_AF_BRACKETING start \<Rightarrow> mm_channel_proc_general_cmd p AF_BRACKETING start no_frame_config
      | MM_CHANNEL_EVT_AE_BRACKETING start \<Rightarrow> mm_channel_proc_general_cmd p AE_BRACKETING start no_frame_config
      | MM_CHANNEL_EVT_FLASH_BRACKETING start \<Rightarrow> mm_channel_proc_general_cmd p FLASH_BRACKETING start no_frame_config
      | MM_CHANNEL_EVT_ZOOM_1X start \<Rightarrow> mm_channel_proc_general_cmd p ZOOM_1X start no_frame_config
      | MM_CAMERA_EVT_CAPTURE_SETTING f \<Rightarrow>
          (case f of None \<Rightarrow> mm_channel_proc_general_cmd p CAPTURE_SETTING 0 no_frame_config
           | Some f \<Rightarrow> mm_channel_proc_general_cmd p CAPTURE_SETTING 1 f)
      | MM_CHANNEL_EVT_REG_STREAM_BUF_CB h v \<Rightarrow> mm_channel_reg_stream_buf_cb p h v
      | _ \<Rightarrow> ret 0)"

definition mm_channel_fsm_fn ::
  "platform \<Rightarrow> chan_env \<Rightarrow> ptr \<Rightarrow> mm_channel_evt_type \<Rightarrow> (int32 \<times> chan_out) chm" where
  "mm_channel_fsm_fn P E p e = do {
     st \<leftarrow> gets (\<lambda>s. ch_state (chs s p));
     case st of
       MM_CHANNEL_STATE_NOTUSED \<Rightarrow> ret (- 1, No_out)
     | MM_CHANNEL_STATE_STOPPED \<Rightarrow> mm_channel_fsm_fn_stopped P E p e
     | MM_CHANNEL_STATE_ACTIVE \<Rightarrow> mm_channel_fsm_fn_active P E p e
     | MM_CHANNEL_STATE_PAUSED \<Rightarrow> ret (0, No_out)
   }"

end
