(* ===== verification/CameraObj.thy ===== *)
theory CameraObj
  imports ChannelFsm
begin

text \<open>
  A camera and its channels: \<^verbatim>\<open>stack/mm-camera-interface/src/mm_camera.c\<close>.  The objects of the cameras are in the
  order in which they were allocated; the channels of the object \<open>k\<close> have the addresses from \<open>16 k + 1\<close> on.

  A function of this layer is called with the lock of the camera held, and releases it.
\<close>

section \<open>The store of the cameras\<close>

text \<open>What a camera asks of its driver and of the daemon.\<close>

datatype cam_call =
    Cam_open | Cam_close | Open_session | Close_session | Query_cap | S_ctrl_cam cam_ctrl | G_ctrl_cam
  | Map_cam | Evt_sub bool
  and cam_ctrl =
    CAM_PRIV_PARM | CAM_PRIV_DO_AUTO_FOCUS | CAM_PRIV_CANCEL_AUTO_FOCUS | CAM_PRIV_PREPARE_SNAPSHOT
  | CAM_PRIV_FLUSH | CAM_PRIV_SYNC_RELATED_SENSORS

record evt_entry =
  evt_cb :: ptr
  evt_user_data :: ptr

record camera_obj =
  cam_my_hdl :: uint32
  ref_count :: int
  ctrl_fd :: int32
  cam_lock :: bool
  freed :: bool
  evt_obj :: "evt_entry list"
  reg_count :: int
  cam_sessionid :: uint32
  cam_ios :: "cam_call list"

text \<open>
  \<open>cam_objs\<close> is \<open>g_cam_ctrl.cam_obj\<close>.  \<open>g_intf_lock\<close> is held here by a call that waits for the lock of a
  camera and holds that of the interface.
\<close>

record cams =
  store :: channels
  objs :: "camera_obj list"
  cam_objs :: "nat option list"
  num_cam :: nat
  g_intf_lock :: bool

type_synonym 'a ctl = "(cams, 'a) state"

abbreviation done_with :: "'a \<Rightarrow> 'a ctl" where
  "done_with x \<equiv> State_Monad.return x"

record cam_env =
  plat :: platform
  streams_env :: chan_env
  cam_answer :: "nat \<Rightarrow> cam_call list \<Rightarrow> cam_call \<Rightarrow> int32"

definition MM_CAMERA_CHANNEL_MAX :: nat where
  "MM_CAMERA_CHANNEL_MAX = 16"

definition MM_CAMERA_EVT_ENTRY_MAX :: nat where
  "MM_CAMERA_EVT_ENTRY_MAX = 4"

definition chan_ptr :: "nat \<Rightarrow> nat \<Rightarrow> ptr" where
  "chan_ptr k c = MM_CAMERA_CHANNEL_MAX * k + c + 1"

definition on_store :: "'a chm \<Rightarrow> 'a ctl" where
  "on_store m = State (\<lambda>w. case run_state m (store w) of (a, s) \<Rightarrow> (a, w\<lparr>store := s\<rparr>))"

definition upd_obj :: "nat \<Rightarrow> (camera_obj \<Rightarrow> camera_obj) \<Rightarrow> cams \<Rightarrow> cams" where
  "upd_obj k f w = w\<lparr>objs := (objs w)[k := f (objs w ! k)]\<rparr>"

definition cam_io :: "cam_env \<Rightarrow> nat \<Rightarrow> cam_call \<Rightarrow> int32 ctl" where
  "cam_io E k c = State (\<lambda>w. (cam_answer E k (cam_ios (objs w ! k)) c,
     upd_obj k (\<lambda>co. co\<lparr>cam_ios := cam_ios co @ [c]\<rparr>) w))"

definition unlock :: "nat \<Rightarrow> unit ctl" where
  "unlock k = modify (upd_obj k (\<lambda>co. co\<lparr>cam_lock := False\<rparr>))"

section \<open>Channels of a camera\<close>

definition mm_camera_util_get_channel_by_handler :: "nat \<Rightarrow> uint32 \<Rightarrow> cams \<Rightarrow> ptr option" where
  "mm_camera_util_get_channel_by_handler k handler w =
     find (\<lambda>p. handler = ch_hdl (path p (store w))) (map (chan_ptr k) [0 ..< MM_CAMERA_CHANNEL_MAX])"

text \<open>A call that is handed to the channel with a handle; the lock is released whether it is found or not.\<close>

definition channel_call :: "nat \<Rightarrow> uint32 \<Rightarrow> 'a \<Rightarrow> (ptr \<Rightarrow> 'a chm) \<Rightarrow> 'a ctl" where
  "channel_call k h none f = do {
     p \<leftarrow> gets (mm_camera_util_get_channel_by_handler k h);
     unlock k;
     case p of None \<Rightarrow> done_with none | Some p \<Rightarrow> on_store (f p)
   }"

definition fsm_rc :: "cam_env \<Rightarrow> ptr \<Rightarrow> mm_channel_evt_type \<Rightarrow> int32 chm" where
  "fsm_rc E p e = do { (rc, out) \<leftarrow> mm_channel_fsm_fn (plat E) (streams_env E) p e; ret rc }"

definition fsm_hdl_out :: "cam_env \<Rightarrow> ptr \<Rightarrow> mm_channel_evt_type \<Rightarrow> uint32 chm" where
  "fsm_hdl_out E p e = do {
     (rc, out) \<leftarrow> mm_channel_fsm_fn (plat E) (streams_env E) p e;
     ret (case out of Stream_hdl h \<Rightarrow> h | _ \<Rightarrow> 0)
   }"

text \<open>The memory of the channel is set to zero, then its handle and its camera are set.\<close>

definition clear_chan :: "ptr \<Rightarrow> unit chm" where
  "clear_chan p = do {
     modify (upd_chan p zero_chan);
     modify (upd_path p (\<lambda>c. zero_channel\<lparr>qbufs := qbufs c\<rparr>))
   }"

definition free_channel :: "nat \<Rightarrow> cams \<Rightarrow> nat option" where
  "free_channel k w = find (\<lambda>c. ch_state (chs (store w) (chan_ptr k c)) = MM_CHANNEL_STATE_NOTUSED)
     [0 ..< MM_CAMERA_CHANNEL_MAX]"

definition new_channel :: "ptr \<Rightarrow> nat \<Rightarrow> uint32 \<Rightarrow> channel_attr option \<Rightarrow> bool \<Rightarrow> uint32 chm" where
  "new_channel p c cam a has_cb = do {
     clear_chan p;
     h \<leftarrow> mm_camera_util_generate_handler (of_nat c);
     modify (upd_path p (\<lambda>ch. ch\<lparr>ch_hdl := h, cam_hdl := cam\<rparr>));
     to_chan_state p MM_CHANNEL_STATE_STOPPED;
     _ \<leftarrow> mm_channel_init p a has_cb;
     ret h
   }"

definition mm_camera_add_channel :: "nat \<Rightarrow> channel_attr option \<Rightarrow> bool \<Rightarrow> uint32 ctl" where
  "mm_camera_add_channel k a has_cb = do {
     free \<leftarrow> gets (free_channel k);
     cam \<leftarrow> gets (\<lambda>w. cam_my_hdl (objs w ! k));
     h \<leftarrow> (case free of
        None \<Rightarrow> done_with 0
      | Some c \<Rightarrow> on_store (new_channel (chan_ptr k c) c cam a has_cb));
     unlock k;
     done_with h
   }"

definition delete_channel :: "cam_env \<Rightarrow> ptr \<Rightarrow> int32 chm" where
  "delete_channel E p = do {
     rc \<leftarrow> fsm_rc E p MM_CHANNEL_EVT_DELETE;
     clear_chan p;
     ret rc
   }"

definition mm_camera_del_channel :: "cam_env \<Rightarrow> nat \<Rightarrow> uint32 \<Rightarrow> int32 ctl" where
  "mm_camera_del_channel E k h = channel_call k h (- 1) (delete_channel E)"

definition mm_camera_qbuf :: "cam_env \<Rightarrow> nat \<Rightarrow> uint32 \<Rightarrow> uint32 \<Rightarrow> nat \<Rightarrow> bool \<Rightarrow> int32 ctl" where
  "mm_camera_qbuf E k h sid i container =
     channel_call k h (- 1) (\<lambda>p. channel_qbuf (plat E) (streams_env E) p sid i container)"

text \<open>Here the lock is not released when there is no such channel.\<close>

definition mm_camera_cancel_buf :: "cam_env \<Rightarrow> nat \<Rightarrow> uint32 \<Rightarrow> uint32 \<Rightarrow> uint32 \<Rightarrow> int32 ctl" where
  "mm_camera_cancel_buf E k h sid i = do {
     p \<leftarrow> gets (mm_camera_util_get_channel_by_handler k h);
     case p of
       None \<Rightarrow> done_with (- 1)
     | Some p \<Rightarrow> do { unlock k; on_store (mm_channel_cancel_buf (plat E) (streams_env E) p sid i) }
   }"

definition mm_camera_get_queued_buf_count :: "cam_env \<Rightarrow> nat \<Rightarrow> uint32 \<Rightarrow> uint32 \<Rightarrow> int32 ctl" where
  "mm_camera_get_queued_buf_count E k h sid =
     channel_call k h (- 1) (\<lambda>p. fsm_rc E p (MM_CHANNEL_EVT_GET_STREAM_QUEUED_BUF_COUNT sid))"

definition mm_camera_get_bundle_info :: "cam_env \<Rightarrow> nat \<Rightarrow> uint32 \<Rightarrow> (int32 \<times> chan_out) ctl" where
  "mm_camera_get_bundle_info E k h =
     channel_call k h (- 1, No_out) (\<lambda>p. mm_channel_fsm_fn (plat E) (streams_env E) p MM_CHANNEL_EVT_GET_BUNDLE_INFO)"

definition mm_camera_link_stream :: "cam_env \<Rightarrow> nat \<Rightarrow> uint32 \<Rightarrow> uint32 \<Rightarrow> uint32 \<Rightarrow> uint32 ctl" where
  "mm_camera_link_stream E k h sid linked_h = do {
     p \<leftarrow> gets (mm_camera_util_get_channel_by_handler k linked_h);
     q \<leftarrow> gets (mm_camera_util_get_channel_by_handler k h);
     unlock k;
     case (p, q) of
       (Some p, Some q) \<Rightarrow> on_store (fsm_hdl_out E p (MM_CHANNEL_EVT_LINK_STREAM q sid))
     | _ \<Rightarrow> done_with 0
   }"

definition mm_camera_add_stream :: "cam_env \<Rightarrow> nat \<Rightarrow> uint32 \<Rightarrow> uint32 ctl" where
  "mm_camera_add_stream E k h = channel_call k h 0 (\<lambda>p. fsm_hdl_out E p MM_CHANNEL_EVT_ADD_STREAM)"

definition mm_camera_del_stream :: "cam_env \<Rightarrow> nat \<Rightarrow> uint32 \<Rightarrow> uint32 \<Rightarrow> int32 ctl" where
  "mm_camera_del_stream E k h sid = channel_call k h (- 1) (\<lambda>p. fsm_rc E p (MM_CHANNEL_EVT_DEL_STREAM sid))"

definition mm_camera_start_zsl_snapshot_ch :: "cam_env \<Rightarrow> nat \<Rightarrow> uint32 \<Rightarrow> int32 ctl" where
  "mm_camera_start_zsl_snapshot_ch E k h = channel_call k h (- 1) (\<lambda>p. fsm_rc E p MM_CHANNEL_EVT_START_ZSL_SNAPSHOT)"

definition mm_camera_stop_zsl_snapshot_ch :: "cam_env \<Rightarrow> nat \<Rightarrow> uint32 \<Rightarrow> int32 ctl" where
  "mm_camera_stop_zsl_snapshot_ch E k h = channel_call k h (- 1) (\<lambda>p. fsm_rc E p MM_CHANNEL_EVT_STOP_ZSL_SNAPSHOT)"

definition mm_camera_config_stream :: "cam_env \<Rightarrow> nat \<Rightarrow> uint32 \<Rightarrow> uint32 \<Rightarrow> stream_config \<Rightarrow> int32 ctl" where
  "mm_camera_config_stream E k h sid cfg = channel_call k h (- 1) (\<lambda>p. fsm_rc E p (MM_CHANNEL_EVT_CONFIG_STREAM sid cfg))"

definition mm_camera_start_channel :: "cam_env \<Rightarrow> nat \<Rightarrow> uint32 \<Rightarrow> int32 ctl" where
  "mm_camera_start_channel E k h = channel_call k h (- 1) (\<lambda>p. fsm_rc E p MM_CHANNEL_EVT_START)"

definition mm_camera_stop_channel :: "cam_env \<Rightarrow> nat \<Rightarrow> uint32 \<Rightarrow> int32 ctl" where
  "mm_camera_stop_channel E k h = channel_call k h 0 (\<lambda>p. fsm_rc E p MM_CHANNEL_EVT_STOP)"

definition mm_camera_request_super_buf :: "cam_env \<Rightarrow> nat \<Rightarrow> uint32 \<Rightarrow> req_buf option \<Rightarrow> int32 ctl" where
  "mm_camera_request_super_buf E k h r =
     channel_call k h (- 1) (\<lambda>p. case r of None \<Rightarrow> ret (- 1)
       | Some r \<Rightarrow> fsm_rc E p (MM_CHANNEL_EVT_REQUEST_SUPER_BUF (Some r)))"

definition mm_camera_cancel_super_buf_request :: "cam_env \<Rightarrow> nat \<Rightarrow> uint32 \<Rightarrow> int32 ctl" where
  "mm_camera_cancel_super_buf_request E k h =
     channel_call k h (- 1) (\<lambda>p. fsm_rc E p MM_CHANNEL_EVT_CANCEL_REQUEST_SUPER_BUF)"

definition mm_camera_flush_super_buf_queue :: "cam_env \<Rightarrow> nat \<Rightarrow> uint32 \<Rightarrow> uint32 \<Rightarrow> int32 ctl" where
  "mm_camera_flush_super_buf_queue E k h frame =
     channel_call k h (- 1) (\<lambda>p. fsm_rc E p (MM_CHANNEL_EVT_FLUSH_SUPER_BUF_QUEUE frame))"

definition mm_camera_config_channel_notify :: "cam_env \<Rightarrow> nat \<Rightarrow> uint32 \<Rightarrow> notify_mode \<Rightarrow> int32 ctl" where
  "mm_camera_config_channel_notify E k h m =
     channel_call k h (- 1) (\<lambda>p. fsm_rc E p (MM_CHANNEL_EVT_CONFIG_NOTIFY_MODE m))"

definition mm_camera_set_stream_parms :: "cam_env \<Rightarrow> nat \<Rightarrow> uint32 \<Rightarrow> uint32 \<Rightarrow> bool \<Rightarrow> int32 ctl" where
  "mm_camera_set_stream_parms E k h sid v =
     channel_call k h (- 1) (\<lambda>p. fsm_rc E p (MM_CHANNEL_EVT_SET_STREAM_PARM sid v))"

definition mm_camera_get_stream_parms :: "cam_env \<Rightarrow> nat \<Rightarrow> uint32 \<Rightarrow> uint32 \<Rightarrow> bool \<Rightarrow> int32 ctl" where
  "mm_camera_get_stream_parms E k h sid v =
     channel_call k h (- 1) (\<lambda>p. fsm_rc E p (MM_CHANNEL_EVT_GET_STREAM_PARM sid v))"

definition mm_camera_do_stream_action :: "cam_env \<Rightarrow> nat \<Rightarrow> uint32 \<Rightarrow> uint32 \<Rightarrow> bool \<Rightarrow> int32 ctl" where
  "mm_camera_do_stream_action E k h sid v =
     channel_call k h (- 1) (\<lambda>p. fsm_rc E p (MM_CHANNEL_EVT_DO_STREAM_ACTION sid v))"

definition mm_camera_map_stream_buf ::
  "cam_env \<Rightarrow> nat \<Rightarrow> uint32 \<Rightarrow> uint32 \<Rightarrow> cam_mapping_buf_type \<Rightarrow> nat \<Rightarrow> int32 ctl" where
  "mm_camera_map_stream_buf E k h sid ty i =
     channel_call k h (- 1) (\<lambda>p. fsm_rc E p (MM_CHANNEL_EVT_MAP_STREAM_BUF sid ty i))"

definition mm_camera_map_stream_bufs ::
  "cam_env \<Rightarrow> nat \<Rightarrow> uint32 \<Rightarrow> uint32 \<Rightarrow> cam_mapping_buf_type \<Rightarrow> nat \<Rightarrow> int32 ctl" where
  "mm_camera_map_stream_bufs E k h sid ty n =
     channel_call k h (- 1) (\<lambda>p. fsm_rc E p (MM_CHANNEL_EVT_MAP_STREAM_BUFS sid ty n))"

definition mm_camera_unmap_stream_buf ::
  "cam_env \<Rightarrow> nat \<Rightarrow> uint32 \<Rightarrow> uint32 \<Rightarrow> cam_mapping_buf_type \<Rightarrow> nat \<Rightarrow> int32 ctl" where
  "mm_camera_unmap_stream_buf E k h sid ty i =
     channel_call k h (- 1) (\<lambda>p. fsm_rc E p (MM_CHANNEL_EVT_UNMAP_STREAM_BUF sid ty i))"

datatype mm_camera_advanced_capture =
    MM_CAMERA_AF_BRACKETING | MM_CAMERA_AE_BRACKETING | MM_CAMERA_FLASH_BRACKETING | MM_CAMERA_ZOOM_1X
  | MM_CAMERA_FRAME_CAPTURE

definition mm_camera_channel_advanced_capture ::
  "cam_env \<Rightarrow> nat \<Rightarrow> uint32 \<Rightarrow> mm_camera_advanced_capture \<Rightarrow> uint32 \<Rightarrow> frame_config option \<Rightarrow> int32 ctl" where
  "mm_camera_channel_advanced_capture E k h ty trigger f = channel_call k h (- 1) (\<lambda>p. fsm_rc E p
     (case ty of
        MM_CAMERA_AF_BRACKETING \<Rightarrow> MM_CHANNEL_EVT_AF_BRACKETING trigger
      | MM_CAMERA_AE_BRACKETING \<Rightarrow> MM_CHANNEL_EVT_AE_BRACKETING trigger
      | MM_CAMERA_FLASH_BRACKETING \<Rightarrow> MM_CHANNEL_EVT_FLASH_BRACKETING trigger
      | MM_CAMERA_ZOOM_1X \<Rightarrow> MM_CHANNEL_EVT_ZOOM_1X trigger
      | MM_CAMERA_FRAME_CAPTURE \<Rightarrow> MM_CAMERA_EVT_CAPTURE_SETTING f))"

text \<open>The result of the channel is not looked at.\<close>

definition mm_camera_reg_stream_buf_cb :: "cam_env \<Rightarrow> nat \<Rightarrow> uint32 \<Rightarrow> uint32 \<Rightarrow> ptr \<Rightarrow> bool \<Rightarrow> int32 ctl" where
  "mm_camera_reg_stream_buf_cb E k h sid f synchronous = channel_call k h 0 (\<lambda>p. do {
     _ \<leftarrow> fsm_rc E p (MM_CHANNEL_EVT_REG_STREAM_BUF_CB sid \<lparr>cb = f, cb_count = - 1, cb_sync = synchronous\<rparr>);
     ret 0
   })"

section \<open>Calls for the camera as a whole\<close>

text \<open>The daemon answers a negative value for a failure.\<close>

definition mm_camera_util_s_ctrl :: "cam_env \<Rightarrow> nat \<Rightarrow> cam_ctrl \<Rightarrow> int32 ctl" where
  "mm_camera_util_s_ctrl E k c = do { rc \<leftarrow> cam_io E k (S_ctrl_cam c); done_with (if failed rc then - 1 else 0) }"

definition mm_camera_util_g_ctrl :: "cam_env \<Rightarrow> nat \<Rightarrow> int32 ctl" where
  "mm_camera_util_g_ctrl E k = do { rc \<leftarrow> cam_io E k G_ctrl_cam; done_with (if failed rc then - 1 else 0) }"

definition then_unlock :: "nat \<Rightarrow> 'a ctl \<Rightarrow> 'a ctl" where
  "then_unlock k m = do { r \<leftarrow> m; unlock k; done_with r }"

definition mm_camera_query_capability :: "cam_env \<Rightarrow> nat \<Rightarrow> int32 ctl" where
  "mm_camera_query_capability E k = then_unlock k (cam_io E k Query_cap)"

definition mm_camera_set_parms :: "cam_env \<Rightarrow> nat \<Rightarrow> bool \<Rightarrow> int32 ctl" where
  "mm_camera_set_parms E k parms =
     then_unlock k (if parms then mm_camera_util_s_ctrl E k CAM_PRIV_PARM else done_with (- 1))"

definition mm_camera_get_parms :: "cam_env \<Rightarrow> nat \<Rightarrow> bool \<Rightarrow> int32 ctl" where
  "mm_camera_get_parms E k parms =
     then_unlock k (if parms then mm_camera_util_g_ctrl E k else done_with (- 1))"

definition mm_camera_do_auto_focus :: "cam_env \<Rightarrow> nat \<Rightarrow> int32 ctl" where
  "mm_camera_do_auto_focus E k = then_unlock k (mm_camera_util_s_ctrl E k CAM_PRIV_DO_AUTO_FOCUS)"

definition mm_camera_cancel_auto_focus :: "cam_env \<Rightarrow> nat \<Rightarrow> int32 ctl" where
  "mm_camera_cancel_auto_focus E k = then_unlock k (mm_camera_util_s_ctrl E k CAM_PRIV_CANCEL_AUTO_FOCUS)"

definition mm_camera_prepare_snapshot :: "cam_env \<Rightarrow> nat \<Rightarrow> int32 ctl" where
  "mm_camera_prepare_snapshot E k = then_unlock k (mm_camera_util_s_ctrl E k CAM_PRIV_PREPARE_SNAPSHOT)"

definition mm_camera_flush :: "cam_env \<Rightarrow> nat \<Rightarrow> int32 ctl" where
  "mm_camera_flush E k = then_unlock k (mm_camera_util_s_ctrl E k CAM_PRIV_FLUSH)"

definition mm_camera_sync_related_sensors :: "cam_env \<Rightarrow> nat \<Rightarrow> bool \<Rightarrow> int32 ctl" where
  "mm_camera_sync_related_sensors E k parms = then_unlock k
     (if parms then mm_camera_util_s_ctrl E k CAM_PRIV_SYNC_RELATED_SENSORS else done_with (- 1))"

definition mm_camera_map_buf :: "cam_env \<Rightarrow> nat \<Rightarrow> int32 ctl" where
  "mm_camera_map_buf E k = then_unlock k (cam_io E k Map_cam)"

definition mm_camera_map_bufs :: "cam_env \<Rightarrow> nat \<Rightarrow> int32 ctl" where
  "mm_camera_map_bufs E k = then_unlock k (cam_io E k Map_cam)"

definition mm_camera_unmap_buf :: "cam_env \<Rightarrow> nat \<Rightarrow> int32 ctl" where
  "mm_camera_unmap_buf E k = then_unlock k (cam_io E k Map_cam)"

text \<open>
  An entry is free when its user data are NULL; a callback is registered for the first free entry, and none
  takes the first entry with these user data away.
\<close>

definition mm_camera_register_event_notify_internal :: "ptr \<Rightarrow> ptr \<Rightarrow> camera_obj \<Rightarrow> int32 \<times> camera_obj" where
  "mm_camera_register_event_notify_internal f user co =
     (case find (\<lambda>i. evt_user_data (evt_obj co ! i) = (if f \<noteq> NULL then NULL else user)) [0 ..< MM_CAMERA_EVT_ENTRY_MAX] of
        None \<Rightarrow> (- 1, co)
      | Some i \<Rightarrow>
          if f \<noteq> NULL
          then (0, co\<lparr>evt_obj := (evt_obj co)[i := \<lparr>evt_cb = f, evt_user_data = user\<rparr>], reg_count := reg_count co + 1\<rparr>)
          else (0, co\<lparr>evt_obj := (evt_obj co)[i := \<lparr>evt_cb = NULL, evt_user_data = NULL\<rparr>], reg_count := reg_count co - 1\<rparr>))"

definition mm_camera_register_event_notify :: "nat \<Rightarrow> ptr \<Rightarrow> ptr \<Rightarrow> int32 ctl" where
  "mm_camera_register_event_notify k f user = then_unlock k (State (\<lambda>w.
     case mm_camera_register_event_notify_internal f user (objs w ! k) of (rc, co) \<Rightarrow> (rc, upd_obj k (\<lambda>_. co) w)))"

end
