(* ===== verification/CameraIntf.thy ===== *)
theory CameraIntf
  imports CameraObj
begin

text \<open>
  The interface to the cameras, from \<^verbatim>\<open>stack/mm-camera-interface/src/mm_camera_interface.c\<close>: a camera is opened
  and closed, with its references counted, and found by its handle for every other call.
\<close>

section \<open>Finding a camera\<close>

definition mm_camera_util_get_camera_by_handler :: "uint32 \<Rightarrow> cams \<Rightarrow> nat option" where
  "mm_camera_util_get_camera_by_handler h w =
     (let i = unat (mm_camera_util_get_index_by_handler h) in
      if i < length (cam_objs w)
      then (case cam_objs w ! i of
              None \<Rightarrow> None
            | Some k \<Rightarrow> if h = cam_my_hdl (objs w ! k) then Some k else None)
      else None)"

text \<open>
  Every call takes the lock of the interface, finds the camera and takes its lock.  None is the
  result of a call that waits for ever.
\<close>

definition intf_call :: "uint32 \<Rightarrow> 'a \<Rightarrow> (nat \<Rightarrow> 'a ctl) \<Rightarrow> 'a option ctl" where
  "intf_call h none f = do {
     stuck \<leftarrow> gets g_intf_lock;
     k \<leftarrow> gets (mm_camera_util_get_camera_by_handler h);
     if stuck then done_with None
     else (case k of
       None \<Rightarrow> done_with (Some none)
     | Some k \<Rightarrow> do {
         locked \<leftarrow> gets (\<lambda>w. cam_lock (objs w ! k));
         if locked then do { modify (\<lambda>w. w\<lparr>g_intf_lock := True\<rparr>); done_with None }
         else do {
           modify (upd_obj k (\<lambda>x. x\<lparr>cam_lock := True\<rparr>));
           r \<leftarrow> f k;
           done_with (Some r)
         }
       })
   }"

section \<open>The calls\<close>

definition mm_camera_intf_query_capability :: "cam_env \<Rightarrow> uint32 \<Rightarrow> int32 option ctl" where
  "mm_camera_intf_query_capability E cam =
     intf_call cam (- 1) (\<lambda>k. mm_camera_query_capability E k)"

definition mm_camera_intf_set_parms :: "cam_env \<Rightarrow> uint32 \<Rightarrow> bool \<Rightarrow> int32 option ctl" where
  "mm_camera_intf_set_parms E cam parms =
     intf_call cam (- 1) (\<lambda>k. mm_camera_set_parms E k parms)"

definition mm_camera_intf_get_parms :: "cam_env \<Rightarrow> uint32 \<Rightarrow> bool \<Rightarrow> int32 option ctl" where
  "mm_camera_intf_get_parms E cam parms =
     intf_call cam (- 1) (\<lambda>k. mm_camera_get_parms E k parms)"

definition mm_camera_intf_do_auto_focus :: "cam_env \<Rightarrow> uint32 \<Rightarrow> int32 option ctl" where
  "mm_camera_intf_do_auto_focus E cam =
     intf_call cam (- 1) (\<lambda>k. mm_camera_do_auto_focus E k)"

definition mm_camera_intf_cancel_auto_focus :: "cam_env \<Rightarrow> uint32 \<Rightarrow> int32 option ctl" where
  "mm_camera_intf_cancel_auto_focus E cam =
     intf_call cam (- 1) (\<lambda>k. mm_camera_cancel_auto_focus E k)"

definition mm_camera_intf_prepare_snapshot :: "cam_env \<Rightarrow> uint32 \<Rightarrow> int32 option ctl" where
  "mm_camera_intf_prepare_snapshot E cam =
     intf_call cam (- 1) (\<lambda>k. mm_camera_prepare_snapshot E k)"

definition mm_camera_intf_flush :: "cam_env \<Rightarrow> uint32 \<Rightarrow> int32 option ctl" where
  "mm_camera_intf_flush E cam =
     intf_call cam (- 1) (\<lambda>k. mm_camera_flush E k)"

definition mm_camera_intf_add_channel :: "uint32 \<Rightarrow> channel_attr option \<Rightarrow> bool \<Rightarrow> uint32 option ctl" where
  "mm_camera_intf_add_channel cam a has_cb =
     intf_call cam (0) (\<lambda>k. mm_camera_add_channel k a has_cb)"

definition mm_camera_intf_del_channel :: "cam_env \<Rightarrow> uint32 \<Rightarrow> uint32 \<Rightarrow> int32 option ctl" where
  "mm_camera_intf_del_channel E cam h =
     intf_call cam (- 1) (\<lambda>k. mm_camera_del_channel E k h)"

definition mm_camera_intf_get_bundle_info :: "cam_env \<Rightarrow> uint32 \<Rightarrow> uint32 \<Rightarrow> (int32 \<times> chan_out) option ctl" where
  "mm_camera_intf_get_bundle_info E cam h =
     intf_call cam (- 1, No_out) (\<lambda>k. mm_camera_get_bundle_info E k h)"

definition mm_camera_intf_register_event_notify :: "uint32 \<Rightarrow> ptr \<Rightarrow> ptr \<Rightarrow> int32 option ctl" where
  "mm_camera_intf_register_event_notify cam f user =
     intf_call cam (- 1) (\<lambda>k. mm_camera_register_event_notify k f user)"

definition mm_camera_intf_qbuf :: "cam_env \<Rightarrow> uint32 \<Rightarrow> uint32 \<Rightarrow> uint32 \<Rightarrow> nat \<Rightarrow> bool \<Rightarrow> int32 option ctl" where
  "mm_camera_intf_qbuf E cam h sid i container =
     intf_call cam (- 1) (\<lambda>k. mm_camera_qbuf E k h sid i container)"

definition mm_camera_intf_cancel_buf :: "cam_env \<Rightarrow> uint32 \<Rightarrow> uint32 \<Rightarrow> uint32 \<Rightarrow> uint32 \<Rightarrow> int32 option ctl" where
  "mm_camera_intf_cancel_buf E cam h sid i =
     intf_call cam (- 1) (\<lambda>k. mm_camera_cancel_buf E k h sid i)"

definition mm_camera_intf_get_queued_buf_count :: "cam_env \<Rightarrow> uint32 \<Rightarrow> uint32 \<Rightarrow> uint32 \<Rightarrow> int32 option ctl" where
  "mm_camera_intf_get_queued_buf_count E cam h sid =
     intf_call cam (- 1) (\<lambda>k. mm_camera_get_queued_buf_count E k h sid)"

definition mm_camera_intf_link_stream :: "cam_env \<Rightarrow> uint32 \<Rightarrow> uint32 \<Rightarrow> uint32 \<Rightarrow> uint32 \<Rightarrow> uint32 option ctl" where
  "mm_camera_intf_link_stream E cam h sid linked_h =
     intf_call cam (0) (\<lambda>k. mm_camera_link_stream E k h sid linked_h)"

definition mm_camera_intf_add_stream :: "cam_env \<Rightarrow> uint32 \<Rightarrow> uint32 \<Rightarrow> uint32 option ctl" where
  "mm_camera_intf_add_stream E cam h =
     intf_call cam (0) (\<lambda>k. mm_camera_add_stream E k h)"

definition mm_camera_intf_del_stream :: "cam_env \<Rightarrow> uint32 \<Rightarrow> uint32 \<Rightarrow> uint32 \<Rightarrow> int32 option ctl" where
  "mm_camera_intf_del_stream E cam h sid =
     intf_call cam (- 1) (\<lambda>k. mm_camera_del_stream E k h sid)"

definition mm_camera_intf_config_stream :: "cam_env \<Rightarrow> uint32 \<Rightarrow> uint32 \<Rightarrow> uint32 \<Rightarrow> stream_config \<Rightarrow> int32 option ctl" where
  "mm_camera_intf_config_stream E cam h sid cfg =
     intf_call cam (- 1) (\<lambda>k. mm_camera_config_stream E k h sid cfg)"

definition mm_camera_intf_start_channel :: "cam_env \<Rightarrow> uint32 \<Rightarrow> uint32 \<Rightarrow> int32 option ctl" where
  "mm_camera_intf_start_channel E cam h =
     intf_call cam (- 1) (\<lambda>k. mm_camera_start_channel E k h)"

definition mm_camera_intf_stop_channel :: "cam_env \<Rightarrow> uint32 \<Rightarrow> uint32 \<Rightarrow> int32 option ctl" where
  "mm_camera_intf_stop_channel E cam h =
     intf_call cam (- 1) (\<lambda>k. mm_camera_stop_channel E k h)"

definition mm_camera_intf_request_super_buf :: "cam_env \<Rightarrow> uint32 \<Rightarrow> uint32 \<Rightarrow> req_buf option \<Rightarrow> int32 option ctl" where
  "mm_camera_intf_request_super_buf E cam h r =
     intf_call cam (- 1) (\<lambda>k. mm_camera_request_super_buf E k h r)"

definition mm_camera_intf_cancel_super_buf_request :: "cam_env \<Rightarrow> uint32 \<Rightarrow> uint32 \<Rightarrow> int32 option ctl" where
  "mm_camera_intf_cancel_super_buf_request E cam h =
     intf_call cam (- 1) (\<lambda>k. mm_camera_cancel_super_buf_request E k h)"

definition mm_camera_intf_flush_super_buf_queue :: "cam_env \<Rightarrow> uint32 \<Rightarrow> uint32 \<Rightarrow> uint32 \<Rightarrow> int32 option ctl" where
  "mm_camera_intf_flush_super_buf_queue E cam h frame =
     intf_call cam (- 1) (\<lambda>k. mm_camera_flush_super_buf_queue E k h frame)"

definition mm_camera_intf_start_zsl_snapshot :: "cam_env \<Rightarrow> uint32 \<Rightarrow> uint32 \<Rightarrow> int32 option ctl" where
  "mm_camera_intf_start_zsl_snapshot E cam h =
     intf_call cam (- 1) (\<lambda>k. mm_camera_start_zsl_snapshot_ch E k h)"

definition mm_camera_intf_stop_zsl_snapshot :: "cam_env \<Rightarrow> uint32 \<Rightarrow> uint32 \<Rightarrow> int32 option ctl" where
  "mm_camera_intf_stop_zsl_snapshot E cam h =
     intf_call cam (- 1) (\<lambda>k. mm_camera_stop_zsl_snapshot_ch E k h)"

definition mm_camera_intf_configure_notify_mode :: "cam_env \<Rightarrow> uint32 \<Rightarrow> uint32 \<Rightarrow> notify_mode \<Rightarrow> int32 option ctl" where
  "mm_camera_intf_configure_notify_mode E cam h m =
     intf_call cam (- 1) (\<lambda>k. mm_camera_config_channel_notify E k h m)"

definition mm_camera_intf_map_buf :: "cam_env \<Rightarrow> uint32 \<Rightarrow> int32 option ctl" where
  "mm_camera_intf_map_buf E cam =
     intf_call cam (- 1) (\<lambda>k. mm_camera_map_buf E k)"

definition mm_camera_intf_map_bufs :: "cam_env \<Rightarrow> uint32 \<Rightarrow> int32 option ctl" where
  "mm_camera_intf_map_bufs E cam =
     intf_call cam (- 1) (\<lambda>k. mm_camera_map_bufs E k)"

definition mm_camera_intf_unmap_buf :: "cam_env \<Rightarrow> uint32 \<Rightarrow> int32 option ctl" where
  "mm_camera_intf_unmap_buf E cam =
     intf_call cam (- 1) (\<lambda>k. mm_camera_unmap_buf E k)"

definition mm_camera_intf_set_stream_parms :: "cam_env \<Rightarrow> uint32 \<Rightarrow> uint32 \<Rightarrow> uint32 \<Rightarrow> bool \<Rightarrow> int32 option ctl" where
  "mm_camera_intf_set_stream_parms E cam h sid v =
     intf_call cam (- 1) (\<lambda>k. mm_camera_set_stream_parms E k h sid v)"

definition mm_camera_intf_get_stream_parms :: "cam_env \<Rightarrow> uint32 \<Rightarrow> uint32 \<Rightarrow> uint32 \<Rightarrow> bool \<Rightarrow> int32 option ctl" where
  "mm_camera_intf_get_stream_parms E cam h sid v =
     intf_call cam (- 1) (\<lambda>k. mm_camera_get_stream_parms E k h sid v)"

definition mm_camera_intf_map_stream_buf :: "cam_env \<Rightarrow> uint32 \<Rightarrow> uint32 \<Rightarrow> uint32 \<Rightarrow> cam_mapping_buf_type \<Rightarrow> nat \<Rightarrow> int32 option ctl" where
  "mm_camera_intf_map_stream_buf E cam h sid ty i =
     intf_call cam (- 1) (\<lambda>k. mm_camera_map_stream_buf E k h sid ty i)"

definition mm_camera_intf_map_stream_bufs :: "cam_env \<Rightarrow> uint32 \<Rightarrow> uint32 \<Rightarrow> uint32 \<Rightarrow> cam_mapping_buf_type \<Rightarrow> nat \<Rightarrow> int32 option ctl" where
  "mm_camera_intf_map_stream_bufs E cam h sid ty n =
     intf_call cam (- 1) (\<lambda>k. mm_camera_map_stream_bufs E k h sid ty n)"

definition mm_camera_intf_unmap_stream_buf :: "cam_env \<Rightarrow> uint32 \<Rightarrow> uint32 \<Rightarrow> uint32 \<Rightarrow> cam_mapping_buf_type \<Rightarrow> nat \<Rightarrow> int32 option ctl" where
  "mm_camera_intf_unmap_stream_buf E cam h sid ty i =
     intf_call cam (- 1) (\<lambda>k. mm_camera_unmap_stream_buf E k h sid ty i)"

text \<open>The result and what the caller's number is set to.\<close>

definition mm_camera_intf_get_session_id :: "uint32 \<Rightarrow> (int32 \<times> uint32 option) option ctl" where
  "mm_camera_intf_get_session_id cam =
     intf_call cam (- 1, None) (\<lambda>k. then_unlock k (gets (\<lambda>w. (0, Some (cam_sessionid (objs w ! k))))))"

definition mm_camera_intf_sync_related_sensors :: "cam_env \<Rightarrow> uint32 \<Rightarrow> bool \<Rightarrow> int32 option ctl" where
  "mm_camera_intf_sync_related_sensors E cam parms =
     intf_call cam (- 1) (\<lambda>k. mm_camera_sync_related_sensors E k parms)"

definition mm_camera_intf_process_advanced_capture :: "cam_env \<Rightarrow> uint32 \<Rightarrow> uint32 \<Rightarrow> mm_camera_advanced_capture \<Rightarrow> 8 word \<Rightarrow> frame_config option \<Rightarrow> int32 option ctl" where
  "mm_camera_intf_process_advanced_capture E cam h ty trigger f =
     intf_call cam (- 1) (\<lambda>k. mm_camera_channel_advanced_capture E k h ty (scast trigger) f)"

definition mm_camera_intf_register_stream_buf_cb :: "cam_env \<Rightarrow> uint32 \<Rightarrow> uint32 \<Rightarrow> uint32 \<Rightarrow> ptr \<Rightarrow> bool \<Rightarrow> int32 option ctl" where
  "mm_camera_intf_register_stream_buf_cb E cam h sid f synchronous =
     intf_call cam (0) (\<lambda>k. mm_camera_reg_stream_buf_cb E k h sid f synchronous)"

section \<open>Opening and closing\<close>

abbreviation (input) EIO :: nat where "EIO \<equiv> 5"
abbreviation (input) EBUSY :: nat where "EBUSY \<equiv> 16"
abbreviation (input) E_TIMEDOUT :: nat where "E_TIMEDOUT \<equiv> 110"
abbreviation (input) EINVAL :: int32 where "EINVAL \<equiv> 22"
abbreviation (input) EUSERS :: int32 where "EUSERS \<equiv> 87"
abbreviation (input) CAM_STATUS_BUSY :: int32 where "CAM_STATUS_BUSY \<equiv> - 2"

definition MM_CAMERA_DEV_OPEN_TRIES :: nat where
  "MM_CAMERA_DEV_OPEN_TRIES = 20"

text \<open>
  What the device and the daemon answer: descriptor and error of each attempt, the number of the session,
  and its status.
\<close>

record open_env =
  dev_open :: "nat \<Rightarrow> int32 \<times> nat"
  session_number :: uint32
  open_session :: int32

fun open_device :: "(nat \<Rightarrow> int32 \<times> nat) \<Rightarrow> nat \<Rightarrow> nat \<Rightarrow> (int32 \<times> nat) \<times> nat" where
  "open_device f i 0 = (f i, i)"
| "open_device f i (Suc left) =
     (if \<not> failed (fst (f i)) \<or> (snd (f i) \<noteq> EIO \<and> snd (f i) \<noteq> E_TIMEDOUT) \<or> left = 0 then (f i, i)
      else open_device f (i + 1) left)"

text \<open>The result, the descriptor that is left and the number of the session.\<close>

definition mm_camera_open :: "open_env \<Rightarrow> int32 \<times> int32 \<times> uint32" where
  "mm_camera_open D =
     (let (fd, err) = fst (open_device (dev_open D) 0 MM_CAMERA_DEV_OPEN_TRIES) in
      if failed fd then (if err = EBUSY then - EUSERS else - 1, fd, 0)
      else if failed (open_session D)
      then (if open_session D = CAM_STATUS_BUSY then - EUSERS else - 1, - 1, session_number D)
      else (0, fd, session_number D))"

datatype open_result = Not_opened int32 | Opened uint32 | Opening nat

definition new_camera :: "uint32 \<Rightarrow> camera_obj" where
  "new_camera h = \<lparr>cam_my_hdl = h, ref_count = 1, ctrl_fd = - 1, cam_lock = True, freed = False,
     evt_obj = replicate MM_CAMERA_EVT_ENTRY_MAX \<lparr>evt_cb = NULL, evt_user_data = NULL\<rparr>, reg_count = 0, cam_sessionid = 0,
     cam_ios = []\<rparr>"

text \<open>
  \<open>camera_open\<close> holds the lock of the interface twice and opens the device in between without it: first a
  camera that is open gets another reference, or an object is made; then it is entered or freed.
\<close>

definition camera_open_begin :: "uint8 \<Rightarrow> bool \<Rightarrow> open_result ctl" where
  "camera_open_begin idx memory = do {
     n \<leftarrow> gets num_cam;
     obj \<leftarrow> gets (\<lambda>w. cam_objs w ! unat idx);
     if n \<le> unat idx then done_with (Not_opened (- EINVAL))
     else (case obj of
       Some k \<Rightarrow> do {
         modify (upd_obj k (\<lambda>x. x\<lparr>ref_count := ref_count x + 1\<rparr>));
         h \<leftarrow> gets (\<lambda>w. cam_my_hdl (objs w ! k));
         done_with (Opened h)
       }
     | None \<Rightarrow>
         if \<not> memory then done_with (Not_opened (- EINVAL))
         else do {
           h \<leftarrow> on_store (mm_camera_util_generate_handler idx);
           k \<leftarrow> gets (\<lambda>w. length (objs w));
           modify (\<lambda>w. w\<lparr>objs := objs w @ [new_camera h]\<rparr>);
           done_with (Opening k)
         })
   }"

definition camera_open_end :: "open_env \<Rightarrow> uint8 \<Rightarrow> nat \<Rightarrow> open_result ctl" where
  "camera_open_end D idx k =
     (case mm_camera_open D of (rc, fd, n) \<Rightarrow> do {
        modify (upd_obj k (\<lambda>x. x\<lparr>ctrl_fd := fd, cam_sessionid := n, cam_lock := False\<rparr>));
        if rc \<noteq> 0
        then do {
          modify (\<lambda>w. w\<lparr>cam_objs := (cam_objs w)[unat idx := None]\<rparr>);
          modify (upd_obj k (\<lambda>x. x\<lparr>freed := True\<rparr>));
          done_with (Not_opened rc)
        }
        else do {
          modify (\<lambda>w. w\<lparr>cam_objs := (cam_objs w)[unat idx := Some k]\<rparr>);
          h \<leftarrow> gets (\<lambda>w. cam_my_hdl (objs w ! k));
          done_with (Opened h)
        }
      })"

definition camera_open :: "open_env \<Rightarrow> uint8 \<Rightarrow> bool \<Rightarrow> open_result ctl" where
  "camera_open D idx memory = do {
     r \<leftarrow> camera_open_begin idx memory;
     case r of Opening k \<Rightarrow> camera_open_end D idx k | _ \<Rightarrow> done_with r
   }"

definition mm_camera_close :: "cam_env \<Rightarrow> nat \<Rightarrow> int32 ctl" where
  "mm_camera_close E k = do {
     _ \<leftarrow> cam_io E k Close_session;
     _ \<leftarrow> cam_io E k (Evt_sub False);
     fd \<leftarrow> gets (\<lambda>w. ctrl_fd (objs w ! k));
     (if failed fd then done_with ()
      else do { _ \<leftarrow> cam_io E k Cam_close; modify (upd_obj k (\<lambda>x. x\<lparr>ctrl_fd := - 1\<rparr>)) });
     unlock k;
     done_with 0
   }"

text \<open>The last reference closes the camera: first no handle leads to it any more, then its lock is taken.\<close>

definition mm_camera_intf_close :: "cam_env \<Rightarrow> uint32 \<Rightarrow> int32 option ctl" where
  "mm_camera_intf_close E cam = do {
     stuck \<leftarrow> gets g_intf_lock;
     k \<leftarrow> gets (mm_camera_util_get_camera_by_handler cam);
     if stuck then done_with None
     else (case k of
       None \<Rightarrow> done_with (Some (- 1))
     | Some k \<Rightarrow> do {
         modify (upd_obj k (\<lambda>x. x\<lparr>ref_count := ref_count x - 1\<rparr>));
         n \<leftarrow> gets (\<lambda>w. ref_count (objs w ! k));
         if 0 < n then done_with (Some 0)
         else do {
           modify (\<lambda>w. w\<lparr>cam_objs := (cam_objs w)[unat (mm_camera_util_get_index_by_handler cam) := None]\<rparr>);
           locked \<leftarrow> gets (\<lambda>w. cam_lock (objs w ! k));
           if locked then do { modify (\<lambda>w. w\<lparr>g_intf_lock := True\<rparr>); done_with None }
           else do {
             rc \<leftarrow> mm_camera_close E k;
             modify (upd_obj k (\<lambda>x. x\<lparr>freed := True\<rparr>));
             done_with (Some rc)
           }
         }
       })
   }"

end
