(* ===== verification/ChannelHandles.thy ===== *)
theory ChannelHandles
  imports ChannelTypes
begin

text \<open>
  The handles of cameras, channels and streams: the place of the object can be read from a handle, and until
  the count of 16 bits wraps around a new handle differs from all before.
\<close>

lemma handler_count: "drop_bit 8 (handler_of n idx) = ucast n"
  by (rule bit_word_eqI) (auto simp: handler_of_def bit_simps dest: bit_imp_le_length)

lemma handler_index: "mm_camera_util_get_index_by_handler (handler_of n idx) = idx"
proof -
  have m: "(0xff :: 32 word) = mask 8"
    by (simp add: mask_eq_exp_minus_1)
  show ?thesis
    unfolding mm_camera_util_get_index_by_handler_def m
    by (rule bit_word_eqI) (auto simp: handler_of_def bit_simps simp del: mask_numeral)
qed

lemma unat_wider: "unat (ucast (n :: 16 word) :: 32 word) = unat n"
  by (simp add: unsigned_ucast_eq take_bit_nat_eq_self order.strict_trans [OF unsigned_less])

lemma ucast_nonzero: "n \<noteq> (0 :: 16 word) \<Longrightarrow> (ucast n :: 32 word) \<noteq> 0"
  using unat_wider [of n] by (metis unat_eq_zero)

lemma handler_nonzero: "n \<noteq> 0 \<Longrightarrow> handler_of n idx \<noteq> 0"
  using handler_count [of n idx] ucast_nonzero [of n] by auto

lemma next_count_nonzero: "next_count n \<noteq> 0"
  by (simp add: next_count_def)

lemma next_count_less: "n \<noteq> - 1 \<Longrightarrow> n < next_count n"
proof -
  assume "n \<noteq> - 1"
  then have "1 + n \<noteq> 0"
    by (simp add: eq_neg_iff_add_eq_0 add.commute)
  from unatSuc [OF this] this show ?thesis
    by (simp add: next_count_def word_less_nat_alt add.commute)
qed

text \<open>Until the count wraps around, a new handle differs from all handles before.\<close>

lemma new_handle_differs:
  assumes "n \<noteq> - 1" "drop_bit 8 h \<le> (ucast n :: 32 word)"
  shows "h \<noteq> handler_of (next_count n) idx"
proof
  assume "h = handler_of (next_count n) idx"
  with assms(2) have "(ucast (next_count n) :: 32 word) \<le> ucast n"
    by (simp add: handler_count)
  with next_count_less [OF assms(1)] show False
    by (simp add: word_le_nat_alt word_less_nat_alt unat_wider)
qed

end
