(* ===== verification/CameraCalls.thy ===== *)
theory CameraCalls
  imports CameraIntf ChannelHandles
begin

text \<open>
  The table of functions a camera offers (\<open>mm_camera_ops\<close> of \<^verbatim>\<open>mm_camera_interface.c\<close>), sequences of calls, and
  the locks: a call finds the lock of its camera free and leaves it free.
\<close>

section \<open>What a call does to the locks and to the table of cameras\<close>

text \<open>All that opening, closing and finding a camera depend on, but the locks of the cameras.\<close>

definition core :: "camera_obj \<Rightarrow> uint32 \<times> int \<times> int32 \<times> bool" where
  "core x = (cam_my_hdl x, ref_count x, ctrl_fd x, freed x)"

definition table :: "cams \<Rightarrow> nat option list \<times> nat \<times> bool \<times> (uint32 \<times> int \<times> int32 \<times> bool) list" where
  "table w = (cam_objs w, num_cam w, g_intf_lock w, map core (objs w))"

definition locks :: "cams \<Rightarrow> bool list" where
  "locks w = map cam_lock (objs w)"

definition tlocks :: "cams \<Rightarrow> _ \<times> bool list" where
  "tlocks w = (table w, locks w)"

definition releases :: "nat \<Rightarrow> 'a ctl \<Rightarrow> cams \<Rightarrow> bool" where
  "releases k m w \<longleftrightarrow> table (snd (run_state m w)) = table w \<and> locks (snd (run_state m w)) = (locks w)[k := False]"

lemma table_upd_obj: "core (f (objs w ! k)) = core (objs w ! k) \<Longrightarrow> table (upd_obj k f w) = table w"
  by (simp add: table_def upd_obj_def map_update) (metis list_update_id map_update)

lemma locks_upd_obj: "locks (upd_obj k f w) = (locks w)[k := cam_lock (f (objs w ! k))]"
  by (simp add: locks_def upd_obj_def map_update)

lemma releases_unlock: "releases k (unlock k) w"
  by (simp add: releases_def unlock_def table_upd_obj core_def locks_upd_obj)

lemma quiet_then_release:
  "keeps tlocks m \<Longrightarrow> (\<And>a w. releases k (f a) w) \<Longrightarrow> releases k (m \<bind> f) w"
  by (auto simp: releases_def keeps_def tlocks_def case_prod_beta State_Monad.bind_def)

lemma release_then_quiet:
  "releases k m w \<Longrightarrow> (\<And>a. keeps tlocks (f a)) \<Longrightarrow> releases k (m \<bind> f) w"
  by (auto simp: releases_def keeps_def tlocks_def case_prod_beta State_Monad.bind_def)

lemma quiet_store [keeps_intros]: "keeps tlocks (on_store m)"
  by (simp add: keeps_def on_store_def tlocks_def table_def locks_def split: prod.split)

lemma same_lock: "(locks w)[k := cam_lock (objs w ! k)] = locks w"
  unfolding locks_def by (metis list_update_id map_update)

lemma quiet_cam_io [keeps_intros]: "keeps tlocks (cam_io E k c)"
  by (simp add: keeps_def cam_io_def tlocks_def table_upd_obj core_def locks_upd_obj same_lock)

lemma releases_then_unlock: "keeps tlocks m \<Longrightarrow> releases k (then_unlock k m) w"
  unfolding then_unlock_def
  by (intro quiet_then_release release_then_quiet [OF releases_unlock] keeps_intros)

lemma releases_channel_call: "releases k (channel_call k h none f) w"
  unfolding channel_call_def
  by (intro quiet_then_release release_then_quiet [OF releases_unlock] keeps_intros)

lemma quiet_ctrl [keeps_intros]:
  "keeps tlocks (mm_camera_util_s_ctrl E k c)" "keeps tlocks (mm_camera_util_g_ctrl E k)"
  unfolding mm_camera_util_s_ctrl_def mm_camera_util_g_ctrl_def by (intro keeps_intros)+

lemma quiet_register: "keeps tlocks (State (\<lambda>w.
     case mm_camera_register_event_notify_internal f user (objs w ! k) of (rc, co) \<Rightarrow> (rc, upd_obj k (\<lambda>_. co) w)))"
  by (auto simp: keeps_def mm_camera_register_event_notify_internal_def tlocks_def table_upd_obj core_def
      locks_upd_obj same_lock split: option.split)

lemmas channel_functions = mm_camera_del_channel_def mm_camera_qbuf_def mm_camera_get_queued_buf_count_def
  mm_camera_get_bundle_info_def mm_camera_add_stream_def mm_camera_del_stream_def mm_camera_start_zsl_snapshot_ch_def
  mm_camera_stop_zsl_snapshot_ch_def mm_camera_config_stream_def mm_camera_start_channel_def
  mm_camera_stop_channel_def mm_camera_request_super_buf_def mm_camera_cancel_super_buf_request_def
  mm_camera_flush_super_buf_queue_def mm_camera_config_channel_notify_def mm_camera_set_stream_parms_def
  mm_camera_get_stream_parms_def mm_camera_do_stream_action_def mm_camera_map_stream_buf_def
  mm_camera_map_stream_bufs_def mm_camera_unmap_stream_buf_def mm_camera_channel_advanced_capture_def
  mm_camera_reg_stream_buf_cb_def

lemmas camera_functions = mm_camera_query_capability_def mm_camera_set_parms_def mm_camera_get_parms_def
  mm_camera_do_auto_focus_def mm_camera_cancel_auto_focus_def mm_camera_prepare_snapshot_def mm_camera_flush_def
  mm_camera_sync_related_sensors_def mm_camera_map_buf_def mm_camera_map_bufs_def mm_camera_unmap_buf_def

lemma releases_camera:
  "releases k (mm_camera_query_capability E k) w" "releases k (mm_camera_set_parms E k b) w"
  "releases k (mm_camera_get_parms E k b) w" "releases k (mm_camera_do_auto_focus E k) w"
  "releases k (mm_camera_cancel_auto_focus E k) w" "releases k (mm_camera_prepare_snapshot E k) w"
  "releases k (mm_camera_flush E k) w" "releases k (mm_camera_sync_related_sensors E k b) w"
  "releases k (mm_camera_map_buf E k) w" "releases k (mm_camera_map_bufs E k) w"
  "releases k (mm_camera_unmap_buf E k) w" "releases k (mm_camera_register_event_notify k f u) w"
  unfolding camera_functions mm_camera_register_event_notify_def
  by (intro releases_then_unlock keeps_intros quiet_register)+

lemma releases_link: "releases k (mm_camera_link_stream E k h sid l) w"
  unfolding mm_camera_link_stream_def
  by (intro quiet_then_release release_then_quiet [OF releases_unlock] keeps_intros)

lemma releases_add: "releases k (mm_camera_add_channel k a b) w"
  unfolding mm_camera_add_channel_def
  by (intro quiet_then_release release_then_quiet [OF releases_unlock] keeps_intros)

lemma releases_cancel:
  assumes "mm_camera_util_get_channel_by_handler k h w \<noteq> None"
  shows "releases k (mm_camera_cancel_buf E k h sid i) w"
proof -
  obtain p where "mm_camera_util_get_channel_by_handler k h w = Some p"
    using assms by auto
  then have "run_state (mm_camera_cancel_buf E k h sid i) w
      = run_state (unlock k \<bind> (\<lambda>_. on_store (mm_channel_cancel_buf (plat E) (streams_env E) p sid i))) w"
    by (simp add: mm_camera_cancel_buf_def)
  moreover have "releases k (unlock k \<bind> (\<lambda>_. on_store (mm_channel_cancel_buf (plat E) (streams_env E) p sid i))) w"
    by (intro release_then_quiet [OF releases_unlock] keeps_intros)
  ultimately show ?thesis
    by (simp add: releases_def)
qed

section \<open>The cameras between calls\<close>

text \<open>
  Between two calls no lock is held; a camera in the table is open and has references, and its handle says where
  it is; every other object has been closed and freed.
\<close>

definition camera_in :: "nat \<Rightarrow> uint32 \<times> int \<times> int32 \<times> bool \<Rightarrow> bool" where
  "camera_in i x = (case x of (h, n, fd, gone) \<Rightarrow>
     unat (mm_camera_util_get_index_by_handler h) = i \<and> 0 < n \<and> \<not> failed fd \<and> \<not> gone)"

definition camera_gone :: "uint32 \<times> int \<times> int32 \<times> bool \<Rightarrow> bool" where
  "camera_gone x = (case x of (h, n, fd, gone) \<Rightarrow> gone \<and> failed fd)"

definition table_ok :: "nat option list \<Rightarrow> (uint32 \<times> int \<times> int32 \<times> bool) list \<Rightarrow> bool" where
  "table_ok T xs \<longleftrightarrow>
     (\<forall>i k. i < length T \<longrightarrow> T ! i = Some k \<longrightarrow> k < length xs \<and> camera_in i (xs ! k))
     \<and> (\<forall>k < length xs. Some k \<in> set T \<or> camera_gone (xs ! k))"

definition cams_ok :: "cams \<Rightarrow> bool" where
  "cams_ok w \<longleftrightarrow> \<not> g_intf_lock w \<and> True \<notin> set (locks w) \<and> num_cam w \<le> length (cam_objs w)
     \<and> table_ok (cam_objs w) (map core (objs w))"

lemma cams_ok_tlocks: "tlocks t = tlocks w \<Longrightarrow> cams_ok w \<Longrightarrow> cams_ok t"
  by (simp add: cams_ok_def tlocks_def table_def)

lemma found_camera:
  assumes "cams_ok w" "mm_camera_util_get_camera_by_handler h w = Some k"
  defines "i \<equiv> unat (mm_camera_util_get_index_by_handler h)"
  shows "k < length (objs w)" "\<not> cam_lock (objs w ! k)" "i < length (cam_objs w)" "cam_objs w ! i = Some k"
    "camera_in i (core (objs w ! k))" "h = cam_my_hdl (objs w ! k)"
proof -
  show i: "i < length (cam_objs w)" "cam_objs w ! i = Some k" "h = cam_my_hdl (objs w ! k)"
    using assms(2) by (auto simp: mm_camera_util_get_camera_by_handler_def i_def Let_def split: if_splits option.splits)
  have "k < length (map core (objs w)) \<and> camera_in i (map core (objs w) ! k)"
    using assms(1) i(1,2) unfolding cams_ok_def table_ok_def by blast
  then show k: "k < length (objs w)" "camera_in i (core (objs w ! k))"
    by auto
  then show "\<not> cam_lock (objs w ! k)"
    using assms(1) by (auto simp: cams_ok_def locks_def)
qed

lemma locks_back: "k < length (objs w) \<Longrightarrow> \<not> cam_lock (objs w ! k) \<Longrightarrow>
    ((locks w)[k := True])[k := False] = locks w"
proof -
  assume "k < length (objs w)" "\<not> cam_lock (objs w ! k)"
  then have "locks w ! k = False"
    by (simp add: locks_def)
  then have "(locks w)[k := False] = locks w"
    using list_update_id [of "locks w" k] by simp
  then show ?thesis
    by simp
qed

lemma intf_call_ok:
  assumes ok: "cams_ok w"
    and f: "\<And>k v. mm_camera_util_get_camera_by_handler h w = Some k \<Longrightarrow>
      v = upd_obj k (\<lambda>x. x\<lparr>cam_lock := True\<rparr>) w \<Longrightarrow> releases k (f k) v"
  shows "fst (run_state (intf_call h none f) w) \<noteq> None" "tlocks (snd (run_state (intf_call h none f) w)) = tlocks w"
proof -
  have "fst (run_state (intf_call h none f) w) \<noteq> None \<and> tlocks (snd (run_state (intf_call h none f) w)) = tlocks w"
  proof (cases "mm_camera_util_get_camera_by_handler h w")
    case None
    with ok show ?thesis
      by (simp add: intf_call_def cams_ok_def)
  next
    case (Some k)
    note c = found_camera [OF ok this]
    let ?v = "upd_obj k (\<lambda>x. x\<lparr>cam_lock := True\<rparr>) w"
    have "releases k (f k) ?v"
      using f [OF Some refl] .
    then have "tlocks (snd (run_state (f k) ?v)) = tlocks w"
      using locks_back [OF c(1,2)]
      by (simp add: releases_def tlocks_def table_upd_obj core_def locks_upd_obj)
    with ok Some c(2) show ?thesis
      by (simp add: intf_call_def cams_ok_def case_prod_beta)
  qed
  then show "fst (run_state (intf_call h none f) w) \<noteq> None" "tlocks (snd (run_state (intf_call h none f) w)) = tlocks w"
    by simp_all
qed

section \<open>Opening and closing keep the cameras in order\<close>

lemma same_place: "camera_in i x \<Longrightarrow> camera_in j x \<Longrightarrow> j = i"
  by (simp add: camera_in_def split: prod.splits)

lemma table_ok_entry:
  assumes "table_ok T xs" "i < length T" "T ! i = Some k"
  shows "camera_in i y \<Longrightarrow> table_ok T (xs[k := y])" "camera_gone y \<Longrightarrow> table_ok (T[i := None]) (xs[k := y])"
proof -
  have p: "j < length T \<Longrightarrow> T ! j = Some l \<Longrightarrow> l < length xs \<and> camera_in j (xs ! l)" for j l
    using assms(1) by (simp add: table_ok_def)
  have k: "k < length xs" "j < length T \<Longrightarrow> T ! j = Some k \<Longrightarrow> j = i" for j
    using p [of i k] p [of j k] assms(2,3) same_place by blast+
  have n: "Some l \<in> set (T[i := None])" if l: "Some l \<in> set T" "l \<noteq> k" for l
  proof -
    obtain j where "j < length T" "T ! j = Some l"
      using l(1) by (auto simp: in_set_conv_nth)
    with assms(3) l(2) have "T[i := None] ! j = Some l" "j < length (T[i := None])"
      by (cases "j = i"; simp)+
    then show ?thesis
      by (metis nth_mem)
  qed
  have q: "l < length xs \<Longrightarrow> \<not> camera_gone (xs ! l) \<Longrightarrow> Some l \<in> set T" for l
    using assms(1) by (auto simp: table_ok_def)
  have r: "l < length xs \<and> l \<noteq> k \<and> camera_in j (xs ! l)" if "j < length T" "T[i := None] ! j = Some l" for j l
  proof -
    have j: "j \<noteq> i" "T ! j = Some l"
      using that by (cases "j = i"; simp)+
    with p [OF that(1)] k(2) [OF that(1)] show ?thesis
      by blast
  qed
  show "table_ok T (xs[k := y])" if y: "camera_in i y"
  proof -
    have "l < length xs \<and> camera_in j (xs[k := y] ! l)" if "j < length T" "T ! j = Some l" for j l
      using that y p [of j l] k(1) k(2) [of j] by (cases "l = k") auto
    moreover have "Some l \<in> set T \<or> camera_gone (xs[k := y] ! l)" if "l < length xs" for l
      using that q [of l] nth_mem [OF assms(2)] assms(3) by (cases "l = k") auto
    ultimately show ?thesis
      unfolding table_ok_def by simp
  qed
  show "table_ok (T[i := None]) (xs[k := y])" if y: "camera_gone y"
  proof -
    have "l < length xs \<and> camera_in j (xs[k := y] ! l)" if "j < length T" "T[i := None] ! j = Some l" for j l
      using r [OF that] by simp
    moreover have "Some l \<in> set (T[i := None]) \<or> camera_gone (xs[k := y] ! l)" if "l < length xs" for l
      using that y q [of l] n [of l] by (cases "l = k") auto
    ultimately show ?thesis
      unfolding table_ok_def by simp
  qed
qed

lemma table_ok_new:
  assumes "table_ok T xs"
  shows "i < length T \<Longrightarrow> T ! i = None \<Longrightarrow> camera_in i y \<Longrightarrow> table_ok (T[i := Some (length xs)]) (xs @ [y])"
    "camera_gone y \<Longrightarrow> table_ok T (xs @ [y])"
proof -
  have p: "j < length T \<Longrightarrow> T ! j = Some l \<Longrightarrow> l < length xs \<and> camera_in j (xs ! l)" for j l
    using assms by (simp add: table_ok_def)
  have q: "l < length xs \<Longrightarrow> \<not> camera_gone (xs ! l) \<Longrightarrow> Some l \<in> set T" for l
    using assms by (auto simp: table_ok_def)
  have n: "Some l \<in> set (T[i := Some m])" if l: "Some l \<in> set T" "T ! i = None" for l m
  proof -
    obtain j where "j < length T" "T ! j = Some l"
      using l(1) by (auto simp: in_set_conv_nth)
    with l(2) have "T[i := Some m] ! j = Some l" "j < length (T[i := Some m])"
      by (cases "j = i"; simp)+
    then show ?thesis
      by (metis nth_mem)
  qed
  show "table_ok (T[i := Some (length xs)]) (xs @ [y])" if "i < length T" "T ! i = None" "camera_in i y"
    unfolding table_ok_def using that p q n set_update_memI [OF that(1)]
    by (auto simp: nth_list_update nth_append less_Suc_eq split: if_splits)
  show "table_ok T (xs @ [y])" if "camera_gone y"
    unfolding table_ok_def using that p q by (auto simp: nth_append less_Suc_eq)
qed

lemma opened_device: "mm_camera_open D = (rc, fd, n) \<Longrightarrow> rc = 0 \<longleftrightarrow> \<not> failed fd"
  by (auto simp: mm_camera_open_def Let_def failed_def split: prod.splits if_splits)

lemma cams_okI:
  "\<not> g_intf_lock w \<Longrightarrow> True \<notin> set (locks w) \<Longrightarrow> num_cam w \<le> length (cam_objs w)
    \<Longrightarrow> table_ok (cam_objs w) (map core (objs w)) \<Longrightarrow> cams_ok w"
  by (simp add: cams_ok_def)

lemma no_lock_update: "True \<notin> set bs \<Longrightarrow> True \<notin> set (bs[k := False])"
  using set_update_subset_insert [of bs k False] by auto

lemma references_ok:
  assumes ok: "cams_ok w" and i: "i < length (cam_objs w)" "cam_objs w ! i = Some k" and n: "0 < f (objs w ! k)"
  shows "cams_ok (upd_obj k (\<lambda>x. x\<lparr>ref_count := f x\<rparr>) w)"
proof -
  have t: "table_ok (cam_objs w) (map core (objs w))"
    using ok by (simp add: cams_ok_def)
  then have "k < length (map core (objs w)) \<and> camera_in i (map core (objs w) ! k)"
    using i unfolding table_ok_def by blast
  then have "camera_in i (core (objs w ! k))"
    by auto
  with n have "camera_in i (core ((objs w ! k)\<lparr>ref_count := f (objs w ! k)\<rparr>))"
    by (simp add: camera_in_def core_def)
  from table_ok_entry(1) [OF t i this] have "table_ok (cam_objs w)
      (map core (objs (upd_obj k (\<lambda>x. x\<lparr>ref_count := f x\<rparr>) w)))"
    by (simp add: upd_obj_def map_update)
  with ok show ?thesis
    by (intro cams_okI) (simp_all add: cams_ok_def locks_upd_obj same_lock, simp_all add: upd_obj_def)
qed

lemma open_end_ok:
  assumes ok: "cams_ok w" and i: "unat idx < length (cam_objs w)" "cam_objs w ! unat idx = None"
    and x: "mm_camera_util_get_index_by_handler h = idx"
    and r: "run_state (camera_open_end D idx (length (objs w))) (w\<lparr>store := st, objs := objs w @ [new_camera h]\<rparr>) = (r, t)"
  shows "cams_ok t" "r = (case mm_camera_open D of (rc, fd, n) \<Rightarrow> if rc = 0 then Opened h else Not_opened rc)"
proof -
  obtain rc fd n where d: "mm_camera_open D = (rc, fd, n)"
    by (metis prod_cases3)
  have T: "table_ok (cam_objs w) (map core (objs w))" "True \<notin> set (locks w)"
    using ok by (simp_all add: cams_ok_def)
  let ?x = "(new_camera h)\<lparr>ctrl_fd := fd, cam_sessionid := n, cam_lock := False, freed := rc \<noteq> 0\<rparr>"
  have t: "t = w\<lparr>store := st, objs := objs w @ [?x],
      cam_objs := (cam_objs w)[unat idx := (if rc = 0 then Some (length (objs w)) else None)]\<rparr>"
    and r': "r = (if rc = 0 then Opened h else Not_opened rc)"
    using r d by (auto simp: camera_open_end_def upd_obj_def new_camera_def split: if_splits)
  show "r = (case mm_camera_open D of (rc, fd, n) \<Rightarrow> if rc = 0 then Opened h else Not_opened rc)"
    using r' d by simp
  have "table_ok (cam_objs t) (map core (objs t))"
  proof (cases "rc = 0")
    case True
    then have "camera_in (unat idx) (core ?x)"
      using opened_device [OF d] x by (simp add: camera_in_def core_def new_camera_def)
    from table_ok_new(1) [OF T(1) i this] True show ?thesis
      by (simp add: t)
  next
    case False
    then have "camera_gone (core ?x)"
      using opened_device [OF d] by (simp add: camera_gone_def core_def)
    moreover have "(cam_objs w)[unat idx := None] = cam_objs w"
      using i by (metis list_update_id)
    ultimately show ?thesis
      using table_ok_new(2) [OF T(1)] False by (simp add: t)
  qed
  with ok T(2) show "cams_ok t"
    by (intro cams_okI) (simp_all add: t cams_ok_def locks_def new_camera_def)
qed

lemma open_ok:
  assumes ok: "cams_ok w" and r: "run_state (camera_open D idx memory) w = (r, t)"
  shows "cams_ok t" "\<not> (\<exists>k. r = Opening k)"
proof -
  have "cams_ok t \<and> \<not> (\<exists>k. r = Opening k)"
  proof (cases "num_cam w \<le> unat idx")
    case True
    with ok r show ?thesis
      by (auto simp: camera_open_def camera_open_begin_def)
  next
    case False
    then have i: "unat idx < length (cam_objs w)"
      using ok by (simp add: cams_ok_def)
    show ?thesis
    proof (cases "cam_objs w ! unat idx")
      case (Some k)
      moreover have "cams_ok (upd_obj k (\<lambda>x. x\<lparr>ref_count := ref_count x + 1\<rparr>) w)"
      proof (rule references_ok [OF ok i Some])
        have "k < length (map core (objs w)) \<and> camera_in (unat idx) (map core (objs w) ! k)"
          using ok i Some unfolding cams_ok_def table_ok_def by blast
        then show "0 < ref_count (objs w ! k) + 1"
          by (auto simp: camera_in_def core_def)
      qed
      ultimately show ?thesis
        using r False by (auto simp: camera_open_def camera_open_begin_def)
    next
      case None
      show ?thesis
      proof (cases memory)
        case False
        with r None ok show ?thesis
          by (auto simp: camera_open_def camera_open_begin_def split: if_splits)
      next
        case True
        obtain h st where h: "run_state (mm_camera_util_generate_handler idx) (store w) = (h, st)"
          by (cases "run_state (mm_camera_util_generate_handler idx) (store w)")
        then have x: "mm_camera_util_get_index_by_handler h = idx"
          by (auto simp: mm_camera_util_generate_handler_def handler_index)
        from r h None True False have "run_state (camera_open_end D idx (length (objs w)))
            (w\<lparr>store := st, objs := objs w @ [new_camera h]\<rparr>) = (r, t)"
          by (simp add: camera_open_def camera_open_begin_def on_store_def)
        from open_end_ok [OF ok i None x this] show ?thesis
          by (auto split: prod.splits if_splits)
      qed
    qed
  qed
  then show "cams_ok t" "\<not> (\<exists>k. r = Opening k)"
    by simp_all
qed

lemma close_ok:
  assumes ok: "cams_ok w"
  shows "fst (run_state (mm_camera_intf_close E h) w) \<noteq> None" "cams_ok (snd (run_state (mm_camera_intf_close E h) w))"
proof -
  have "fst (run_state (mm_camera_intf_close E h) w) \<noteq> None \<and> cams_ok (snd (run_state (mm_camera_intf_close E h) w))"
  proof (cases "mm_camera_util_get_camera_by_handler h w")
    case None
    with ok show ?thesis
      by (simp add: mm_camera_intf_close_def cams_ok_def)
  next
    case (Some k)
    note c = found_camera [OF ok Some]
    let ?i = "unat (mm_camera_util_get_index_by_handler h)"
    have T: "table_ok (cam_objs w) (map core (objs w))" "True \<notin> set (locks w)" "\<not> g_intf_lock w"
      using ok by (simp_all add: cams_ok_def)
    show ?thesis
    proof (cases "0 < ref_count (objs w ! k) - 1")
      case True
      with Some T(3) have "run_state (mm_camera_intf_close E h) w
          = (Some 0, upd_obj k (\<lambda>x. x\<lparr>ref_count := ref_count x - 1\<rparr>) w)"
        using c(1) by (simp add: mm_camera_intf_close_def upd_obj_def)
      with references_ok [OF ok c(3,4), of "\<lambda>x. ref_count x - 1"] True show ?thesis
        by simp
    next
      case False
      have fd: "\<not> failed (ctrl_fd (objs w ! k))"
        using c(5) by (simp add: camera_in_def core_def)
      let ?x = "(objs w ! k)\<lparr>ref_count := ref_count (objs w ! k) - 1, cam_ios := cam_ios (objs w ! k) @
        [Close_session, Evt_sub False, Cam_close], ctrl_fd := - 1, cam_lock := False, freed := True\<rparr>"
      have x: "run_state (mm_camera_intf_close E h) w
            = (Some 0, w\<lparr>cam_objs := (cam_objs w)[?i := None], objs := (objs w)[k := ?x]\<rparr>)"
        using Some False c(1,2) T(3) fd
        by (simp add: mm_camera_intf_close_def mm_camera_close_def cam_io_def upd_obj_def unlock_def)
      have "camera_gone (core ?x)"
        by (simp add: camera_gone_def core_def failed_def)
      from table_ok_entry(2) [OF T(1) c(3,4) this] ok x no_lock_update [OF T(2), of k] show ?thesis
        by (simp add: cams_ok_def map_update locks_def)
    qed
  qed
  then show "fst (run_state (mm_camera_intf_close E h) w) \<noteq> None" "cams_ok (snd (run_state (mm_camera_intf_close E h) w))"
    by simp_all
qed

section \<open>The table of functions\<close>

text \<open>
  The calls the user of a camera can make; \<open>intf_do\<close> says whether the call gets the locks of the interface and of
  the camera.  What a call waits for apart from them - the driver, the daemon, the command thread when a queue is
  flushed - is not a lock; that the thread does not get there is recorded by \<open>broken\<close>.
\<close>

datatype (plugins only: code size) intf_request =
    Open_camera uint8 bool open_env
  | Op_close_camera uint32
  | Op_query_capability uint32
  | Op_set_parms uint32 bool
  | Op_get_parms uint32 bool
  | Op_do_auto_focus uint32
  | Op_cancel_auto_focus uint32
  | Op_prepare_snapshot uint32
  | Op_start_zsl_snapshot uint32 uint32
  | Op_stop_zsl_snapshot uint32 uint32
  | Op_map_buf uint32
  | Op_map_bufs uint32
  | Op_unmap_buf uint32
  | Op_add_channel uint32 "channel_attr option" bool
  | Op_delete_channel uint32 uint32
  | Op_get_bundle_info uint32 uint32
  | Op_add_stream uint32 uint32
  | Op_link_stream uint32 uint32 uint32 uint32
  | Op_delete_stream uint32 uint32 uint32
  | Op_config_stream uint32 uint32 uint32 stream_config
  | Op_qbuf uint32 uint32 uint32 nat bool
  | Op_cancel_buffer uint32 uint32 uint32 uint32
  | Op_get_queued_buf_count uint32 uint32 uint32
  | Op_map_stream_buf uint32 uint32 uint32 cam_mapping_buf_type nat
  | Op_map_stream_bufs uint32 uint32 uint32 cam_mapping_buf_type nat
  | Op_unmap_stream_buf uint32 uint32 uint32 cam_mapping_buf_type nat
  | Op_set_stream_parms uint32 uint32 uint32 bool
  | Op_get_stream_parms uint32 uint32 uint32 bool
  | Op_start_channel uint32 uint32
  | Op_stop_channel uint32 uint32
  | Op_request_super_buf uint32 uint32 "req_buf option"
  | Op_cancel_super_buf_request uint32 uint32
  | Op_flush_super_buf_queue uint32 uint32 uint32
  | Op_configure_notify_mode uint32 uint32 notify_mode
  | Op_process_advanced_capture uint32 uint32 mm_camera_advanced_capture "8 word" "frame_config option"
  | Op_get_session_id uint32
  | Op_sync_related_sensors uint32 bool
  | Op_flush uint32
  | Op_register_stream_buf_cb uint32 uint32 uint32 ptr bool
  | Op_register_event_notify uint32 ptr ptr

definition returned :: "'a option ctl \<Rightarrow> bool ctl" where
  "returned m = do { r \<leftarrow> m; done_with (r \<noteq> None) }"

fun intf_do :: "cam_env \<Rightarrow> intf_request \<Rightarrow> bool ctl" where
  "intf_do E (Open_camera idx memory D) = do { _ \<leftarrow> camera_open D idx memory; done_with True }"
| "intf_do E (Op_close_camera cam) = returned (mm_camera_intf_close E cam)"
| "intf_do E (Op_query_capability cam) = returned (mm_camera_intf_query_capability E cam)"
| "intf_do E (Op_set_parms cam p) = returned (mm_camera_intf_set_parms E cam p)"
| "intf_do E (Op_get_parms cam p) = returned (mm_camera_intf_get_parms E cam p)"
| "intf_do E (Op_do_auto_focus cam) = returned (mm_camera_intf_do_auto_focus E cam)"
| "intf_do E (Op_cancel_auto_focus cam) = returned (mm_camera_intf_cancel_auto_focus E cam)"
| "intf_do E (Op_prepare_snapshot cam) = returned (mm_camera_intf_prepare_snapshot E cam)"
| "intf_do E (Op_start_zsl_snapshot cam h) = returned (mm_camera_intf_start_zsl_snapshot E cam h)"
| "intf_do E (Op_stop_zsl_snapshot cam h) = returned (mm_camera_intf_stop_zsl_snapshot E cam h)"
| "intf_do E (Op_map_buf cam) = returned (mm_camera_intf_map_buf E cam)"
| "intf_do E (Op_map_bufs cam) = returned (mm_camera_intf_map_bufs E cam)"
| "intf_do E (Op_unmap_buf cam) = returned (mm_camera_intf_unmap_buf E cam)"
| "intf_do E (Op_add_channel cam a b) = returned (mm_camera_intf_add_channel cam a b)"
| "intf_do E (Op_delete_channel cam h) = returned (mm_camera_intf_del_channel E cam h)"
| "intf_do E (Op_get_bundle_info cam h) = returned (mm_camera_intf_get_bundle_info E cam h)"
| "intf_do E (Op_add_stream cam h) = returned (mm_camera_intf_add_stream E cam h)"
| "intf_do E (Op_link_stream cam h sid l) = returned (mm_camera_intf_link_stream E cam h sid l)"
| "intf_do E (Op_delete_stream cam h sid) = returned (mm_camera_intf_del_stream E cam h sid)"
| "intf_do E (Op_config_stream cam h sid c) = returned (mm_camera_intf_config_stream E cam h sid c)"
| "intf_do E (Op_qbuf cam h sid i b) = returned (mm_camera_intf_qbuf E cam h sid i b)"
| "intf_do E (Op_cancel_buffer cam h sid i) = returned (mm_camera_intf_cancel_buf E cam h sid i)"
| "intf_do E (Op_get_queued_buf_count cam h sid) = returned (mm_camera_intf_get_queued_buf_count E cam h sid)"
| "intf_do E (Op_map_stream_buf cam h sid ty i) = returned (mm_camera_intf_map_stream_buf E cam h sid ty i)"
| "intf_do E (Op_map_stream_bufs cam h sid ty n) = returned (mm_camera_intf_map_stream_bufs E cam h sid ty n)"
| "intf_do E (Op_unmap_stream_buf cam h sid ty i) = returned (mm_camera_intf_unmap_stream_buf E cam h sid ty i)"
| "intf_do E (Op_set_stream_parms cam h sid p) = returned (mm_camera_intf_set_stream_parms E cam h sid p)"
| "intf_do E (Op_get_stream_parms cam h sid p) = returned (mm_camera_intf_get_stream_parms E cam h sid p)"
| "intf_do E (Op_start_channel cam h) = returned (mm_camera_intf_start_channel E cam h)"
| "intf_do E (Op_stop_channel cam h) = returned (mm_camera_intf_stop_channel E cam h)"
| "intf_do E (Op_request_super_buf cam h r) = returned (mm_camera_intf_request_super_buf E cam h r)"
| "intf_do E (Op_cancel_super_buf_request cam h) = returned (mm_camera_intf_cancel_super_buf_request E cam h)"
| "intf_do E (Op_flush_super_buf_queue cam h f) = returned (mm_camera_intf_flush_super_buf_queue E cam h f)"
| "intf_do E (Op_configure_notify_mode cam h m) = returned (mm_camera_intf_configure_notify_mode E cam h m)"
| "intf_do E (Op_process_advanced_capture cam h ty b f) = returned (mm_camera_intf_process_advanced_capture E cam h ty b f)"
| "intf_do E (Op_get_session_id cam) = returned (mm_camera_intf_get_session_id cam)"
| "intf_do E (Op_sync_related_sensors cam p) = returned (mm_camera_intf_sync_related_sensors E cam p)"
| "intf_do E (Op_flush cam) = returned (mm_camera_intf_flush E cam)"
| "intf_do E (Op_register_stream_buf_cb cam h sid f b) = returned (mm_camera_intf_register_stream_buf_cb E cam h sid f b)"
| "intf_do E (Op_register_event_notify cam f u) = returned (mm_camera_intf_register_event_notify cam f u)"

fun intf_run :: "cam_env \<Rightarrow> intf_request list \<Rightarrow> cams \<Rightarrow> bool list \<times> cams" where
  "intf_run E [] w = ([], w)"
| "intf_run E (r # rs) w = (case run_state (intf_do E r) w of (b, v) \<Rightarrow>
     case intf_run E rs v of (bs, u) \<Rightarrow> (b # bs, u))"

text \<open>Buffers are cancelled for channels that exist only.\<close>

fun known :: "intf_request \<Rightarrow> cams \<Rightarrow> bool" where
  "known (Op_cancel_buffer cam h sid i) w \<longleftrightarrow>
     (case mm_camera_util_get_camera_by_handler cam w of
        None \<Rightarrow> True
      | Some k \<Rightarrow> mm_camera_util_get_channel_by_handler k h w \<noteq> None)"
| "known r w \<longleftrightarrow> True"

fun known_run :: "cam_env \<Rightarrow> intf_request list \<Rightarrow> cams \<Rightarrow> bool" where
  "known_run E [] w \<longleftrightarrow> True"
| "known_run E (r # rs) w \<longleftrightarrow> known r w \<and> known_run E rs (snd (run_state (intf_do E r) w))"

text \<open>At most \<open>m\<close> cameras fit the table, \<open>n\<close> were found, none has been opened.\<close>

definition no_cameras :: "nat \<Rightarrow> nat \<Rightarrow> cams" where
  "no_cameras m n = \<lparr>store = no_channels, objs = [], cam_objs = replicate m None, num_cam = n, g_intf_lock = False\<rparr>"

section \<open>Every call gets its locks\<close>

lemma returned_intf_call:
  assumes "cams_ok w"
    and "\<And>k v. mm_camera_util_get_camera_by_handler h w = Some k \<Longrightarrow>
      v = upd_obj k (\<lambda>x. x\<lparr>cam_lock := True\<rparr>) w \<Longrightarrow> releases k (f k) v"
  shows "fst (run_state (returned (intf_call h none f)) w) \<and> cams_ok (snd (run_state (returned (intf_call h none f)) w))"
  using intf_call_ok [where none = none, OF assms] cams_ok_tlocks [OF _ assms(1)]
  by (simp add: returned_def case_prod_beta)

lemmas intf_functions =
  mm_camera_intf_query_capability_def  mm_camera_intf_set_parms_def
  mm_camera_intf_get_parms_def  mm_camera_intf_do_auto_focus_def
  mm_camera_intf_cancel_auto_focus_def  mm_camera_intf_prepare_snapshot_def
  mm_camera_intf_start_zsl_snapshot_def  mm_camera_intf_stop_zsl_snapshot_def
  mm_camera_intf_map_buf_def  mm_camera_intf_map_bufs_def
  mm_camera_intf_unmap_buf_def  mm_camera_intf_add_channel_def
  mm_camera_intf_del_channel_def  mm_camera_intf_get_bundle_info_def
  mm_camera_intf_add_stream_def  mm_camera_intf_link_stream_def
  mm_camera_intf_del_stream_def  mm_camera_intf_config_stream_def
  mm_camera_intf_qbuf_def  mm_camera_intf_cancel_buf_def
  mm_camera_intf_get_queued_buf_count_def  mm_camera_intf_map_stream_buf_def
  mm_camera_intf_map_stream_bufs_def  mm_camera_intf_unmap_stream_buf_def
  mm_camera_intf_set_stream_parms_def  mm_camera_intf_get_stream_parms_def
  mm_camera_intf_start_channel_def  mm_camera_intf_stop_channel_def
  mm_camera_intf_request_super_buf_def  mm_camera_intf_cancel_super_buf_request_def
  mm_camera_intf_flush_super_buf_queue_def  mm_camera_intf_configure_notify_mode_def
  mm_camera_intf_process_advanced_capture_def  mm_camera_intf_get_session_id_def
  mm_camera_intf_sync_related_sensors_def  mm_camera_intf_flush_def
  mm_camera_intf_register_stream_buf_cb_def  mm_camera_intf_register_event_notify_def

lemma known_cancel:
  assumes "known (Op_cancel_buffer cam h sid i) w" "mm_camera_util_get_camera_by_handler cam w = Some k"
    "v = upd_obj k f w"
  shows "releases k (mm_camera_cancel_buf E k h sid i) v"
  by (rule releases_cancel)
     (use assms in \<open>simp add: mm_camera_util_get_channel_by_handler_def upd_obj_def\<close>)

lemma intf_do_ok:
  assumes "cams_ok w" "known r w"
  shows "fst (run_state (intf_do E r) w) \<and> cams_ok (snd (run_state (intf_do E r) w))"
proof (cases r)
  case (Open_camera idx memory D)
  with open_ok(1) [OF assms(1)] show ?thesis
    by (simp add: case_prod_beta) (metis prod.collapse)
next
  case (Op_close_camera cam)
  with close_ok [OF assms(1)] show ?thesis
    by (simp add: returned_def case_prod_beta)
next
  case (Op_cancel_buffer cam h sid i)
  have "releases k (mm_camera_cancel_buf E k h sid i) v"
    if "mm_camera_util_get_camera_by_handler cam w = Some k" "v = upd_obj k (\<lambda>x. x\<lparr>cam_lock := True\<rparr>) w" for k v
    using known_cancel [OF _ that] assms(2) Op_cancel_buffer by simp
  from returned_intf_call [OF assms(1) this] Op_cancel_buffer show ?thesis
    by (simp add: mm_camera_intf_cancel_buf_def)
qed (simp_all only: intf_do.simps intf_functions channel_functions,
  (rule returned_intf_call [OF assms(1)],
    rule releases_channel_call releases_camera releases_link releases_add releases_then_unlock, (rule keeps_intros)?)+)

end
