(* ===== verification/ChannelFrame.thy ===== *)
theory ChannelFrame
  imports ChannelFsm
begin

text \<open>
  What the operations of a channel change of the outline of the store: the states of the channels, and of every
  stream its state, its handle and the channel it belongs to.  The locale \<open>stream_contract\<close> is what a channel
  relies on of a stream; it is interpreted on the state machine of a stream and on a stream in the store.
\<close>

section \<open>The contract of a stream\<close>

locale stream_contract =
  fixes fsm :: "mm_stream_evt_type \<Rightarrow> ('s, int32) state"
    and st :: "'s \<Rightarrow> mm_stream_state_type"
    and there :: "'s \<Rightarrow> bool"
  assumes stays: "there s \<Longrightarrow> there (snd (run_state (fsm e) s))"
    and edge: "there s \<Longrightarrow> st (snd (run_state (fsm e) s)) = stream_edge (st s) e (fst (run_state (fsm e) s))"
begin

lemma bring_up_there: "there s \<Longrightarrow> there (snd (run_state (bring_up fsm) s))"
  by (simp add: bring_up_def case_prod_beta stays)

lemma bring_up_state:
  assumes "there s" and "st s = MM_STREAM_STATE_CFG"
  shows "st (snd (run_state (bring_up fsm) s)) \<in>
    (if fst (run_state (bring_up fsm) s) = 0 then {MM_STREAM_STATE_ACTIVE}
     else {MM_STREAM_STATE_CFG, MM_STREAM_STATE_BUFFED, MM_STREAM_STATE_REG})"
  using assms by (simp add: bring_up_def case_prod_beta stays edge stream_edge_def)

lemma take_down_there:
  "there s \<Longrightarrow> there (snd (run_state (stop_unreg fsm) s))" "there s \<Longrightarrow> there (snd (run_state (put_back fsm) s))"
  "there s \<Longrightarrow> there (snd (run_state (take_down fsm) s))"
  by (simp_all add: take_down_def stop_unreg_def put_back_def case_prod_beta stays)

lemma stop_unreg_state:
  "there s \<Longrightarrow> st s \<in> {MM_STREAM_STATE_BUFFED, MM_STREAM_STATE_REG, MM_STREAM_STATE_ACTIVE}
    \<Longrightarrow> st (snd (run_state (stop_unreg fsm) s)) = MM_STREAM_STATE_BUFFED"
  "there s \<Longrightarrow> st s = MM_STREAM_STATE_CFG \<Longrightarrow> st (snd (run_state (stop_unreg fsm) s)) = MM_STREAM_STATE_CFG"
  by (auto simp: stop_unreg_def case_prod_beta stays edge stream_edge_def)

lemma put_back_state:
  "there s \<Longrightarrow> st s \<in> {MM_STREAM_STATE_CFG, MM_STREAM_STATE_BUFFED}
    \<Longrightarrow> st (snd (run_state (put_back fsm) s)) = MM_STREAM_STATE_CFG"
  by (auto simp: put_back_def case_prod_beta stays edge stream_edge_def)

lemma take_down_state:
  "there s \<Longrightarrow> st s \<in> {MM_STREAM_STATE_CFG, MM_STREAM_STATE_BUFFED, MM_STREAM_STATE_REG, MM_STREAM_STATE_ACTIVE}
    \<Longrightarrow> st (snd (run_state (take_down fsm) s)) = MM_STREAM_STATE_CFG"
  by (cases "st s = MM_STREAM_STATE_CFG")
    (simp_all add: take_down_def case_prod_beta put_back_state stop_unreg_state take_down_there)

end

interpretation st: stream_contract "mm_stream_fsm_fn P E" st_state "\<lambda>_. True" for P E
  by unfold_locales (simp_all add: stream_edges_exact)

section \<open>The store\<close>

lemma upd_slot_simps [simp]:
  "slot q j (upd_slot p i f s) = (if q = p \<and> j = i \<and> i < length (slots (chs s p)) then f (slot p i s) else slot q j s)"
  "length (slots (chs (upd_slot p i f s) q)) = length (slots (chs s q))"
  "ch_state (chs (upd_slot p i f s) q) = ch_state (chs s q)"
  "cworld (upd_slot p i f s) = cworld s" "broken (upd_slot p i f s) = broken s"
  "g_handler_history_count (upd_slot p i f s) = g_handler_history_count s"
  "cmd_on (chs (upd_slot p i f s) q) = cmd_on (chs s q)" "bundle_active (chs (upd_slot p i f s) q) = bundle_active (chs s q)"
  by (auto simp: upd_slot_def upd_chan_def slot_def nth_list_update list_update_beyond)

lemma run_on_stream [simp]:
  "run_state (on_stream p i m) s = (fst (run_state m (stream p i s)),
     upd_slot p i (\<lambda>x. x\<lparr>sl_obj := snd (run_state m (stream p i s))\<rparr>) s)"
  by (simp add: on_stream_def case_prod_beta)

lemma run_alloc_frame:
  "chs (snd (run_state alloc s)) = chs s"
  "g_handler_history_count (snd (run_state alloc s)) = g_handler_history_count s"
  "broken (snd (run_state alloc s)) = broken s"
  by (simp_all add: alloc_def case_prod_beta)

section \<open>The outline\<close>

definition chan_mark :: "chan_slot \<Rightarrow> mm_stream_state_type \<times> ptr \<times> uint32" where
  "chan_mark x = (st_state (sl_obj x), sl_ch x, my_hdl (sl_obj x))"

definition outline where
  "outline s = (\<lambda>p. (ch_state (chs s p), map chan_mark (slots (chs s p))), g_handler_history_count s)"

lemma outline_eqI:
  "chs t = chs s \<Longrightarrow> g_handler_history_count t = g_handler_history_count s \<Longrightarrow> outline t = outline s"
  by (simp add: outline_def)

lemma outlineD:
  assumes "outline t = outline s"
  shows "ch_state (chs t p) = ch_state (chs s p)" "length (slots (chs t p)) = length (slots (chs s p))"
    "g_handler_history_count t = g_handler_history_count s"
    "i < length (slots (chs s p)) \<Longrightarrow> chan_mark (slot p i t) = chan_mark (slot p i s)"
proof -
  have e: "ch_state (chs t p) = ch_state (chs s p)" "map chan_mark (slots (chs t p)) = map chan_mark (slots (chs s p))"
    "g_handler_history_count t = g_handler_history_count s"
    using assms by (auto simp: outline_def fun_eq_iff)
  show "ch_state (chs t p) = ch_state (chs s p)" "g_handler_history_count t = g_handler_history_count s"
    by (fact e)+
  show l: "length (slots (chs t p)) = length (slots (chs s p))"
    using e(2) by (rule map_eq_imp_length_eq)
  show "chan_mark (slot p i t) = chan_mark (slot p i s)" if "i < length (slots (chs s p))"
    using that e(2) l by (metis nth_map slot_def)
qed

lemma outline_upd_slot:
  "(i < length (slots (chs s p)) \<Longrightarrow> chan_mark (f (slot p i s)) = chan_mark (slot p i s))
     \<Longrightarrow> outline (upd_slot p i f s) = outline s"
proof -
  assume m: "i < length (slots (chs s p)) \<Longrightarrow> chan_mark (f (slot p i s)) = chan_mark (slot p i s)"
  have "map chan_mark ((slots (chs s p))[i := f (slots (chs s p) ! i)]) = map chan_mark (slots (chs s p))"
    by (cases "i < length (slots (chs s p))")
      (use m in \<open>simp_all add: map_update list_update_beyond slot_def list_update_same_conv\<close>)
  then show ?thesis
    by (auto simp: outline_def upd_slot_def upd_chan_def)
qed

lemma outline_upd_chan:
  "ch_state (f (chs s p)) = ch_state (chs s p) \<Longrightarrow> slots (f (chs s p)) = slots (chs s p)
     \<Longrightarrow> outline (upd_chan p f s) = outline s"
  by (auto simp: outline_def upd_chan_def)

lemma outline_upd_path [simp]: "outline (upd_path p f s) = outline s"
  by (simp add: outline_def upd_path_def)

lemma keeps_outline_modify [keeps_intros]:
  "(\<And>x. chan_mark (f x) = chan_mark x) \<Longrightarrow> keeps outline (modify (upd_slot p i f))"
  "(\<And>c. ch_state (g c) = ch_state c) \<Longrightarrow> (\<And>c. slots (g c) = slots c) \<Longrightarrow> keeps outline (modify (upd_chan p g))"
  "keeps outline (modify (upd_path p h))"
  "keeps outline breaks" "keeps outline alloc" "keeps outline (check_info p is)" "keeps outline (on_sync k)"
proof -
  show "keeps outline (modify (upd_slot p i f))" if "\<And>x. chan_mark (f x) = chan_mark x"
    using that by (simp add: keeps_def outline_upd_slot)
  show "keeps outline (modify (upd_chan p g))" if "\<And>c. ch_state (g c) = ch_state c" "\<And>c. slots (g c) = slots c"
    using that by (simp add: keeps_def outline_upd_chan)
  show "keeps outline (modify (upd_path p h))"
    by (simp add: keeps_def)
  show b: "keeps outline breaks"
    by (simp add: keeps_def breaks_def outline_def)
  show "keeps outline alloc"
    unfolding keeps_def by (intro allI outline_eqI run_alloc_frame)
  show "keeps outline (check_info p is)"
    unfolding check_info_def by (intro keeps_intros b)
  show "keeps outline (on_sync k)"
    by (simp add: keeps_def on_sync_def outline_def)
qed

lemma keeps_on_stream:
  "keeps st_state m \<Longrightarrow> keeps my_hdl m \<Longrightarrow> keeps outline (on_stream p i m)"
  by (simp add: keeps_def outline_upd_slot chan_mark_def stream_def)

text \<open>Events that do not change the state of any stream.\<close>

definition calm :: "mm_stream_evt_type \<Rightarrow> bool" where
  "calm e \<longleftrightarrow> e \<noteq> MM_STREAM_EVT_RELEASE \<and> (\<forall>st rc. stream_edge st e rc = st)"

lemma calm_events [simp]:
  "calm (MM_STREAM_EVT_QBUF i c)" "calm (MM_STREAM_EVT_CANCEL_BUF w)" "calm MM_STREAM_EVT_GET_QUEUED_BUF_COUNT"
  "calm (MM_STREAM_EVT_SET_PARM v)" "calm (MM_STREAM_EVT_GET_PARM v)" "calm (MM_STREAM_EVT_DO_ACTION v)"
  by (simp_all add: calm_def stream_edge_def split: mm_stream_state_type.split)

lemma keeps_calm [keeps_intros]: "calm e \<Longrightarrow> keeps outline (stream_fsm P E qj e)"
  unfolding stream_fsm_def
  by (rule keeps_on_stream) (simp_all add: keeps_def stream_edges_exact fsm_hdl calm_def)

lemma keeps_case_option [keeps_intros]:
  "(\<And>a b. x = (Some a, Some b) \<Longrightarrow> keeps f (g a b)) \<Longrightarrow> keeps f m
    \<Longrightarrow> keeps f (case x of (Some a, Some b) \<Rightarrow> g a b | _ \<Rightarrow> m)"
  by (simp split: prod.split option.split)

lemma keeps_find [keeps_intros]:
  "(\<And>i. keeps f (g i)) \<Longrightarrow> keeps f (own_stream p h g)"
  "keeps f breaks \<Longrightarrow> (\<And>qj. keeps f (k qj)) \<Longrightarrow> keeps f (any_stream p h k)"
  unfolding own_stream_def any_stream_def by (intro keeps_intros; simp)+

section \<open>Operations that keep the outline\<close>

lemma keeps_set_user [keeps_intros]: "keeps outline (set_user u p i)"
  unfolding set_user_def by (intro keeps_intros; simp add: chan_mark_def)

lemma keeps_give_back [keeps_intros]:
  "keeps outline (give_back P E p bs)" "keeps outline (give_back_all P E ps)"
proof -
  show b: "keeps outline (give_back P E p bs)" for p bs
    by (induction bs) (simp_all only: give_back.simps, (intro keeps_intros; simp)+)
  show "keeps outline (give_back_all P E ps)"
    by (induction ps) (auto intro!: keeps_intros b)
qed

lemma keeps_run_cmd [keeps_intros]: "keeps outline (run_cmd P E p cmd)"
  unfolding run_cmd_def by (intro keeps_intros; simp add: outline_def)

lemma keeps_run_cmds [keeps_intros]: "keeps outline (run_cmds P E p cs)"
  by (induction cs) (simp_all add: keeps_intros)

lemma keeps_thread [keeps_intros]:
  "keeps outline (catch_up P E p cs)" "keeps outline (post p cmd)"
  "keeps outline (mm_channel_flush_super_buf_queue P E p frame t)"
  "keeps outline (launch_threads p)" "keeps outline (release_threads P E p)" "keeps outline (end_bundle P E p f)"
  unfolding catch_up_def post_def mm_channel_flush_super_buf_queue_def launch_threads_def release_threads_def
    end_bundle_def
  by (intro keeps_intros; simp)+

lemma keeps_commands [keeps_intros]:
  "keeps outline (mm_channel_request_super_buf p r)" "keeps outline (mm_channel_cancel_super_buf_request p)"
  "keeps outline (mm_channel_config_notify_mode p m)" "keeps outline (mm_channel_start_zsl_snapshot p)"
  "keeps outline (mm_channel_stop_zsl_snapshot p)" "keeps outline (mm_channel_proc_general_cmd p ty w c)"
  unfolding mm_channel_request_super_buf_def mm_channel_cancel_super_buf_request_def mm_channel_config_notify_mode_def
    mm_channel_start_zsl_snapshot_def mm_channel_stop_zsl_snapshot_def mm_channel_proc_general_cmd_def
  by (intro keeps_intros; simp)+

lemma skel_parts: "keeps (skel E) m \<Longrightarrow> keeps st_state m" "keeps (skel E) m \<Longrightarrow> keeps my_hdl m"
  by (simp_all add: keeps_def skel_def)

lemma keeps_mapping:
  "keeps (skel E) (mm_stream_map_buf E ty k)" "keeps (skel E) (mm_stream_map_bufs E ty n)"
  "keeps (skel E) (mm_stream_unmap_buf E k)"
  unfolding mm_stream_map_buf_def mm_stream_map_bufs_def mm_stream_unmap_buf_def signal_mapped_def
  by (intro keeps_intros; simp add: skel_def open_fds_def buf_sets_def)+

lemma keeps_stream_ops [keeps_intros]:
  "keeps outline (mm_channel_set_stream_parm P E p h v)" "keeps outline (mm_channel_get_stream_parm P E p h v)"
  "keeps outline (mm_channel_do_stream_action P E p h v)" "keeps outline (channel_qbuf P E p h k c)"
  "keeps outline (mm_channel_cancel_buf P E p h w)" "keeps outline (mm_channel_get_queued_buf_count P E p h)"
  "keeps outline (mm_channel_map_stream_buf E p h ty k)" "keeps outline (mm_channel_map_stream_bufs E p h ty n)"
  "keeps outline (mm_channel_unmap_stream_buf E p h k)" "keeps outline (mm_channel_reg_stream_buf_cb p h v')"
  "keeps outline (mm_channel_get_bundle_info p)"
  unfolding mm_channel_set_stream_parm_def mm_channel_get_stream_parm_def mm_channel_do_stream_action_def
    channel_qbuf_def mm_channel_cancel_buf_def mm_channel_get_queued_buf_count_def mm_channel_map_stream_buf_def
    mm_channel_map_stream_bufs_def mm_channel_unmap_stream_buf_def mm_channel_reg_stream_buf_cb_def
    mm_channel_get_bundle_info_def
  by (intro keeps_intros keeps_on_stream skel_parts [OF keeps_mapping(1)] skel_parts [OF keeps_mapping(2)]
      skel_parts [OF keeps_mapping(3)] skel_parts [OF keeps_data_notify(3)]; simp)+

lemma keeps_bundle [keeps_intros]:
  "keeps outline (mark_bundled p is)" "keeps outline (set_users u p is)"
proof -
  show "keeps outline (mark_bundled p is)"
    by (induction "is") (simp_all, (intro keeps_intros keeps_on_stream; simp)+)
  show "keeps outline (set_users u p is)"
    by (induction "is") (simp_all, (intro keeps_intros; simp)+)
qed

lemma keeps_start_bundle [keeps_intros]: "keeps outline (start_bundle p is)"
  unfolding start_bundle_def by (intro keeps_intros; simp)

end
