(* ===== verification/ChannelStart.thy ===== *)
theory ChannelStart
  imports ChannelFrame
begin

text \<open>
  Starting and stopping a channel, by the states of its streams: a start brings all of the channel's own
  streams up or leaves them as they were, a stop takes all of them down.
\<close>

section \<open>Operations on some streams of a channel\<close>

abbreviation state_of :: "ptr \<Rightarrow> nat \<Rightarrow> channels \<Rightarrow> mm_stream_state_type" where
  "state_of p i s \<equiv> st_state (stream p i s)"

definition in_array :: "ptr \<Rightarrow> nat \<Rightarrow> channels \<Rightarrow> bool" where
  "in_array p i s \<longleftrightarrow> i < length (slots (chs s p))"

text \<open>Only the states of the streams of \<open>A\<close> change.\<close>

definition only :: "ptr \<Rightarrow> nat set \<Rightarrow> channels \<Rightarrow> channels \<Rightarrow> bool" where
  "only p A s t \<longleftrightarrow>
     g_handler_history_count t = g_handler_history_count s
     \<and> (\<forall>q. ch_state (chs t q) = ch_state (chs s q) \<and> length (slots (chs t q)) = length (slots (chs s q))
         \<and> (\<forall>j < length (slots (chs s q)). sl_ch (slot q j t) = sl_ch (slot q j s)
             \<and> my_hdl (stream q j t) = my_hdl (stream q j s)
             \<and> (\<not> (q = p \<and> j \<in> A) \<longrightarrow> state_of q j t = state_of q j s)))"

lemma only_outline: "outline t = outline s \<Longrightarrow> only p A s t"
proof -
  assume o: "outline t = outline s"
  have "sl_ch (slot q j t) = sl_ch (slot q j s) \<and> my_hdl (stream q j t) = my_hdl (stream q j s)
      \<and> state_of q j t = state_of q j s" if "j < length (slots (chs s q))" for q j
    using outlineD(4) [OF o that] by (simp add: chan_mark_def stream_def)
  then show ?thesis
    by (simp add: only_def outlineD(1-3) [OF o])
qed

lemma only_keeps: "keeps outline m \<Longrightarrow> only p A s (snd (run_state m s))"
  by (simp add: keeps_def only_outline)

lemma only_refl [simp]: "only p A s s"
  by (simp add: only_def)

lemma only_trans: "only p A s t \<Longrightarrow> only p B t u \<Longrightarrow> only p (A \<union> B) s u"
  unfolding only_def by simp

lemma only_step: "only p A s t \<Longrightarrow> only p A t u \<Longrightarrow> only p A s u"
  using only_trans [of p A s t A u] by simp

lemma only_mono: "only p A s t \<Longrightarrow> A \<subseteq> B \<Longrightarrow> only p B s t"
  unfolding only_def by blast

lemma onlyD:
  assumes "only p A s t"
  shows "in_array q j t = in_array q j s" "ch_state (chs t q) = ch_state (chs s q)"
    "in_array q j s \<Longrightarrow> owns q j t = owns q j s" "in_array q j s \<Longrightarrow> sl_ch (slot q j t) = sl_ch (slot q j s)"
    "in_array q j s \<Longrightarrow> my_hdl (stream q j t) = my_hdl (stream q j s)"
    "in_array q j s \<Longrightarrow> \<not> (q = p \<and> j \<in> A) \<Longrightarrow> state_of q j t = state_of q j s"
    "g_handler_history_count t = g_handler_history_count s"
  using assms by (auto simp: only_def in_array_def owns_def)

lemma fsm_only:
  assumes "e \<noteq> MM_STREAM_EVT_RELEASE"
  shows "only p {i} s (snd (run_state (stream_fsm P E (p, i) e) s))"
proof -
  have "my_hdl (snd (run_state (mm_stream_fsm_fn P (E p i) e) t)) = my_hdl t" for t
    using assms by (simp add: fsm_hdl)
  then show ?thesis
    by (auto simp: only_def stream_fsm_def stream_def)
qed

interpretation stored: stream_contract "stream_fsm P E (p, i)" "state_of p i" "in_array p i" for P E p i
  by unfold_locales (simp_all add: in_array_def stream_fsm_def stream_def stream_edges_exact)

lemma fsm_run_only:
  "only p {i} s (snd (run_state (bring_up (stream_fsm P E (p, i))) s))"
  "only p {i} s (snd (run_state (stop_unreg (stream_fsm P E (p, i))) s))"
  "only p {i} s (snd (run_state (put_back (stream_fsm P E (p, i))) s))"
  "only p {i} s (snd (run_state (take_down (stream_fsm P E (p, i))) s))"
proof -
  note f = fsm_only [of _ p i _ P E]
  show u: "only p {i} s (snd (run_state (bring_up (stream_fsm P E (p, i))) s))"
    using only_step [OF f f] only_step [OF only_step [OF f f] f] f by (simp add: bring_up_def case_prod_beta)
  show s: "only p {i} s (snd (run_state (stop_unreg (stream_fsm P E (p, i))) s))" for s
    using only_step [OF f f] by (simp add: stop_unreg_def case_prod_beta)
  show b: "only p {i} s (snd (run_state (put_back (stream_fsm P E (p, i))) s))" for s
    using f by (simp add: put_back_def case_prod_beta)
  show "only p {i} s (snd (run_state (take_down (stream_fsm P E (p, i))) s))"
    using only_step [OF s b] by (simp add: take_down_def case_prod_beta)
qed

section \<open>An operation on each own stream\<close>

definition own_of :: "ptr \<Rightarrow> nat list \<Rightarrow> channels \<Rightarrow> nat set" where
  "own_of p is s = {i \<in> set is. owns p i s}"

lemma own_of_only:
  assumes "only p A s t" "\<forall>j \<in> set js. in_array p j s"
  shows "own_of p js t = own_of p js s"
    and "A \<inter> own_of p js s = {} \<Longrightarrow> j \<in> own_of p js s \<Longrightarrow> state_of p j t = state_of p j s"
proof -
  show "own_of p js t = own_of p js s"
    using assms(2) onlyD(3) [OF assms(1)] by (auto simp: own_of_def)
  show "state_of p j t = state_of p j s" if "A \<inter> own_of p js s = {}" "j \<in> own_of p js s"
    using that assms(2) by (intro onlyD(6) [OF assms(1)]) (auto simp: own_of_def)
qed

lemma each_own:
  assumes only: "\<And>i s. only p {i} s (snd (run_state (f i) s))"
    and leads: "\<And>i s. in_array p i s \<Longrightarrow> state_of p i s \<in> A \<Longrightarrow> state_of p i (snd (run_state (f i) s)) \<in> B"
    and "distinct is" "\<forall>i \<in> set is. in_array p i s" "\<forall>i \<in> own_of p is s. state_of p i s \<in> A"
  shows "only p (own_of p is s) s (snd (run_state (each_own f p is) s))
    \<and> (\<forall>i \<in> own_of p is s. state_of p i (snd (run_state (each_own f p is) s)) \<in> B)"
  using assms(3-5)
proof (induction "is" arbitrary: s)
  case Nil
  then show ?case
    by (simp add: own_of_def)
next
  case (Cons i js)
  show ?case
  proof (cases "owns p i s")
    case True
    define t where "t = snd (run_state (f i) s)"
    have o: "only p {i} s t"
      using only by (simp add: t_def)
    have i: "in_array p i s" "state_of p i s \<in> A"
      using Cons.prems(2,3) True by (auto simp: own_of_def)
    have own: "own_of p js t = own_of p js s" "own_of p (i # js) s = insert i (own_of p js s)"
      using Cons.prems(2) True onlyD(3) [OF o] by (auto simp: own_of_def)
    have "i \<notin> own_of p js s"
      using Cons.prems(1) by (auto simp: own_of_def)
    then have "\<forall>j \<in> own_of p js t. state_of p j t \<in> A"
      using Cons.prems(2,3) own own_of_only(2) [OF o, of js] by simp
    then have IH: "only p (own_of p js s) t (snd (run_state (each_own f p js) t))"
      "\<forall>j \<in> own_of p js s. state_of p j (snd (run_state (each_own f p js) t)) \<in> B"
      using Cons.IH [of t] Cons.prems(1,2) own onlyD(1) [OF o] by auto
    have "i \<notin> own_of p js s"
      using Cons.prems(1) by (auto simp: own_of_def)
    then have "state_of p i (snd (run_state (each_own f p js) t)) \<in> B"
      using leads [OF i] onlyD(6) [OF IH(1)] onlyD(1) [OF o] i(1) by (simp add: t_def)
    with IH(2) only_trans [OF o IH(1)] own(2) True show ?thesis
      by (simp add: t_def case_prod_beta)
  next
    case False
    then have "own_of p (i # js) s = own_of p js s"
      by (auto simp: own_of_def)
    with Cons.IH [of s] Cons.prems False show ?thesis
      by (simp add: case_prod_beta)
  qed
qed

section \<open>Starting the streams\<close>

lemma start_streams:
  assumes "distinct is" "\<forall>i \<in> set is. in_array p i s" "\<forall>i \<in> own_of p is s. state_of p i s = MM_STREAM_STATE_CFG"
    and "run_state (start_streams P E p is k) s = ((rc, n), t)"
  shows "only p (own_of p is s) s t
    \<and> (rc = 0 \<longrightarrow> (\<forall>i \<in> own_of p is s. state_of p i t = MM_STREAM_STATE_ACTIVE))
    \<and> (rc \<noteq> 0 \<longrightarrow> k \<le> n \<and> n - k < length is
        \<and> (\<forall>i \<in> own_of p (take (n - k + 1) is) s. state_of p i t \<in>
             {MM_STREAM_STATE_CFG, MM_STREAM_STATE_BUFFED, MM_STREAM_STATE_REG, MM_STREAM_STATE_ACTIVE})
        \<and> (\<forall>i \<in> own_of p (drop (n - k + 1) is) s. state_of p i t = MM_STREAM_STATE_CFG))"
  using assms
proof (induction "is" arbitrary: s k)
  case Nil
  then show ?case
    by (simp add: own_of_def)
next
  case (Cons i js)
  show ?case
  proof (cases "owns p i s")
    case False
    have own: "own_of p (i # js) s = own_of p js s"
      using False by (auto simp: own_of_def)
    have r: "run_state (start_streams P E p js (k + 1)) s = ((rc, n), t)"
      using Cons.prems(4) False by simp
    have IH: "only p (own_of p js s) s t"
      "rc = 0 \<longrightarrow> (\<forall>i \<in> own_of p js s. state_of p i t = MM_STREAM_STATE_ACTIVE)"
      "rc \<noteq> 0 \<longrightarrow> k + 1 \<le> n \<and> n - (k + 1) < length js
        \<and> (\<forall>i \<in> own_of p (take (n - (k + 1) + 1) js) s. state_of p i t \<in>
             {MM_STREAM_STATE_CFG, MM_STREAM_STATE_BUFFED, MM_STREAM_STATE_REG, MM_STREAM_STATE_ACTIVE})
        \<and> (\<forall>i \<in> own_of p (drop (n - (k + 1) + 1) js) s. state_of p i t = MM_STREAM_STATE_CFG)"
      using Cons.IH [OF _ _ _ r] Cons.prems(1-3) own by auto
    have "own_of p (take (n - k + 1) (i # js)) s = own_of p (take (n - (k + 1) + 1) js) s"
      "own_of p (drop (n - k + 1) (i # js)) s = own_of p (drop (n - (k + 1) + 1) js) s" if "k + 1 \<le> n"
    proof -
      have "n - k = Suc (n - (k + 1))"
        using that by simp
      then show "own_of p (take (n - k + 1) (i # js)) s = own_of p (take (n - (k + 1) + 1) js) s"
        "own_of p (drop (n - k + 1) (i # js)) s = own_of p (drop (n - (k + 1) + 1) js) s"
        using False by (auto simp: own_of_def)
    qed
    with IH own show ?thesis
      by auto
  next
    case True
    define m where "m = run_state (bring_up (stream_fsm P E (p, i))) s"
    obtain rc1 u where m: "m = (rc1, u)"
      by (cases m)
    have ar: "in_array p i s" and cfg: "state_of p i s = MM_STREAM_STATE_CFG"
      using Cons.prems(2,3) True by (auto simp: own_of_def)
    have o: "only p {i} s u"
      using fsm_run_only(1) [of p i s P E] m by (simp add: m_def)
    have up: "state_of p i u \<in> (if rc1 = 0 then {MM_STREAM_STATE_ACTIVE}
        else {MM_STREAM_STATE_CFG, MM_STREAM_STATE_BUFFED, MM_STREAM_STATE_REG})"
      using stored.bring_up_state [OF ar cfg, of P E] m by (simp add: m_def)
    have own: "own_of p (i # js) s = insert i (own_of p js s)" "own_of p js u = own_of p js s" "i \<notin> own_of p js s"
      using True Cons.prems(1,2) onlyD(3) [OF o] by (auto simp: own_of_def)
    have rest: "\<forall>j \<in> own_of p js s. state_of p j u = MM_STREAM_STATE_CFG"
      using Cons.prems(2,3) own own_of_only(2) [OF o, of js] by simp
    show ?thesis
    proof (cases "rc1 = 0")
      case False
      with Cons.prems(4) True cfg m have "rc = rc1" "n = k" "t = u"
        by (simp_all add: m_def)
      with False o own rest up True show ?thesis
        by (auto simp: own_of_def intro: only_mono)
    next
      case ok: True
      have r: "run_state (start_streams P E p js (k + 1)) u = ((rc, n), t)"
        using Cons.prems(4) True cfg m ok by (simp add: m_def)
      have "\<forall>j \<in> set js. in_array p j u" "\<forall>j \<in> own_of p js u. state_of p j u = MM_STREAM_STATE_CFG"
        using Cons.prems(2) onlyD(1) [OF o] rest own by auto
      with Cons.IH [OF _ _ _ r] Cons.prems(1) have IH: "only p (own_of p js s) u t"
        "rc = 0 \<longrightarrow> (\<forall>i \<in> own_of p js s. state_of p i t = MM_STREAM_STATE_ACTIVE)"
        "rc \<noteq> 0 \<longrightarrow> k + 1 \<le> n \<and> n - (k + 1) < length js
          \<and> (\<forall>i \<in> own_of p (take (n - (k + 1) + 1) js) u. state_of p i t \<in>
             {MM_STREAM_STATE_CFG, MM_STREAM_STATE_BUFFED, MM_STREAM_STATE_REG, MM_STREAM_STATE_ACTIVE})
          \<and> (\<forall>i \<in> own_of p (drop (n - (k + 1) + 1) js) u. state_of p i t = MM_STREAM_STATE_CFG)"
        using own by auto
      have act: "state_of p i t = MM_STREAM_STATE_ACTIVE"
        using onlyD(6) [OF IH(1)] onlyD(1) [OF o] ar own(3) up ok by simp
      have sub: "own_of p (take l js) u = own_of p (take l js) s" "own_of p (drop l js) u = own_of p (drop l js) s" for l
        using Cons.prems(2) onlyD(3) [OF o] by (auto simp: own_of_def dest: in_set_takeD in_set_dropD)
      have "own_of p (take (n - k + 1) (i # js)) s = insert i (own_of p (take (n - (k + 1) + 1) js) s)"
        "own_of p (drop (n - k + 1) (i # js)) s = own_of p (drop (n - (k + 1) + 1) js) s" if "k + 1 \<le> n"
      proof -
        have "n - k = Suc (n - (k + 1))"
          using that by simp
        then show "own_of p (take (n - k + 1) (i # js)) s = insert i (own_of p (take (n - (k + 1) + 1) js) s)"
          "own_of p (drop (n - k + 1) (i # js)) s = own_of p (drop (n - (k + 1) + 1) js) s"
          using True by (auto simp: own_of_def)
      qed
      with IH only_trans [OF o IH(1)] own act sub show ?thesis
        by auto
    qed
  qed
qed

section \<open>Clearing the places of linked streams\<close>

definition unlinks :: "ptr \<Rightarrow> nat set \<Rightarrow> channels \<Rightarrow> channels \<Rightarrow> bool" where
  "unlinks p A s t \<longleftrightarrow>
     g_handler_history_count t = g_handler_history_count s
     \<and> (\<forall>q. ch_state (chs t q) = ch_state (chs s q) \<and> length (slots (chs t q)) = length (slots (chs s q))
         \<and> (\<forall>j < length (slots (chs s q)). chan_mark (slot q j t) =
              (if q = p \<and> j \<in> A \<and> \<not> owns p j s then (MM_STREAM_STATE_NOTUSED, NULL, 0) else chan_mark (slot q j s))))"

lemma unlinksD:
  assumes "unlinks p A s t"
  shows "in_array q j t = in_array q j s" "ch_state (chs t q) = ch_state (chs s q)"
    "length (slots (chs t q)) = length (slots (chs s q))" "g_handler_history_count t = g_handler_history_count s"
    "in_array q j s \<Longrightarrow> chan_mark (slot q j t) =
       (if q = p \<and> j \<in> A \<and> \<not> owns p j s then (MM_STREAM_STATE_NOTUSED, NULL, 0) else chan_mark (slot q j s))"
  using assms by (auto simp: unlinks_def in_array_def)

lemma owns_mark: "owns p i s \<longleftrightarrow> fst (snd (chan_mark (slot p i s))) = p"
  by (simp add: owns_def chan_mark_def)

lemma unlinks_owns: "unlinks p A s t \<Longrightarrow> p \<noteq> NULL \<Longrightarrow> in_array p j s \<Longrightarrow> owns p j t = owns p j s"
  by (auto simp: owns_mark unlinksD(5))

lemma unlinks_outline: "outline t = outline s \<Longrightarrow> unlinks p {} s t"
proof -
  assume o: "outline t = outline s"
  show ?thesis
    by (simp add: unlinks_def outlineD [OF o])
qed

lemma unlinks_trans:
  assumes a: "unlinks p A s t" and b: "unlinks p B t u" and "p \<noteq> NULL"
  shows "unlinks p (A \<union> B) s u"
  unfolding unlinks_def
proof (intro conjI allI impI)
  fix q j
  assume "j < length (slots (chs s q))"
  then have j: "in_array q j s" "in_array q j t"
    using unlinksD(1) [OF a] by (simp_all add: in_array_def)
  show "chan_mark (slot q j u) = (if q = p \<and> j \<in> A \<union> B \<and> \<not> owns p j s then (MM_STREAM_STATE_NOTUSED, NULL, 0)
      else chan_mark (slot q j s))"
    using unlinksD(5) [OF a j(1)] unlinksD(5) [OF b j(2)] unlinks_owns [OF a assms(3)] j(1) by auto
qed (simp_all add: unlinksD [OF a] unlinksD [OF b])

lemma unlinks_zero:
  assumes "\<not> owns p i s"
  shows "unlinks p {i} s (upd_slot p i zero_slot s)"
  using assms
  by (auto simp: unlinks_def chan_mark_def zero_slot_def zero_stream_def fresh_stream_def new_stream_def owns_def)

lemma clear_linked:
  assumes "p \<noteq> NULL"
  shows "unlinks p (set is) s (snd (run_state (clear_linked p is) s))"
proof (induction "is" arbitrary: s)
  case (Cons i js)
  show ?case
  proof (cases "owns p i s")
    case True
    then have "unlinks p {i} s s"
      by (auto simp: unlinks_def)
    from unlinks_trans [OF this Cons.IH assms] True show ?thesis
      by simp
  next
    case False
    from unlinks_trans [OF unlinks_zero [OF this] Cons.IH assms] False show ?thesis
      by simp
  qed
qed (simp add: unlinks_outline)

lemma unlink_failed:
  assumes "p \<noteq> NULL"
  shows "unlinks p (set is) s (snd (run_state (unlink_failed P E p k is) s))"
proof (induction "is" arbitrary: s)
  case (Cons i js)
  show ?case
  proof (cases "owns p i s")
    case True
    then have "unlinks p {i} s s"
      by (auto simp: unlinks_def)
    from unlinks_trans [OF this Cons.IH assms] True show ?thesis
      by simp
  next
    case False
    let ?m = "do {
        set_user NULL p i;
        active \<leftarrow> gets (\<lambda>s. bundle_active (chs s p));
        t \<leftarrow> gets (type_of p k);
        (if active then do { _ \<leftarrow> mm_channel_flush_super_buf_queue P E p 0 t; ret () } else ret ())
      }"
    let ?u = "snd (run_state ?m s)"
    have "keeps outline ?m"
      by (intro keeps_intros)
    then have o: "outline ?u = outline s"
      by (simp add: keeps_def)
    have "unlinks p {i} s (upd_slot p i zero_slot ?u)"
    proof (cases "in_array p i s")
      case True
      then have "\<not> owns p i ?u"
        using False outlineD(4) [OF o] by (simp add: owns_mark in_array_def)
      from unlinks_trans [OF unlinks_outline [OF o] unlinks_zero [OF this] assms] show ?thesis
        by simp
    next
      case False
      then have "upd_slot p i zero_slot ?u = ?u"
        using outlineD(2) [OF o, of p] by (simp add: upd_slot_def upd_chan_def in_array_def list_update_beyond)
      with unlinks_outline [OF o] False show ?thesis
        by (auto simp: unlinks_def in_array_def)
    qed
    from unlinks_trans [OF this Cons.IH assms] False show ?thesis
      by (simp add: case_prod_beta)
  qed
qed (simp add: unlinks_outline)

end
