(* ===== verification/ChannelLife.thy ===== *)
theory ChannelLife
  imports ChannelStart
begin

text \<open>
  What a start and a stop of a channel do to the outline of the store, when the handles of its streams are
  in order (\<open>well_handled\<close>).
\<close>

section \<open>The streams of a channel\<close>

definition used :: "ptr \<Rightarrow> nat \<Rightarrow> channels \<Rightarrow> bool" where
  "used p i s \<longleftrightarrow> state_of p i s \<noteq> MM_STREAM_STATE_NOTUSED"

definition well_handled :: "ptr \<Rightarrow> channels \<Rightarrow> bool" where
  "well_handled p s \<longleftrightarrow> length (slots (chs s p)) = MAX_STREAM_NUM_IN_BUNDLE
     \<and> (\<forall>i < MAX_STREAM_NUM_IN_BUNDLE. my_hdl (stream p i s) = 0 \<longleftrightarrow> \<not> used p i s)
     \<and> (\<forall>i < MAX_STREAM_NUM_IN_BUNDLE. \<forall>j < MAX_STREAM_NUM_IN_BUNDLE.
          used p i s \<longrightarrow> used p j s \<longrightarrow> my_hdl (stream p i s) = my_hdl (stream p j s) \<longrightarrow> i = j)"

lemma find_unique:
  assumes "x \<in> set xs" "P x" "\<And>y. y \<in> set xs \<Longrightarrow> P y \<Longrightarrow> y = x"
  shows "find P xs = Some x"
  using assms(1,3)
proof (induction xs)
  case (Cons y ys)
  show ?case
  proof (cases "P y")
    case True
    have "y = x"
      by (rule Cons.prems(2)) (simp_all add: True)
    with assms(2) show ?thesis
      by simp
  next
    case False
    then have "x \<in> set ys"
      using Cons.prems(1) assms(2) by auto
    moreover have "z = x" if "z \<in> set ys" "P z" for z
      by (rule Cons.prems(2)) (use that in simp_all)
    ultimately have "find P ys = Some x"
      by (rule Cons.IH)
    with False show ?thesis
      by simp
  qed
qed simp

lemma find_own_handle:
  assumes "well_handled p s" "i < MAX_STREAM_NUM_IN_BUNDLE" "used p i s"
  shows "find_stream p (my_hdl (stream p i s)) s = Some i"
  unfolding find_stream_def
  by (rule find_unique) (use assms in \<open>auto simp: well_handled_def all_slots_def used_def\<close>)

lemma find_streamD:
  assumes "find_stream p h s = Some i"
  shows "i < MAX_STREAM_NUM_IN_BUNDLE" "used p i s" "my_hdl (stream p i s) = h"
  using assms by (auto simp: find_stream_def all_slots_def find_Some_iff used_def)

lemma streams_of_used:
  assumes "well_handled p s"
  shows "streams_of p s = filter (\<lambda>i. used p i s) all_slots"
proof -
  let ?f = "\<lambda>i. if my_hdl (stream p i s) > 0 then find_stream p (my_hdl (stream p i s)) s else None"
  have f: "?f i = (if used p i s then Some i else None)" if "i \<in> set all_slots" for i
  proof -
    have i: "i < MAX_STREAM_NUM_IN_BUNDLE"
      using that by (simp add: all_slots_def)
    show ?thesis
      using assms find_own_handle [OF assms i] i by (auto simp: well_handled_def word_gt_0)
  qed
  have "List.map_filter ?f xs = filter (\<lambda>i. used p i s) xs" if "set xs \<subseteq> set all_slots" for xs
    using that by (induction xs) (simp_all add: List.map_filter_simps f)
  then show ?thesis
    unfolding streams_of_def by blast
qed

lemma meta_idx_less: "is \<noteq> [] \<Longrightarrow> meta_idx p is s < length is"
proof -
  have "fold (\<lambda>k m. if own_meta p (is ! k) s then k else m) ks m < n" if "\<forall>k \<in> set ks. k < n" "m < n" for ks m n
    using that by (induction ks arbitrary: m) auto
  then show "is \<noteq> [] \<Longrightarrow> ?thesis"
    by (simp add: meta_idx_def)
qed

lemma meta_order:
  "set (meta_first p is s) = set is" "distinct (meta_first p is s) = distinct is"
  "set (meta_last p is s) = set is" "distinct (meta_last p is s) = distinct is"
  using meta_idx_less [of "is" p s]
  by (cases "is = []"; auto simp: meta_first_def meta_last_def swap_at_def Let_def distinct_swap set_swap)+

section \<open>What changes\<close>

text \<open>
  The own streams of the channel come to the state \<open>A\<close>; the places of the linked ones are cleared or not.
\<close>

definition moved :: "ptr \<Rightarrow> mm_stream_state_type \<Rightarrow> bool \<Rightarrow> channels \<Rightarrow> channels \<Rightarrow> bool" where
  "moved p A gone s t \<longleftrightarrow>
     g_handler_history_count t = g_handler_history_count s
     \<and> (\<forall>q. ch_state (chs t q) = ch_state (chs s q) \<and> length (slots (chs t q)) = length (slots (chs s q))
         \<and> (\<forall>j < length (slots (chs s q)). chan_mark (slot q j t) =
              (if q = p \<and> used p j s
               then if owns p j s then (A, p, my_hdl (stream p j s))
                    else if gone then (MM_STREAM_STATE_NOTUSED, NULL, 0) else chan_mark (slot p j s)
               else chan_mark (slot q j s))))"

lemma moved_outline: "moved p A gone s t \<Longrightarrow> outline u = outline t \<Longrightarrow> moved p A gone s u"
  unfolding moved_def by (simp add: outlineD [of u t])

lemma movedI:
  assumes o: "only p (own_of p is s) s t" and "set is = {j. in_array p j s \<and> used p j s}"
    and A: "\<forall>i \<in> own_of p is s. state_of p i t = A"
  shows "moved p A False s t"
  unfolding moved_def
proof (intro conjI allI impI)
  fix q j
  assume "j < length (slots (chs s q))"
  then have j: "in_array q j s"
    by (simp add: in_array_def)
  show "chan_mark (slot q j t) = (if q = p \<and> used p j s
      then if owns p j s then (A, p, my_hdl (stream p j s))
           else if False then (MM_STREAM_STATE_NOTUSED, NULL, 0) else chan_mark (slot p j s)
      else chan_mark (slot q j s))"
    using onlyD(4,5,6) [OF o j] A assms(2) j by (auto simp: chan_mark_def stream_def own_of_def owns_def)
qed (use o in \<open>simp_all add: only_def\<close>)

text \<open>Clearing the places of the linked streams before or after.\<close>

lemma moved_then_cleared:
  assumes m: "moved p A False s t" and u: "unlinks p (set is) t t'" and "set is = {j. in_array p j s \<and> used p j s}"
    and "p \<noteq> NULL"
  shows "moved p A True s t'"
  unfolding moved_def
proof (intro conjI allI impI)
  fix q j
  assume l: "j < length (slots (chs s q))"
  then have j: "in_array q j s" "in_array q j t"
    using m by (simp_all add: in_array_def moved_def)
  have mark: "chan_mark (slot q j t) = (if q = p \<and> used p j s \<and> owns p j s then (A, p, my_hdl (stream p j s))
      else chan_mark (slot q j s))"
    using m l by (simp add: moved_def)
  have "owns p j t = owns p j s" if "q = p"
    using mark that by (auto simp: owns_mark)
  with unlinksD(5) [OF u j(2)] mark assms(3) j(1)
  show "chan_mark (slot q j t') = (if q = p \<and> used p j s
      then if owns p j s then (A, p, my_hdl (stream p j s))
           else if True then (MM_STREAM_STATE_NOTUSED, NULL, 0) else chan_mark (slot p j s)
      else chan_mark (slot q j s))"
    by auto
qed (use m in \<open>simp_all add: moved_def unlinksD [OF u]\<close>)

lemma cleared_then_moved:
  assumes u: "unlinks p (set is) s s'" and o: "only p (own_of p is s) s' t"
    and S: "set is = {j. in_array p j s \<and> used p j s}"
    and A: "\<forall>i \<in> own_of p is s. state_of p i t = A" and "p \<noteq> NULL"
  shows "moved p A True s t"
  unfolding moved_def
proof (intro conjI allI impI)
  fix q j
  assume "j < length (slots (chs s q))"
  then have j: "in_array q j s" "in_array q j s'"
    using unlinksD(1) [OF u] by (simp_all add: in_array_def)
  have mark: "chan_mark (slot q j s') = (if q = p \<and> j \<in> set is \<and> \<not> owns p j s then (MM_STREAM_STATE_NOTUSED, NULL, 0)
      else chan_mark (slot q j s))"
    by (rule unlinksD(5) [OF u j(1)])
  show "chan_mark (slot q j t) = (if q = p \<and> used p j s
      then if owns p j s then (A, p, my_hdl (stream p j s))
           else if True then (MM_STREAM_STATE_NOTUSED, NULL, 0) else chan_mark (slot p j s)
      else chan_mark (slot q j s))"
    using onlyD(4,5,6) [OF o j(2)] A S mark j(1) by (auto simp: chan_mark_def stream_def own_of_def owns_def)
qed (use o u in \<open>simp_all add: only_def unlinks_def\<close>)

lemma mark_of:
  "state_of q j s = fst (chan_mark (slot q j s))" "my_hdl (stream q j s) = snd (snd (chan_mark (slot q j s)))"
  "sl_ch (slot q j s) = fst (snd (chan_mark (slot q j s)))"
  by (simp_all add: chan_mark_def stream_def)

end
