(* ===== verification/ChannelRuns.thy ===== *)
theory ChannelRuns
  imports ChannelLife
begin

text \<open>
  The outcome of a start and of a stop of a channel, and the invariant of all channels over the events of
  their state machines.
\<close>

section \<open>Starting and stopping\<close>

definition own_in :: "ptr \<Rightarrow> mm_stream_state_type set \<Rightarrow> channels \<Rightarrow> bool" where
  "own_in p A s \<longleftrightarrow> (\<forall>i. in_array p i s \<longrightarrow> used p i s \<longrightarrow> owns p i s \<longrightarrow> state_of p i s \<in> A)"

lemma outline_in:
  assumes "outline t = outline s"
  shows "in_array p i t = in_array p i s" "in_array p i s \<Longrightarrow> owns p i t = owns p i s"
    "in_array p i s \<Longrightarrow> state_of p i t = state_of p i s"
  using outlineD(2,4) [OF assms] by (auto simp: in_array_def owns_mark mark_of)

lemma outline_own_of:
  assumes "outline t = outline s" "\<forall>i \<in> set is. in_array p i s"
  shows "own_of p is t = own_of p is s"
  using assms(2) outline_in(2) [OF assms(1)] by (auto simp: own_of_def)

lemma only_outline_left: "outline t = outline s \<Longrightarrow> only p A t u \<Longrightarrow> only p A s u"
  using only_step [OF only_outline] by blast

lemma used_streams:
  assumes "well_handled p s"
  shows "set (streams_of p s) = {j. in_array p j s \<and> used p j s}" "distinct (streams_of p s)"
  using assms by (auto simp: streams_of_used all_slots_def in_array_def well_handled_def)

lemma undo_start:
  assumes "p \<noteq> NULL" and S: "set is = {j. in_array p j s \<and> used p j s}" "distinct is"
    and o: "only p (own_of p is s) s t" and n: "n < length is"
    and low: "\<forall>i \<in> own_of p (take (n + 1) is) s. state_of p i t \<in>
             {MM_STREAM_STATE_CFG, MM_STREAM_STATE_BUFFED, MM_STREAM_STATE_REG, MM_STREAM_STATE_ACTIVE}"
    and high: "\<forall>i \<in> own_of p (drop (n + 1) is) s. state_of p i t = MM_STREAM_STATE_CFG"
  shows "moved p MM_STREAM_STATE_CFG True s (snd (run_state (undo_start P E p is n) t))"
proof -
  let ?d = "\<lambda>i. take_down (stream_fsm P E (p, i))"
  let ?A = "{MM_STREAM_STATE_CFG, MM_STREAM_STATE_BUFFED, MM_STREAM_STATE_REG, MM_STREAM_STATE_ACTIVE}"
  let ?B = "{MM_STREAM_STATE_CFG}"
  define t1 where "t1 = snd (run_state (unlink_failed P E p (is ! n) is) t)"
  define t2 where "t2 = snd (run_state (each_own ?d p (take (n + 1) is)) t1)"
  have u: "unlinks p (set is) t t1"
    unfolding t1_def by (rule unlink_failed [OF assms(1)])
  have arr: "in_array q j t = in_array q j s" "in_array q j t1 = in_array q j s" for q j
    using onlyD(1) [OF o] unlinksD(1) [OF u] by auto
  have own: "owns p j t = owns p j s" "owns p j t1 = owns p j s" if "in_array p j s" for j
    using that onlyD(3) [OF o] unlinks_owns [OF u assms(1)] arr by auto
  have sub: "own_of p (take l is) t1 = own_of p (take l is) s" for l
    using own S(1) by (auto simp: own_of_def dest: in_set_takeD)
  have same: "chan_mark (slot p j t1) = chan_mark (slot p j t)" if "j \<in> own_of p is s" for j
    using that unlinksD(5) [OF u, of p j] arr own S(1) by (auto simp: own_of_def)
  have tk: "own_of p (take l is) s \<subseteq> own_of p is s" "own_of p (drop l is) s \<subseteq> own_of p is s" for l
    by (auto simp: own_of_def dest: in_set_takeD in_set_dropD)
  have "\<forall>i \<in> own_of p (take (n + 1) is) t1. state_of p i t1 \<in> ?A"
  proof
    fix i
    assume "i \<in> own_of p (take (n + 1) is) t1"
    then have i: "i \<in> own_of p (take (n + 1) is) s" "i \<in> own_of p is s"
      using sub tk(1) [of "n + 1"] by auto
    have "state_of p i t1 = state_of p i t"
      using same [OF i(2)] by (simp add: mark_of)
    with low i(1) show "state_of p i t1 \<in> ?A"
      by simp
  qed
  moreover have "\<forall>i \<in> set (take (n + 1) is). in_array p i t1"
    using S(1) arr by (auto dest: in_set_takeD)
  ultimately have e: "only p (own_of p (take (n + 1) is) t1) t1 t2"
    "\<forall>i \<in> own_of p (take (n + 1) is) t1. state_of p i t2 \<in> ?B"
    using each_own [where f = ?d and A = ?A and B = ?B and p = p and s = t1]
      fsm_run_only(4) stored.take_down_state S(2) distinct_take by (auto simp: t2_def)
  have down: "state_of p j t2 = MM_STREAM_STATE_CFG" if "j \<in> own_of p is s" for j
  proof (cases "j \<in> own_of p (take (n + 1) is) s")
    case True
    with e(2) sub show ?thesis
      by simp
  next
    case False
    have "set is = set (take (n + 1) is) \<union> set (drop (n + 1) is)"
      by (metis append_take_drop_id set_append)
    with that False have "j \<in> own_of p (drop (n + 1) is) s"
      by (auto simp: own_of_def)
    with high have "state_of p j t1 = MM_STREAM_STATE_CFG"
      using same [OF that] by (simp add: mark_of)
    moreover have "in_array p j t1"
      using that arr S(1) by (auto simp: own_of_def)
    ultimately show ?thesis
      using onlyD(6) [OF e(1)] False sub by simp
  qed
  have m: "moved p MM_STREAM_STATE_CFG True s t2"
    unfolding moved_def
  proof (intro conjI allI impI)
    fix q j
    assume "j < length (slots (chs s q))"
    then have j: "in_array q j s" "in_array q j t" "in_array q j t1"
      using arr by (simp_all add: in_array_def)
    have c: "chan_mark (slot q j t1) = (if q = p \<and> j \<in> set is \<and> \<not> owns p j t then (MM_STREAM_STATE_NOTUSED, NULL, 0)
        else chan_mark (slot q j t))"
      by (rule unlinksD(5) [OF u j(2)])
    have "chan_mark (slot q j t2) = (state_of q j t2, sl_ch (slot q j t1), my_hdl (stream q j t1))"
      using onlyD(4,5) [OF e(1) j(3)] by (simp add: mark_of prod_eq_iff)
    moreover have "chan_mark (slot q j t) = (state_of q j t, sl_ch (slot q j s), my_hdl (stream q j s))"
      using onlyD(4,5) [OF o j(1)] by (simp add: mark_of prod_eq_iff)
    ultimately show "chan_mark (slot q j t2) = (if q = p \<and> used p j s
        then if owns p j s then (MM_STREAM_STATE_CFG, p, my_hdl (stream p j s))
             else if True then (MM_STREAM_STATE_NOTUSED, NULL, 0) else chan_mark (slot p j s)
        else chan_mark (slot q j s))"
      using c j own(1) [of j] S(1) down [of j] onlyD(6) [OF e(1) j(3)] onlyD(6) [OF o j(1)]
        tk(1) [of "n + 1"] sub [of "n + 1"]
      by (cases "q = p \<and> used p j s \<and> owns p j s") (auto simp: mark_of own_of_def prod_eq_iff owns_def)
  qed (use onlyD(2,7) [OF o] unlinksD [OF u] onlyD(2,7) [OF e(1)] o e(1) in \<open>simp_all add: only_def\<close>)
  have "keeps outline (do {
      active \<leftarrow> gets (\<lambda>s. bundle_active (chs s p));
      if active then end_bundle P E p (\<lambda>q. zero_queue) else ret () })"
    by (intro keeps_intros)
  then have "outline (snd (run_state (undo_start P E p is n) t)) = outline t2"
    by (simp add: undo_start_def keeps_def t1_def t2_def case_prod_beta)
  from moved_outline [OF m this] show ?thesis .
qed

lemma start_outcome:
  assumes "p \<noteq> NULL" "well_handled p s" "own_in p {MM_STREAM_STATE_CFG} s"
    and run: "run_state (mm_channel_start P E p) s = (rc, t)"
  shows "if rc = 0 then moved p MM_STREAM_STATE_ACTIVE False s t else moved p MM_STREAM_STATE_CFG True s t"
proof -
  let ?is = "streams_of p s"
  define s1 where "s1 = snd (run_state (check_info p ?is) s)"
  define js where "js = meta_first p ?is s1"
  define s2 where "s2 = snd (run_state (if super_buf_notify_cb (path p s1) then start_bundle p js else ret ()) s1)"
  define s3 where "s3 = snd (run_state (set_users p p js) s2)"
  obtain rc' n s4 where r: "run_state (start_streams P E p js 0) s3 = ((rc', n), s4)"
    by (metis prod.exhaust)
  define s5 where "s5 = snd (run_state (if rc' \<noteq> 0 then undo_start P E p js n else ret ()) s4)"
  have "keeps outline (do {
     modify (upd_path p (\<lambda>c. c\<lparr>bWaitForPrepSnapshotDone := False\<rparr>));
     synced \<leftarrow> gets (frame_synced p);
     (if synced then on_sync (mm_frame_sync_register_channel p) else ret ())
   })"
    by (intro keeps_intros)
  moreover have "rc = rc'" and "t = snd (run_state (do {
     modify (upd_path p (\<lambda>c. c\<lparr>bWaitForPrepSnapshotDone := False\<rparr>));
     synced \<leftarrow> gets (frame_synced p);
     (if synced then on_sync (mm_frame_sync_register_channel p) else ret ())
   }) s5)"
    using run r by (auto simp: mm_channel_start_def s1_def js_def s2_def s3_def s5_def case_prod_beta)
  ultimately have t: "rc = rc'" "outline t = outline s5"
    by (simp_all add: keeps_def)
  have "outline s1 = outline s"
    using keeps_outline_modify(6) by (simp add: s1_def keeps_def)
  moreover have "keeps outline (if super_buf_notify_cb (path p s1) then start_bundle p js else ret ())"
    by (intro keeps_intros)
  then have "outline s2 = outline s1"
    by (simp add: s2_def keeps_def)
  moreover have "outline s3 = outline s2"
    using keeps_bundle(2) by (simp add: s3_def keeps_def)
  ultimately have o: "outline s3 = outline s"
    by simp
  have S: "set js = {j. in_array p j s \<and> used p j s}" "distinct js"
    using used_streams [OF assms(2)] by (simp_all add: js_def meta_order)
  have own: "own_of p js s3 = own_of p js s" "own_of p (take l js) s3 = own_of p (take l js) s"
    "own_of p (drop l js) s3 = own_of p (drop l js) s" for l
    using S(1) by (auto intro!: outline_own_of [OF o] dest: in_set_takeD in_set_dropD)
  have "state_of p j s3 = MM_STREAM_STATE_CFG" if "j \<in> own_of p js s" for j
    using that assms(3) S(1) outline_in(3) [OF o] by (auto simp: own_of_def own_in_def)
  then have cfg: "\<forall>j \<in> own_of p js s3. state_of p j s3 = MM_STREAM_STATE_CFG"
    using own by simp
  have arr: "\<forall>j \<in> set js. in_array p j s3"
    using S(1) outline_in(1) [OF o] by auto
  note st = start_streams [OF S(2) arr cfg r, unfolded own]
  have o4: "only p (own_of p js s) s s4"
    using only_outline_left [OF o] st by blast
  show ?thesis
  proof (cases "rc' = 0")
    case True
    then have "moved p MM_STREAM_STATE_ACTIVE False s s4"
      using st by (intro movedI [OF o4 S(1)]) simp
    with moved_outline [OF _ t(2)] True t(1) show ?thesis
      by (simp add: s5_def)
  next
    case False
    then have "moved p MM_STREAM_STATE_CFG True s s5"
      using st undo_start [OF assms(1) S o4, of n P E] by (simp add: s5_def)
    with moved_outline [OF _ t(2)] False t(1) show ?thesis
      by simp
  qed
qed

lemma outline_used: "outline t = outline s \<Longrightarrow> in_array p i s \<Longrightarrow> used p i t = used p i s"
  unfolding used_def using outline_in(3) by metis

lemma outline_well_handled:
  assumes "outline t = outline s" "well_handled p s"
  shows "well_handled p t"
proof -
  have l: "length (slots (chs t p)) = length (slots (chs s p))"
    by (rule outlineD(2) [OF assms(1)])
  have "my_hdl (stream p i t) = my_hdl (stream p i s) \<and> used p i t = used p i s" if "i < MAX_STREAM_NUM_IN_BUNDLE" for i
    using that assms(2) outlineD(4) [OF assms(1), of i p] by (simp add: used_def mark_of well_handled_def)
  with assms(2) l show ?thesis
    by (simp add: well_handled_def)
qed

lemma stop_outcome:
  assumes "p \<noteq> NULL" "well_handled p s"
    and A: "own_in p {MM_STREAM_STATE_CFG, MM_STREAM_STATE_BUFFED, MM_STREAM_STATE_REG, MM_STREAM_STATE_ACTIVE} s"
    and run: "run_state (mm_channel_stop P E p) s = (rc, t)"
  shows "rc = 0 \<and> moved p MM_STREAM_STATE_CFG True s t"
proof -
  let ?A = "{MM_STREAM_STATE_CFG, MM_STREAM_STATE_BUFFED, MM_STREAM_STATE_REG, MM_STREAM_STATE_ACTIVE}"
  let ?B = "{MM_STREAM_STATE_CFG, MM_STREAM_STATE_BUFFED}"
  let ?su = "\<lambda>i. stop_unreg (stream_fsm P E (p, i))" and ?pb = "\<lambda>i. put_back (stream_fsm P E (p, i))"
  define m1 where "m1 = do {
     synced \<leftarrow> gets (frame_synced p);
     if synced then on_sync (mm_frame_sync_unregister_channel p) else ret () }"
  define s1 where "s1 = snd (run_state m1 s)"
  let ?is = "streams_of p s1"
  define s2 where "s2 = snd (run_state (check_info p (filter (\<lambda>i. owns p i s1) ?is)) s1)"
  define js where "js = meta_last p ?is s2"
  define s3 where "s3 = snd (run_state (each_own ?su p js) s2)"
  define m4 where "m4 = do {
     set_users NULL p js;
     active \<leftarrow> gets (\<lambda>s. bundle_active (chs s p));
     (if active
      then do {
        _ \<leftarrow> mm_channel_flush_super_buf_queue P E p 0 CAM_STREAM_TYPE_DEFAULT;
        end_bundle P E p (\<lambda>q. q\<lparr>expected_frame_id := 0, good_frame_id := 0, match_cnt := 0\<rparr>)
      }
      else ret ()) }"
  define s4 where "s4 = snd (run_state m4 s3)"
  define s5 where "s5 = snd (run_state (each_own ?pb p js) s4)"
  have t: "rc = 0" "t = snd (run_state (clear_linked p js) s5)"
    using run by (auto simp: mm_channel_stop_def m1_def s1_def js_def s2_def s3_def m4_def s4_def s5_def case_prod_beta)
  have "keeps outline m1" "keeps outline m4"
    unfolding m1_def m4_def by (intro keeps_intros)+
  then have o: "outline s1 = outline s" "outline s4 = outline s3"
    by (simp_all add: s1_def s4_def keeps_def)
  have "outline s2 = outline s1"
    using keeps_outline_modify(6) by (simp add: s2_def keeps_def)
  with o(1) have o2: "outline s2 = outline s"
    by simp
  have "set js = {j. in_array p j s1 \<and> used p j s1}" "distinct js"
    using used_streams [OF outline_well_handled [OF o(1) assms(2)]] by (simp_all add: js_def meta_order)
  then have S: "set js = {j. in_array p j s \<and> used p j s}" "distinct js"
    using outline_in(1) [OF o(1)] outline_used [OF o(1)] by auto
  have own2: "own_of p js s2 = own_of p js s"
    using S(1) by (intro outline_own_of [OF o2]) simp
  have A2: "\<forall>i \<in> own_of p js s2. state_of p i s2 \<in> ?A" and arr2: "\<forall>i \<in> set js. in_array p i s2"
    using A S(1) outline_in(1,3) [OF o2] own2 by (auto simp: own_of_def own_in_def)
  have leads: "state_of p i (snd (run_state (?su i) u)) \<in> ?B" if "in_array p i u" "state_of p i u \<in> ?A" for i u
    using stored.stop_unreg_state [OF that(1), of P E] that(2) by auto
  have "only p (own_of p js s2) s2 s3 \<and> (\<forall>i \<in> own_of p js s2. state_of p i s3 \<in> ?B)"
    unfolding s3_def by (rule each_own [OF fsm_run_only(2) leads S(2) arr2 A2])
  then have e3: "only p (own_of p js s) s2 s3" "\<forall>i \<in> own_of p js s. state_of p i s3 \<in> ?B"
    unfolding own2 by blast+
  have o3: "only p (own_of p js s) s s4"
    using only_step [OF only_outline_left [OF o2 e3(1)] only_outline [OF o(2)]] .
  have arr: "in_array q j s4 = in_array q j s" for q j
    by (rule onlyD(1) [OF o3])
  have own4: "own_of p js s4 = own_of p js s"
    by (rule own_of_only(1) [OF o3]) (simp add: S(1))
  have arr3: "\<forall>j \<in> set js. in_array p j s3"
    using arr2 onlyD(1) [OF e3(1)] by blast
  have B4: "\<forall>i \<in> own_of p js s4. state_of p i s4 \<in> ?B"
  proof
    fix i
    assume "i \<in> own_of p js s4"
    then have i: "i \<in> own_of p js s" "in_array p i s3"
      using own4 arr3 by (auto simp: own_of_def)
    with e3(2) outline_in(3) [OF o(2)] show "state_of p i s4 \<in> ?B"
      by simp
  qed
  have arr4: "\<forall>i \<in> set js. in_array p i s4"
    using S(1) arr by auto
  have put: "state_of p i (snd (run_state (?pb i) u)) \<in> {MM_STREAM_STATE_CFG}"
    if "in_array p i u" "state_of p i u \<in> ?B" for i u
    using stored.put_back_state [OF that, of P E] by simp
  have "only p (own_of p js s4) s4 s5 \<and> (\<forall>i \<in> own_of p js s4. state_of p i s5 \<in> {MM_STREAM_STATE_CFG})"
    unfolding s5_def by (rule each_own [OF fsm_run_only(3) put S(2) arr4 B4])
  then have e5: "only p (own_of p js s) s4 s5" "\<forall>i \<in> own_of p js s. state_of p i s5 = MM_STREAM_STATE_CFG"
    unfolding own4 by auto
  have "moved p MM_STREAM_STATE_CFG False s s5"
    by (rule movedI [OF only_step [OF o3 e5(1)] S(1) e5(2)])
  from moved_then_cleared [OF this clear_linked [OF assms(1)] S(1) assms(1)] t show ?thesis
    by simp
qed

end
