(* ===== verification/ChannelInvar.thy ===== *)
theory ChannelInvar
  imports ChannelRuns ChannelHandles CameraObj
begin

text \<open>
  The invariant of all channels over everything that can happen to them: the handles of the streams of a
  channel are distinct, and the state of a channel says in which states its own streams are.
\<close>

section \<open>The invariant, on the outline\<close>

definition own_states :: "mm_channel_state_type \<Rightarrow> mm_stream_state_type set" where
  "own_states st =
     (case st of
        MM_CHANNEL_STATE_STOPPED \<Rightarrow> {MM_STREAM_STATE_ACQUIRED, MM_STREAM_STATE_CFG}
      | MM_CHANNEL_STATE_ACTIVE \<Rightarrow> {MM_STREAM_STATE_ACTIVE}
      | _ \<Rightarrow> {})"

definition mark_ok :: "16 word \<Rightarrow> mm_channel_state_type \<Rightarrow> ptr \<Rightarrow> mm_stream_state_type \<times> ptr \<times> uint32 \<Rightarrow> bool" where
  "mark_ok n st p m =
     (case m of (a, c, h) \<Rightarrow>
        (h = 0 \<longleftrightarrow> a = MM_STREAM_STATE_NOTUSED) \<and> drop_bit 8 h \<le> ucast n
        \<and> (a \<noteq> MM_STREAM_STATE_NOTUSED \<longrightarrow> st \<noteq> MM_CHANNEL_STATE_NOTUSED \<and> (c = p \<longrightarrow> a \<in> own_states st)))"

definition marks_ok :: "16 word \<Rightarrow> mm_channel_state_type \<Rightarrow> ptr \<Rightarrow> (mm_stream_state_type \<times> ptr \<times> uint32) list \<Rightarrow> bool" where
  "marks_ok n st p ms \<longleftrightarrow> length ms = MAX_STREAM_NUM_IN_BUNDLE \<and> st \<noteq> MM_CHANNEL_STATE_PAUSED
     \<and> list_all (mark_ok n st p) ms
     \<and> (\<forall>i < MAX_STREAM_NUM_IN_BUNDLE. \<forall>j < MAX_STREAM_NUM_IN_BUNDLE.
          snd (snd (ms ! i)) \<noteq> 0 \<longrightarrow> snd (snd (ms ! i)) = snd (snd (ms ! j)) \<longrightarrow> i = j)"

definition marks :: "ptr \<Rightarrow> channels \<Rightarrow> (mm_stream_state_type \<times> ptr \<times> uint32) list" where
  "marks p s = map chan_mark (slots (chs s p))"

definition chan_good :: "ptr \<Rightarrow> channels \<Rightarrow> bool" where
  "chan_good p s \<longleftrightarrow> marks_ok (g_handler_history_count s) (ch_state (chs s p)) p (marks p s)"

definition all_good :: "channels \<Rightarrow> bool" where
  "all_good s \<longleftrightarrow> (\<forall>p. p \<noteq> NULL \<longrightarrow> chan_good p s)"

lemma good_outline: "outline t = outline s \<Longrightarrow> all_good s \<Longrightarrow> all_good t"
  by (auto simp: all_good_def chan_good_def marks_def outline_def fun_eq_iff)

lemma keeps_good: "keeps outline m \<Longrightarrow> all_good s \<Longrightarrow> all_good (snd (run_state m s))"
  by (rule good_outline) (simp_all add: keeps_def)

lemma marks_nth: "i < length (slots (chs s p)) \<Longrightarrow> marks p s ! i = chan_mark (slot p i s)"
  by (simp add: marks_def slot_def)

lemma good_well_handled:
  assumes "chan_good p s"
  shows "well_handled p s" "own_in p (own_states (ch_state (chs s p))) s"
    "length (slots (chs s p)) = MAX_STREAM_NUM_IN_BUNDLE"
proof -
  have l: "length (slots (chs s p)) = MAX_STREAM_NUM_IN_BUNDLE"
    using assms by (simp add: chan_good_def marks_ok_def marks_def)
  then show "length (slots (chs s p)) = MAX_STREAM_NUM_IN_BUNDLE" .
  have m: "mark_ok (g_handler_history_count s) (ch_state (chs s p)) p (chan_mark (slot p i s))"
    if "i < MAX_STREAM_NUM_IN_BUNDLE" for i
    using assms that l marks_nth [of i s p] by (auto simp: chan_good_def marks_ok_def list_all_length marks_def)
  have d: "i = j" if "i < MAX_STREAM_NUM_IN_BUNDLE" "j < MAX_STREAM_NUM_IN_BUNDLE"
    "my_hdl (stream p i s) \<noteq> 0" "my_hdl (stream p i s) = my_hdl (stream p j s)" for i j
    using assms that l marks_nth [of i s p] marks_nth [of j s p] by (simp add: chan_good_def marks_ok_def mark_of)
  show "own_in p (own_states (ch_state (chs s p))) s"
    using m l by (auto simp: own_in_def in_array_def used_def owns_def mark_ok_def chan_mark_def stream_def)
  have "my_hdl (stream p i s) = 0 \<longleftrightarrow> \<not> used p i s" if "i < MAX_STREAM_NUM_IN_BUNDLE" for i
    using m [OF that] by (auto simp: mark_ok_def chan_mark_def stream_def used_def)
  with l d show "well_handled p s"
    unfolding well_handled_def by blast
qed

text \<open>What only changes the marks of one channel, and gives out handles.\<close>

lemma good_one:
  assumes "all_good s" and "\<And>q. q \<noteq> p \<Longrightarrow> ch_state (chs t q) = ch_state (chs s q) \<and> marks q t = marks q s"
    and "g_handler_history_count s \<le> g_handler_history_count t" and "p \<noteq> NULL \<Longrightarrow> chan_good p t"
  shows "all_good t"
  unfolding all_good_def
proof (intro allI impI)
  fix q :: ptr
  assume q: "q \<noteq> NULL"
  show "chan_good q t"
  proof (cases "q = p")
    case False
    have le: "(ucast (g_handler_history_count s) :: 32 word) \<le> ucast (g_handler_history_count t)"
      using assms(3) by (simp add: word_le_nat_alt unsigned_ucast_eq take_bit_nat_eq_self
          order.strict_trans [OF unsigned_less])
    have "mark_ok (g_handler_history_count t) st q m" if "mark_ok (g_handler_history_count s) st q m" for st m
      using that le by (auto simp: mark_ok_def split: prod.splits)
    then show ?thesis
      using assms(1) q assms(2) [OF False] by (auto simp: all_good_def chan_good_def marks_ok_def list_all_iff)
  qed (use assms(4) q in simp)
qed

lemma marks_ok_update:
  assumes "marks_ok n st p ms" "i < MAX_STREAM_NUM_IN_BUNDLE" "mark_ok n' st p m"
    and "\<And>x. mark_ok n st p x \<Longrightarrow> mark_ok n' st p x"
    and "\<And>j. j < MAX_STREAM_NUM_IN_BUNDLE \<Longrightarrow> j \<noteq> i \<Longrightarrow> snd (snd m) \<noteq> 0 \<Longrightarrow> snd (snd (ms ! j)) \<noteq> snd (snd m)"
  shows "marks_ok n' st p (ms[i := m])"
proof -
  have l: "length ms = MAX_STREAM_NUM_IN_BUNDLE" "list_all (mark_ok n st p) ms" "st \<noteq> MM_CHANNEL_STATE_PAUSED"
    and u: "\<And>i j. i < MAX_STREAM_NUM_IN_BUNDLE \<Longrightarrow> j < MAX_STREAM_NUM_IN_BUNDLE \<Longrightarrow> snd (snd (ms ! i)) \<noteq> 0
      \<Longrightarrow> snd (snd (ms ! i)) = snd (snd (ms ! j)) \<Longrightarrow> i = j"
    using assms(1) by (auto simp: marks_ok_def)
  have "list_all (mark_ok n' st p) (ms[i := m])"
    using l assms(3,4) set_update_subset_insert [of ms i m] by (auto simp: list_all_iff)
  moreover have "a = b" if "a < MAX_STREAM_NUM_IN_BUNDLE" "b < MAX_STREAM_NUM_IN_BUNDLE"
    "snd (snd (ms[i := m] ! a)) \<noteq> 0" "snd (snd (ms[i := m] ! a)) = snd (snd (ms[i := m] ! b))" for a b
    using that assms(5) [of a] assms(5) [of b] u [of a b] l(1) by (cases "a = i"; cases "b = i") auto
  ultimately show ?thesis
    using l by (simp add: marks_ok_def)
qed

lemma marks_upd_slot:
  "marks q (upd_slot p i f s) = (if q = p \<and> i < length (slots (chs s p))
     then (marks p s)[i := chan_mark (f (slot p i s))] else marks q s)"
  by (auto simp: marks_def upd_slot_def upd_chan_def slot_def map_update list_update_beyond)

lemma run_stream_fsm:
  "run_state (stream_fsm P E (p, i) e) s = (fst (run_state (mm_stream_fsm_fn P (E p i) e) (stream p i s)),
     upd_slot p i (\<lambda>x. x\<lparr>sl_obj := snd (run_state (mm_stream_fsm_fn P (E p i) e) (stream p i s))\<rparr>) s)"
  by (simp add: stream_fsm_def)

section \<open>Starting and stopping\<close>

lemma moved_good:
  assumes g: "all_good s" and p: "p \<noteq> NULL" and m: "moved p A gone s t" and A: "A \<in> own_states st'"
    and t': "g_handler_history_count t' = g_handler_history_count t" "\<And>q. marks q t' = marks q t"
      "\<And>q. ch_state (chs t' q) = (if q = p then st' else ch_state (chs t q))"
  shows "all_good t'"
proof (rule good_one [OF g])
  have st': "st' \<noteq> MM_CHANNEL_STATE_NOTUSED" "st' \<noteq> MM_CHANNEL_STATE_PAUSED" "A \<noteq> MM_STREAM_STATE_NOTUSED"
    using A by (auto simp: own_states_def split: mm_channel_state_type.splits)
  have len: "length (slots (chs t q)) = length (slots (chs s q))" for q
    using m by (simp add: moved_def)
  have mk: "marks q t ! j = (if q = p \<and> used p j s
      then if owns p j s then (A, p, my_hdl (stream p j s))
           else if gone then (MM_STREAM_STATE_NOTUSED, NULL, 0) else chan_mark (slot p j s)
      else marks q s ! j)" if "j < length (slots (chs s q))" for q j
    using m that len [of q] by (simp add: moved_def marks_nth)
  show "ch_state (chs t' q) = ch_state (chs s q) \<and> marks q t' = marks q s" if "q \<noteq> p" for q
  proof
    show "ch_state (chs t' q) = ch_state (chs s q)"
      using m that by (simp add: t' moved_def)
    have "marks q t = marks q s"
      by (rule nth_equalityI) (use len [of q] mk [of _ q] that in \<open>simp_all add: marks_def\<close>)
    then show "marks q t' = marks q s"
      by (simp add: t')
  qed
  show "g_handler_history_count s \<le> g_handler_history_count t'"
    using m by (simp add: t' moved_def)
  have c: "chan_good p s"
    using g p by (simp add: all_good_def)
  note w = good_well_handled [OF c]
  let ?n = "g_handler_history_count s" and ?st = "ch_state (chs s p)"
  have l: "length (marks p t) = MAX_STREAM_NUM_IN_BUNDLE"
    using len [of p] w(3) by (simp add: marks_def)
  have ok: "mark_ok ?n ?st p (marks p s ! j)" if "j < MAX_STREAM_NUM_IN_BUNDLE" for j
    using c that w(3) by (auto simp: chan_good_def marks_ok_def list_all_length marks_def)
  have at: "marks p s ! j = (state_of p j s, sl_ch (slot p j s), my_hdl (stream p j s))"
    if "j < MAX_STREAM_NUM_IN_BUNDLE" for j
    using that w(3) by (simp add: marks_nth chan_mark_def stream_def)
  have new: "mark_ok ?n st' p (marks p t ! j)" if "j < MAX_STREAM_NUM_IN_BUNDLE" for j
    using ok [OF that] at [OF that] mk [of j p] that w(3) A st'
    by (auto simp: mark_ok_def used_def owns_def marks_nth)
  have hdl: "snd (snd (marks p t ! j)) \<in> {0, snd (snd (marks p s ! j))}" if "j < MAX_STREAM_NUM_IN_BUNDLE" for j
    using at [OF that] mk [of j p] that w(3) by (auto simp: marks_nth)
  have u: "i = j" if "i < MAX_STREAM_NUM_IN_BUNDLE" "j < MAX_STREAM_NUM_IN_BUNDLE"
    "snd (snd (marks p t ! i)) \<noteq> 0" "snd (snd (marks p t ! i)) = snd (snd (marks p t ! j))" for i j
  proof -
    have "snd (snd (marks p s ! i)) \<noteq> 0" "snd (snd (marks p s ! i)) = snd (snd (marks p s ! j))"
      using hdl [OF that(1)] hdl [OF that(2)] that(3,4) by auto
    with c that(1,2) show ?thesis
      by (auto simp: chan_good_def marks_ok_def)
  qed
  have "g_handler_history_count t' = ?n"
    using m by (simp add: t' moved_def)
  then show "chan_good p t'"
    using l new u st' by (auto simp: chan_good_def marks_ok_def list_all_length t')
qed

lemma upd_state_simps [simp]:
  "g_handler_history_count (upd_chan p f s) = g_handler_history_count s"
  "(\<And>c. slots (f c) = slots c) \<Longrightarrow> marks q (upd_chan p f s) = marks q s"
  "ch_state (chs (upd_chan p f s) q) = (if q = p then ch_state (f (chs s p)) else ch_state (chs s q))"
  by (simp_all add: upd_chan_def marks_def)

lemma start_good:
  assumes "all_good s" "p \<noteq> NULL" "ch_state (chs s p) = MM_CHANNEL_STATE_STOPPED" "own_in p {MM_STREAM_STATE_CFG} s"
  shows "all_good (snd (run_state (mm_channel_fsm_fn_stopped P E p MM_CHANNEL_EVT_START) s))"
proof -
  obtain rc t where r: "run_state (mm_channel_start P E p) s = (rc, t)"
    by (cases "run_state (mm_channel_start P E p) s")
  have w: "well_handled p s"
    using assms(1,2) good_well_handled(1) by (simp add: all_good_def)
  note o = start_outcome [OF assms(2) w assms(4) r]
  let ?t' = "upd_chan p (\<lambda>c. c\<lparr>ch_state := MM_CHANNEL_STATE_ACTIVE\<rparr>) t"
  show ?thesis
  proof (cases "rc = 0")
    case True
    with o have m: "moved p MM_STREAM_STATE_ACTIVE False s t"
      by simp
    have "all_good ?t'"
      by (rule moved_good [OF assms(1,2) m, where st' = MM_CHANNEL_STATE_ACTIVE]) (simp_all add: own_states_def)
    with True r show ?thesis
      by (simp add: mm_channel_fsm_fn_stopped_def plain_def to_chan_state_def)
  next
    case False
    with o have m: "moved p MM_STREAM_STATE_CFG True s t"
      by simp
    have "all_good t"
      by (rule moved_good [OF assms(1,2) m, where st' = MM_CHANNEL_STATE_STOPPED])
        (use assms(3) m in \<open>simp_all add: own_states_def moved_def\<close>)
    with False r show ?thesis
      by (simp add: mm_channel_fsm_fn_stopped_def plain_def)
  qed
qed

lemma stop_good:
  assumes "all_good s" "p \<noteq> NULL" "ch_state (chs s p) = MM_CHANNEL_STATE_ACTIVE"
  shows "all_good (snd (run_state (mm_channel_fsm_fn_active P E p MM_CHANNEL_EVT_STOP) s))"
proof -
  obtain rc t where r: "run_state (mm_channel_stop P E p) s = (rc, t)"
    by (cases "run_state (mm_channel_stop P E p) s")
  have c: "chan_good p s"
    using assms(1,2) by (simp add: all_good_def)
  have "own_in p {MM_STREAM_STATE_CFG, MM_STREAM_STATE_BUFFED, MM_STREAM_STATE_REG, MM_STREAM_STATE_ACTIVE} s"
    using good_well_handled(2) [OF c] assms(3) by (auto simp: own_in_def own_states_def)
  with stop_outcome [OF assms(2) good_well_handled(1) [OF c] _ r] have m: "moved p MM_STREAM_STATE_CFG True s t"
    by simp
  have "all_good (upd_chan p (\<lambda>c. c\<lparr>ch_state := MM_CHANNEL_STATE_STOPPED\<rparr>) t)"
    by (rule moved_good [OF assms(1,2) m, where st' = MM_CHANNEL_STATE_STOPPED]) (simp_all add: own_states_def)
  with r show ?thesis
    by (simp add: mm_channel_fsm_fn_active_def plain_def to_chan_state_def)
qed

section \<open>Adding, linking, configuring and deleting streams\<close>

lemma good_update:
  assumes g: "all_good s" and p: "p \<noteq> NULL" "i < MAX_STREAM_NUM_IN_BUNDLE"
    and t: "g_handler_history_count s \<le> g_handler_history_count t" "\<And>q. ch_state (chs t q) = ch_state (chs s q)"
      "\<And>q. marks q t = (if q = p then (marks p s)[i := m] else marks q s)"
    and m: "mark_ok (g_handler_history_count t) (ch_state (chs s p)) p m"
      "\<And>j. j < MAX_STREAM_NUM_IN_BUNDLE \<Longrightarrow> j \<noteq> i \<Longrightarrow> snd (snd m) \<noteq> 0 \<Longrightarrow> snd (snd (marks p s ! j)) \<noteq> snd (snd m)"
  shows "all_good t"
proof (rule good_one [OF g _ t(1)])
  show "ch_state (chs t q) = ch_state (chs s q) \<and> marks q t = marks q s" if "q \<noteq> p" for q
    using that t by simp
  have c: "chan_good p s"
    using g p by (simp add: all_good_def)
  have le: "(ucast (g_handler_history_count s) :: 32 word) \<le> ucast (g_handler_history_count t)"
    using t(1) by (simp add: word_le_nat_alt unsigned_ucast_eq take_bit_nat_eq_self
        order.strict_trans [OF unsigned_less])
  have "mark_ok (g_handler_history_count t) st p x" if "mark_ok (g_handler_history_count s) st p x" for st x
    using that le by (auto simp: mark_ok_def split: prod.splits)
  from marks_ok_update [OF c [unfolded chan_good_def] p(2) m(1) this m(2)] t show "chan_good p t"
    by (simp add: chan_good_def)
qed

lemma stream_states:
  assumes "chan_good p s" "find_stream p h s = Some i"
  shows "i < length (slots (chs s p))" "i < MAX_STREAM_NUM_IN_BUNDLE" "my_hdl (stream p i s) = h" "h \<noteq> 0"
    "drop_bit 8 h \<le> (ucast (g_handler_history_count s) :: uint32)"
    "owns p i s \<Longrightarrow> state_of p i s \<in> own_states (ch_state (chs s p))"
    "ch_state (chs s p) \<noteq> MM_CHANNEL_STATE_NOTUSED" "used p i s"
    "\<And>j. j < MAX_STREAM_NUM_IN_BUNDLE \<Longrightarrow> j \<noteq> i \<Longrightarrow> snd (snd (marks p s ! j)) \<noteq> h"
proof -
  note f = find_streamD [OF assms(2)] and w = good_well_handled [OF assms(1)]
  show l: "i < length (slots (chs s p))" "i < MAX_STREAM_NUM_IN_BUNDLE" "my_hdl (stream p i s) = h" "used p i s"
    using f w by auto
  have m: "mark_ok (g_handler_history_count s) (ch_state (chs s p)) p (chan_mark (slot p i s))"
    using assms(1) l(1) marks_nth [of i s p] by (auto simp: chan_good_def marks_ok_def list_all_length marks_def)
  then show h: "h \<noteq> 0" "drop_bit 8 h \<le> (ucast (g_handler_history_count s) :: uint32)"
    "owns p i s \<Longrightarrow> state_of p i s \<in> own_states (ch_state (chs s p))"
    "ch_state (chs s p) \<noteq> MM_CHANNEL_STATE_NOTUSED"
    using f by (auto simp: mark_ok_def chan_mark_def stream_def used_def owns_def)
  show "snd (snd (marks p s ! j)) \<noteq> h" if "j < MAX_STREAM_NUM_IN_BUNDLE" "j \<noteq> i" for j
    using that assms(1) l h marks_nth [OF l(1)] by (auto simp: chan_good_def marks_ok_def mark_of)
qed

text \<open>An own stream of a stopped channel is configured or released.\<close>

lemma config_good:
  assumes g: "all_good s" and p: "p \<noteq> NULL" and st: "ch_state (chs s p) = MM_CHANNEL_STATE_STOPPED"
  shows "all_good (snd (run_state (mm_channel_config_stream P E p h cfg) s))"
proof -
  have c: "chan_good p s"
    using g p by (simp add: all_good_def)
  show ?thesis
  proof (cases "find_stream p h s")
    case (Some i)
    note f = stream_states [OF c Some]
    show ?thesis
    proof (cases "owns p i s")
      case True
      let ?t = "snd (run_state (mm_stream_fsm_fn P (E p i) (MM_STREAM_EVT_SET_FMT cfg)) (stream p i s))"
      have "st_state ?t = MM_STREAM_STATE_CFG" "my_hdl ?t = h"
        using f(3,6) True st by (auto simp: stream_edges_exact fsm_hdl own_states_def stream_edge_def)
      moreover have "sl_ch (slot p i s) = p"
        using True by (simp add: owns_def)
      ultimately have "all_good (upd_slot p i (\<lambda>x. x\<lparr>sl_obj := ?t\<rparr>) s)"
        using f st by (intro good_update [OF g p f(2), where m = "(MM_STREAM_STATE_CFG, p, h)"])
          (auto simp: marks_upd_slot chan_mark_def mark_ok_def own_states_def)
      with Some True show ?thesis
        by (simp add: mm_channel_config_stream_def own_stream_def run_stream_fsm)
    qed (use g Some in \<open>simp add: mm_channel_config_stream_def own_stream_def\<close>)
  qed (use g in \<open>simp add: mm_channel_config_stream_def own_stream_def\<close>)
qed

text \<open>A place that is cleared.\<close>

lemma cleared_good:
  assumes g: "all_good s" and p: "p \<noteq> NULL" and i: "i < MAX_STREAM_NUM_IN_BUNDLE"
    and f: "chan_mark (f (slot p i s)) = (MM_STREAM_STATE_NOTUSED, c, 0)"
  shows "all_good (upd_slot p i f s)"
proof -
  have "chan_good p s"
    using g p by (simp add: all_good_def)
  then have l: "i < length (slots (chs s p))"
    using i good_well_handled(3) by simp
  show ?thesis
    by (rule good_update [OF g p i, where m = "(MM_STREAM_STATE_NOTUSED, c, 0)"])
      (use l f in \<open>simp_all add: marks_upd_slot mark_ok_def\<close>)
qed

lemma zero_slot_mark [simp]: "chan_mark (zero_slot x) = (MM_STREAM_STATE_NOTUSED, NULL, 0)"
  by (simp add: chan_mark_def zero_slot_def zero_stream_def fresh_stream_def new_stream_def)

lemma del_good:
  assumes g: "all_good s" and p: "p \<noteq> NULL" and st: "ch_state (chs s p) = MM_CHANNEL_STATE_STOPPED"
  shows "all_good (snd (run_state (mm_channel_del_stream P E p h) s))"
proof -
  have c: "chan_good p s"
    using g p by (simp add: all_good_def)
  show ?thesis
  proof (cases "find_stream p h s")
    case (Some i)
    note f = stream_states [OF c Some]
    show ?thesis
    proof (cases "owns p i s")
      case True
      let ?t = "snd (run_state (mm_stream_fsm_fn P (E p i) MM_STREAM_EVT_RELEASE) (stream p i s))"
      let ?f = "\<lambda>x. unlink_unused (x\<lparr>sl_obj := ?t\<rparr>)"
      have t: "st_state ?t = MM_STREAM_STATE_NOTUSED" "my_hdl ?t = 0"
        using f(6) True st by (auto simp: stream_edges_exact fsm_hdl own_states_def stream_edge_def stream_handles_def)
      have "all_good (upd_slot p i ?f s)"
        by (rule cleared_good [OF g p f(2), where c = NULL]) (simp add: t chan_mark_def unlink_unused_def)
      moreover have "upd_slot p i unlink_unused (upd_slot p i (\<lambda>x. x\<lparr>sl_obj := ?t\<rparr>) s) = upd_slot p i ?f s"
        using f(1) by (simp add: upd_slot_def upd_chan_def)
      ultimately show ?thesis
        using Some True by (simp add: mm_channel_del_stream_def run_stream_fsm case_prod_beta)
    next
      case False
      let ?s = "snd (run_state (set_user NULL p i) s)"
      have "all_good ?s"
        by (rule keeps_good [OF keeps_set_user g])
      from cleared_good [OF this p f(2) zero_slot_mark] Some False show ?thesis
        by (simp add: mm_channel_del_stream_def case_prod_beta)
    qed
  qed (use g in \<open>simp add: mm_channel_del_stream_def\<close>)
qed

lemma free_slotD:
  assumes "free_slot p s = Some i" "chan_good p s"
  shows "i < MAX_STREAM_NUM_IN_BUNDLE" "i < length (slots (chs s p))"
  using assms good_well_handled(3) [OF assms(2)] by (auto simp: free_slot_def find_Some_iff all_slots_def)

lemma marks_hdl_bound:
  assumes "chan_good p s" "j < MAX_STREAM_NUM_IN_BUNDLE"
  shows "drop_bit 8 (snd (snd (marks p s ! j))) \<le> (ucast (g_handler_history_count s) :: uint32)"
proof -
  have "mark_ok (g_handler_history_count s) (ch_state (chs s p)) p (marks p s ! j)"
    using assms by (simp add: chan_good_def marks_ok_def list_all_length)
  then show ?thesis
    by (simp add: mark_ok_def case_prod_beta)
qed

lemma add_good:
  assumes g: "all_good s" and p: "p \<noteq> NULL" and st: "ch_state (chs s p) = MM_CHANNEL_STATE_STOPPED"
    and n: "g_handler_history_count s \<noteq> - 1"
  shows "all_good (snd (run_state (mm_channel_add_stream P E p) s))"
proof -
  have c: "chan_good p s"
    using g p by (simp add: all_good_def)
  show ?thesis
  proof (cases "free_slot p s")
    case (Some i)
    note i = free_slotD [OF Some c]
    let ?n = "next_count (g_handler_history_count s)"
    let ?h = "handler_of ?n (of_nat i)"
    let ?s1 = "s\<lparr>g_handler_history_count := ?n\<rparr>"
    let ?new = "\<lambda>x. \<lparr>sl_obj = fresh_stream ?h (sl_obj x), sl_ch = p, sl_linked = None, sl_user = NULL\<rparr>"
    let ?s2 = "upd_slot p i ?new ?s1"
    let ?r = "run_state (mm_stream_fsm_fn P (E p i) MM_STREAM_EVT_ACQUIRE) (stream p i ?s2)"
    let ?f = "\<lambda>x. (?new x)\<lparr>sl_obj := snd ?r\<rparr>"
    have s1: "marks q ?s1 = marks q s" "ch_state (chs ?s1 q) = ch_state (chs s q)" "slot q j ?s1 = slot q j s"
      "slots (chs ?s1 q) = slots (chs s q)" for q j
      by (simp_all add: marks_def slot_def)
    have str: "stream p i ?s2 = fresh_stream ?h (sl_obj (slot p i s))"
      using i by (simp add: stream_def s1)
    have t0: "my_hdl (stream p i ?s2) = ?h" "st_state (stream p i ?s2) = MM_STREAM_STATE_INITED"
      unfolding str by (simp_all add: fresh_stream_def new_stream_def)
    have r: "my_hdl (snd ?r) = ?h" "st_state (snd ?r) = (if fst ?r = 0 then MM_STREAM_STATE_ACQUIRED else MM_STREAM_STATE_INITED)"
      by (simp_all add: t0 stream_edges_exact fsm_hdl stream_edge_def)
    have u: "upd_slot p i (\<lambda>x. x\<lparr>sl_obj := snd ?r\<rparr>) ?s2 = upd_slot p i ?f ?s1"
      using i by (simp add: upd_slot_def upd_chan_def)
    have le: "g_handler_history_count s \<le> ?n"
      using next_count_less [OF n] by simp
    have "all_good (if fst ?r = 0 then upd_slot p i ?f ?s1 else upd_slot p i zero_slot (upd_slot p i ?f ?s1))"
    proof (cases "fst ?r = 0")
      case True
      have "all_good (upd_slot p i ?f ?s1)"
      proof (rule good_update [OF g p i(1), where m = "(MM_STREAM_STATE_ACQUIRED, p, ?h)"])
        show "mark_ok (g_handler_history_count (upd_slot p i ?f ?s1)) (ch_state (chs s p)) p (MM_STREAM_STATE_ACQUIRED, p, ?h)"
          using st handler_nonzero [OF next_count_nonzero] by (simp add: mark_ok_def handler_count own_states_def)
        show "snd (snd (marks p s ! j)) \<noteq> snd (snd (MM_STREAM_STATE_ACQUIRED, p, ?h))" if "j < MAX_STREAM_NUM_IN_BUNDLE" for j
          using new_handle_differs [OF n marks_hdl_bound [OF c that]] by simp
      qed (use i r True s1 le in \<open>simp_all add: marks_upd_slot chan_mark_def\<close>)
      with True show ?thesis
        by simp
    next
      case False
      have "upd_slot p i zero_slot (upd_slot p i ?f ?s1) = upd_slot p i (\<lambda>x. zero_slot (?f x)) ?s1"
        using i by (simp add: upd_slot_def upd_chan_def)
      moreover have "all_good (upd_slot p i (\<lambda>x. zero_slot (?f x)) ?s1)"
        by (rule good_update [OF g p i(1), where m = "(MM_STREAM_STATE_NOTUSED, NULL, 0)"])
          (use i s1 le in \<open>simp_all add: marks_upd_slot mark_ok_def\<close>)
      ultimately show ?thesis
        using False by simp
    qed
    moreover have "snd (run_state (mm_channel_add_stream P E p) s)
        = (if fst ?r = 0 then upd_slot p i ?f ?s1 else upd_slot p i zero_slot (upd_slot p i ?f ?s1))"
      using Some by (simp add: mm_channel_add_stream_def mm_camera_util_generate_handler_def run_stream_fsm u case_prod_beta)
    ultimately show ?thesis
      by simp
  qed (use g in \<open>simp add: mm_channel_add_stream_def\<close>)
qed

lemma link_good:
  assumes g: "all_good s" and p: "p \<noteq> NULL" and st: "ch_state (chs s p) = MM_CHANNEL_STATE_STOPPED"
    and q: "q \<noteq> NULL" "find_stream p h s = None" "\<And>j. find_stream q h s = Some j \<Longrightarrow> owns q j s"
  shows "all_good (snd (run_state (mm_channel_link_stream p q h) s))"
proof (cases "find_stream q h s")
  case (Some j)
  have c: "chan_good p s" "chan_good q s"
    using g p q by (simp_all add: all_good_def)
  note f = stream_states [OF c(2) Some]
  have pq: "q \<noteq> p"
    using Some q(2) by auto
  have ch: "sl_ch (slot q j s) = q"
    using q(3) [OF Some] by (simp add: owns_def)
  have new: "my_hdl (stream p k s) \<noteq> h" if "k < MAX_STREAM_NUM_IN_BUNDLE" for k
    using that q(2) f(4) good_well_handled(1) [OF c(1)]
    by (auto simp: find_stream_def find_None_iff all_slots_def well_handled_def used_def)
  show ?thesis
  proof (cases "free_slot p s")
    case (Some i)
    note i = free_slotD [OF Some c(1)]
    let ?a = "state_of q j s"
    have "all_good (upd_slot p i (link_copy (slot q j s) (q, j)) s)"
    proof (rule good_update [OF g p i(1), where m = "(?a, q, h)"])
      show "mark_ok (g_handler_history_count (upd_slot p i (link_copy (slot q j s) (q, j)) s)) (ch_state (chs s p)) p (?a, q, h)"
        using f st pq by (simp add: mark_ok_def used_def)
      show "snd (snd (marks p s ! k)) \<noteq> snd (snd (?a, q, h))" if "k < MAX_STREAM_NUM_IN_BUNDLE" for k
        using new [OF that] that good_well_handled(3) [OF c(1)] by (simp add: marks_nth mark_of)
    qed (use i f ch in \<open>simp_all add: marks_upd_slot chan_mark_def link_copy_def stream_def\<close>)
    with Some \<open>find_stream q h s = Some j\<close> show ?thesis
      by (simp add: mm_channel_link_stream_def)
  qed (use g Some in \<open>simp add: mm_channel_link_stream_def\<close>)
qed (use g in \<open>simp add: mm_channel_link_stream_def\<close>)

end
