(* ===== verification/ChannelSteps.thy ===== *)
theory ChannelSteps
  imports ChannelInvar
begin

text \<open>
  Everything that can happen to the channels, as steps that interleave: events of the state machines, buffers
  that the driver has filled, commands of the channels' threads, channels that are added and deleted.
\<close>

datatype chan_step =
    Chan_event ptr mm_channel_evt_type
  | Stream_event ptr nat stream_step
  | Command ptr
  | Add_channel ptr nat uint32 "channel_attr option" bool
  | Del_channel ptr

text \<open>The first command in the queue of a channel's thread is handled.\<close>

definition next_command :: "platform \<Rightarrow> chan_env \<Rightarrow> ptr \<Rightarrow> unit chm" where
  "next_command P E p = do {
     cs \<leftarrow> gets (\<lambda>s. cmds (chs s p));
     case cs of
       [] \<Rightarrow> ret ()
     | c # cs \<Rightarrow> do { modify (upd_chan p (\<lambda>x. x\<lparr>cmds := cs\<rparr>)); run_cmd P E p c }
   }"

fun chan_do :: "cam_env \<Rightarrow> chan_step \<Rightarrow> unit chm" where
  "chan_do E (Chan_event p e) = do { _ \<leftarrow> mm_channel_fsm_fn (plat E) (streams_env E) p e; ret () }"
| "chan_do E (Stream_event p i x) = on_stream p i (stream_do (plat E) (streams_env E p i) x)"
| "chan_do E (Command p) = next_command (plat E) (streams_env E) p"
| "chan_do E (Add_channel p c cam a has_cb) = do { _ \<leftarrow> new_channel p c cam a has_cb; ret () }"
| "chan_do E (Del_channel p) = do { _ \<leftarrow> delete_channel E p; ret () }"

text \<open>
  What the callers keep to: a stream is started when it is configured, only a channel's own stream is linked
  to another channel, and only once; handles are given out until their count wraps around; a channel
  is added where there is none.
\<close>

fun allowed :: "chan_step \<Rightarrow> channels \<Rightarrow> bool" where
  "allowed (Chan_event p e) s \<longleftrightarrow> p \<noteq> NULL \<and>
     (case e of
        MM_CHANNEL_EVT_ADD_STREAM \<Rightarrow> g_handler_history_count s \<noteq> - 1
      | MM_CHANNEL_EVT_LINK_STREAM q h \<Rightarrow> q \<noteq> NULL \<and> find_stream p h s = None
          \<and> (case find_stream q h s of None \<Rightarrow> True | Some j \<Rightarrow> owns q j s)
      | MM_CHANNEL_EVT_START \<Rightarrow> own_in p {MM_STREAM_STATE_CFG} s
      | MM_CHANNEL_EVT_DELETE \<Rightarrow> False
      | _ \<Rightarrow> True)"
| "allowed (Stream_event p i x) s \<longleftrightarrow> (case x of Event e \<Rightarrow> False | _ \<Rightarrow> True)"
| "allowed (Command p) s \<longleftrightarrow> True"
| "allowed (Add_channel p c cam a has_cb) s \<longleftrightarrow> p \<noteq> NULL \<and> ch_state (chs s p) = MM_CHANNEL_STATE_NOTUSED
     \<and> g_handler_history_count s \<noteq> - 1"
| "allowed (Del_channel p) s \<longleftrightarrow> p \<noteq> NULL"

fun chan_run :: "cam_env \<Rightarrow> chan_step list \<Rightarrow> channels \<Rightarrow> channels" where
  "chan_run E [] s = s"
| "chan_run E (x # xs) s = chan_run E xs (snd (run_state (chan_do E x) s))"

fun allowed_run :: "cam_env \<Rightarrow> chan_step list \<Rightarrow> channels \<Rightarrow> bool" where
  "allowed_run E [] s \<longleftrightarrow> True"
| "allowed_run E (x # xs) s \<longleftrightarrow> allowed x s \<and> allowed_run E xs (snd (run_state (chan_do E x) s))"

section \<open>Every step keeps the invariant\<close>

lemma keeps_plain [keeps_intros]: "keeps f m \<Longrightarrow> keeps f (plain m)"
  unfolding plain_def by (intro keeps_intros)

lemma run_plain: "snd (run_state (plain m) s) = snd (run_state m s)"
  by (simp add: plain_def case_prod_beta)

lemma stopped_good:
  assumes "all_good s" "ch_state (chs s p) = MM_CHANNEL_STATE_STOPPED" "allowed (Chan_event p e) s"
  shows "all_good (snd (run_state (mm_channel_fsm_fn_stopped P E p e) s))"
proof -
  have p: "p \<noteq> NULL"
    using assms(3) by simp
  note g = assms(1) p assms(2)
  show ?thesis
  proof (cases e)
    case MM_CHANNEL_EVT_ADD_STREAM
    with add_good [OF g] assms(3) show ?thesis
      by (simp add: mm_channel_fsm_fn_stopped_def case_prod_beta)
  next
    case (MM_CHANNEL_EVT_LINK_STREAM q h)
    with assms(3) have "q \<noteq> NULL" "find_stream p h s = None" "\<And>j. find_stream q h s = Some j \<Longrightarrow> owns q j s"
      by (auto split: option.splits)
    from link_good [OF g this] MM_CHANNEL_EVT_LINK_STREAM show ?thesis
      by (simp add: mm_channel_fsm_fn_stopped_def case_prod_beta)
  next
    case MM_CHANNEL_EVT_START
    with start_good [OF g] assms(3) show ?thesis
      by simp
  next
    case (MM_CHANNEL_EVT_DEL_STREAM h)
    with del_good [OF g] show ?thesis
      by (simp add: mm_channel_fsm_fn_stopped_def run_plain)
  next
    case (MM_CHANNEL_EVT_CONFIG_STREAM h cfg)
    with config_good [OF g] show ?thesis
      by (simp add: mm_channel_fsm_fn_stopped_def run_plain)
  next
    case MM_CHANNEL_EVT_DELETE
    with assms(3) show ?thesis
      by simp
  next
    case MM_CHANNEL_EVT_GET_BUNDLE_INFO
    have "keeps outline (mm_channel_fsm_fn_stopped P E p e)"
      unfolding MM_CHANNEL_EVT_GET_BUNDLE_INFO mm_channel_fsm_fn_stopped_def by simp (intro keeps_intros)
    with assms(1) show ?thesis
      by (rule keeps_good [rotated])
  qed (simp_all add: mm_channel_fsm_fn_stopped_def run_plain assms(1) keeps_good keeps_intros)
qed

lemma active_good:
  assumes "all_good s" "ch_state (chs s p) = MM_CHANNEL_STATE_ACTIVE" "p \<noteq> NULL"
  shows "all_good (snd (run_state (mm_channel_fsm_fn_active P E p e) s))"
proof (cases e)
  case MM_CHANNEL_EVT_STOP
  with stop_good [OF assms(1,3,2)] show ?thesis
    by simp
qed (simp_all add: mm_channel_fsm_fn_active_def run_plain assms(1) keeps_good keeps_intros split: option.split)

lemma fsm_good:
  assumes "all_good s" "allowed (Chan_event p e) s"
  shows "all_good (snd (run_state (mm_channel_fsm_fn P E p e) s))"
  using assms stopped_good [OF assms(1) _ assms(2)] active_good [OF assms(1)]
  by (cases "ch_state (chs s p)") (simp_all add: mm_channel_fsm_fn_def)

lemma cleared_marks: "marks q (upd_chan p zero_chan s)
    = (if q = p then replicate (length (slots (chs s p))) (MM_STREAM_STATE_NOTUSED, NULL, 0) else marks q s)"
proof -
  have "chan_mark \<circ> zero_slot = (\<lambda>x. (MM_STREAM_STATE_NOTUSED, NULL, 0))"
    by (simp add: fun_eq_iff)
  then show ?thesis
    by (simp add: marks_def upd_chan_def zero_chan_def map_replicate_const)
qed

text \<open>A channel whose memory is set to zero, and what is then set.\<close>

lemma clear_good:
  assumes g: "all_good s" and p: "p \<noteq> NULL"
    and t: "g_handler_history_count s \<le> g_handler_history_count t"
      "\<And>q. marks q t = marks q (upd_chan p zero_chan s)" "\<And>q. q \<noteq> p \<Longrightarrow> ch_state (chs t q) = ch_state (chs s q)"
      "ch_state (chs t p) \<noteq> MM_CHANNEL_STATE_PAUSED"
  shows "all_good t"
proof (rule good_one [OF g _ t(1)])
  show "ch_state (chs t q) = ch_state (chs s q) \<and> marks q t = marks q s" if "q \<noteq> p" for q
    using that t by (simp add: cleared_marks)
  have "length (slots (chs s p)) = MAX_STREAM_NUM_IN_BUNDLE"
    using g p good_well_handled(3) by (simp add: all_good_def)
  then show "chan_good p t"
    using t by (simp add: chan_good_def marks_ok_def cleared_marks list_all_iff mark_ok_def)
qed

lemma upd_path_simps [simp]:
  "chs (upd_path p f s) = chs s" "g_handler_history_count (upd_path p f s) = g_handler_history_count s"
  "broken (upd_path p f s) = broken s" "marks q (upd_path p f s) = marks q s"
  by (simp_all add: upd_path_def marks_def)

lemma marks_count [simp]: "marks q (s\<lparr>g_handler_history_count := n\<rparr>) = marks q s"
  by (simp add: marks_def)

lemma new_channel_good:
  assumes "all_good s" "p \<noteq> NULL" "g_handler_history_count s \<noteq> - 1"
  shows "all_good (snd (run_state (new_channel p c cam a has_cb) s))"
  using next_count_less [OF assms(3)]
  by (intro clear_good [OF assms(1,2)])
    (auto simp: new_channel_def clear_chan_def mm_camera_util_generate_handler_def mm_channel_init_def to_chan_state_def
      case_prod_beta split: option.split)

lemma fsm_delete:
  "snd (run_state (mm_channel_fsm_fn P E p MM_CHANNEL_EVT_DELETE) s)
     = (if ch_state (chs s p) = MM_CHANNEL_STATE_STOPPED then snd (run_state (mm_channel_release p) s) else s)"
  by (cases "ch_state (chs s p)")
    (simp_all add: mm_channel_fsm_fn_def mm_channel_fsm_fn_stopped_def mm_channel_fsm_fn_active_def run_plain case_prod_beta)

lemma delete_good:
  assumes "all_good s" "p \<noteq> NULL"
  shows "all_good (snd (run_state (delete_channel E p) s))"
proof -
  let ?u = "if ch_state (chs s p) = MM_CHANNEL_STATE_STOPPED then snd (run_state (mm_channel_release p) s) else s"
  have u: "slots (chs ?u q) = slots (chs s q)" "q \<noteq> p \<Longrightarrow> ch_state (chs ?u q) = ch_state (chs s q)"
    "g_handler_history_count ?u = g_handler_history_count s" for q
    by (simp_all add: mm_channel_release_def to_chan_state_def upd_chan_def)
  have "snd (run_state (delete_channel E p) s) = upd_path p (\<lambda>c. zero_channel\<lparr>qbufs := qbufs c\<rparr>) (upd_chan p zero_chan ?u)"
    by (simp add: delete_channel_def clear_chan_def fsm_rc_def fsm_delete case_prod_beta)
  moreover have "all_good \<dots>"
    by (rule clear_good [OF assms]) (use u in \<open>auto simp: cleared_marks zero_chan_def, simp add: marks_def\<close>)
  ultimately show ?thesis
    by simp
qed

lemma step_good:
  assumes "all_good s" "allowed x s"
  shows "all_good (snd (run_state (chan_do E x) s))"
proof (cases x)
  case (Chan_event p e)
  with fsm_good [OF assms(1)] assms(2) show ?thesis
    by (simp add: case_prod_beta)
next
  case (Stream_event p i y)
  have "keeps outline (on_stream p i (stream_do (plat E) (streams_env E p i) y))"
    using assms(2) Stream_event
    by (cases y) (auto intro!: keeps_on_stream keeps_intros skel_parts [OF keeps_data_notify(1)]
      skel_parts [OF keeps_data_notify(2)] skel_parts [OF keeps_data_notify(3)])
  from keeps_good [OF this assms(1)] Stream_event show ?thesis
    by (simp del: run_on_stream)
next
  case (Command p)
  have "keeps outline (next_command (plat E) (streams_env E) p)"
    unfolding next_command_def by (intro keeps_intros; simp)
  with assms(1) Command show ?thesis
    using keeps_good by simp
next
  case (Add_channel p c cam a has_cb)
  with new_channel_good [OF assms(1)] assms(2) show ?thesis
    by (simp add: case_prod_beta)
next
  case (Del_channel p)
  with delete_good [OF assms(1)] assms(2) show ?thesis
    by (simp add: case_prod_beta)
qed

lemma run_good: "all_good s \<Longrightarrow> allowed_run E xs s \<Longrightarrow> all_good (chan_run E xs s)"
  by (induction xs arbitrary: s) (simp_all add: step_good)

lemma no_channels_good: "all_good no_channels"
  by (simp add: all_good_def chan_good_def marks_ok_def marks_def no_channels_def no_chan_def no_slot_def
      chan_mark_def mark_ok_def new_stream_def list_all_iff)

end
