(* ===== verification/StreamOwner.thy ===== *)
theory StreamOwner
  imports StreamDiagram
begin

text \<open>
  Who holds a buffer of a stream that is not in batch mode: the driver, or as many users as the buffer has
  references.  The references are those of the channel and of the linked channel, of each asynchronous
  callback that was called, and of each command in the queue of the stream's thread.
\<close>

section \<open>What was handed out\<close>

text \<open>A callback that is called synchronously has no reference of its own.\<close>

fun called_async :: "bool list \<Rightarrow> nat \<Rightarrow> io_call \<Rightarrow> bool" where
  "called_async syncs i (Callback k j) = (j = i \<and> \<not> syncs ! k)"
| "called_async syncs i c = False"

definition syncs :: "mm_stream \<Rightarrow> bool list" where
  "syncs s = map cb_sync (buf_cb s)"

definition handed :: "mm_stream \<Rightarrow> nat \<Rightarrow> nat" where
  "handed s i = count_list (map fst (to_channel s)) i + count_list (map fst (to_linked s)) i
     + length (filter (called_async (syncs s) i) (ios s))"

text \<open>The asynchronous callbacks that are registered.\<close>

definition asyncs :: "mm_stream \<Rightarrow> nat set" where
  "asyncs s = {k. k < MM_CAMERA_STREAM_BUF_CB_MAX \<and> cb (buf_cb s ! k) \<noteq> NULL \<and> \<not> cb_sync (buf_cb s ! k)}"

lemma ledger_updates [simp]:
  "syncs (s\<lparr>buf_status := x\<rparr>) = syncs s" "syncs (s\<lparr>queued_buffer_count := y\<rparr>) = syncs s"
  "asyncs (s\<lparr>buf_status := x\<rparr>) = asyncs s" "asyncs (s\<lparr>queued_buffer_count := y\<rparr>) = asyncs s"
  "handed (s\<lparr>buf_status := x\<rparr>) = handed s" "handed (s\<lparr>queued_buffer_count := y\<rparr>) = handed s"
  by (simp_all add: syncs_def asyncs_def handed_def fun_eq_iff)

text \<open>What stays the same while frames are received and given back.\<close>

definition same_setup :: "mm_stream \<Rightarrow> mm_stream \<Rightarrow> bool" where
  "same_setup s t \<longleftrightarrow> strm_info t = strm_info s \<and> buf_num t = buf_num s \<and> is_bundled t = is_bundled s
     \<and> is_linked t = is_linked s \<and> cmd_active t = cmd_active s \<and> cache_ops_set t = cache_ops_set s
     \<and> map_option (map userptr) (bufs t) = map_option (map userptr) (bufs s)
     \<and> length (buf_status t) = length (buf_status s)
     \<and> syncs t = syncs s \<and> asyncs t \<subseteq> asyncs s"

definition same_ledger :: "mm_stream \<Rightarrow> mm_stream \<Rightarrow> bool" where
  "same_ledger s t \<longleftrightarrow> same_setup s t \<and> buf_status t = buf_status s \<and> st_cmd_queue t = st_cmd_queue s
     \<and> queued_buffer_count t = queued_buffer_count s \<and> handed t = handed s"

lemma same_setup_refl [simp]: "same_setup s s"
  by (simp add: same_setup_def)

lemma same_setup_trans: "same_setup s t \<Longrightarrow> same_setup t u \<Longrightarrow> same_setup s u"
  unfolding same_setup_def by auto

lemma same_ledger_refl [simp]: "same_ledger s s"
  by (simp add: same_ledger_def)

lemma same_ledger_trans: "same_ledger s t \<Longrightarrow> same_ledger t u \<Longrightarrow> same_ledger s u"
  unfolding same_ledger_def by (auto intro: same_setup_trans)

section \<open>Operations that change nothing of it\<close>

definition quiet :: "'a strm \<Rightarrow> bool" where
  "quiet m \<longleftrightarrow> (\<forall>s. length (buf_cb s) = MM_CAMERA_STREAM_BUF_CB_MAX \<longrightarrow> same_ledger s (snd (run_state m s)))"

named_theorems quiet_intros \<open>operations that hand out no buffer\<close>

lemma same_ledger_length: "same_ledger s t \<Longrightarrow> length (buf_cb t) = length (buf_cb s)"
  unfolding same_ledger_def same_setup_def syncs_def by (metis length_map)

lemma quiet_return [quiet_intros]: "quiet (yields a)"
  by (simp add: quiet_def State_Monad.return_def)

lemma quiet_bind [quiet_intros]: "quiet m \<Longrightarrow> (\<And>a. quiet (g a)) \<Longrightarrow> quiet (m \<bind> g)"
proof -
  assume m: "quiet m" and g: "\<And>a. quiet (g a)"
  have "same_ledger s (snd (run_state (m \<bind> g) s))"
    if "length (buf_cb s) = MM_CAMERA_STREAM_BUF_CB_MAX" for s
  proof -
    from m that have 1: "same_ledger s (snd (run_state m s))"
      by (simp add: quiet_def)
    with g [unfolded quiet_def] that show ?thesis
      by (simp add: run_bind same_ledger_length [OF 1] same_ledger_trans [OF 1] del: run_state_bind)
  qed
  then show ?thesis
    by (simp add: quiet_def)
qed

lemma quiet_gets [quiet_intros]: "quiet (gets g)"
  by (simp add: quiet_def)

lemma quiet_if [quiet_intros]: "(b \<Longrightarrow> quiet m) \<Longrightarrow> (\<not> b \<Longrightarrow> quiet n) \<Longrightarrow> quiet (if b then m else n)"
  by simp

lemma quiet_modify [quiet_intros]: "(\<And>s. same_ledger s (f s)) \<Longrightarrow> quiet (modify f)"
  by (simp add: quiet_def)

lemmas ledger_defs = same_ledger_def same_setup_def asyncs_def syncs_def handed_def

lemma quiet_io [quiet_intros]: "\<not> (\<exists>k i. c = Callback k i) \<Longrightarrow> quiet (io E c)"
  by (cases c) (simp_all add: quiet_def io_def ledger_defs fun_eq_iff)

lemma quiet_io0 [quiet_intros]: "\<not> (\<exists>k i. c = Callback k i) \<Longrightarrow> quiet (io0 E c)"
  unfolding io0_def by (intro quiet_intros)

lemma map_update_same: "(map f xs)[i := f (xs ! i)] = map f xs"
  by (metis list_update_id map_update)

lemma quiet_set_buf [quiet_intros]:
  assumes "\<And>b. userptr (f b) = userptr b"
  shows "quiet (set_buf i f)"
  unfolding set_buf_def
proof (intro quiet_modify)
  fix s :: mm_stream
  have "map_option (map userptr) (map_option (\<lambda>bs. bs[i := f (bs ! i)]) (bufs s)) = map_option (map userptr) (bufs s)"
    by (cases "bufs s") (simp_all add: map_update assms map_update_same)
  then show "same_ledger s (s\<lparr>bufs := map_option (\<lambda>bs. bs[i := f (bs ! i)]) (bufs s)\<rparr>)"
    by (simp add: ledger_defs fun_eq_iff)
qed

lemma quiet_cache [quiet_intros]: "quiet (mm_stream_handle_cache_ops E i d)"
  unfolding mm_stream_handle_cache_ops_def cache_call_def by (intro quiet_intros; simp)

lemma quiet_poll [quiet_intros]: "c = Poll_add \<or> c = Poll_del_async \<Longrightarrow> quiet (poll_while_queued E p c)"
  unfolding poll_while_queued_def by (intro quiet_intros; auto)

lemma nth_update_if: "xs[k := v] ! j = (if j = k \<and> k < length xs then v else xs ! j)"
  by (cases "k < length xs"; cases "j = k") (simp_all add: list_update_beyond)

text \<open>A callback's flags stay, and it is only ever removed.\<close>

lemma same_setup_set_cb:
  "cb_sync (c (buf_cb s ! k)) = cb_sync (buf_cb s ! k) \<Longrightarrow> (cb (c (buf_cb s ! k)) \<noteq> NULL \<Longrightarrow> cb (buf_cb s ! k) \<noteq> NULL)
    \<Longrightarrow> same_ledger s (s\<lparr>buf_cb := (buf_cb s)[k := c (buf_cb s ! k)]\<rparr>)"
  by (auto simp: same_ledger_def same_setup_def asyncs_def syncs_def handed_def fun_eq_iff map_update
      map_update_same nth_update_if split: if_splits)

lemma count_cb_simps [simp]:
  "cb_sync (count_cb c) = cb_sync c" "cb (count_cb c) \<noteq> NULL \<Longrightarrow> cb c \<noteq> NULL"
  by (auto simp: count_cb_def Let_def split: if_splits)

lemma quiet_set_cb [quiet_intros]: "quiet (set_cb k count_cb)"
  unfolding set_cb_def by (intro quiet_modify same_setup_set_cb) auto

lemma quiet_dispatch_sync [quiet_intros]:
  assumes "k < MM_CAMERA_STREAM_BUF_CB_MAX"
  shows "quiet (mm_stream_dispatch_sync_data E k i)"
  unfolding quiet_def
proof (intro allI impI)
  fix s :: mm_stream
  assume l: "length (buf_cb s) = MM_CAMERA_STREAM_BUF_CB_MAX"
  have "same_ledger s (s\<lparr>ios := ios s @ [Callback k i]\<rparr>)" if "cb_sync (buf_cb s ! k)"
    using that assms l by (simp add: ledger_defs fun_eq_iff)
  then show "same_ledger s (snd (run_state (mm_stream_dispatch_sync_data E k i) s))"
    using same_setup_set_cb [of count_cb "s\<lparr>ios := ios s @ [Callback k i]\<rparr>" k]
    by (auto simp: mm_stream_dispatch_sync_data_def set_cb_def io0_def io_def intro: same_ledger_trans)
qed

lemma quiet_sync: "\<forall>k \<in> set ks. k < MM_CAMERA_STREAM_BUF_CB_MAX \<Longrightarrow> quiet (sync_callbacks E i ks)"
  by (induction ks) (simp_all only: sync_callbacks.simps, (intro quiet_intros; simp)+)

section \<open>Handing a buffer over\<close>

text \<open>
  An environment that does what is asked of it: memory is there, the driver takes the buffers that are
  queued, and the cache operations succeed.
\<close>

definition obliging :: "stream_env \<Rightarrow> bool" where
  "obliging E \<longleftrightarrow> (\<forall>h. answer E h Malloc \<noteq> 0 \<and> (\<forall>i. \<not> failed (answer E h (Qbuf i))
     \<and> answer E h (Clean_invalidate i) = 0 \<and> answer E h (Invalidate i) = 0 \<and> answer E h (Clean i) = 0))"

lemma same_ledger_updates:
  "same_ledger s t \<Longrightarrow> same_ledger (s\<lparr>queued_buffer_count := x\<rparr>) (t\<lparr>queued_buffer_count := x\<rparr>)"
  "same_ledger s t \<Longrightarrow> same_ledger (s\<lparr>buf_status := y\<rparr>) (t\<lparr>buf_status := y\<rparr>)"
  by (auto simp: ledger_defs fun_eq_iff)

lemma quiet_run: "quiet m \<Longrightarrow> length (buf_cb s) = MM_CAMERA_STREAM_BUF_CB_MAX \<Longrightarrow> same_ledger s (snd (run_state m s))"
  by (simp add: quiet_def)

text \<open>The end of queueing when the driver has taken the buffer.\<close>

lemma qbuf_spec:
  assumes o: "obliging E" and l: "length (buf_cb s) = MM_CAMERA_STREAM_BUF_CB_MAX"
  shows "\<not> failed (fst (run_state (mm_stream_qbuf E i) s))
    \<and> same_ledger (s\<lparr>queued_buffer_count := queued_buffer_count s + 1\<rparr>) (snd (run_state (mm_stream_qbuf E i) s))"
proof -
  define m where "m = do { poll_while_queued E 1 Poll_add; io E (Qbuf i) }"
  define t where "t = snd (run_state (mm_stream_handle_cache_ops E i False) s)"
  have t: "same_ledger s t"
    using quiet_run [OF quiet_cache l] by (simp add: t_def)
  define u where "u = t\<lparr>queued_buffer_count := queued_buffer_count t + 1\<rparr>"
  have q: "quiet m"
    unfolding m_def by (intro quiet_intros) simp_all
  have "queued_buffer_count t = queued_buffer_count s"
    using t by (simp add: same_ledger_def)
  with same_ledger_updates(1) [OF t] have u: "same_ledger (s\<lparr>queued_buffer_count := queued_buffer_count s + 1\<rparr>) u"
    by (simp add: u_def)
  have lu: "length (buf_cb u) = MM_CAMERA_STREAM_BUF_CB_MAX"
    using same_ledger_length [OF t] l by (simp add: u_def)
  have rc: "\<not> failed (fst (run_state m u))"
    using o by (simp add: m_def io_def case_prod_beta obliging_def)
  have "run_state (mm_stream_qbuf E i) s = run_state m u"
    using rc by (simp add: mm_stream_qbuf_def m_def u_def t_def count_queued_def case_prod_beta prod_eq_iff)
  with rc same_ledger_trans [OF u quiet_run [OF q lu]] show ?thesis
    by simp
qed

text \<open>A reference given back: the last one gives the buffer to the driver.\<close>

definition give_back :: "nat \<Rightarrow> mm_stream \<Rightarrow> mm_stream" where
  "give_back i s =
     (let b = (buf_status s ! i)\<lparr>buf_refcnt := buf_refcnt (buf_status s ! i) - 1\<rparr>
      in if buf_refcnt b = 0
         then s\<lparr>buf_status := (buf_status s)[i := b\<lparr>in_kernel := True\<rparr>],
                queued_buffer_count := queued_buffer_count s + 1\<rparr>
         else s\<lparr>buf_status := (buf_status s)[i := b]\<rparr>)"

lemma buf_done_spec:
  assumes o: "obliging E" and l: "length (buf_cb s) = MM_CAMERA_STREAM_BUF_CB_MAX" and b: "\<not> is_batch s"
    and i: "i < length (buf_status s)" and r: "buf_refcnt (buf_status s ! i) \<noteq> 0"
  shows "\<not> failed (fst (run_state (mm_stream_buf_done E i c) s))
    \<and> same_ledger (give_back i s) (snd (run_state (mm_stream_buf_done E i c) s))"
proof (cases "buf_refcnt (buf_status s ! i) - 1 = 0")
  case False
  then show ?thesis
    using b i r by (simp add: mm_stream_buf_done_def status_at_def add_ref_def set_status_def give_back_def failed_def Let_def)
next
  case True
  define u where "u = s\<lparr>buf_status := (buf_status s)[i := (buf_status s ! i)\<lparr>buf_refcnt := 0\<rparr>]\<rparr>"
  have lu: "length (buf_cb u) = MM_CAMERA_STREAM_BUF_CB_MAX"
    using l by (simp add: u_def)
  note q = qbuf_spec [OF o lu, of i]
  have "run_state (mm_stream_buf_done E i c) s
      = (fst (run_state (mm_stream_qbuf E i) u),
         (snd (run_state (mm_stream_qbuf E i) u))\<lparr>buf_status :=
            (buf_status (snd (run_state (mm_stream_qbuf E i) u)))[i :=
              (buf_status (snd (run_state (mm_stream_qbuf E i) u)) ! i)\<lparr>in_kernel := True\<rparr>]\<rparr>)"
    using q True b i r
    by (simp add: mm_stream_buf_done_def status_at_def add_ref_def set_status_def case_prod_beta u_def is_batch_def)
  moreover have "buf_status (snd (run_state (mm_stream_qbuf E i) u)) = buf_status u"
    using q by (simp add: same_ledger_def)
  moreover have "give_back i s = (u\<lparr>queued_buffer_count := queued_buffer_count u + 1\<rparr>)\<lparr>buf_status :=
      (buf_status u)[i := (buf_status u ! i)\<lparr>in_kernel := True\<rparr>]\<rparr>"
    using True i by (simp add: give_back_def u_def Let_def)
  ultimately show ?thesis
    using q same_ledger_updates(2) [of "u\<lparr>queued_buffer_count := queued_buffer_count u + 1\<rparr>"
      "snd (run_state (mm_stream_qbuf E i) u)" "(buf_status u)[i := (buf_status u ! i)\<lparr>in_kernel := True\<rparr>]"]
    by simp
qed

section \<open>Receiving a buffer\<close>

lemma cache_succeeds:
  "obliging E \<Longrightarrow> cache_ops_set s \<Longrightarrow> fst (run_state (mm_stream_handle_cache_ops E i d) s) = 0"
  by (simp add: mm_stream_handle_cache_ops_def cache_call_def set_buf_def io_def obliging_def case_prod_beta)

text \<open>The buffers of the stream are there and no container of a batch.\<close>

definition plain_bufs :: "mm_stream \<Rightarrow> bool" where
  "plain_bufs s \<longleftrightarrow> map_option (map userptr) (bufs s) = Some (replicate (unat (buf_num s)) False)"

lemma plain_buf_at: "plain_bufs s \<Longrightarrow> i < unat (buf_num s) \<Longrightarrow> \<not> userptr (buf_at i s)"
  unfolding plain_bufs_def buf_at_def
  by (cases "bufs s") (simp_all, metis length_map length_replicate nth_map nth_replicate)

lemma plain_setup: "same_setup s t \<Longrightarrow> plain_bufs t = plain_bufs s"
  by (simp add: same_setup_def plain_bufs_def)

lemma read_msm_spec:
  assumes o: "obliging E" and l: "length (buf_cb s) = MM_CAMERA_STREAM_BUF_CB_MAX" and c: "cache_ops_set s"
    and d: "\<not> failed (answer E (ios s) Dqbuf)" "dequeued E (ios s) = (i, frame, ts)"
    and p: "plain_bufs s" "i < unat (buf_num s)"
  shows "fst (run_state (mm_stream_read_msm_frame E) s) = (0, Some i)
    \<and> same_ledger (s\<lparr>queued_buffer_count := queued_buffer_count s - 1\<rparr>) (snd (run_state (mm_stream_read_msm_frame E) s))"
proof -
  define f where "f = (\<lambda>b :: stream_buf. b\<lparr>sb_frame_idx := frame, sb_ts := ts, cache_flags := 0\<rparr>)"
  define m where "m = do { poll_while_queued E 0 Poll_del_async; set_buf i f }"
  define u where "u = s\<lparr>ios := ios s @ [Dqbuf], queued_buffer_count := queued_buffer_count s - 1\<rparr>"
  define t where "t = snd (run_state m u)"
  have u: "same_ledger (s\<lparr>queued_buffer_count := queued_buffer_count s - 1\<rparr>) u"
    by (simp add: u_def ledger_defs fun_eq_iff)
  have q: "quiet m"
    unfolding m_def f_def by (intro quiet_intros) simp_all
  have lu: "length (buf_cb u) = MM_CAMERA_STREAM_BUF_CB_MAX"
    using l by (simp add: u_def)
  have t: "same_ledger u t"
    using quiet_run [OF q lu] by (simp add: t_def)
  have lt: "length (buf_cb t) = MM_CAMERA_STREAM_BUF_CB_MAX"
    using same_ledger_length [OF t] lu by simp
  have st: "same_setup s t"
    using t by (auto simp: same_ledger_def same_setup_def u_def asyncs_def syncs_def)
  have user: "\<not> userptr (buf_at i t)"
    using plain_buf_at [of t i] plain_setup [OF st] p st by (simp add: same_setup_def)
  have ct: "cache_ops_set t"
    using st c by (simp add: same_setup_def)
  have "run_state (mm_stream_read_msm_frame E) s
      = ((fst (run_state (mm_stream_handle_cache_ops E i True) t), Some i),
         snd (run_state (mm_stream_handle_cache_ops E i True) t))"
    using d user
    by (simp add: mm_stream_read_msm_frame_def io_def count_queued_def case_prod_beta u_def [symmetric] t_def m_def
        f_def [symmetric])
  then show ?thesis
    using cache_succeeds [OF o ct] same_ledger_trans [OF same_ledger_trans [OF u t] quiet_run [OF quiet_cache lt]]
    by simp
qed

text \<open>The synchronous callbacks find out whether there is another one.\<close>

lemma sync_callbacks_result:
  "fst (run_state (sync_callbacks E i ks) s)
     \<longleftrightarrow> (\<exists>k \<in> set ks. cb (buf_cb s ! k) \<noteq> NULL \<and> \<not> cb_sync (buf_cb s ! k))"
proof (induction ks arbitrary: s)
  case (Cons k ks)
  have "cb (buf_cb (snd (run_state (mm_stream_dispatch_sync_data E k i) s)) ! j) \<noteq> NULL
      \<and> \<not> cb_sync (buf_cb (snd (run_state (mm_stream_dispatch_sync_data E k i) s)) ! j)
      \<longleftrightarrow> cb (buf_cb s ! j) \<noteq> NULL \<and> \<not> cb_sync (buf_cb s ! j)" for j
    by (auto simp: mm_stream_dispatch_sync_data_def set_cb_def io0_def io_def nth_update_if split: if_splits)
  then show ?case
    by (simp add: case_prod_beta Cons.IH)
qed simp

lemma sync_callbacks_asyncs:
  "fst (run_state (sync_callbacks E i [0 ..< MM_CAMERA_STREAM_BUF_CB_MAX]) s) \<longleftrightarrow> asyncs s \<noteq> {}"
  by (auto simp: sync_callbacks_result asyncs_def)

text \<open>What a received buffer adds.\<close>

definition received :: "nat \<Rightarrow> bool \<Rightarrow> mm_stream \<Rightarrow> mm_stream \<Rightarrow> bool" where
  "received i app s t \<longleftrightarrow> same_setup s t
     \<and> buf_status t = (buf_status s)[i := (buf_status s ! i)\<lparr>in_kernel := False, buf_refcnt := buf_refcnt (buf_status s ! i)
          + of_bool (is_bundled s) + of_bool (is_linked s) + of_bool app\<rparr>]
     \<and> st_cmd_queue t = st_cmd_queue s @ (if app then [i] else [])
     \<and> queued_buffer_count t = queued_buffer_count s
     \<and> handed t = (handed s)(i := handed s i + of_bool (is_bundled s) + of_bool (is_linked s))"

lemma received_ledger:
  assumes st: "same_ledger s t" and tu: "received i app t u"
  shows "received i app s u"
proof -
  from st tu have "same_setup s u"
    by (auto simp: same_ledger_def received_def intro: same_setup_trans)
  moreover have "is_bundled t = is_bundled s" "is_linked t = is_linked s" "buf_status t = buf_status s"
    "st_cmd_queue t = st_cmd_queue s" "queued_buffer_count t = queued_buffer_count s" "handed t = handed s"
    using st by (simp_all add: same_ledger_def same_setup_def)
  ultimately show ?thesis
    using tu by (simp add: received_def)
qed

lemma receive_buf_spec:
  assumes o: "obliging E" and l: "length (buf_cb s) = MM_CAMERA_STREAM_BUF_CB_MAX"
    and a: "asyncs s \<noteq> {} \<Longrightarrow> cmd_active s" and i: "i < length (buf_status s)"
  shows "received i (asyncs s \<noteq> {}) s (snd (run_state (receive_buf E i) s))"
proof -
  let ?m = "sync_callbacks E i [0 ..< MM_CAMERA_STREAM_BUF_CB_MAX]"
  define app where "app \<longleftrightarrow> asyncs s \<noteq> {}"
  define t where "t = snd (run_state ?m s)"
  have t: "same_ledger s t"
    using quiet_run [OF quiet_sync l] by (simp add: t_def)
  have res: "fst (run_state ?m s) = app"
    by (simp add: app_def sync_callbacks_asyncs)
  have app: "app \<Longrightarrow> cmd_active t"
    using t a by (simp add: app_def same_ledger_def same_setup_def)
  have it: "i < length (buf_status t)"
    using t i by (simp add: same_ledger_def)
  have m: "answer E h Malloc \<noteq> 0" for h
    using o by (simp add: obliging_def)
  have "received i app t (snd (run_state (receive_buf E i) s))"
    using app it m
    apply (cases "is_bundled t"; cases "is_linked t"; cases app)
    apply (simp_all add: receive_buf_def case_prod_beta res t_def [symmetric]
       mm_stream_handle_rcvd_buf_def mm_stream_notify_channel_def post_channel_def post_linked_def post_app_def
       add_ref_def set_status_def io_def received_def ledger_defs fun_eq_iff)
    done
  then show ?thesis
    using received_ledger [OF t] by (simp add: app_def)
qed

section \<open>The thread's callbacks\<close>

text \<open>\<open>m\<close> callbacks were called, with a reference each.\<close>

definition called :: "nat \<Rightarrow> nat \<Rightarrow> mm_stream \<Rightarrow> mm_stream \<Rightarrow> bool" where
  "called i m s t \<longleftrightarrow> same_setup s t
     \<and> buf_status t = (buf_status s)[i := (buf_status s ! i)\<lparr>buf_refcnt := buf_refcnt (buf_status s ! i) + of_nat m\<rparr>]
     \<and> st_cmd_queue t = st_cmd_queue s \<and> queued_buffer_count t = queued_buffer_count s
     \<and> handed t = (handed s)(i := handed s i + m)"

lemma called_trans:
  "called i m s t \<Longrightarrow> called i n t u \<Longrightarrow> i < length (buf_status s) \<Longrightarrow> called i (m + n) s u"
  unfolding called_def by (auto intro: same_setup_trans simp: algebra_simps)

lemma called_none: "same_ledger s t \<Longrightarrow> called i 0 s t"
  by (simp add: called_def same_ledger_def)

lemma async_callbacks_spec:
  assumes "\<forall>k \<in> set ks. k < MM_CAMERA_STREAM_BUF_CB_MAX" and "length (buf_cb s) = MM_CAMERA_STREAM_BUF_CB_MAX"
    and "i < length (buf_status s)"
  shows "\<exists>m \<le> length ks. called i m s (snd (run_state (async_callbacks E i ks) s))"
  using assms
proof (induction ks arbitrary: s)
  case Nil
  then show ?case
    by (simp add: called_none)
next
  case (Cons k ks)
  define c where "c = buf_cb s ! k"
  define m where "m = (if cb c \<noteq> NULL \<and> \<not> cb_sync c
      then do { (if cb_count c \<noteq> 0 then do { add_ref i 1; io0 E (Callback k i) } else yields ()); set_cb k count_cb }
      else yields ())"
  define t where "t = snd (run_state m s)"
  have r: "run_state (async_callbacks E i (k # ks)) s = run_state (async_callbacks E i ks) t"
    by (simp add: t_def m_def c_def case_prod_beta)
  have "\<exists>n \<le> 1. called i n s t"
  proof (cases "cb c \<noteq> NULL \<and> \<not> cb_sync c \<and> cb_count c \<noteq> 0")
    case True
    define u where "u = s\<lparr>buf_status := (buf_status s)[i := (buf_status s ! i)\<lparr>buf_refcnt := buf_refcnt (buf_status s ! i) + 1\<rparr>],
      ios := ios s @ [Callback k i]\<rparr>"
    have "called i 1 s u"
      using True Cons.prems(1,2) by (simp add: called_def u_def ledger_defs fun_eq_iff c_def)
    moreover have "called i 0 u t"
    proof (rule called_none)
      have "t = u\<lparr>buf_cb := (buf_cb u)[k := count_cb (buf_cb u ! k)]\<rparr>"
        using True by (simp add: t_def m_def add_ref_def set_status_def io0_def io_def set_cb_def u_def)
      then show "same_ledger u t"
        by (simp add: same_setup_set_cb)
    qed
    ultimately have "called i 1 s t"
      using called_trans [of i 1 s u 0 t] Cons.prems(3) by simp
    then show ?thesis
      by blast
  next
    case False
    then have "same_ledger s t"
      using same_setup_set_cb [of count_cb s k]
      by (auto simp: t_def m_def set_cb_def)
    then show ?thesis
      using called_none by blast
  qed
  then obtain n where n: "n \<le> 1" "called i n s t"
    by blast
  then have "length (buf_cb t) = MM_CAMERA_STREAM_BUF_CB_MAX" "i < length (buf_status t)"
    using Cons.prems by (simp_all add: called_def same_setup_def syncs_def) (metis length_map)
  with Cons.IH [of t] Cons.prems(1) obtain l where l: "l \<le> length ks"
    "called i l t (snd (run_state (async_callbacks E i ks) t))"
    by auto
  with called_trans [OF n(2) l(2) Cons.prems(3)] n(1) show ?case
    by (intro exI [of _ "n + l"]) (simp only: r, simp)
qed

section \<open>Who owns the buffers\<close>

text \<open>
  \<open>U i\<close> is the number of references of buffer \<open>i\<close> that users have been given and not given back.  A buffer
  is with the driver when it has no reference; the number of buffers with the driver is
  the stream's count.
\<close>

definition refs :: "mm_stream \<Rightarrow> nat \<Rightarrow> nat" where
  "refs s i = unat (buf_refcnt (buf_status s ! i))"

definition in_driver :: "mm_stream \<Rightarrow> nat set" where
  "in_driver s = {i. i < unat (buf_num s) \<and> in_kernel (buf_status s ! i)}"

definition streaming :: "mm_stream \<Rightarrow> bool" where
  "streaming s \<longleftrightarrow> \<not> is_batch s \<and> plain_bufs s \<and> cache_ops_set s
     \<and> length (buf_cb s) = MM_CAMERA_STREAM_BUF_CB_MAX \<and> (asyncs s \<noteq> {} \<longrightarrow> cmd_active s)
     \<and> unat (buf_num s) \<le> length (buf_status s) \<and> length (buf_status s) = CAM_MAX_NUM_BUFS_PER_STREAM"

definition owned :: "mm_stream \<Rightarrow> (nat \<Rightarrow> nat) \<Rightarrow> bool" where
  "owned s U \<longleftrightarrow> streaming s
     \<and> (\<forall>i < unat (buf_num s). refs s i = U i + count_list (st_cmd_queue s) i
          \<and> (in_kernel (buf_status s ! i) \<longleftrightarrow> refs s i = 0) \<and> U i + 5 * count_list (st_cmd_queue s) i \<le> 7)
     \<and> (\<forall>i \<in> set (st_cmd_queue s). i < unat (buf_num s))
     \<and> unat (queued_buffer_count s) = card (in_driver s)"

lemma streaming_setup: "same_setup s t \<Longrightarrow> streaming s \<Longrightarrow> streaming t"
  using plain_setup [of s t]
  by (auto simp: same_setup_def streaming_def is_batch_def syncs_def dest: arg_cong [of _ _ length])

lemma owned_ledger: "same_ledger s t \<Longrightarrow> owned s U \<Longrightarrow> owned t U"
  using streaming_setup [of s t]
  by (simp add: owned_def same_ledger_def refs_def in_driver_def same_setup_def)

lemma in_driver_finite [simp]: "finite (in_driver s)" "card (in_driver s) \<le> unat (buf_num s)"
proof -
  have "in_driver s \<subseteq> {..< unat (buf_num s)}"
    by (auto simp: in_driver_def)
  from finite_subset [OF this] card_mono [OF _ this]
  show "finite (in_driver s)" "card (in_driver s) \<le> unat (buf_num s)"
    by simp_all
qed

lemma unat_add_small: "unat (x :: uint8) + m < 256 \<Longrightarrow> unat (x + of_nat m) = unat x + m"
  by (simp add: unat_word_ariths unat_of_nat mod_add_right_eq)

text \<open>A user and a command of the queue that give their reference back; \<open>U\<close> no longer counts it.\<close>

definition owing :: "mm_stream \<Rightarrow> nat \<Rightarrow> (nat \<Rightarrow> nat) \<Rightarrow> bool" where
  "owing s i U \<longleftrightarrow> streaming s \<and> i < unat (buf_num s)
     \<and> (\<forall>j < unat (buf_num s). refs s j = U j + count_list (st_cmd_queue s) j + of_bool (j = i)
          \<and> (in_kernel (buf_status s ! j) \<longleftrightarrow> refs s j = 0) \<and> U j + 5 * count_list (st_cmd_queue s) j \<le> 7)
     \<and> (\<forall>i \<in> set (st_cmd_queue s). i < unat (buf_num s))
     \<and> unat (queued_buffer_count s) = card (in_driver s)"

lemma streaming_give_back: "streaming (give_back i s) = streaming s"
  by (simp add: give_back_def Let_def streaming_def is_batch_def plain_bufs_def asyncs_def)

lemma give_back_fields:
  "buf_num (give_back i s) = buf_num s" "st_cmd_queue (give_back i s) = st_cmd_queue s"
  "i < length (buf_status s) \<Longrightarrow> buf_status (give_back i s) ! j
     = (if j = i then (buf_status s ! i)\<lparr>buf_refcnt := buf_refcnt (buf_status s ! i) - 1,
          in_kernel := in_kernel (buf_status s ! i) \<or> buf_refcnt (buf_status s ! i) = 1\<rparr> else buf_status s ! j)"
  "queued_buffer_count (give_back i s)
     = queued_buffer_count s + (if buf_refcnt (buf_status s ! i) = 1 then 1 else 0)"
  by (simp_all add: give_back_def Let_def nth_list_update)

lemma owned_give_back:
  assumes o: "owing s i U"
  shows "owned (give_back i s) U"
proof -
  from o have i: "i < unat (buf_num s)" and st: "streaming s" and r: "0 < refs s i"
    and k: "\<not> in_kernel (buf_status s ! i)" and c: "unat (queued_buffer_count s) = card (in_driver s)"
    by (auto simp: owing_def)
  then have il: "i < length (buf_status s)"
    by (simp add: streaming_def)
  have nz: "buf_refcnt (buf_status s ! i) \<noteq> 0"
    using r by (auto simp: refs_def)
  have refs: "refs (give_back i s) j = (if j = i then refs s i - 1 else refs s j)" for j
    using nz by (simp add: refs_def give_back_fields(3) [OF il] unat_minus_one)
  have one: "buf_refcnt (buf_status s ! i) = 1 \<longleftrightarrow> refs s i = 1"
    unfolding refs_def by (metis unsigned_1 unsigned_word_eqI)
  have drv: "in_driver (give_back i s) = (if refs s i = 1 then insert i (in_driver s) else in_driver s)"
    using i k by (auto simp: in_driver_def give_back_fields il one)
  have "i \<notin> in_driver s"
    using k by (simp add: in_driver_def)
  then have card: "card (in_driver (give_back i s)) = card (in_driver s) + (if refs s i = 1 then 1 else 0)"
    by (simp add: drv)
  have "card (in_driver s) < 64"
  proof -
    have "in_driver s \<subset> {..< unat (buf_num s)}"
      using i \<open>i \<notin> in_driver s\<close> by (auto simp: in_driver_def)
    from psubset_card_mono [OF _ this] show ?thesis
      using st by (simp add: streaming_def CAM_MAX_NUM_BUFS_PER_STREAM_def)
  qed
  then have cnt: "unat (queued_buffer_count (give_back i s)) = card (in_driver (give_back i s))"
    using unat_add_small [of "queued_buffer_count s" 1] c by (simp add: give_back_fields one card)
  show ?thesis
    using o st cnt unfolding owned_def
    by (auto simp: owing_def streaming_give_back give_back_fields il refs one)
qed

text \<open>Taking a buffer from the driver.\<close>

text \<open>Someone who gets the buffers: the channel, the linked channel or an asynchronous callback.\<close>

definition has_user :: "mm_stream \<Rightarrow> bool" where
  "has_user s \<longleftrightarrow> is_bundled s \<or> is_linked s \<or> asyncs s \<noteq> {}"

lemma owned_received:
  assumes o: "owned s U" and i: "i \<in> in_driver s" and u: "is_bundled s \<or> is_linked s \<or> app"
    and rc: "received i app (s\<lparr>queued_buffer_count := queued_buffer_count s - 1\<rparr>) t"
  shows "owned t (\<lambda>j. U j + (handed t j - handed s j))"
proof -
  let ?n = "of_bool (is_bundled s) + of_bool (is_linked s) :: nat"
  from i have n: "i < unat (buf_num s)" and k: "in_kernel (buf_status s ! i)"
    by (auto simp: in_driver_def)
  with o have st: "streaming s" and z: "refs s i = 0" and U: "U i = 0" "count_list (st_cmd_queue s) i = 0"
    and c: "unat (queued_buffer_count s) = card (in_driver s)"
    by (auto simp: owned_def)
  have il: "i < length (buf_status s)"
    using n st by (simp add: streaming_def)
  have h: "handed t j - handed s j = (if j = i then ?n else 0)" for j
    using rc by (simp add: received_def handed_def syncs_def fun_eq_iff split: if_splits)
  have "buf_refcnt (buf_status s ! i) = 0"
    using z by (simp add: refs_def unat_eq_0)
  then have refs: "refs t j = (if j = i then ?n + of_bool app else refs s j)" for j
    using rc il by (simp add: refs_def received_def nth_list_update)
  have kern: "in_kernel (buf_status t ! j) = (in_kernel (buf_status s ! j) \<and> j \<noteq> i)" for j
    using rc il by (simp add: received_def nth_list_update)
  have num: "buf_num t = buf_num s" and q: "st_cmd_queue t = st_cmd_queue s @ (if app then [i] else [])"
    and cnt: "queued_buffer_count t = queued_buffer_count s - 1"
    using rc by (simp_all add: received_def same_setup_def)
  have drv: "in_driver t = in_driver s - {i}"
    by (auto simp: in_driver_def kern num)
  have pos: "0 < card (in_driver s)"
    using i by (simp add: card_gt_0_iff) blast
  with c have "queued_buffer_count s \<noteq> 0"
    by auto
  then have "unat (queued_buffer_count t) = card (in_driver t)"
    using c i unat_minus_one [of "queued_buffer_count s"] by (simp add: cnt drv)
  moreover have "streaming t"
    using st rc streaming_setup [of "s\<lparr>queued_buffer_count := queued_buffer_count s - 1\<rparr>" t]
    by (simp add: received_def streaming_def is_batch_def plain_bufs_def asyncs_def)
  ultimately show ?thesis
    using o U n u unfolding owned_def
    by (auto simp: num q refs kern h)
qed

text \<open>The thread gives its reference back after it has called the users.\<close>

lemma owned_called:
  assumes o: "owned s U" and q: "st_cmd_queue s = i # q" and c: "called i m (s\<lparr>st_cmd_queue := q\<rparr>) t" and m: "m \<le> 4"
  shows "owing t i (\<lambda>j. U j + (handed t j - handed s j))"
proof -
  from o q have st: "streaming s" and n: "i < unat (buf_num s)"
    and U: "U i + 5 * Suc (count_list q i) \<le> 7" "refs s i = U i + Suc (count_list q i)"
    and k: "\<not> in_kernel (buf_status s ! i)"
    by (auto simp: owned_def split: if_splits)
  have il: "i < length (buf_status s)"
    using n st by (simp add: streaming_def)
  have h: "handed t j - handed s j = (if j = i then m else 0)" for j
    using c by (simp add: called_def handed_def syncs_def fun_eq_iff split: if_splits)
  have refs: "refs t j = (if j = i then refs s i + m else refs s j)" for j
    using c il U m unat_add_small [of "buf_refcnt (buf_status s ! i)" m]
    by (simp add: refs_def called_def nth_list_update)
  have kern: "in_kernel (buf_status t ! j) = in_kernel (buf_status s ! j)" for j
    using c il by (simp add: called_def nth_list_update)
  have num: "buf_num t = buf_num s" "st_cmd_queue t = q" "queued_buffer_count t = queued_buffer_count s"
    using c by (simp_all add: called_def same_setup_def)
  have "in_driver t = in_driver s"
    by (simp add: in_driver_def kern num)
  moreover have "streaming t"
    using st c streaming_setup [of "s\<lparr>st_cmd_queue := q\<rparr>" t]
    by (simp add: called_def streaming_def is_batch_def plain_bufs_def asyncs_def)
  ultimately show ?thesis
    using o q U n k m unfolding owned_def owing_def
    by (auto simp: num refs kern h)
qed

section \<open>Runs of buffers\<close>

text \<open>
  The steps of a streaming stream with the users' references: a buffer of the driver is ready, the
  thread handles its first command, or a user gives back a reference it has.
\<close>

inductive owner_step :: "stream_env \<Rightarrow> mm_stream \<times> (nat \<Rightarrow> nat) \<Rightarrow> mm_stream \<times> (nat \<Rightarrow> nat) \<Rightarrow> bool" for E where
  buf_ready: "has_user s \<Longrightarrow> st_state s = MM_STREAM_STATE_ACTIVE \<Longrightarrow> \<not> failed (answer E (ios s) Dqbuf)
     \<Longrightarrow> fst (dequeued E (ios s)) \<in> in_driver s \<Longrightarrow> t = snd (run_state (mm_stream_data_notify E) s)
     \<Longrightarrow> owner_step E (s, U) (t, \<lambda>j. U j + (handed t j - handed s j))"
| thread_round: "t = snd (run_state (cmd_thread_round E) s)
     \<Longrightarrow> owner_step E (s, U) (t, \<lambda>j. U j + (handed t j - handed s j))"
| given_back: "i < unat (buf_num s) \<Longrightarrow> 0 < U i \<Longrightarrow> t = snd (run_state (mm_stream_buf_done E i c) s)
     \<Longrightarrow> owner_step E (s, U) (t, U(i := U i - 1))"

lemma owned_length: "owned s U \<Longrightarrow> length (buf_cb s) = MM_CAMERA_STREAM_BUF_CB_MAX"
  by (simp add: owned_def streaming_def)

lemma keeps_cb: "keeps buf_cb (mm_stream_read_msm_frame E)"
  unfolding mm_stream_read_msm_frame_def mm_stream_read_user_buf_def mm_stream_qbuf_def
    mm_stream_handle_cache_ops_def cache_call_def
  by (intro keeps_intros; simp add: spread_batch_def Let_def)

lemma owned_buf_ready:
  assumes o: "obliging E" and s: "owned s U" and h: "has_user s" and a: "st_state s = MM_STREAM_STATE_ACTIVE"
    and d: "\<not> failed (answer E (ios s) Dqbuf)" and i: "fst (dequeued E (ios s)) \<in> in_driver s"
  defines "t \<equiv> snd (run_state (mm_stream_data_notify E) s)"
  shows "owned t (\<lambda>j. U j + (handed t j - handed s j))"
proof -
  obtain i' frame ts where dq: "dequeued E (ios s) = (i', frame, ts)"
    by (cases "dequeued E (ios s)")
  define u where "u = snd (run_state (mm_stream_read_msm_frame E) s)"
  from s have st: "streaming s"
    by (simp add: owned_def)
  have n: "i' < unat (buf_num s)" "i' < length (buf_status s)"
    using i dq st by (auto simp: in_driver_def streaming_def)
  have r: "fst (run_state (mm_stream_read_msm_frame E) s) = (0, Some i')"
    "same_ledger (s\<lparr>queued_buffer_count := queued_buffer_count s - 1\<rparr>) u"
    using read_msm_spec [OF o owned_length [OF s] _ d dq _ n(1)] st by (simp_all add: streaming_def u_def)
  have su: "streaming u"
    using st r(2) streaming_setup [of "s\<lparr>queued_buffer_count := queued_buffer_count s - 1\<rparr>" u]
    by (simp add: same_ledger_def streaming_def is_batch_def plain_bufs_def asyncs_def)
  have "t = snd (run_state (receive_buf E i') u)"
    using a r(1) by (simp add: t_def mm_stream_data_notify_def case_prod_beta u_def)
  moreover have "received i' (asyncs u \<noteq> {}) u (snd (run_state (receive_buf E i') u))"
    using su n(2) r(2) by (intro receive_buf_spec [OF o]) (auto simp: streaming_def same_ledger_def)
  ultimately have "received i' (asyncs u \<noteq> {}) (s\<lparr>queued_buffer_count := queued_buffer_count s - 1\<rparr>) t"
    using received_ledger [OF r(2)] by simp
  moreover have "is_bundled s \<or> is_linked s \<or> asyncs u \<noteq> {}"
    using h keeps_cb [of E] by (simp add: has_user_def asyncs_def u_def keeps_def)
  ultimately show ?thesis
    using owned_received [OF s] i dq by simp
qed

lemma owned_thread_round:
  assumes o: "obliging E" and s: "owned s U"
  defines "t \<equiv> snd (run_state (cmd_thread_round E) s)"
  shows "owned t (\<lambda>j. U j + (handed t j - handed s j))"
proof (cases "st_cmd_queue s")
  case Nil
  then show ?thesis
    using s by (simp add: t_def cmd_thread_round_def)
next
  case (Cons i q)
  let ?s = "s\<lparr>st_cmd_queue := q\<rparr>"
  define u where "u = snd (run_state (async_callbacks E i [0 ..< MM_CAMERA_STREAM_BUF_CB_MAX]) ?s)"
  define c where "c = userptr (buf_at i u)"
  have t: "t = snd (run_state (mm_stream_buf_done E i c) u)"
    by (simp add: t_def c_def u_def Cons cmd_thread_round_def mm_stream_dispatch_app_data_def case_prod_beta)
  have i: "i < length (buf_status s)"
    using s Cons by (auto simp: owned_def streaming_def)
  then obtain m where m: "m \<le> 4" "called i m ?s u"
    using async_callbacks_spec [of "[0 ..< MM_CAMERA_STREAM_BUF_CB_MAX]" ?s i E] owned_length [OF s]
    by (auto simp: u_def MM_CAMERA_STREAM_BUF_CB_MAX_def)
  from owned_called [OF s Cons m(2,1)] have w: "owing u i (\<lambda>j. U j + (handed u j - handed s j))" .
  then have "\<not> is_batch u" "length (buf_cb u) = MM_CAMERA_STREAM_BUF_CB_MAX" "i < length (buf_status u)"
    "buf_refcnt (buf_status u ! i) \<noteq> 0"
    by (auto simp: owing_def streaming_def refs_def)
  from buf_done_spec [OF o this(2,1,3,4), of c] have l: "same_ledger (give_back i u) t"
    by (simp add: t)
  have "handed t = handed u"
    using l by (simp add: same_ledger_def give_back_def Let_def handed_def syncs_def fun_eq_iff split: if_splits)
  with owned_ledger [OF l owned_give_back [OF w]] show ?thesis
    by simp
qed

lemma owned_given_back:
  assumes o: "obliging E" and s: "owned s U" and i: "i < unat (buf_num s)" "0 < U i"
  shows "owned (snd (run_state (mm_stream_buf_done E i c) s)) (U(i := U i - 1))"
proof -
  have w: "owing s i (U(i := U i - 1))"
    using s i unfolding owned_def owing_def by auto
  then have "\<not> is_batch s" "i < length (buf_status s)" "buf_refcnt (buf_status s ! i) \<noteq> 0"
    by (auto simp: owing_def streaming_def refs_def)
  from buf_done_spec [OF o owned_length [OF s] this] owned_ledger owned_give_back [OF w] show ?thesis
    by blast
qed

lemma owned_step:
  assumes "obliging E" and "owner_step E x y" and "owned (fst x) (snd x)"
  shows "owned (fst y) (snd y)"
  using assms(2,1,3)
  by (induction rule: owner_step.induct) (simp_all add: owned_buf_ready owned_thread_round owned_given_back del: One_nat_def)

lemma owned_run:
  assumes "obliging E" and "(owner_step E)\<^sup>*\<^sup>* x y" and "owned (fst x) (snd x)"
  shows "owned (fst y) (snd y)"
  using assms(2,1,3) by (induction rule: rtranclp_induct) (auto intro: owned_step)

section \<open>Where the ownership starts\<close>

text \<open>
  Registering the buffers queues those that are to be queued initially; the others belong to the user.
\<close>

lemma reg_bufs_spec:
  assumes "obliging E" and "length (buf_cb s) = MM_CAMERA_STREAM_BUF_CB_MAX" and "distinct is"
    and "\<forall>i \<in> set is. i < length (buf_status s)" and "fst (run_state (reg_bufs E is) s) = 0"
  defines "t \<equiv> snd (run_state (reg_bufs E is) s)"
  shows "same_setup s t \<and> st_cmd_queue t = st_cmd_queue s \<and> handed t = handed s
    \<and> queued_buffer_count t = queued_buffer_count s + of_nat (length (filter (\<lambda>i. initial_reg_flag (buf_status s ! i)) is))
    \<and> (\<forall>j. buf_status t ! j = (if j \<in> set is
          then (let r = initial_reg_flag (buf_status s ! j)
                in (buf_status s ! j)\<lparr>buf_refcnt := (if r then 0 else 1), in_kernel := r\<rparr>)
          else buf_status s ! j))"
  using assms(1-5) unfolding t_def
proof (induction "is" arbitrary: s)
  case Nil
  then show ?case
    by simp
next
  case (Cons i "is")
  define u where "u = (if initial_reg_flag (buf_status s ! i)
     then (let v = snd (run_state (mm_stream_qbuf E i) s) in v\<lparr>buf_status := (buf_status v)[i := (buf_status v ! i)\<lparr>buf_refcnt := 0, in_kernel := True\<rparr>]\<rparr>)
     else s\<lparr>buf_status := (buf_status s)[i := (buf_status s ! i)\<lparr>buf_refcnt := 1, in_kernel := False\<rparr>]\<rparr>)"
  have r: "run_state (reg_bufs E (i # is)) s = run_state (reg_bufs E is) u"
    using Cons.prems(5) by (auto simp: status_at_def set_status_def case_prod_beta u_def Let_def split: if_splits)
  have u: "same_setup s u \<and> st_cmd_queue u = st_cmd_queue s \<and> handed u = handed s
    \<and> queued_buffer_count u = queued_buffer_count s + of_bool (initial_reg_flag (buf_status s ! i))
    \<and> buf_status u = (buf_status s)[i := (buf_status s ! i)\<lparr>buf_refcnt := (if initial_reg_flag (buf_status s ! i) then 0 else 1),
         in_kernel := initial_reg_flag (buf_status s ! i)\<rparr>]"
  proof (cases "initial_reg_flag (buf_status s ! i)")
    case True
    from qbuf_spec [OF Cons.prems(1,2), of i]
    have "same_ledger (s\<lparr>queued_buffer_count := queued_buffer_count s + 1\<rparr>) (snd (run_state (mm_stream_qbuf E i) s))"
      by simp
    with True show ?thesis
      by (simp add: u_def Let_def same_ledger_def same_setup_def)
  next
    case False
    then show ?thesis
      by (simp add: u_def same_setup_def)
  qed
  then have "length (buf_cb u) = MM_CAMERA_STREAM_BUF_CB_MAX" "length (buf_status u) = length (buf_status s)"
    using Cons.prems(2) by (auto simp: same_setup_def syncs_def dest: arg_cong [of _ _ length])
  note ih = Cons.IH [OF Cons.prems(1) this(1)]
  have i: "i < length (buf_status s)" "i \<notin> set is"
    using Cons.prems by auto
  have f: "initial_reg_flag (buf_status u ! j) = initial_reg_flag (buf_status s ! j)" for j
    using u i by (simp add: nth_list_update)
  let ?v = "snd (run_state (reg_bufs E is) u)"
  have "fst (run_state (reg_bufs E is) u) = 0"
    using Cons.prems(5) unfolding r .
  note ih = ih [OF _ _ this]
  have v: "same_setup u ?v" "st_cmd_queue ?v = st_cmd_queue u" "handed ?v = handed u"
    "queued_buffer_count ?v = queued_buffer_count u + of_nat (length (filter (\<lambda>j. initial_reg_flag (buf_status u ! j)) is))"
    and vs: "\<And>j. buf_status ?v ! j = (if j \<in> set is
          then (let r = initial_reg_flag (buf_status u ! j)
                in (buf_status u ! j)\<lparr>buf_refcnt := (if r then 0 else 1), in_kernel := r\<rparr>)
          else buf_status u ! j)"
    using ih Cons.prems(3,4) \<open>length (buf_status u) = length (buf_status s)\<close> by auto
  have "buf_status ?v ! j = (if j \<in> set (i # is)
          then (let r = initial_reg_flag (buf_status s ! j)
                in (buf_status s ! j)\<lparr>buf_refcnt := (if r then 0 else 1), in_kernel := r\<rparr>)
          else buf_status s ! j)" for j
    using u i by (cases "j = i") (simp_all add: vs Let_def)
  moreover have "same_setup s ?v"
    using same_setup_trans [of s u ?v] u v(1) by blast
  moreover have "queued_buffer_count ?v = queued_buffer_count s
      + of_nat (length (filter (\<lambda>j. initial_reg_flag (buf_status s ! j)) (i # is)))"
  proof -
    from u have "queued_buffer_count u = queued_buffer_count s + of_bool (initial_reg_flag (buf_status s ! i))"
      by blast
    then show ?thesis
      by (simp add: v(4) f)
  qed
  ultimately show ?case
    using u by (simp only: r v) simp
qed

lemma card_filter_upt: "length (filter P [0 ..< n]) = card {i. i < n \<and> P i}"
  by (simp add: length_filter_conv_card cong: conj_cong)

text \<open>A stream whose buffers have been registered and whose thread runs owns its buffers.\<close>

lemma reg_buf_owned:
  assumes o: "obliging E" and st: "streaming (s\<lparr>cmd_active := True\<rparr>)" and q: "st_cmd_queue s = []"
    and rc: "fst (run_state (mm_stream_reg_buf E) s) = 0"
  shows "owned ((snd (run_state (mm_stream_reg_buf E) s))\<lparr>cmd_active := True\<rparr>) (\<lambda>i. if initial_reg_flag (buf_status s ! i) then 0 else 1)"
proof -
  define u where "u = s\<lparr>ios := ios s @ [Reqbufs (buf_num s)], queued_buffer_count := 0\<rparr>"
  let ?c = "Reqbufs (buf_num s)"
  have req: "run_state (mm_stream_request_buf E) s = (answer E (ios s) ?c, s\<lparr>ios := ios s @ [?c]\<rparr>)"
    using st by (simp add: mm_stream_request_buf_def io_def streaming_def)
  have all: "all_indices u = [0 ..< unat (buf_num s)]"
    by (simp add: u_def all_indices_def)
  have run: "run_state (mm_stream_reg_buf E) s
      = (if answer E (ios s) ?c \<noteq> 0 then (answer E (ios s) ?c, s\<lparr>ios := ios s @ [?c]\<rparr>)
         else run_state (reg_bufs E (all_indices u)) u)"
    by (simp add: mm_stream_reg_buf_def req u_def)
  have "answer E (ios s) ?c = 0"
    using rc by (rule contrapos_pp) (simp add: run)
  with run have r: "run_state (mm_stream_reg_buf E) s = run_state (reg_bufs E (all_indices u)) u"
    by simp
  let ?t = "snd (run_state (reg_bufs E (all_indices u)) u)"
  have su: "streaming (u\<lparr>cmd_active := True\<rparr>)"
    using st by (simp add: streaming_def u_def is_batch_def plain_bufs_def asyncs_def)
  have t: "same_setup u ?t \<and> st_cmd_queue ?t = st_cmd_queue u \<and> handed ?t = handed u
    \<and> queued_buffer_count ?t = queued_buffer_count u + of_nat (length (filter (\<lambda>i. initial_reg_flag (buf_status u ! i)) (all_indices u)))
    \<and> (\<forall>j. buf_status ?t ! j = (if j \<in> set (all_indices u)
          then (let r = initial_reg_flag (buf_status u ! j)
                in (buf_status u ! j)\<lparr>buf_refcnt := (if r then 0 else 1), in_kernel := r\<rparr>)
          else buf_status u ! j))"
  proof (rule reg_bufs_spec [OF o])
    show "length (buf_cb u) = MM_CAMERA_STREAM_BUF_CB_MAX" "\<forall>i \<in> set (all_indices u). i < length (buf_status u)"
      using su by (auto simp: streaming_def all_indices_def)
    show "distinct (all_indices u)"
      by (simp add: all)
    show "fst (run_state (reg_bufs E (all_indices u)) u) = 0"
      using rc unfolding r .
  qed
  then have num: "buf_num ?t = buf_num s" and qt: "st_cmd_queue ?t = []"
    using q by (simp_all add: same_setup_def u_def)
  have n: "unat (buf_num s) \<le> 64"
    using st by (simp add: streaming_def CAM_MAX_NUM_BUFS_PER_STREAM_def)
  have bs: "j < unat (buf_num s) \<Longrightarrow> refs ?t j = (if initial_reg_flag (buf_status s ! j) then 0 else 1)
      \<and> (in_kernel (buf_status ?t ! j) \<longleftrightarrow> initial_reg_flag (buf_status s ! j))" for j
    using t by (simp add: refs_def all_indices_def u_def Let_def)
  have "card (in_driver ?t) = length (filter (\<lambda>i. initial_reg_flag (buf_status s ! i)) [0 ..< unat (buf_num s)])"
    unfolding card_filter_upt by (rule arg_cong [of _ _ card]) (auto simp: in_driver_def num bs)
  moreover have "\<dots> \<le> 64"
    using n length_filter_le [of "\<lambda>i. initial_reg_flag (buf_status s ! i)" "[0 ..< unat (buf_num s)]"] by simp
  ultimately have "unat (queued_buffer_count ?t) = card (in_driver ?t)"
    using t by (simp add: u_def all_indices_def unat_of_nat)
  moreover have "same_setup (u\<lparr>cmd_active := True\<rparr>) (?t\<lparr>cmd_active := True\<rparr>)"
    using t by (simp add: same_setup_def asyncs_def syncs_def)
  then have "streaming (?t\<lparr>cmd_active := True\<rparr>)"
    using streaming_setup su by blast
  ultimately show ?thesis
    using bs by (simp add: r owned_def num qt) (simp add: refs_def in_driver_def)
qed

lemma quiet_await [quiet_intros]: "quiet (await_mapped E is)"
  by (induction "is") (simp_all only: await_mapped.simps, (intro quiet_intros; simp)+)

lemma quiet_streamon: "quiet (mm_stream_streamon E)"
  unfolding mm_stream_streamon_def by (intro quiet_intros; simp)

lemma has_async_cb: "length (buf_cb s) = MM_CAMERA_STREAM_BUF_CB_MAX \<Longrightarrow> has_async_cb s \<longleftrightarrow> asyncs s \<noteq> {}"
  by (auto simp: has_async_cb_def asyncs_def list_ex_iff Bex_def in_set_conv_nth)

lemma start_owned:
  assumes s: "owned (s\<lparr>cmd_active := True\<rparr>) U" and q: "st_cmd_queue s = []"
    and rc: "fst (run_state (start_stream E) s) = 0"
  shows "owned (snd (run_state (start_stream E) s)) U"
proof -
  have l: "length (buf_cb s) = MM_CAMERA_STREAM_BUF_CB_MAX"
    using owned_length [OF s] by simp
  define u where "u = (if has_async_cb s then s\<lparr>ios := ios s @ [Launch], cmd_active := True, st_cmd_queue := []\<rparr> else s)
    \<lparr>st_state := MM_STREAM_STATE_ACTIVE\<rparr>"
  have "owned u U"
    using s q by (auto simp: u_def owned_def streaming_def is_batch_def plain_bufs_def asyncs_def refs_def
      in_driver_def has_async_cb [OF l])
  moreover have "snd (run_state (start_stream E) s) = snd (run_state (mm_stream_streamon E) u)"
    using rc by (auto simp: start_stream_def launch_thread_def io0_def io_def case_prod_beta u_def split: if_splits)
  moreover have "same_ledger u (snd (run_state (mm_stream_streamon E) u))"
    using l by (intro quiet_run quiet_streamon) (simp add: u_def)
  ultimately show ?thesis
    using owned_ledger by simp
qed

text \<open>When every user and the thread have given back what they had, the driver has every buffer.\<close>

lemma owned_all_back:
  assumes "owned s (\<lambda>i. 0)" and "st_cmd_queue s = []"
  shows "in_driver s = {..< unat (buf_num s)} \<and> unat (queued_buffer_count s) = unat (buf_num s)"
proof -
  have "in_driver s = {..< unat (buf_num s)}"
    using assms by (auto simp: owned_def in_driver_def)
  with assms(1) show ?thesis
    by (simp add: owned_def)
qed

text \<open>A reference that no one has cannot be given back.\<close>

lemma free_buf_done:
  "buf_refcnt (buf_status s ! i) = 0 \<Longrightarrow> run_state (mm_stream_buf_done E i c) s = (- 1, s)"
  by (simp add: mm_stream_buf_done_def status_at_def)

section \<open>From registering to a run\<close>

lemma reg_bufs_queue: "keeps st_cmd_queue (reg_bufs E is)"
  by (induction "is") (simp_all only: reg_bufs.simps mm_stream_qbuf_def mm_stream_handle_cache_ops_def cache_call_def,
    (intro keeps_intros; simp)+)

lemma reg_buf_queue: "st_cmd_queue (snd (run_state (mm_stream_reg_buf E) s)) = st_cmd_queue s"
proof -
  have "keeps st_cmd_queue (mm_stream_reg_buf E)"
    unfolding mm_stream_reg_buf_def mm_stream_request_buf_def
    by (intro keeps_intros reg_bufs_queue; simp)
  then show ?thesis
    by (simp add: keeps_def)
qed

text \<open>Registering and starting through the state machine.\<close>

lemma started_owned:
  assumes o: "obliging E" and st: "streaming (s\<lparr>cmd_active := True\<rparr>)" and q: "st_cmd_queue s = []"
    and b: "st_state s = MM_STREAM_STATE_BUFFED"
    and reg: "run_state (mm_stream_fsm_fn P E MM_STREAM_EVT_REG_BUF) s = (0, t)"
    and start: "run_state (mm_stream_fsm_fn P E MM_STREAM_EVT_START) t = (0, u)"
  shows "owned u (\<lambda>i. if initial_reg_flag (buf_status s ! i) then 0 else 1)"
proof -
  let ?r = "snd (run_state (mm_stream_reg_buf E) s)"
  have rc: "fst (run_state (mm_stream_reg_buf E) s) = 0" and t: "t = ?r\<lparr>st_state := MM_STREAM_STATE_REG\<rparr>"
    using reg b by (auto simp: mm_stream_fsm_fn_def mm_stream_fsm_buffed_def case_prod_beta split: if_splits)
  from reg_buf_owned [OF o st q rc]
  have "owned (t\<lparr>cmd_active := True\<rparr>) (\<lambda>i. if initial_reg_flag (buf_status s ! i) then 0 else 1)"
    by (simp add: t owned_def streaming_def is_batch_def plain_bufs_def asyncs_def refs_def in_driver_def)
  moreover have "run_state (mm_stream_fsm_fn P E MM_STREAM_EVT_START) t = run_state (start_stream E) t"
    by (simp add: t mm_stream_fsm_fn_def mm_stream_fsm_reg_def)
  moreover have "st_cmd_queue t = []"
    by (simp add: t reg_buf_queue q)
  ultimately show ?thesis
    using start_owned [of t _ E] start by (metis fst_conv snd_conv)
qed

text \<open>A buffer that no one gets: neither the driver has it, nor can anyone give it back.\<close>

lemma received_without_user:
  assumes o: "obliging E" and st: "streaming s" and a: "st_state s = MM_STREAM_STATE_ACTIVE"
    and d: "\<not> failed (answer E (ios s) Dqbuf)" "dequeued E (ios s) = (i, frame, ts)" "i < unat (buf_num s)"
    and z: "buf_refcnt (buf_status s ! i) = 0" and u: "\<not> has_user s"
  defines "t \<equiv> snd (run_state (mm_stream_data_notify E) s)"
  shows "\<not> in_kernel (buf_status t ! i) \<and> buf_refcnt (buf_status t ! i) = 0 \<and> handed t = handed s
    \<and> st_cmd_queue t = st_cmd_queue s"
proof -
  define v where "v = snd (run_state (mm_stream_read_msm_frame E) s)"
  have l: "length (buf_cb s) = MM_CAMERA_STREAM_BUF_CB_MAX" and i: "i < length (buf_status s)"
    using st d(3) by (simp_all add: streaming_def)
  have r: "fst (run_state (mm_stream_read_msm_frame E) s) = (0, Some i)"
    "same_ledger (s\<lparr>queued_buffer_count := queued_buffer_count s - 1\<rparr>) v"
    using read_msm_spec [OF o l _ d(1,2) _ d(3)] st by (simp_all add: streaming_def v_def)
  have cb: "buf_cb v = buf_cb s"
    using keeps_cb [of E] by (simp add: v_def keeps_def)
  then have none: "asyncs v = {}" "length (buf_cb v) = MM_CAMERA_STREAM_BUF_CB_MAX"
    using u l by (simp_all add: has_user_def asyncs_def)
  have "i < length (buf_status v)"
    using r(2) i by (simp add: same_ledger_def)
  from receive_buf_spec [OF o none(2) _ this] none(1)
  have "received i False v (snd (run_state (receive_buf E i) v))"
    by simp
  moreover have "t = snd (run_state (receive_buf E i) v)"
    using a r(1) by (simp add: t_def mm_stream_data_notify_def case_prod_beta v_def)
  ultimately have "received i False (s\<lparr>queued_buffer_count := queued_buffer_count s - 1\<rparr>) t"
    using received_ledger [OF r(2)] by simp
  then show ?thesis
    using u z i by (simp add: received_def has_user_def)
qed

end
