(* ===== verification/PlaneBounds.thy ===== *)
theory PlaneBounds
  imports PlaneLayout
begin

text \<open>
  What the layouts guarantee: for a picture and paddings of the sizes that occur, nothing overflows, every
  plane holds its lines, and the frame holds its planes in whole pages.
\<close>

section \<open>Padding\<close>

text \<open>The paddings of \<open>cam_pad_format_t\<close>.\<close>

definition pad_sizes :: "uint32 list" where
  "pad_sizes = [1, 2, 4, 8, 16, 32, 64, 128, 256, 512, 1024, 2048, 4096, 8192]"

lemma clear_low_bits:
  fixes x :: uint32
  shows "and x (not (mask k)) = push_bit k (drop_bit k x)"
  by (rule bit_eqI) (auto simp: bit_simps)

lemma unat_take: "take_bit LENGTH(32) (unat (x :: uint32)) = unat x"
  by (rule take_bit_nat_eq_self) (rule unsigned_less)

lemma unat_two_power:
  assumes "k < 32"
  shows "unat (2 ^ k :: uint32) = 2 ^ k"
proof -
  have "(2::nat) ^ k < 2 ^ LENGTH(32)"
    by (rule power_strict_increasing) (use assms in simp_all)
  then have "unat (of_nat (2 ^ k) :: uint32) = 2 ^ k"
    by (simp only: unsigned_of_nat take_bit_nat_eq_self of_nat_id)
  then show ?thesis
    by (simp only: of_nat_power of_nat_numeral)
qed

lemma unat_clear_low_bits:
  fixes x :: uint32
  shows "unat (and x (not (mask k))) = unat x div 2 ^ k * 2 ^ k"
proof -
  have "unat x div 2 ^ k * 2 ^ k \<le> unat x"
    by simp
  then have "unat x div 2 ^ k * 2 ^ k < 2 ^ LENGTH(32)"
    using unsigned_less [of x] by (rule le_less_trans)
  then show ?thesis
    unfolding clear_low_bits unsigned_push_bit_eq unsigned_drop_bit_eq
    by (simp only: push_bit_eq_mult drop_bit_eq_div take_bit_nat_eq_self unat_take)
qed

lemma unat_PAD_TO_SIZE:
  assumes "k < 32" and "unat s + 2 ^ k \<le> 2 ^ 32"
  shows "unat (PAD_TO_SIZE s (2 ^ k)) = (unat s + (2 ^ k - 1)) div 2 ^ k * 2 ^ k"
proof -
  have m: "(2 ^ k - 1 :: uint32) = mask k"
    by (simp add: mask_eq_decr_exp)
  have "unat (mask k :: uint32) = 2 ^ k - 1"
  proof -
    have "(2 ^ k :: uint32) \<noteq> 0"
      using unat_two_power [OF assms(1)] by (metis power_not_zero unsigned_0 zero_neq_numeral)
    then show ?thesis
      using unat_two_power [OF assms(1)] by (simp add: unat_minus_one flip: m)
  qed
  moreover have "unat s + (2 ^ k - 1) < 2 ^ LENGTH(32)"
    using assms(2) by simp
  ultimately have "unat (s + mask k) = unat s + (2 ^ k - 1)"
    by (simp add: unat_add_lem [THEN iffD1])
  then show ?thesis
    by (simp add: PAD_TO_SIZE_def m unat_clear_low_bits)
qed

lemma pad_sizes_power:
  assumes "p \<in> set pad_sizes"
  obtains k where "k \<le> 13" "p = 2 ^ k"
proof -
  have "\<exists>k \<in> set [0..<14]. p = 2 ^ k"
    using assms by (auto simp: pad_sizes_def upt_rec)
  then obtain k where "k \<in> set [0..<14]" "p = 2 ^ k"
    by (rule bexE)
  then show ?thesis
    using that [of k] by simp
qed

lemma pad_nat:
  assumes "p \<in> set pad_sizes" and "unat s \<le> 4000000000"
  shows "unat s \<le> unat (PAD_TO_SIZE s p)" "unat (PAD_TO_SIZE s p) < unat s + unat p"
    "unat p dvd unat (PAD_TO_SIZE s p)"
proof -
  obtain k where k: "k \<le> 13" "p = 2 ^ k"
    using assms(1) by (rule pad_sizes_power)
  have "(2::nat) ^ k \<le> 2 ^ 13"
    using k(1) by (rule power_increasing) simp
  then have small: "(2::nat) ^ k \<le> 8192"
    by simp
  have p: "unat p = 2 ^ k"
    using k unat_two_power [of k] by simp
  have eq: "unat (PAD_TO_SIZE s p) = (unat s + (2 ^ k - 1)) div 2 ^ k * 2 ^ k"
    using unat_PAD_TO_SIZE [of k s] k assms(2) small by simp
  have "unat s + (2 ^ k - 1) = (unat s + (2 ^ k - 1)) div 2 ^ k * 2 ^ k + (unat s + (2 ^ k - 1)) mod 2 ^ k"
    by (simp only: div_mult_mod_eq)
  moreover have "(unat s + (2 ^ k - 1)) mod 2 ^ k < 2 ^ k"
    by simp
  moreover have "0 < (2::nat) ^ k"
    by simp
  ultimately show "unat s \<le> unat (PAD_TO_SIZE s p)" "unat (PAD_TO_SIZE s p) < unat s + unat p"
    unfolding eq p by linarith+
  show "unat p dvd unat (PAD_TO_SIZE s p)"
    unfolding eq p by simp
qed

section \<open>Division and products\<close>

lemma sint_small:
  fixes a :: int32
  assumes "unat a < 2147483648"
  shows "sint a = int (unat a)"
proof -
  have "int (unat a) < int 2147483648"
    using assms by (simp only: of_nat_less_iff)
  then have u: "int (unat a) < 2 ^ 31"
    by simp
  have "- (2 ^ 31) \<le> int (unat a)"
    by (rule order_trans [of _ 0]) simp_all
  then have "signed_take_bit 31 (int (unat a)) = int (unat a)"
    using u by (rule signed_take_bit_int_eq_self)
  then show ?thesis
    by (simp add: sint_uint)
qed

lemma sdiv_nat: "int x sdiv int n = int (x div n)"
  by (cases "x = 0"; cases "n = 0") (simp_all add: signed_divide_int_def zdiv_int)

lemma unat_quot:
  assumes "unat a < 2147483648" and "n < 2147483648"
  shows "unat (quot a (word_of_nat n)) = unat a div n"
proof -
  have s: "sint a = int (unat a)"
    using assms(1) by (rule sint_small)
  have n: "unat (word_of_nat n :: int32) = n"
    using assms(2) by (simp add: unat_of_nat take_bit_nat_eq_self)
  then have "sint (word_of_nat n :: int32) = int n"
    using assms(2) by (subst sint_small) simp_all
  then have q: "quot a (word_of_nat n) = word_of_nat (unat a div n)"
    by (simp only: quot_def s sdiv_nat of_int_of_nat_eq)
  have "unat a div n < 2 ^ LENGTH(32)"
    using div_le_dividend [of "unat a" n] unsigned_less [of a] by (rule le_less_trans)
  then show ?thesis
    by (simp only: q unsigned_of_nat take_bit_nat_eq_self of_nat_id)
qed

lemma unat_times:
  fixes a b :: uint32
  assumes "unat a * unat b < 4294967296"
  shows "unat (a * b) = unat a * unat b"
  using assms by (simp add: unat_mult_lem [THEN iffD1])

lemma unat_plus:
  fixes a b :: uint32
  assumes "unat a + unat b < 4294967296"
  shows "unat (a + b) = unat a + unat b"
  using assms by (simp add: unat_add_lem [THEN iffD1])

section \<open>Frames that hold their planes\<close>

text \<open>The last line of a plane ends inside it.\<close>

definition fits :: "uint32 \<Rightarrow> uint32 \<Rightarrow> int32 \<Rightarrow> int32 \<Rightarrow> int32 \<Rightarrow> bool" where
  "fits len off stride h w \<longleftrightarrow> unat off + unat stride * (unat h - 1) + unat w \<le> unat len"

definition plane_ok :: "cam_mp_len_offset \<Rightarrow> bool" where
  "plane_ok m \<longleftrightarrow> fits (mp_len m) (mp_offset m) (mp_stride m) (mp_height m) (mp_width m)"

text \<open>The planes lie one behind the other in the frame.\<close>

definition frame_ok :: "cam_frame_len_offset \<Rightarrow> bool" where
  "frame_ok p \<longleftrightarrow>
     (let ms = take (unat (num_planes p)) (mp p) in
      length ms = unat (num_planes p) \<and> list_all plane_ok ms
      \<and> (\<Sum>m\<leftarrow>ms. unat (mp_len m)) \<le> unat (frame_len p))"

definition whole_pages :: "cam_frame_len_offset \<Rightarrow> bool" where
  "whole_pages p \<longleftrightarrow> 4096 dvd unat (frame_len p)"

definition room :: "cam_frame_len_offset \<Rightarrow> bool" where
  "room p \<longleftrightarrow> length (mp p) = 8"

lemma fits_area:
  assumes "unat w \<le> unat s" and "unat h \<le> unat n" and "0 < unat h" and "unat s * unat n \<le> 4000000000"
  shows "fits (s * n) 0 s h w" and "unat (s * n) = unat s * unat n"
proof -
  show eq: "unat (s * n) = unat s * unat n"
    using assms(4) by (intro unat_times) simp
  have "unat s * (unat h - 1) + unat s = unat s * unat h"
    using assms(3) by (cases "unat h") simp_all
  also have "\<dots> \<le> unat s * unat n"
    using assms(2) by simp
  finally show "fits (s * n) 0 s h w"
    using assms(1) by (simp add: fits_def eq)
qed

lemma fits_longer: "fits l off s h w \<Longrightarrow> unat l \<le> unat l' \<Longrightarrow> fits l' off s h w"
  by (simp add: fits_def)

lemma page_size: "4096 \<in> set pad_sizes"
  by (simp add: pad_sizes_def)

lemma pages_hold:
  assumes "(\<Sum>m\<leftarrow>take n (mp p). unat (mp_len m)) \<le> 4000000000"
  shows "(\<Sum>m\<leftarrow>take n (mp p). unat (mp_len m)) \<le> unat (frame_len (pages_of_planes n p))"
    and "whole_pages (pages_of_planes n p)"
proof -
  have *: "unat (\<Sum>m\<leftarrow>ms. mp_len m) = (\<Sum>m\<leftarrow>ms. unat (mp_len m))"
    if "(\<Sum>m\<leftarrow>ms. unat (mp_len m)) \<le> 4000000000" for ms
    using that by (induction ms) (simp_all add: unat_plus)
  have le: "unat (\<Sum>m\<leftarrow>take n (mp p). mp_len m) \<le> 4000000000"
    using assms by (simp add: *)
  show "(\<Sum>m\<leftarrow>take n (mp p). unat (mp_len m)) \<le> unat (frame_len (pages_of_planes n p))"
    using pad_nat(1) [OF page_size le] assms by (simp add: * pages_of_planes_def)
  show "whole_pages (pages_of_planes n p)"
    using pad_nat(3) [OF page_size le] by (simp add: whole_pages_def pages_of_planes_def)
qed

lemma frame_okI:
  assumes "list_all plane_ok (take n (mp p))" and "n \<le> length (mp p)" and "unat (num_planes p) = n"
    and "(\<Sum>m\<leftarrow>take n (mp p). unat (mp_len m)) \<le> 4000000000"
  shows "frame_ok (pages_of_planes n p)" and "whole_pages (pages_of_planes n p)"
  using pages_hold [OF assms(4)] assms(1-3)
  by (simp_all add: frame_ok_def pages_of_planes_def min_absorb2)

lemma room_cases:
  assumes "room p"
  obtains a b c ms where "mp p = a # b # c # ms"
  using assms by (cases "mp p"; cases "tl (mp p)"; cases "tl (tl (mp p))") (simp_all add: room_def)

lemma small_lists:
  "take 2 (a # b # xs) = [a, b]" "take 3 (a # b # c # xs) = [a, b, c]"
  "(a # b # c # xs)[2 := x] = a # b # x # xs" "(a # b # c # xs) ! 2 = c"
  by (simp_all add: numeral_2_eq_2 numeral_3_eq_3)

lemma set_plane_simps [simp]:
  "mp (set_plane i l off x y st n w h p) =
     (mp p)[i := (mp p ! i)\<lparr>mp_len := l, mp_offset := off, mp_offset_x := x, mp_offset_y := y,
         mp_stride := st, mp_scanline := n, mp_width := w, mp_height := h\<rparr>]"
  "num_planes (set_plane i l off x y st n w h p) = num_planes p"
  "frame_len (set_plane i l off x y st n w h p) = frame_len p"
  "room (set_plane i l off x y st n w h p) = room p"
  "room (p\<lparr>num_planes := k\<rparr>) = room p"
  "room (p\<lparr>frame_len := l\<rparr>) = room p"
  by (simp_all add: set_plane_def room_def)

lemma two_planes:
  assumes "room p" and "fits l0 o0 s0 h0 w0" and "fits l1 o1 s1 h1 w1" and "unat l0 + unat l1 \<le> 4000000000"
  shows "frame_ok (pages_of_planes 2 (set_plane 1 l1 o1 x1 y1 s1 n1 w1 h1
           (set_plane 0 l0 o0 x0 y0 s0 n0 w0 h0 (p\<lparr>num_planes := 2\<rparr>))))" (is "frame_ok (pages_of_planes 2 ?p)")
    and "whole_pages (pages_of_planes 2 (set_plane 1 l1 o1 x1 y1 s1 n1 w1 h1
           (set_plane 0 l0 o0 x0 y0 s0 n0 w0 h0 (p\<lparr>num_planes := 2\<rparr>))))"
proof -
  obtain a b c ms where l: "mp p = a # b # c # ms"
    using assms(1) by (rule room_cases)
  show "frame_ok (pages_of_planes 2 ?p)" "whole_pages (pages_of_planes 2 ?p)"
    using assms(2-4) l by (auto intro!: frame_okI simp: plane_ok_def small_lists)
qed

lemma three_planes:
  assumes "room p" and "fits l0 o0 s0 h0 w0" and "fits l1 o1 s1 h1 w1" and "unat l0 + 2 * unat l1 \<le> 4000000000"
  shows "frame_ok (pages_of_planes 3 (set_plane 2 l1 o1 x1 y1 s1 n1 w1 h1 (set_plane 1 l1 o1 x1 y1 s1 n1 w1 h1
           (set_plane 0 l0 o0 x0 y0 s0 n0 w0 h0 (p\<lparr>num_planes := 3\<rparr>)))))" (is "frame_ok (pages_of_planes 3 ?p)")
    and "whole_pages (pages_of_planes 3 (set_plane 2 l1 o1 x1 y1 s1 n1 w1 h1 (set_plane 1 l1 o1 x1 y1 s1 n1 w1 h1
           (set_plane 0 l0 o0 x0 y0 s0 n0 w0 h0 (p\<lparr>num_planes := 3\<rparr>)))))"
proof -
  obtain a b c ms where l: "mp p = a # b # c # ms"
    using assms(1) by (rule room_cases)
  show "frame_ok (pages_of_planes 3 ?p)" "whole_pages (pages_of_planes 3 ?p)"
    using assms(2-4) l by (auto intro!: frame_okI simp: plane_ok_def small_lists)
qed

lemma one_plane:
  assumes "room p" and "fits l0 o0 s0 h0 w0" and "unat l0 \<le> 4000000000"
  shows "frame_ok (pages_of_planes 1 (set_plane 0 l0 o0 x0 y0 s0 n0 w0 h0 (p\<lparr>num_planes := 1\<rparr>)))"
      (is "frame_ok (pages_of_planes 1 ?p)")
    and "whole_pages (pages_of_planes 1 (set_plane 0 l0 o0 x0 y0 s0 n0 w0 h0 (p\<lparr>num_planes := 1\<rparr>)))"
proof -
  obtain a b c ms where l: "mp p = a # b # c # ms"
    using assms(1) by (rule room_cases)
  show "frame_ok (pages_of_planes 1 ?p)" "whole_pages (pages_of_planes 1 ?p)"
    using assms(2-3) l by (auto intro!: frame_okI simp: plane_ok_def small_lists)
qed

end
