(* ===== verification/PlaneFits.thy ===== *)
theory PlaneFits
  imports PlaneBounds
begin

text \<open>
  Each layout holds the picture: for pictures of at most 8192 pixels a side and the paddings of
  \<open>cam_pad_format_t\<close>, every plane has room for its lines, with the margin around them, and the frame is
  long enough for its planes.
\<close>

section \<open>The sizes that occur\<close>

definition picture :: "cam_dimension \<Rightarrow> bool" where
  "picture d \<longleftrightarrow> 2 \<le> unat (dim_width d) \<and> unat (dim_width d) \<le> 8192 \<and> even (unat (dim_width d))
     \<and> 2 \<le> unat (dim_height d) \<and> unat (dim_height d) \<le> 8192"

definition pads :: "cam_padding_info \<Rightarrow> bool" where
  "pads pad \<longleftrightarrow> width_padding pad \<in> set pad_sizes \<and> height_padding pad \<in> set pad_sizes
     \<and> plane_padding pad \<in> set pad_sizes
     \<and> unat (min_stride pad) \<le> 8192 \<and> unat (min_scanline pad) \<le> 8192
     \<and> unat (pad_offset_x pad) \<le> 1024 \<and> unat (pad_offset_y pad) \<le> 1024"

definition holds :: "cam_frame_len_offset \<Rightarrow> bool" where
  "holds p \<longleftrightarrow> frame_ok p \<and> whole_pages p"

lemma pad_sizes_mem [simp]:
  "2 \<in> set pad_sizes" "4 \<in> set pad_sizes" "8 \<in> set pad_sizes" "16 \<in> set pad_sizes" "32 \<in> set pad_sizes"
  "64 \<in> set pad_sizes" "2048 \<in> set pad_sizes" "4096 \<in> set pad_sizes"
  by (simp_all add: pad_sizes_def)

lemma pad_sizes_le: "p \<in> set pad_sizes \<Longrightarrow> unat p \<le> 8192"
  by (auto simp: pad_sizes_def)

lemma pad_le:
  assumes "p \<in> set pad_sizes" and "unat s \<le> 4000000000"
  shows "unat (PAD_TO_SIZE s p) \<le> unat s + 8191"
  using pad_nat(2) [OF assms] pad_sizes_le [OF assms(1)] by simp

lemma pad_aligned:
  assumes "p \<in> set pad_sizes" and "unat s \<le> 4000000000" and "unat p dvd unat s"
  shows "unat (PAD_TO_SIZE s p) = unat s"
proof -
  note n = pad_nat [OF assms(1,2)]
  have "unat p dvd unat (PAD_TO_SIZE s p) - unat s"
    using n(3) assms(3) by (rule dvd_diff_nat)
  then have "unat (PAD_TO_SIZE s p) - unat s = 0"
    using n(1,2) by (auto dest: dvd_imp_le)
  with n(1) show ?thesis
    by simp
qed

lemma area_le:
  assumes "unat s \<le> 16384" and "unat n \<le> 16384"
  shows "unat s * unat n \<le> 268435456"
  using mult_le_mono [OF assms] by simp

text \<open>A padded side of a picture.\<close>

lemma side:
  assumes "p \<in> set pad_sizes" and "unat s \<le> 8192"
  shows "unat s \<le> unat (PAD_TO_SIZE s p)" and "unat (PAD_TO_SIZE s p) \<le> 16384"
  using pad_nat(1) [OF assms(1), of s] pad_le [OF assms(1), of s] assms(2) by simp_all

lemma half: "unat a < 2147483648 \<Longrightarrow> unat (quot a 2) = unat a div 2"
  using unat_quot [of a 2] by simp

section \<open>Layouts without a margin\<close>

lemma two_areas:
  assumes "room p" and "unat w0 \<le> unat s0" "unat h0 \<le> unat n0" "0 < unat h0" "unat s0 \<le> 16384" "unat n0 \<le> 16384"
    and "unat w1 \<le> unat s1" "unat h1 \<le> unat n1" "0 < unat h1" "unat s1 \<le> 16384" "unat n1 \<le> 16384"
  shows "holds (pages_of_planes 2 (set_plane 1 (s1 * n1) 0 x1 y1 s1 n1 w1 h1
           (set_plane 0 (s0 * n0) 0 x0 y0 s0 n0 w0 h0 (p\<lparr>num_planes := 2\<rparr>))))"
proof -
  note a = area_le [OF assms(5,6)] and b = area_le [OF assms(10,11)]
  have f: "fits (s0 * n0) 0 s0 h0 w0" "unat (s0 * n0) = unat s0 * unat n0"
    using fits_area [OF assms(2-4)] a by simp_all
  have g: "fits (s1 * n1) 0 s1 h1 w1" "unat (s1 * n1) = unat s1 * unat n1"
    using fits_area [OF assms(7-9)] b by simp_all
  have l: "unat (s0 * n0) + unat (s1 * n1) \<le> 4000000000"
    using f(2) g(2) a b by simp
  show ?thesis
    using two_planes [OF assms(1) f(1) g(1) l] by (simp add: holds_def)
qed

lemma two_padded_areas:
  assumes "room p" and "pp \<in> set pad_sizes"
    and "unat w0 \<le> unat s0" "unat h0 \<le> unat n0" "0 < unat h0" "unat s0 \<le> 16384" "unat n0 \<le> 16384"
    and "unat w1 \<le> unat s1" "unat h1 \<le> unat n1" "0 < unat h1" "unat s1 \<le> 16384" "unat n1 \<le> 16384"
  shows "holds (pages_of_planes 2 (set_plane 1 (PAD_TO_SIZE (s1 * n1) pp) 0 x1 y1 s1 n1 w1 h1
           (set_plane 0 (PAD_TO_SIZE (s0 * n0) pp) 0 x0 y0 s0 n0 w0 h0 (p\<lparr>num_planes := 2\<rparr>))))"
proof -
  note a = area_le [OF assms(6,7)] and b = area_le [OF assms(11,12)]
  have f: "fits (s0 * n0) 0 s0 h0 w0" "unat (s0 * n0) = unat s0 * unat n0"
    using fits_area [OF assms(3-5)] a by simp_all
  have g: "fits (s1 * n1) 0 s1 h1 w1" "unat (s1 * n1) = unat s1 * unat n1"
    using fits_area [OF assms(8-10)] b by simp_all
  have le: "unat (s0 * n0) \<le> 300000000" "unat (s1 * n1) \<le> 300000000"
    using f(2) g(2) a b by simp_all
  have l: "unat (PAD_TO_SIZE (s0 * n0) pp) + unat (PAD_TO_SIZE (s1 * n1) pp) \<le> 4000000000"
    using pad_le [OF assms(2), of "s0 * n0"] pad_le [OF assms(2), of "s1 * n1"] le by simp
  have "fits (PAD_TO_SIZE (s0 * n0) pp) 0 s0 h0 w0" "fits (PAD_TO_SIZE (s1 * n1) pp) 0 s1 h1 w1"
    using f(1) g(1) pad_nat(1) [OF assms(2), of "s0 * n0"] pad_nat(1) [OF assms(2), of "s1 * n1"] le
    by (auto elim!: fits_longer)
  then show ?thesis
    using two_planes [OF assms(1) _ _ l] by (simp add: holds_def)
qed

lemma preview_nv12_holds:
  assumes "picture d" and "pads pad" and "room p"
  shows "holds (preview_nv12 offline d pad p)"
proof -
  define hp where "hp = (if offline then height_padding pad else 2)"
  have hp: "hp \<in> set pad_sizes"
    using assms(2) by (simp add: hp_def pads_def)
  have w: "unat (dim_width d) \<le> 8192" and h: "unat (dim_height d) \<le> 8192" "2 \<le> unat (dim_height d)"
    using assms(1) by (simp_all add: picture_def)
  have h2: "unat (quot (dim_height d) 2) \<le> 8192" "0 < unat (quot (dim_height d) 2)"
    using h by (simp_all add: half)
  have wp: "width_padding pad \<in> set pad_sizes"
    using assms(2) by (simp add: pads_def)
  show ?thesis
    unfolding preview_nv12_def Let_def hp_def [symmetric]
    by (rule two_areas [OF assms(3)])
      (use side [OF hp h(1)] side [OF wp w] side [OF hp h2(1)] h h2 in \<open>simp_all\<close>)
qed

lemma postview_nv12_holds:
  assumes "picture d" and "room p"
  shows "holds (postview_nv12 d p)"
proof -
  have w: "unat (dim_width d) \<le> 8192" and h: "unat (dim_height d) \<le> 8192" "2 \<le> unat (dim_height d)"
    using assms(1) by (simp_all add: picture_def)
  have h2: "unat (quot (dim_height d) 2) \<le> 8192" "0 < unat (quot (dim_height d) 2)"
    using h by (simp_all add: half)
  show ?thesis
    unfolding postview_nv12_def Let_def
    by (rule two_areas [OF assms(2)])
      (use side [OF _ h(1), of 64] side [OF _ w, of 64] side [OF _ h2(1), of 64] h h2 in \<open>simp_all\<close>)
qed

lemma video_nv12_holds:
  assumes "picture d" and "room p"
  shows "holds (video_nv12 d p)"
proof -
  have w: "unat (dim_width d) \<le> 8192" and h: "unat (dim_height d) \<le> 8192" "2 \<le> unat (dim_height d)"
    using assms(1) by (simp_all add: picture_def)
  then have "unat (quot (dim_height d) 2) \<le> 8192" "0 < unat (quot (dim_height d) 2)"
    by (simp_all add: half)
  with w h show ?thesis
    unfolding video_nv12_def Let_def by (intro two_padded_areas [OF assms(2)]) simp_all
qed

text \<open>The dimension of the luma plane is at least that of the picture.\<close>

definition luma_ok :: "cam_dimension \<Rightarrow> int32 \<times> int32 \<Rightarrow> bool" where
  "luma_ok d l \<longleftrightarrow> unat (dim_width d) \<le> unat (fst l) \<and> unat (fst l) \<le> 16384
     \<and> unat (dim_height d) \<le> unat (snd l) \<and> unat (snd l) \<le> 16384"

lemma luma_ok_padded: "picture d \<Longrightarrow> pads pad \<Longrightarrow> luma_ok d (padded d pad)"
  using side [of "width_padding pad" "dim_width d"] side [of "height_padding pad" "dim_height d"]
  by (simp add: luma_ok_def padded_def picture_def pads_def)

lemma luma_ok_pads:
  assumes "picture d" and "a \<in> set pad_sizes" and "b \<in> set pad_sizes"
  shows "luma_ok d (PAD_TO_SIZE (dim_width d) a, PAD_TO_SIZE (dim_height d) b)"
    "luma_ok d (PAD_TO_SIZE (dim_width d) a, dim_height d)"
  using side [OF assms(2), of "dim_width d"] side [OF assms(3), of "dim_height d"] assms(1)
  by (simp_all add: luma_ok_def picture_def)

lemma nv16_planes_hold:
  assumes "picture d" and "luma_ok d l" and "room p"
  shows "holds (nv16_planes l d p)"
proof -
  obtain s n where l: "l = (s, n)"
    by force
  show ?thesis
    unfolding nv16_planes_def l prod.case Let_def
    by (rule two_areas [OF assms(3)]) (use assms(1,2) in \<open>simp_all add: l picture_def luma_ok_def\<close>)
qed

lemma even_half:
  assumes "even (unat w)" and "unat w \<le> 8192"
  shows "unat w \<le> unat (PAD_TO_SIZE (quot w 2) 32 * 2)" and "unat (PAD_TO_SIZE (quot w 2) 32 * 2) \<le> 16384"
proof -
  have h: "unat (quot w 2) = unat w div 2"
    using assms(2) by (simp add: half)
  then have "unat (quot w 2) \<le> 4096"
    using assms(2) by simp
  then have n: "unat (quot w 2) \<le> unat (PAD_TO_SIZE (quot w 2) 32)" "unat (PAD_TO_SIZE (quot w 2) 32) < unat (quot w 2) + 32"
      "32 dvd unat (PAD_TO_SIZE (quot w 2) 32)"
    using pad_nat [of 32 "quot w 2"] by simp_all
  have "unat (PAD_TO_SIZE (quot w 2) 32 * 2) = unat (PAD_TO_SIZE (quot w 2) 32) * 2"
    using unat_times [of "PAD_TO_SIZE (quot w 2) 32" 2] n(2) h assms(2) by simp
  moreover have "unat w = unat w div 2 * 2"
    using assms(1) by simp
  ultimately show "unat w \<le> unat (PAD_TO_SIZE (quot w 2) 32 * 2)" "unat (PAD_TO_SIZE (quot w 2) 32 * 2) \<le> 16384"
    using n(1,2) h assms(2) by linarith+
qed

lemma adreno_planes_hold:
  assumes "picture d" and "luma_ok d l" and "room p"
  shows "holds (adreno_planes l d p)"
proof -
  have w: "even (unat (dim_width d))" "unat (dim_width d) \<le> 8192"
    and h: "unat (dim_height d) \<le> 8192" "2 \<le> unat (dim_height d)"
    using assms(1) by (simp_all add: picture_def)
  have h2: "unat (quot (dim_height d) 2) \<le> 8192" "0 < unat (quot (dim_height d) 2)"
    using h by (simp_all add: half)
  obtain s n where l: "l = (s, n)"
    by force
  show ?thesis
    unfolding adreno_planes_def l prod.case Let_def
    by (rule two_padded_areas [OF assms(3)])
      (use assms(2) h2 h even_half [OF w] side [OF _ h2(1), of 32] in \<open>simp_all add: l luma_ok_def\<close>)
qed

lemma yv12_planes_hold:
  assumes "picture d" and "luma_ok d l" and "room p"
  shows "holds (yv12_planes l d p)"
proof -
  obtain s n where l: "l = (s, n)"
    by force
  have d: "unat (dim_width d) \<le> unat s" "unat s \<le> 16384" "unat (dim_height d) \<le> unat n" "unat n \<le> 16384"
    "2 \<le> unat (dim_height d)" "unat (dim_width d) \<le> 8192" "unat (dim_height d) \<le> 8192"
    using assms(1,2) by (simp_all add: l luma_ok_def picture_def)
  let ?s = "PAD_TO_SIZE (quot s 2) 16" and ?n = "quot n 2"
  have s: "unat (quot s 2) \<le> 8192"
    using d by (simp add: half)
  have a: "unat s * unat n \<le> 268435456" "unat ?s * unat ?n \<le> 268435456"
    using area_le [of s n] area_le [of ?s ?n] side(2) [OF _ s, of 16] d by (simp_all add: half)
  have f: "fits (s * n) 0 s (dim_height d) (dim_width d)" "unat (s * n) = unat s * unat n"
    using fits_area [of "dim_width d" s "dim_height d" n] a d by simp_all
  have "unat (quot (dim_width d) 2) \<le> unat ?s"
    using side(1) [OF _ s, of 16] d div_le_mono [OF d(1), of 2] by (simp add: half)
  moreover have "unat (quot (dim_height d) 2) \<le> unat ?n" "0 < unat (quot (dim_height d) 2)"
    using d by (simp_all add: half div_le_mono)
  ultimately have g: "fits (?s * ?n) 0 ?s (quot (dim_height d) 2) (quot (dim_width d) 2)"
      "unat (?s * ?n) = unat ?s * unat ?n"
    using fits_area [of "quot (dim_width d) 2" ?s "quot (dim_height d) 2" ?n] a by simp_all
  have le: "unat (s * n) + 2 * unat (?s * ?n) \<le> 4000000000"
    using f(2) g(2) a by simp
  show ?thesis
    using three_planes [OF assms(3) f(1) g(1) le] by (simp add: yv12_planes_def l Let_def holds_def)
qed

section \<open>Layouts with a margin\<close>

text \<open>The picture lies \<open>y\<close> lines and \<open>x\<close> columns inside its plane.\<close>

lemma margin_fits:
  assumes pp: "pp \<in> set pad_sizes" "unat pp dvd unat x" "unat pp dvd unat y"
    and "unat x + unat w \<le> unat s" "unat y + unat h \<le> unat n" "0 < unat h" "unat s \<le> 36000" "unat n \<le> 36000"
  shows "fits (PAD_TO_SIZE (s * n) pp) (PAD_TO_SIZE (x + s * y) pp) s h w"
    and "unat (PAD_TO_SIZE (s * n) pp) \<le> unat s * unat n + 8191"
proof -
  have a: "unat s * unat n \<le> 1296000000"
    using mult_le_mono [OF assms(7,8)] by simp
  have b: "unat s * unat y \<le> 1296000000"
    using mult_le_mono [of "unat s" 36000 "unat y" 36000] assms(5,7,8) by simp
  have sn: "unat (s * n) = unat s * unat n" and sy: "unat (s * y) = unat s * unat y"
    using a b by (simp_all add: unat_times)
  have x: "unat x \<le> 36000"
    using assms(4,7) by simp
  have off: "unat (x + s * y) = unat x + unat s * unat y"
    using unat_plus [of x "s * y"] sy b x by simp
  have al: "unat (PAD_TO_SIZE (x + s * y) pp) = unat x + unat s * unat y"
    using pad_aligned [OF pp(1), of "x + s * y"] pp(2,3) off b x by simp
  have len: "unat s * unat n \<le> unat (PAD_TO_SIZE (s * n) pp)"
    using pad_nat(1) [OF pp(1), of "s * n"] sn a by simp
  have "unat x + unat s * unat y + unat s * (unat h - 1) + unat w \<le> unat s * unat y + unat s * (unat h - 1) + unat s"
    using assms(4) by simp
  also have "\<dots> = unat s * (unat y + unat h)"
    using assms(6) by (cases "unat h") (simp_all add: algebra_simps)
  also have "\<dots> \<le> unat s * unat n"
    using assms(5) by (rule mult_le_mono2)
  finally show "fits (PAD_TO_SIZE (s * n) pp) (PAD_TO_SIZE (x + s * y) pp) s h w"
    using len by (simp add: fits_def al)
  show "unat (PAD_TO_SIZE (s * n) pp) \<le> unat s * unat n + 8191"
    using pad_le [OF pp(1), of "s * n"] sn a by simp
qed

text \<open>The margin, and the dimension of the luma plane with the margin on both sides.\<close>

definition margin_ok :: "cam_dimension \<Rightarrow> uint32 \<Rightarrow> int32 \<Rightarrow> int32 \<Rightarrow> int32 \<Rightarrow> int32 \<Rightarrow> bool" where
  "margin_ok d pp x y s n \<longleftrightarrow> pp \<in> set pad_sizes \<and> unat pp dvd unat x \<and> unat pp dvd unat y
     \<and> unat (dim_width d) + 2 * unat x \<le> unat s \<and> unat (dim_height d) + 2 * unat y \<le> unat n
     \<and> unat s \<le> 36000 \<and> unat n \<le> 36000"

lemma product_le: "a \<le> A \<Longrightarrow> b \<le> B \<Longrightarrow> a * b \<le> A * (B::nat)"
  by (rule mult_le_mono)

lemma halves: "a + 2 * b \<le> (c::nat) \<Longrightarrow> b + a div 2 \<le> c div 2" "c \<le> 36000 \<Longrightarrow> c div 2 \<le> 18000"
  by linarith+

lemma margin_nv12_holds:
  assumes "picture d" and "margin_ok d pp x y s n" and "room p"
  shows "holds (margin_nv12 pp x y s n d p)"
proof -
  note m = assms(2) [unfolded margin_ok_def]
  have h: "2 \<le> unat (dim_height d)" "unat (dim_height d) \<le> 8192"
    using assms(1) by (simp_all add: picture_def)
  have n2: "unat (quot n 2) = unat n div 2" "unat (quot (dim_height d) 2) = unat (dim_height d) div 2"
    using m h by (simp_all add: half)
  have hv: "unat y + unat (dim_height d) div 2 \<le> unat n div 2" "unat n div 2 \<le> 18000"
    using m by (simp_all add: halves)
  have f: "fits (PAD_TO_SIZE (s * n) pp) (PAD_TO_SIZE (x + s * y) pp) s (dim_height d) (dim_width d)"
      "unat (PAD_TO_SIZE (s * n) pp) \<le> unat s * unat n + 8191"
    using margin_fits [of pp x y "dim_width d" s "dim_height d" n] m h by simp_all
  have g: "fits (PAD_TO_SIZE (s * quot n 2) pp) (PAD_TO_SIZE (x + s * y) pp) s (quot (dim_height d) 2) (dim_width d)"
      "unat (PAD_TO_SIZE (s * quot n 2) pp) \<le> unat s * unat (quot n 2) + 8191"
    using margin_fits [of pp x y "dim_width d" s "quot (dim_height d) 2" "quot n 2"] m h n2 hv by simp_all
  have le: "unat (PAD_TO_SIZE (s * n) pp) + unat (PAD_TO_SIZE (s * quot n 2) pp) \<le> 4000000000"
    using f(2) g(2) product_le [of "unat s" 36000 "unat n" 36000]
      product_le [of "unat s" 36000 "unat (quot n 2)" 18000] m n2 hv by simp
  show ?thesis
    using two_planes [OF assms(3) f(1) g(1) le] by (simp add: margin_nv12_def margin_plane_def holds_def)
qed

lemma margin_nv16_holds:
  assumes "picture d" and "margin_ok d pp x y s n" and "room p"
  shows "holds (margin_nv16 pp x y s n d p)"
proof -
  note m = assms(2) [unfolded margin_ok_def]
  have f: "fits (PAD_TO_SIZE (s * n) pp) (PAD_TO_SIZE (x + s * y) pp) s (dim_height d) (dim_width d)"
      "unat (PAD_TO_SIZE (s * n) pp) \<le> unat s * unat n + 8191"
    using margin_fits [of pp x y "dim_width d" s "dim_height d" n] m assms(1) by (simp_all add: picture_def)
  have le: "unat (PAD_TO_SIZE (s * n) pp) + unat (PAD_TO_SIZE (s * n) pp) \<le> 4000000000"
    using f(2) product_le [of "unat s" 36000 "unat n" 36000] m by simp
  show ?thesis
    using two_planes [OF assms(3) f(1) f(1) le]
    by (simp add: margin_nv16_def margin_plane_def Let_def holds_def)
qed

lemma margin_yv12_holds:
  assumes "picture d" and "margin_ok d pp x y s n" and "room p"
  shows "holds (margin_yv12 pp x y s n d p)"
proof -
  note m = assms(2) [unfolded margin_ok_def]
  let ?s = "PAD_TO_SIZE (quot s 2) 16" and ?n = "quot n 2" and ?w = "quot (dim_width d) 2" and ?h = "quot (dim_height d) 2"
  have h: "2 \<le> unat (dim_height d)" "unat (dim_height d) \<le> 8192" "unat (dim_width d) \<le> 8192"
    using assms(1) by (simp_all add: picture_def)
  have q: "unat ?n = unat n div 2" "unat ?h = unat (dim_height d) div 2" "unat ?w = unat (dim_width d) div 2"
      "unat (quot s 2) = unat s div 2"
    using m h by (simp_all add: half)
  have hv: "unat y + unat (dim_height d) div 2 \<le> unat n div 2" "unat n div 2 \<le> 18000"
      "unat x + unat (dim_width d) div 2 \<le> unat s div 2" "unat s div 2 \<le> 18000"
    using m by (simp_all add: halves)
  then have s: "unat (quot s 2) \<le> unat ?s" "unat ?s \<le> 26191"
    using pad_nat(1) [of 16 "quot s 2"] pad_le [of 16 "quot s 2"] q by simp_all
  have f: "fits (PAD_TO_SIZE (s * n) pp) (PAD_TO_SIZE (x + s * y) pp) s (dim_height d) (dim_width d)"
      "unat (PAD_TO_SIZE (s * n) pp) \<le> unat s * unat n + 8191"
    using margin_fits [of pp x y "dim_width d" s "dim_height d" n] m h by simp_all
  have g: "fits (PAD_TO_SIZE (?s * ?n) pp) (PAD_TO_SIZE (x + ?s * y) pp) ?s ?h ?w"
      "unat (PAD_TO_SIZE (?s * ?n) pp) \<le> unat ?s * unat ?n + 8191"
    using margin_fits [of pp x y ?w ?s ?h ?n] m h q s hv by simp_all
  have le: "unat (PAD_TO_SIZE (s * n) pp) + 2 * unat (PAD_TO_SIZE (?s * ?n) pp) \<le> 4000000000"
    using f(2) g(2) product_le [of "unat s" 36000 "unat n" 36000]
      product_le [of "unat ?s" 26191 "unat ?n" 18000] m q s hv by simp
  show ?thesis
    using three_planes [OF assms(3) f(1) g(1) le]
    by (simp add: margin_yv12_def margin_plane_def Let_def holds_def)
qed

lemma analysis_y_only_holds:
  assumes "picture d" and "margin_ok d pp 0 0 s n" and "room p"
  shows "holds (analysis_y_only pp s n d p)"
proof -
  note m = assms(2) [unfolded margin_ok_def]
  have f: "fits (PAD_TO_SIZE (s * n) pp) (PAD_TO_SIZE (0 + s * 0) pp) s (dim_height d) (dim_width d)"
      "unat (PAD_TO_SIZE (s * n) pp) \<le> unat s * unat n + 8191"
    using margin_fits [of pp 0 0 "dim_width d" s "dim_height d" n] m assms(1) by (simp_all add: picture_def)
  have le: "unat (PAD_TO_SIZE (s * n) pp) \<le> 4000000000"
    using f(2) product_le [of "unat s" 36000 "unat n" 36000] m by simp
  show ?thesis
    using one_plane [OF assms(3) f(1) le]
    by (simp only: analysis_y_only_def margin_plane_def holds_def simp_thms)
qed

lemma snapshot_margin_ok:
  assumes "picture d" and "pads pad" and "\<not> USE_A_FAMILY P" and "snapshot_margin P d pad = (x, y, s, n)"
  shows "margin_ok d (plane_padding pad) x y s n"
proof -
  have pp: "plane_padding pad \<in> set pad_sizes" "width_padding pad \<in> set pad_sizes" "height_padding pad \<in> set pad_sizes"
    and o: "unat (pad_offset_x pad) \<le> 1024" "unat (pad_offset_y pad) \<le> 1024"
    using assms(2) by (simp_all add: pads_def)
  have d: "unat (dim_width d) \<le> 8192" "unat (dim_height d) \<le> 8192"
    using assms(1) by (simp_all add: picture_def)
  have xy: "x = PAD_TO_SIZE (pad_offset_x pad) (plane_padding pad)" "y = PAD_TO_SIZE (pad_offset_y pad) (plane_padding pad)"
      "s = PAD_TO_SIZE (dim_width d + 2 * x) (width_padding pad)" "n = PAD_TO_SIZE (dim_height d + 2 * y) (height_padding pad)"
    using assms(3,4) by (auto simp: snapshot_margin_def Let_def)
  have "unat x \<le> 9215" "unat y \<le> 9215" "unat (plane_padding pad) dvd unat x" "unat (plane_padding pad) dvd unat y"
    using pad_le [OF pp(1), of "pad_offset_x pad"] pad_le [OF pp(1), of "pad_offset_y pad"]
      pad_nat(3) [OF pp(1), of "pad_offset_x pad"] pad_nat(3) [OF pp(1), of "pad_offset_y pad"] o
    by (simp_all add: xy(1,2))
  moreover from this have "unat (dim_width d + 2 * x) = unat (dim_width d) + 2 * unat x"
      "unat (dim_height d + 2 * y) = unat (dim_height d) + 2 * unat y"
    using d by (simp_all add: unat_plus unat_times)
  ultimately show ?thesis
    using pad_nat(1) [OF pp(2), of "dim_width d + 2 * x"] pad_le [OF pp(2), of "dim_width d + 2 * x"]
      pad_nat(1) [OF pp(3), of "dim_height d + 2 * y"] pad_le [OF pp(3), of "dim_height d + 2 * y"] d pp
    by (simp add: margin_ok_def xy(3,4))
qed

lemma analysis_dim_ok:
  assumes "picture d" and "pads pad" and "analysis_dim d pad = (s, n)"
  shows "margin_ok d (plane_padding pad) 0 0 s n"
proof -
  define w where "w = (if dim_width d < min_stride pad then min_stride pad else dim_width d)"
  define h where "h = (if dim_height d < min_scanline pad then min_scanline pad else dim_height d)"
  have wh: "unat (dim_width d) \<le> unat w" "unat w \<le> 8192" "unat (dim_height d) \<le> unat h" "unat h \<le> 8192"
    using assms(1,2) by (auto simp: w_def h_def picture_def pads_def word_less_nat_alt)
  have "s = PAD_TO_SIZE w (width_padding pad)" "n = PAD_TO_SIZE h (height_padding pad)"
    using assms(3) by (auto simp: analysis_dim_def w_def h_def)
  then show ?thesis
    using side [of "width_padding pad" w] side [of "height_padding pad" h] wh assms(2)
    by (simp add: margin_ok_def pads_def)
qed

section \<open>All layouts\<close>

text \<open>The formats of the encoder, whose layout the kernel's macros give.\<close>

definition encoder_formats :: "cam_format list" where
  "encoder_formats = [CAM_FORMAT_YUV_420_NV12_VENUS, CAM_FORMAT_YUV_420_NV21_VENUS, CAM_FORMAT_YUV_420_NV12_UBWC]"

definition picture_types :: "cam_stream_type list" where
  "picture_types = [CAM_STREAM_TYPE_PREVIEW, CAM_STREAM_TYPE_POSTVIEW, CAM_STREAM_TYPE_SNAPSHOT,
     CAM_STREAM_TYPE_CALLBACK, CAM_STREAM_TYPE_VIDEO, CAM_STREAM_TYPE_ANALYSIS, CAM_STREAM_TYPE_OFFLINE_PROC]"

lemma preview_holds:
  assumes "picture d" and "pads pad" and "room p" and "fmt info \<notin> set encoder_formats"
    and "mm_stream_calc_offset_preview P info d pad p = (0, q)"
  shows "holds q"
  using assms(4,5)
  by (auto simp: mm_stream_calc_offset_preview_def encoder_formats_def Let_def y_only_def
      preview_nv12_holds [OF assms(1-3)]
      adreno_planes_hold [OF assms(1) _ assms(3)] yv12_planes_hold [OF assms(1) _ assms(3)]
      nv16_planes_hold [OF assms(1) _ assms(3)] luma_ok_padded [OF assms(1,2)] luma_ok_pads [OF assms(1), of _ 2]
      luma_ok_pads [OF assms(1), of _ 32] split: if_splits)

lemma post_view_holds:
  assumes "picture d" and "room p" and "f \<notin> set encoder_formats"
    and "mm_stream_calc_offset_post_view P f d p = (0, q)"
  shows "holds q"
  using assms(3,4)
  by (auto simp: mm_stream_calc_offset_post_view_def encoder_formats_def Let_def y_only_def
      postview_nv12_holds [OF assms(1,2)]
      adreno_planes_hold [OF assms(1) _ assms(2)] yv12_planes_hold [OF assms(1) _ assms(2)]
      nv16_planes_hold [OF assms(1) _ assms(2)] luma_ok_pads [OF assms(1), of _ 2]
      luma_ok_pads [OF assms(1), of _ 32] split: if_splits)

lemma snapshot_holds:
  assumes "picture d" and "pads pad" and "room p" and "\<not> USE_A_FAMILY P" and "f \<notin> set encoder_formats"
    and "mm_stream_calc_offset_snapshot P f d pad p = (0, q)"
  shows "holds q"
proof -
  obtain x y s n where m: "snapshot_margin P d pad = (x, y, s, n)"
    by (cases "snapshot_margin P d pad") auto
  note ok = snapshot_margin_ok [OF assms(1,2,4) m]
  show ?thesis
    using assms(5,6)
    by (auto simp: mm_stream_calc_offset_snapshot_def m encoder_formats_def y_only_def
        margin_nv12_holds [OF assms(1) ok assms(3)] margin_yv12_holds [OF assms(1) ok assms(3)]
        margin_nv16_holds [OF assms(1) ok assms(3)] split: if_splits)
qed

lemma analysis_holds:
  assumes "picture d" and "pads pad" and "room p" and "f \<notin> set encoder_formats"
    and "mm_stream_calc_offset_analysis P f d pad p = (0, q)"
  shows "holds q"
proof -
  obtain s n where m: "analysis_dim d pad = (s, n)"
    by force
  note ok = analysis_dim_ok [OF assms(1,2) m]
  show ?thesis
    using assms(4,5)
    by (auto simp: mm_stream_calc_offset_analysis_def m encoder_formats_def y_only_def
        margin_nv12_holds [OF assms(1) ok assms(3)] margin_yv12_holds [OF assms(1) ok assms(3)]
        margin_nv16_holds [OF assms(1) ok assms(3)] analysis_y_only_holds [OF assms(1) ok assms(3)]
        split: if_splits)
qed

lemma video_holds:
  assumes "picture d" and "room p" and "f \<notin> set encoder_formats"
    and "mm_stream_calc_offset_video P f d p = (0, q)"
  shows "holds q"
  using assms(3,4)
  by (auto simp: mm_stream_calc_offset_video_def encoder_formats_def y_only_def video_nv12_holds [OF assms(1,2)]
      split: if_splits)

lemma calc_offset_of_holds:
  assumes "picture d" and "pads pad" and "room p" and "\<not> USE_A_FAMILY P" and "fmt info \<notin> set encoder_formats"
    and "ty \<in> set picture_types" and "calc_offset_of P ty info d pad p = (0, q)"
  shows "holds q"
  using assms(6,7)
  by (auto simp: picture_types_def calc_offset_of_def
      intro: preview_holds [OF assms(1-3,5)] post_view_holds [OF assms(1,3,5)]
        snapshot_holds [OF assms(1-5)] analysis_holds [OF assms(1-3,5)] video_holds [OF assms(1,3,5)])

end
