(* ===== verification/PlaneRaw.thy ===== *)
theory PlaneRaw
  imports PlaneFits
begin

text \<open>
  The packed raw formats: a line has room for the bits of its pixels.  Then the planes of the encoder's
  formats, which fill the frame the kernel's macro sizes, the formats that are refused, and the loop that finds
  a least common multiple.
\<close>

section \<open>Raw lines\<close>

text \<open>The bits of a pixel, after the name of the format.\<close>

definition raw_bits :: "cam_format \<Rightarrow> nat" where
  "raw_bits f =
     (if f = CAM_FORMAT_JPEG_RAW_8BIT \<or> f = CAM_FORMAT_META_RAW_8BIT \<or> f \<in> set raw_8 then 8
      else if f \<in> set raw_qcom_10 \<or> f \<in> set raw_mipi_10 then 10
      else if f \<in> set raw_qcom_12 \<or> f \<in> set raw_mipi_12 then 12
      else if f \<in> set raw_mipi_14 \<or> f \<in> set raw_qcom_14 then 14
      else 16)"

definition line_ok :: "nat \<Rightarrow> nat \<Rightarrow> int32 \<times> int32 \<Rightarrow> bool" where
  "line_ok bits w l \<longleftrightarrow> w \<le> unat (fst l) \<and> bits * w \<le> 8 * unat (snd l) \<and> unat (snd l) \<le> 40000"

lemma unat_quot_numeral:
  "unat a < 2147483648 \<Longrightarrow> unat (quot a 12) = unat a div 12"
  "unat a < 2147483648 \<Longrightarrow> unat (quot a 6) = unat a div 6"
  "unat a < 2147483648 \<Longrightarrow> unat (quot a 10) = unat a div 10"
  "unat a < 2147483648 \<Longrightarrow> unat (quot a 5) = unat a div 5"
  "unat a < 2147483648 \<Longrightarrow> unat (quot a 4) = unat a div 4"
  using unat_quot [of a 12] unat_quot [of a 6] unat_quot [of a 10] unat_quot [of a 5] unat_quot [of a 4]
  by simp_all

lemma unat_times_numeral:
  fixes a :: int32
  assumes "unat a \<le> 100000"
  shows "unat (a * 2) = unat a * 2" "unat (a * 3) = unat a * 3" "unat (a * 5) = unat a * 5" "unat (a * 7) = unat a * 7"
    "unat (a * 8) = unat a * 8" "unat (a * 10) = unat a * 10" "unat (a * 12) = unat a * 12"
  using assms by (simp_all add: unat_times)

lemma line_doubled:
  assumes "p \<in> set pad_sizes" and "unat w \<le> 8192" and "bits \<le> 16"
  shows "line_ok bits (unat w) (PAD_TO_SIZE w p, PAD_TO_SIZE w p * 2)"
proof -
  note s = side [OF assms(1,2)]
  have "bits * unat w \<le> 16 * unat (PAD_TO_SIZE w p)"
    using assms(3) s(1) by (rule mult_le_mono)
  with s show ?thesis
    by (simp add: line_ok_def unat_times_numeral)
qed

lemma line_bytes:
  assumes "p \<in> set pad_sizes" and "unat w \<le> 8192"
  shows "line_ok 8 (unat w) (PAD_TO_SIZE w p, PAD_TO_SIZE w p)"
  using side [OF assms] by (simp add: line_ok_def)

lemma line_qcom_10:
  assumes "unat w \<le> 8192"
  shows "line_ok 10 (unat w) (quot (w + 11) 12 * 12, quot (quot (w + 11) 12 * 12 * 8) 6)"
proof -
  define k where "k = (unat w + 11) div 12"
  define s where "s = quot (w + 11) 12 * 12"
  have "unat (quot (w + 11) 12) = k"
    using assms by (simp add: k_def unat_quot_numeral unat_plus)
  moreover have k: "unat w \<le> 12 * k" "12 * k \<le> unat w + 11"
    by (simp_all add: k_def)
  ultimately have s: "unat s = 12 * k"
    using assms by (simp add: s_def unat_times_numeral)
  then have "unat (quot (s * 8) 6) = 16 * k"
    using assms k by (simp add: unat_quot_numeral unat_times_numeral)
  then show ?thesis
    using assms k by (simp add: line_ok_def s flip: s_def)
qed

lemma line_qcom_12:
  assumes "unat w \<le> 8192"
  shows "line_ok 12 (unat w) (quot (w + 9) 10 * 10, quot (quot (w + 9) 10 * 10 * 8) 5)"
proof -
  define k where "k = (unat w + 9) div 10"
  define s where "s = quot (w + 9) 10 * 10"
  have "unat (quot (w + 9) 10) = k"
    using assms by (simp add: k_def unat_quot_numeral unat_plus)
  moreover have k: "unat w \<le> 10 * k" "10 * k \<le> unat w + 9"
    by (simp_all add: k_def)
  ultimately have s: "unat s = 10 * k"
    using assms by (simp add: s_def unat_times_numeral)
  then have "unat (quot (s * 8) 5) = 16 * k"
    using assms k by (simp add: unat_quot_numeral unat_times_numeral)
  then show ?thesis
    using assms k by (simp add: line_ok_def s flip: s_def)
qed

lemma line_mipi_10:
  assumes "unat w \<le> 8192"
  shows "line_ok 10 (unat w) (PAD_TO_SIZE w 4, PAD_TO_SIZE (quot (PAD_TO_SIZE w 4 * 5) 4) 8)"
proof -
  let ?s = "PAD_TO_SIZE w 4"
  have s: "unat w \<le> unat ?s" "unat ?s < unat w + 4" "4 dvd unat ?s"
    using pad_nat [of 4 w] assms by simp_all
  then have b: "unat (quot (?s * 5) 4) = unat ?s * 5 div 4"
    using assms by (simp add: unat_quot_numeral unat_times_numeral)
  moreover have "4 * (unat ?s * 5 div 4) = unat ?s * 5"
    using s(3) by auto
  ultimately have b4: "4 * unat (quot (?s * 5) 4) = unat ?s * 5"
    by simp
  then have "unat (quot (?s * 5) 4) \<le> unat (PAD_TO_SIZE (quot (?s * 5) 4) 8)"
      "unat (PAD_TO_SIZE (quot (?s * 5) 4) 8) \<le> unat (quot (?s * 5) 4) + 8191"
    using pad_nat(1) [of 8 "quot (?s * 5) 4"] pad_le [of 8 "quot (?s * 5) 4"] s(2) assms by simp_all
  with s b4 show ?thesis
    using assms by (simp add: line_ok_def)
qed

lemma line_mipi_12:
  assumes "unat w \<le> 8192"
  shows "line_ok 12 (unat w) (PAD_TO_SIZE w 32, quot (PAD_TO_SIZE w 32 * 3) 2)"
proof -
  let ?s = "PAD_TO_SIZE w 32"
  have s: "unat w \<le> unat ?s" "unat ?s < unat w + 32" "32 dvd unat ?s"
    using pad_nat [of 32 w] assms by simp_all
  then have b: "unat (quot (?s * 3) 2) = unat ?s * 3 div 2"
    using assms by (simp add: half unat_times_numeral)
  moreover have "2 * (unat ?s * 3 div 2) = unat ?s * 3"
    using s(3) by auto
  ultimately show ?thesis
    using s assms by (simp add: line_ok_def)
qed

lemma line_mipi_14:
  assumes "unat w \<le> 8192"
  shows "line_ok 14 (unat w) (PAD_TO_SIZE w 64, quot (PAD_TO_SIZE w 64 * 7) 4)"
proof -
  let ?s = "PAD_TO_SIZE w 64"
  have s: "unat w \<le> unat ?s" "unat ?s < unat w + 64" "64 dvd unat ?s"
    using pad_nat [of 64 w] assms by simp_all
  then have b: "unat (quot (?s * 7) 4) = unat ?s * 7 div 4"
    using assms by (simp add: unat_quot_numeral unat_times_numeral)
  moreover have "4 * (unat ?s * 7 div 4) = unat ?s * 7"
    using s(3) by auto
  ultimately show ?thesis
    using s assms by (simp add: line_ok_def)
qed

lemmas raw_format_lists = raw_yuv_def raw_8_def raw_qcom_10_def raw_qcom_12_def raw_mipi_10_def
  raw_mipi_12_def raw_plain16_def raw_mipi_14_def raw_qcom_14_def

lemma raw_bits_lists:
  "list_all (\<lambda>f. raw_bits f = 8) raw_8" "list_all (\<lambda>f. raw_bits f = 10) raw_qcom_10"
  "list_all (\<lambda>f. raw_bits f = 12) raw_qcom_12" "list_all (\<lambda>f. raw_bits f = 10) raw_mipi_10"
  "list_all (\<lambda>f. raw_bits f = 12) raw_mipi_12" "list_all (\<lambda>f. raw_bits f = 14) raw_mipi_14"
  by code_simp+

lemmas raw_bits_of = raw_bits_lists [unfolded list_all_iff, rule_format]

lemma raw_bits_le: "raw_bits f \<le> 16"
  by (simp add: raw_bits_def)

lemma raw_strides_ok:
  assumes "raw_strides f w = Some l" and "unat w \<le> 8192"
  shows "line_ok (raw_bits f) (unat w) l"
  using assms(1)
  by (auto simp: raw_strides_def Let_def raw_bits_of raw_bits_le split: if_splits
      intro: line_doubled [OF _ assms(2)] line_bytes [OF _ assms(2)] line_qcom_10 [OF assms(2), simplified]
      line_qcom_12 [OF assms(2), simplified] line_mipi_10 [OF assms(2)] line_mipi_12 [OF assms(2)]
      line_mipi_14 [OF assms(2)])

text \<open>The plane of a packed format holds its lines, and the frame the plane.\<close>

lemma raw_plane_facts:
  assumes "room p"
  shows "num_planes (raw_plane pp s b n p) = 1"
    "mp_len (mp (raw_plane pp s b n p) ! 0) = PAD_TO_SIZE (b * n) pp"
    "mp_stride (mp (raw_plane pp s b n p) ! 0) = s"
    "mp_stride_in_bytes (mp (raw_plane pp s b n p) ! 0) = b"
    "frame_len (raw_plane pp s b n p) = PAD_TO_SIZE (PAD_TO_SIZE (b * n) pp) 4096"
  using assms
  by (auto elim!: room_cases simp: raw_plane_def Let_def set_stride_in_bytes_def pages_of_planes_def)

lemma raw_meta_facts:
  assumes "room p"
  shows "num_planes (raw_meta pp s b n p) = 1"
    "mp_len (mp (raw_meta pp s b n p) ! 0) = PAD_TO_SIZE (b * n) pp"
    "mp_stride (mp (raw_meta pp s b n p) ! 0) = s"
    "mp_stride_in_bytes (mp (raw_meta pp s b n p) ! 0) = b"
    "frame_len (raw_meta pp s b n p) = PAD_TO_SIZE (PAD_TO_SIZE (b * n) pp) 4096"
  using assms
  by (auto elim!: room_cases simp: raw_meta_def Let_def set_stride_in_bytes_def pages_of_planes_def)

lemma raw_frame:
  assumes "f \<noteq> CAM_FORMAT_YUV_420_NV21" and "unat (dim_width d) \<le> 8192" and "unat (dim_height d) \<le> 8192"
    and "pads pad" and "room p" and "mm_stream_calc_offset_raw f d pad p = (0, q)"
  shows "num_planes q = 1"
    and "line_ok (raw_bits f) (unat (dim_width d)) (mp_stride (mp q ! 0), mp_stride_in_bytes (mp q ! 0))"
    and "unat (mp_stride_in_bytes (mp q ! 0)) * unat (dim_height d) \<le> unat (mp_len (mp q ! 0))"
    and "unat (mp_len (mp q ! 0)) \<le> unat (frame_len q)" and "whole_pages q"
proof -
  let ?n = "PAD_TO_SIZE (dim_height d) (height_padding pad)" and ?pp = "plane_padding pad"
  obtain s b where sb: "raw_strides f (dim_width d) = Some (s, b)"
    and q: "q = raw_plane ?pp s b ?n p \<or> q = raw_meta ?pp s b ?n p"
    using assms(1,6) by (auto simp: mm_stream_calc_offset_raw_def Let_def split: option.splits if_splits)
  have f: "num_planes q = 1" "mp_stride (mp q ! 0) = s" "mp_stride_in_bytes (mp q ! 0) = b"
      "mp_len (mp q ! 0) = PAD_TO_SIZE (b * ?n) ?pp" "frame_len q = PAD_TO_SIZE (PAD_TO_SIZE (b * ?n) ?pp) 4096"
    using q raw_plane_facts [OF assms(5)] raw_meta_facts [OF assms(5)] by auto
  have l: "line_ok (raw_bits f) (unat (dim_width d)) (s, b)"
    using sb assms(2) by (rule raw_strides_ok)
  then have b: "unat b \<le> 40000"
    by (simp add: line_ok_def)
  have pp: "?pp \<in> set pad_sizes" "height_padding pad \<in> set pad_sizes"
    using assms(4) by (simp_all add: pads_def)
  note n = side [OF pp(2) assms(3)]
  have a: "unat b * unat ?n \<le> 655360000"
    using product_le [OF b n(2)] by simp
  then have bn: "unat (b * ?n) = unat b * unat ?n"
    by (simp add: unat_times)
  have len: "unat b * unat ?n \<le> unat (PAD_TO_SIZE (b * ?n) ?pp)" "unat (PAD_TO_SIZE (b * ?n) ?pp) \<le> 700000000"
    using pad_nat(1) [OF pp(1), of "b * ?n"] pad_le [OF pp(1), of "b * ?n"] a bn by simp_all
  have "unat b * unat (dim_height d) \<le> unat b * unat ?n"
    using n(1) by (rule mult_le_mono2)
  from order_trans [OF this len(1)]
  show "unat (mp_stride_in_bytes (mp q ! 0)) * unat (dim_height d) \<le> unat (mp_len (mp q ! 0))"
    by (simp add: f)
  show "num_planes q = 1"
    "line_ok (raw_bits f) (unat (dim_width d)) (mp_stride (mp q ! 0), mp_stride_in_bytes (mp q ! 0))"
    using l by (simp_all add: f)
  show "unat (mp_len (mp q ! 0)) \<le> unat (frame_len q)" "whole_pages q"
    using pad_nat(1,3) [OF page_size, of "PAD_TO_SIZE (b * ?n) ?pp"] len(2)
    by (simp_all add: f whole_pages_def)
qed

section \<open>The formats of the encoder\<close>

text \<open>The planes of an encoder's frame fill it, if the kernel's macro leaves room for the luma plane.\<close>

lemma venus_planes_fill:
  assumes "room p" and "unat s * unat n \<le> unat sz"
  shows "unat (mp_len (mp (venus_planes sz (s, n) c d p) ! 0)) + unat (mp_len (mp (venus_planes sz (s, n) c d p) ! 1))
      = unat (frame_len (venus_planes sz (s, n) c d p))"
    "unat (mp_len (mp (venus_planes sz (s, n) c d p) ! 0)) = unat s * unat n"
proof -
  have "unat sz < 4294967296"
    using unsigned_less [of sz] by simp
  with assms(2) have "unat s * unat n < 4294967296"
    by (rule le_less_trans)
  then have sn: "unat (s * n) = unat s * unat n"
    by (rule unat_times)
  then have "unat (sz - s * n) = unat sz - unat s * unat n"
    using assms(2) by (subst unat_sub) (simp_all add: word_le_nat_alt)
  then show "unat (mp_len (mp (venus_planes sz (s, n) c d p) ! 0)) + unat (mp_len (mp (venus_planes sz (s, n) c d p) ! 1))
      = unat (frame_len (venus_planes sz (s, n) c d p))"
    "unat (mp_len (mp (venus_planes sz (s, n) c d p) ! 0)) = unat s * unat n"
    using assms sn by (auto elim!: room_cases simp: venus_planes_def split: prod.split)
qed

section \<open>Least common multiple\<close>

lemma lcm_loop_step:
  "lcm_loop a b t l = (if l mod a = 0 \<and> l mod b = 0 then Some l else lcm_loop a b t (l + t))"
  by (rule lcm_loop.simps)

lemma divides_iff: "(l :: uint32) mod a = 0 \<longleftrightarrow> unat a dvd unat l"
  by (metis dvd_eq_mod_eq_0 unat_eq_zero unat_mod)

text \<open>The loop runs through the multiples of its step until both numbers divide one of them.\<close>

lemma lcm_loop_finds:
  assumes "0 < unat t" and "unat t * m < 4294967296" and "unat a dvd unat t * m" and "unat b dvd unat t * m"
    and "0 < k" "k \<le> m" and "\<And>i. k \<le> i \<Longrightarrow> i < m \<Longrightarrow> \<not> (unat a dvd unat t * i \<and> unat b dvd unat t * i)"
    and "unat l = unat t * k"
  shows "lcm_loop a b t l = Some (word_of_nat (unat t * m))"
  using assms(5-8)
proof (induction "m - k" arbitrary: k l)
  case 0
  then have "unat l = unat t * m"
    by simp
  moreover have "word_of_nat (unat l) = l"
    by simp
  ultimately have "l = word_of_nat (unat t * m)" "unat l = unat t * m"
    by (simp_all only:)
  then show ?case
    using assms(3,4) by (subst lcm_loop_step) (simp add: divides_iff)
next
  case (Suc n)
  then have "k < m"
    by simp
  then have "unat t * Suc k \<le> unat t * m"
    by (intro mult_le_mono2) simp
  then have "unat (l + t) = unat t * Suc k"
    using Suc.prems assms(2) by (subst unat_plus) simp_all
  then have "lcm_loop a b t (l + t) = Some (word_of_nat (unat t * m))"
    using Suc.prems Suc.hyps(2) \<open>k < m\<close> by (intro Suc.hyps(1) [of "Suc k"]) simp_all
  then show ?case
    using Suc.prems(3) [OF order_refl \<open>k < m\<close>] Suc.prems(4)
    by (subst lcm_loop_step) (auto simp: divides_iff)
qed

lemma mm_stream_calc_lcm_finds:
  assumes "0 < unat a" "0 < unat b" "unat a < 2147483648" "unat b < 2147483648" "lcm (unat a) (unat b) < 4294967296"
  shows "mm_stream_calc_lcm a b = Some (word_of_nat (lcm (unat a) (unat b)))"
proof -
  define t where "t = (if sint a > sint b then a else b)"
  have s: "sint a = int (unat a)" "sint b = int (unat b)"
    using assms(3,4) by (simp_all only: sint_small)
  have t: "t = a \<or> t = b" "0 < unat t"
    using assms(1,2) by (auto simp: t_def)
  have "unat t dvd lcm (unat a) (unat b)"
    using t(1) by auto
  then obtain m where m: "lcm (unat a) (unat b) = unat t * m"
    by (rule dvdE)
  have pos: "0 < lcm (unat a) (unat b)"
    using assms(1,2) by (simp add: lcm_pos_nat)
  then have "0 < m"
    using m by (cases m) simp_all
  have "\<not> (unat a dvd unat t * i \<and> unat b dvd unat t * i)" if "1 \<le> i" "i < m" for i
  proof
    assume "unat a dvd unat t * i \<and> unat b dvd unat t * i"
    then have "unat t * m dvd unat t * i"
      using m by (metis lcm_least)
    then have "m \<le> i"
      using that t(2) by (auto dest: dvd_imp_le)
    then show False
      using that by simp
  qed
  moreover have "unat t * m < 4294967296" "unat a dvd unat t * m" "unat b dvd unat t * m"
    using assms(5) by (simp_all flip: m)
  moreover have "1 \<le> m" "0 < (1::nat)" "unat t = unat t * 1"
    using \<open>0 < m\<close> by simp_all
  ultimately have "lcm_loop a b t t = Some (word_of_nat (unat t * m))"
    using t(2) by (intro lcm_loop_finds [where k = 1])
  moreover have "\<not> sint a < 1" "\<not> sint b < 1"
    unfolding s using assms(1,2) by linarith+
  then have "mm_stream_calc_lcm a b = lcm_loop a b t t"
    by (simp add: mm_stream_calc_lcm_def Let_def t_def)
  ultimately show ?thesis
    by (simp only: m)
qed

text \<open>Whatever the numbers are the loop ends: a multiple of the step that wraps around to 0 is divided by both.\<close>

lemma lcm_loop_ends:
  assumes "(l + of_nat j * t) mod a = 0" and "(l + of_nat j * t) mod b = 0"
  shows "\<exists>r. lcm_loop a b t l = Some r \<and> r mod a = 0 \<and> r mod b = 0"
  using assms
proof (induction j arbitrary: l)
  case 0
  then show ?case
    by (subst lcm_loop_step) simp
next
  case (Suc j)
  have eq: "l + t + of_nat j * t = l + of_nat (Suc j) * t"
    by (simp add: algebra_simps)
  have "\<exists>r. lcm_loop a b t (l + t) = Some r \<and> r mod a = 0 \<and> r mod b = 0"
    by (rule Suc.IH) (simp_all only: eq Suc.prems)
  then show ?case
    by (subst lcm_loop_step) simp
qed

lemma mm_stream_calc_lcm_ends: "\<exists>r. mm_stream_calc_lcm a b = Some r"
proof -
  have "\<exists>r. lcm_loop a b t t = Some r \<and> r mod a = 0 \<and> r mod b = 0" for t
  proof (rule lcm_loop_ends)
    have "of_nat 4294967295 = (- 1 :: uint32)"
      by simp
    then have "t + of_nat 4294967295 * t = 0"
      by (simp only: mult_minus1 right_minus)
    then show "(t + of_nat 4294967295 * t) mod a = 0" "(t + of_nat 4294967295 * t) mod b = 0"
      by (simp_all only: mod_0)
  qed
  then show ?thesis
    by (auto simp: mm_stream_calc_lcm_def Let_def)
qed

end
