(* ===== verification/StreamSpec.thy ===== *)
theory StreamSpec
  imports StreamOwner PlaneRaw
begin

text \<open>
  The properties of the streams of the camera interface: the layout of their frames, their state machine and the
  ownership of their buffers, each with an example where its hypotheses hold.
\<close>

section \<open>Examples\<close>

definition ex_platform :: platform where
  "ex_platform = \<lparr>VENUS_PRESENT = False, UBWC_PRESENT = False, USE_A_FAMILY = False,
     VENUS_Y_STRIDE = (\<lambda>_ w. w), VENUS_Y_SCANLINES = (\<lambda>_ h. h), VENUS_UV_STRIDE = (\<lambda>_ w. w),
     VENUS_UV_SCANLINES = (\<lambda>_ h. h), VENUS_Y_META_STRIDE = (\<lambda>_ w. w), VENUS_Y_META_SCANLINES = (\<lambda>_ h. h),
     VENUS_UV_META_STRIDE = (\<lambda>_ w. w), VENUS_UV_META_SCANLINES = (\<lambda>_ h. h),
     VENUS_BUFFER_SIZE = (\<lambda>_ w h. w * h * 2), MSM_MEDIA_ALIGN = (\<lambda>x _. x)\<rparr>"

definition ex_pad :: cam_padding_info where
  "ex_pad = \<lparr>width_padding = 32, height_padding = 32, plane_padding = 64, min_stride = 0, min_scanline = 0,
     pad_offset_x = 0, pad_offset_y = 0\<rparr>"


section \<open>The layout of a frame\<close>



text \<open>
  C20. A line of a packed raw format has room for the bits of its pixels, the plane for all lines, and
  the frame for the plane.
\<close>

theorem raw_lines_hold_pixels:
  assumes "f \<noteq> CAM_FORMAT_YUV_420_NV21" and "unat (dim_width d) \<le> 8192" and "unat (dim_height d) \<le> 8192"
    and "pads pad" and "room p" and "mm_stream_calc_offset_raw f d pad p = (0, q)"
  shows "raw_bits f * unat (dim_width d) \<le> 8 * unat (mp_stride_in_bytes (mp q ! 0))
    \<and> unat (mp_stride_in_bytes (mp q ! 0)) * unat (dim_height d) \<le> unat (mp_len (mp q ! 0))
    \<and> unat (mp_len (mp q ! 0)) \<le> unat (frame_len q)"
  using raw_frame [OF assms] by (simp add: line_ok_def)

lemma raw_lines_hold_pixels_witness:
  "\<exists>q. mm_stream_calc_offset_raw CAM_FORMAT_JPEG_RAW_8BIT \<lparr>dim_width = 4000, dim_height = 3000\<rparr> ex_pad no_planes = (0, q)
     \<and> 12000000 \<le> unat (frame_len q)"
proof -
  obtain q where q: "mm_stream_calc_offset_raw CAM_FORMAT_JPEG_RAW_8BIT \<lparr>dim_width = 4000, dim_height = 3000\<rparr> ex_pad no_planes = (0, q)"
    by (simp add: mm_stream_calc_offset_raw_def raw_strides_def Let_def y_only_def raw_yuv_def raw_8_def)
  from raw_lines_hold_pixels [OF _ _ _ _ _ q]
  have "32000 \<le> 8 * unat (mp_stride_in_bytes (mp q ! 0)) \<and> unat (mp_stride_in_bytes (mp q ! 0)) * 3000 \<le> unat (frame_len q)"
    by (simp add: ex_pad_def pads_def pad_sizes_def room_def no_planes_def raw_bits_def)
  with q show ?thesis
    by (intro exI [of _ q]) linarith
qed

text \<open>
  The loop that looks for a common multiple finds the least one when it is a number of 32 bits; it
  ends for all arguments.
\<close>

theorem lcm_is_found:
  assumes "0 < unat a" "0 < unat b" "unat a < 2147483648" "unat b < 2147483648" "lcm (unat a) (unat b) < 4294967296"
  shows "mm_stream_calc_lcm a b = Some (word_of_nat (lcm (unat a) (unat b)))"
  using assms by (rule mm_stream_calc_lcm_finds)

lemma lcm_is_found_witness: "mm_stream_calc_lcm 6 4 = Some 12"
proof -
  have "lcm (6::nat) 4 = 12"
    by (simp add: lcm_nat_def gcd_non_0_nat)
  then show ?thesis
    using lcm_is_found [of 6 4] by simp
qed

text \<open>
  A video stream in a format of the encoder that the platform does not have is given no layout, and the
  result is success: the planes are left as they were.
\<close>

theorem unsupported_encoder_format_accepted:
  assumes "\<not> VENUS_PRESENT P" and "f \<in> {CAM_FORMAT_YUV_420_NV12_VENUS, CAM_FORMAT_YUV_420_NV21_VENUS}"
  shows "mm_stream_calc_offset_video P f d p = (0, p)"
  using assms by (auto simp: mm_stream_calc_offset_video_def y_only_def)

lemma unsupported_encoder_format_accepted_witness:
  "mm_stream_calc_offset_video ex_platform CAM_FORMAT_YUV_420_NV12_VENUS \<lparr>dim_width = 640, dim_height = 480\<rparr> no_planes
     = (0, no_planes)"
  by (rule unsupported_encoder_format_accepted) (simp_all add: ex_platform_def)

section \<open>The state machine of a stream\<close>

text \<open>
  C19. The diagram of the states is exact: an event leads from a state where \<open>stream_edge\<close> says, given
  what the handler returns, and an event that the state does not handle changes nothing and returns 0, or -1
  if the stream is not used.
\<close>

theorem stream_diagram:
  "st_state (snd (run_state (mm_stream_fsm_fn P E e) s))
      = stream_edge (st_state s) e (fst (run_state (mm_stream_fsm_fn P E e) s))
    \<and> (stream_handles (st_state s) e
       \<or> run_state (mm_stream_fsm_fn P E e) s = (if st_state s = MM_STREAM_STATE_NOTUSED then - 1 else 0, s))"
  using stream_edges_exact unhandled_event by blast

text \<open>
  C18. Whatever happens to a stream and whatever the driver answers, it leaks nothing: the device is opened once
  more than it is closed in the states that have a descriptor and as often in the others; and the
  buffers have been allocated once more than they were given back in the states that have buffers.
\<close>

theorem stream_leaks_nothing:
  "(let s = stream_run P E steps (new_stream h) in
      open_fds E s = (if st_state s \<in> {MM_STREAM_STATE_NOTUSED, MM_STREAM_STATE_INITED} then 0 else 1)
      \<and> buf_sets E s = (if st_state s \<in> {MM_STREAM_STATE_BUFFED, MM_STREAM_STATE_REG, MM_STREAM_STATE_ACTIVE} then 1 else 0)
      \<and> (bufs s = None \<longleftrightarrow> buf_sets E s = 0))"
  using stream_run_tidy [OF new_stream_tidy, of E P steps h] by (auto simp: tidy_def Let_def)

section \<open>The ownership of buffers\<close>


definition ex_env :: stream_env where
  "ex_env = \<lparr>answer = (\<lambda>h c. if c = Malloc then 1 else 0), extended_mode = (\<lambda>h. 7),
     dequeued = (\<lambda>h. (0, 5, 1000)), allocated = (\<lambda>h. [(True, False, []), (False, False, [])])\<rparr>"

text \<open>A bundled stream with two buffers, of which the first is to be queued, and one asynchronous callback.\<close>

definition ex_stream :: mm_stream where
  "ex_stream = (new_stream 17)\<lparr>st_fd := 3, st_state := MM_STREAM_STATE_BUFFED, buf_num := 2,
     bufs := Some [new_buf False [], new_buf False []],
     buf_status := no_status\<lparr>initial_reg_flag := True, map_status := 1\<rparr> # replicate 63 no_status,
     buf_cb := \<lparr>cb = 5, cb_count = - 1, cb_sync = False\<rparr> # replicate 3 no_cb,
     is_bundled := True, cache_ops_set := True\<rparr>"

lemma ex_obliging: "obliging ex_env"
  by (simp add: obliging_def ex_env_def failed_def)

lemma replicate_2: "replicate 2 x = [x, x]"
  by (simp add: numeral_2_eq_2)




text \<open>
  C40. A buffer that no one gets is lost: when a stream has neither a channel nor an asynchronous callback, a
  buffer it receives is no longer with the driver, has no reference, and giving it back is refused.
\<close>

theorem buffer_without_user_is_lost:
  assumes "obliging E" and "streaming s" and "st_state s = MM_STREAM_STATE_ACTIVE"
    and "\<not> failed (answer E (ios s) Dqbuf)" and "dequeued E (ios s) = (i, frame, ts)" and "i < unat (buf_num s)"
    and "buf_refcnt (buf_status s ! i) = 0" and "\<not> has_user s"
    and "t = snd (run_state (mm_stream_data_notify E) s)"
  shows "\<not> in_kernel (buf_status t ! i) \<and> run_state (mm_stream_buf_done E i c) t = (- 1, t)"
  using received_without_user [OF assms(1-8)] assms(9) by (simp add: free_buf_done)

lemma buffer_without_user_is_lost_witness:
  "\<exists>s t. asyncs s = {} \<and> cb_sync (buf_cb s ! 0) \<and> in_kernel (buf_status s ! 0)
     \<and> t = snd (run_state (mm_stream_data_notify ex_env) s)
     \<and> \<not> in_kernel (buf_status t ! 0) \<and> run_state (mm_stream_buf_done ex_env 0 False) t = (- 1, t)"
proof -
  define s where "s = ex_stream\<lparr>st_state := MM_STREAM_STATE_ACTIVE, is_bundled := False,
    buf_status := no_status\<lparr>in_kernel := True\<rparr> # replicate 63 no_status,
    buf_cb := \<lparr>cb = 5, cb_count = - 1, cb_sync = True\<rparr> # replicate 3 no_cb\<rparr>"
  have a: "asyncs s = {}"
    by (auto simp: asyncs_def s_def no_cb_def nth_Cons' numeral_nat MM_CAMERA_STREAM_BUF_CB_MAX_def)
  have "streaming s"
    using a by (simp add: streaming_def s_def ex_stream_def new_stream_def no_info_def is_batch_def plain_bufs_def
        new_buf_def MM_CAMERA_STREAM_BUF_CB_MAX_def CAM_MAX_NUM_BUFS_PER_STREAM_def replicate_2)
  moreover have "\<not> has_user s"
    using a by (simp add: has_user_def s_def ex_stream_def new_stream_def)
  ultimately have "\<not> in_kernel (buf_status (snd (run_state (mm_stream_data_notify ex_env) s)) ! 0)
      \<and> run_state (mm_stream_buf_done ex_env 0 False) (snd (run_state (mm_stream_data_notify ex_env) s))
        = (- 1, snd (run_state (mm_stream_data_notify ex_env) s))"
    by (intro buffer_without_user_is_lost [OF ex_obliging, where frame = 5 and ts = 1000])
      (simp_all add: s_def ex_stream_def ex_env_def failed_def no_status_def)
  moreover have "cb_sync (buf_cb s ! 0)" "in_kernel (buf_status s ! 0)"
    by (simp_all add: s_def no_status_def)
  ultimately show ?thesis
    using a by blast
qed

end
