(* ===== verification/ChannelSpec.thy ===== *)
theory ChannelSpec
  imports ChannelSteps StreamSpec
begin

text \<open>
  The properties of the channels of a camera (\<^verbatim>\<open>stack/mm-camera-interface/src/mm_camera_channel.c\<close>), each with an
  example where its hypotheses hold.
\<close>

section \<open>A channel for the examples\<close>

definition ex_cam_env :: cam_env where
  "ex_cam_env = \<lparr>plat = ex_platform, streams_env = (\<lambda>_ _. ex_env), cam_answer = (\<lambda>_ _ _. 0)\<rparr>"

text \<open>A stopped channel with one stream of its own, which is configured.\<close>

definition ex_chan_slot :: chan_slot where
  "ex_chan_slot = \<lparr>sl_obj = (new_stream 512)\<lparr>st_fd := 3, st_state := MM_STREAM_STATE_CFG\<rparr>, sl_ch = 1,
     sl_linked = None, sl_user = NULL\<rparr>"

definition ex_chan :: chan where
  "ex_chan = no_chan\<lparr>ch_state := MM_CHANNEL_STATE_STOPPED, slots := ex_chan_slot # replicate 7 no_slot\<rparr>"

definition ex_channels :: channels where
  "ex_channels = no_channels\<lparr>chs := (\<lambda>p. if p = 1 then ex_chan else no_chan), g_handler_history_count := 2\<rparr>"

lemma ex_slots: "length (slots (chs ex_channels p)) = 8" "slot 1 0 ex_channels = ex_chan_slot"
  "0 < i \<Longrightarrow> i < 8 \<Longrightarrow> slot 1 i ex_channels = no_slot" "ch_state (chs ex_channels 1) = MM_CHANNEL_STATE_STOPPED"
  by (simp_all add: ex_channels_def slot_def ex_chan_def no_chan_def MAX_STREAM_NUM_IN_BUNDLE_def nth_Cons')

lemma ex_good: "all_good ex_channels"
proof -
  have m: "marks 1 ex_channels = (MM_STREAM_STATE_CFG, 1, 512) # replicate 7 (MM_STREAM_STATE_NOTUSED, NULL, 0)"
    by (simp add: marks_def ex_channels_def ex_chan_def chan_mark_def ex_chan_slot_def no_slot_def new_stream_def)
  have o: "marks p ex_channels = replicate 8 (MM_STREAM_STATE_NOTUSED, NULL, 0)" if "p \<noteq> 1" for p
    using that by (simp add: marks_def ex_channels_def no_chan_def no_slot_def chan_mark_def new_stream_def
        MAX_STREAM_NUM_IN_BUNDLE_def)
  have "chan_good 1 ex_channels"
    unfolding chan_good_def m
    by (auto simp: marks_ok_def mark_ok_def ex_channels_def ex_chan_def MAX_STREAM_NUM_IN_BUNDLE_def own_states_def
        nth_Cons' word_le_nat_alt list_all_iff split: if_splits)
  moreover have "chan_good p ex_channels" if "p \<noteq> 1" for p
    unfolding chan_good_def o [OF that] using that
    by (simp add: marks_ok_def mark_ok_def MAX_STREAM_NUM_IN_BUNDLE_def list_all_iff ex_channels_def no_chan_def)
  ultimately show ?thesis
    unfolding all_good_def by metis
qed

lemma ex_own: "own_in 1 {MM_STREAM_STATE_CFG} ex_channels"
proof -
  have "state_of 1 i ex_channels \<in> {MM_STREAM_STATE_CFG}" if "i < 8" "used 1 i ex_channels" for i
    using that ex_slots(2,3) by (cases "i = 0") (simp_all add: stream_def ex_chan_slot_def used_def no_slot_def)
  then show ?thesis
    by (simp add: own_in_def in_array_def ex_slots)
qed

section \<open>Starting and stopping\<close>

text \<open>
  C6. Starting a stopped channel whose own streams are configured brings all of them up, or none: when it
  succeeds every own stream is active and so is the channel; when it fails, whatever the driver refused and
  for whichever stream, every own stream is configured again, the places of the streams linked to the channel are
  free, and the channel is still stopped.
\<close>

theorem start_is_all_or_nothing:
  assumes "all_good s" and "p \<noteq> NULL" and "ch_state (chs s p) = MM_CHANNEL_STATE_STOPPED"
    and "own_in p {MM_STREAM_STATE_CFG} s" and "i < MAX_STREAM_NUM_IN_BUNDLE" and "used p i s"
    and "run_state (mm_channel_fsm_fn P E p MM_CHANNEL_EVT_START) s = ((rc, out), t)"
  shows "state_of p i t =
      (if owns p i s then if rc = 0 then MM_STREAM_STATE_ACTIVE else MM_STREAM_STATE_CFG
       else if rc = 0 then state_of p i s else MM_STREAM_STATE_NOTUSED)
    \<and> ch_state (chs t p) = (if rc = 0 then MM_CHANNEL_STATE_ACTIVE else MM_CHANNEL_STATE_STOPPED)"
proof -
  have c: "chan_good p s"
    using assms(1,2) by (simp add: all_good_def)
  note w = good_well_handled [OF c]
  obtain rc' u where r: "run_state (mm_channel_start P E p) s = (rc', u)"
    by (cases "run_state (mm_channel_start P E p) s")
  have t: "rc = rc'" "t = (if rc' = 0 then upd_chan p (\<lambda>c. c\<lparr>ch_state := MM_CHANNEL_STATE_ACTIVE\<rparr>) u else u)"
    using assms(3,7) r by (auto simp: mm_channel_fsm_fn_def mm_channel_fsm_fn_stopped_def plain_def to_chan_state_def
        case_prod_beta split: if_splits)
  have i: "i < length (slots (chs s p))"
    using assms(5) w(3) by simp
  have "state_of p i t = state_of p i u"
    by (simp add: t stream_def slot_def upd_chan_def)
  moreover note start_outcome [OF assms(2) w(1) assms(4) r]
  ultimately show ?thesis
    using assms(3,6) i t by (auto simp: moved_def mark_of split: if_splits)
qed

lemma start_is_all_or_nothing_witness:
  "\<exists>rc out t. run_state (mm_channel_fsm_fn ex_platform (\<lambda>_ _. ex_env) 1 MM_CHANNEL_EVT_START) ex_channels = ((rc, out), t)
    \<and> state_of 1 0 t = (if rc = 0 then MM_STREAM_STATE_ACTIVE else MM_STREAM_STATE_CFG)"
proof -
  obtain rc out t where r: "run_state (mm_channel_fsm_fn ex_platform (\<lambda>_ _. ex_env) 1 MM_CHANNEL_EVT_START) ex_channels
      = ((rc, out), t)"
    by (metis prod.exhaust)
  have "used 1 0 ex_channels" "owns 1 0 ex_channels"
    by (simp_all add: used_def stream_def ex_slots owns_def ex_chan_slot_def del: One_nat_def)
  with start_is_all_or_nothing [OF ex_good _ ex_slots(4) ex_own _ _ r, of 0] r show ?thesis
    by (auto simp: MAX_STREAM_NUM_IN_BUNDLE_def)
qed

text \<open>
  C5. Whatever happens to the channels, in whichever order - events of the state machines, buffers from the
  driver, commands of the threads, channels added and deleted - as long as the callers keep to what is
  \<open>allowed\<close>: the own streams of an active channel are all active, those of a stopped one are acquired or
  configured, and a channel that is not in use has no streams.
\<close>

theorem channel_states_agree:
  assumes "allowed_run E xs no_channels" and "s = chan_run E xs no_channels"
    and "p \<noteq> NULL" and "i < MAX_STREAM_NUM_IN_BUNDLE" and "used p i s"
  shows "ch_state (chs s p) \<in> {MM_CHANNEL_STATE_STOPPED, MM_CHANNEL_STATE_ACTIVE}
    \<and> (owns p i s \<longrightarrow>
        (if ch_state (chs s p) = MM_CHANNEL_STATE_ACTIVE then state_of p i s = MM_STREAM_STATE_ACTIVE
         else state_of p i s \<in> {MM_STREAM_STATE_ACQUIRED, MM_STREAM_STATE_CFG}))"
proof -
  have c: "chan_good p s"
    using run_good [OF no_channels_good assms(1)] assms(2,3) by (simp add: all_good_def)
  note w = good_well_handled [OF c]
  have i: "i < length (slots (chs s p))"
    using assms(4) w(3) by simp
  have "mark_ok (g_handler_history_count s) (ch_state (chs s p)) p (chan_mark (slot p i s))"
    using c i marks_nth [OF i] by (auto simp: chan_good_def marks_ok_def list_all_length marks_def)
  moreover have "ch_state (chs s p) \<noteq> MM_CHANNEL_STATE_PAUSED"
    using c by (simp add: chan_good_def marks_ok_def)
  ultimately show ?thesis
    using assms(5) by (cases "ch_state (chs s p)")
      (auto simp: mark_ok_def chan_mark_def used_def stream_def owns_def own_states_def)
qed

lemma ex_acquire:
  "run_state (mm_stream_fsm_fn ex_platform ex_env MM_STREAM_EVT_ACQUIRE) (fresh_stream h x)
     = (0, (fresh_stream h x)\<lparr>st_fd := 0, svr_stream_id := 7, st_state := MM_STREAM_STATE_ACQUIRED,
         ios := ios x @ [Open, S_parm, Shim_new_stream]\<rparr>)"
  by (simp add: mm_stream_fsm_fn_def mm_stream_fsm_inited_def acquire_stream_def mm_stream_set_ext_mode_def io_def
      ex_env_def fresh_stream_def new_stream_def failed_def)

lemma ex_added:
  fixes s :: channels
  assumes "free_slot 1 s = Some 0" "0 < length (slots (chs s 1))"
  shows "used 1 0 (snd (run_state (mm_channel_add_stream ex_platform (\<lambda>_ _. ex_env) 1) s))"
  using assms
  by (simp add: mm_channel_add_stream_def mm_camera_util_generate_handler_def stream_fsm_def case_prod_beta
      ex_acquire stream_def slot_def[symmetric] used_def)

lemma channel_states_agree_witness:
  "let s = chan_run ex_cam_env [Add_channel 1 0 5 None False, Chan_event 1 MM_CHANNEL_EVT_ADD_STREAM] no_channels
   in ch_state (chs s 1) \<in> {MM_CHANNEL_STATE_STOPPED, MM_CHANNEL_STATE_ACTIVE} \<and> used 1 0 s"
proof -
  let ?xs = "[Add_channel 1 0 5 None False, Chan_event 1 MM_CHANNEL_EVT_ADD_STREAM]"
  define u where "u = snd (run_state (new_channel 1 0 5 None False) no_channels)"
  have u: "slots (chs u 1) = replicate 8 no_slot \<and> ch_state (chs u 1) = MM_CHANNEL_STATE_STOPPED"
    by (simp add: u_def no_channels_def no_chan_def new_channel_def clear_chan_def mm_camera_util_generate_handler_def mm_channel_init_def to_chan_state_def case_prod_beta upd_chan_def zero_chan_def MAX_STREAM_NUM_IN_BUNDLE_def no_slot_def zero_slot_def zero_stream_def fresh_stream_def new_stream_def)
  have a: "allowed_run ex_cam_env ?xs no_channels"
    by (simp add: no_channels_def no_chan_def new_channel_def clear_chan_def mm_camera_util_generate_handler_def
        mm_channel_init_def to_chan_state_def next_count_def case_prod_beta)
  have "free_slot 1 u = Some 0"
    using u by (simp add: free_slot_def all_slots_def stream_def slot_def MAX_STREAM_NUM_IN_BUNDLE_def no_slot_def
        upt_conv_Cons)
  with u ex_added [of u] have "used 1 0 (chan_run ex_cam_env ?xs no_channels)"
    by (simp add: u_def [symmetric] ex_cam_env_def mm_channel_fsm_fn_def mm_channel_fsm_fn_stopped_def case_prod_beta
        del: One_nat_def)
  with channel_states_agree [OF a refl, of 1 0] show ?thesis
    by (auto simp: Let_def MAX_STREAM_NUM_IN_BUNDLE_def)
qed

end
