(* ===== verification/CameraIntfSpec.thy ===== *)
theory CameraIntfSpec
  imports CameraCalls ChannelSpec
begin

text \<open>
  The properties of the cameras and their handles (\<^verbatim>\<open>stack/mm-camera-interface/src/mm_camera_interface.c\<close> and
  \<^verbatim>\<open>mm_camera.c\<close>), each with an example where its hypotheses hold.
\<close>

section \<open>Calls\<close>

definition ex_open_env :: open_env where
  "ex_open_env = \<lparr>dev_open = (\<lambda>i. (3, 0)), session_number = 1, open_session = 0\<rparr>"

lemma ex_opens: "mm_camera_open ex_open_env = (0, 3, 1)"
  by (simp add: mm_camera_open_def ex_open_env_def MM_CAMERA_DEV_OPEN_TRIES_def eval_nat_numeral failed_def)

definition ex_calls :: "intf_request list" where
  "ex_calls = [Open_camera 0 True ex_open_env, Op_query_capability 256, Op_cancel_buffer 7 1 1 0]"

lemma no_cameras_ok: "n \<le> m \<Longrightarrow> cams_ok (no_cameras m n)"
  by (simp add: cams_ok_def no_cameras_def locks_def table_ok_def)

lemma intf_run_ok:
  "cams_ok w \<Longrightarrow> known_run E rs w \<Longrightarrow> list_all id (fst (intf_run E rs w)) \<and> cams_ok (snd (intf_run E rs w))"
proof (induction rs arbitrary: w)
  case (Cons r rs)
  from intf_do_ok [OF Cons.prems(1)] Cons.prems(2) Cons.IH show ?case
    by (auto simp: case_prod_beta)
qed simp

lemma ex_known: "known_run ex_cam_env ex_calls (no_cameras 5 2)"
  by (simp add: ex_calls_def ex_opens no_cameras_def camera_open_def camera_open_begin_def camera_open_end_def
      on_store_def mm_camera_util_generate_handler_def no_channels_def next_count_def handler_of_def upd_obj_def
      new_camera_def mm_camera_util_get_camera_by_handler_def mm_camera_util_get_index_by_handler_def
      mm_camera_intf_query_capability_def returned_def intf_call_def mm_camera_query_capability_def then_unlock_def
      cam_io_def unlock_def case_prod_beta Let_def)

text \<open>
  C7. No call of the table, in whichever sequence and for whichever cameras, channels and streams, waits for ever for
  the lock of the interface or of a camera: it finds the locks it takes free and leaves them free, as long as
  a buffer is cancelled only for a channel that the camera has.
\<close>

theorem no_call_deadlocks:
  assumes "n \<le> m" and "known_run E rs (no_cameras m n)"
  shows "list_all id (fst (intf_run E rs (no_cameras m n)))"
  using intf_run_ok [OF no_cameras_ok [OF assms(1)] assms(2)] by simp

lemma no_call_deadlocks_witness: "list_all id (fst (intf_run ex_cam_env ex_calls (no_cameras 5 2)))"
  using no_call_deadlocks [OF _ ex_known] by simp

text \<open>
  C8. Over every sequence of calls, in which cameras are opened, opened again and closed, and whatever the devices
  and the daemon answer: the object of a camera is either in the table at the place its handle names, with its
  device open and at least one reference, or it has been freed with its device closed.
\<close>

theorem cameras_leak_nothing:
  assumes "n \<le> m" and "known_run E rs (no_cameras m n)" and "w = snd (intf_run E rs (no_cameras m n))"
    and "k < length (objs w)"
  shows "let x = objs w ! k; i = unat (mm_camera_util_get_index_by_handler (cam_my_hdl x)) in
    if freed x then failed (ctrl_fd x) \<and> Some k \<notin> set (cam_objs w)
    else i < length (cam_objs w) \<and> cam_objs w ! i = Some k \<and> 0 < ref_count x \<and> \<not> failed (ctrl_fd x)"
proof -
  have "table_ok (cam_objs w) (map core (objs w))"
    using intf_run_ok [OF no_cameras_ok [OF assms(1)] assms(2)] by (simp add: assms(3) cams_ok_def)
  then have T: "i < length (cam_objs w) \<Longrightarrow> cam_objs w ! i = Some k \<Longrightarrow> camera_in i (map core (objs w) ! k)"
    "Some k \<in> set (cam_objs w) \<or> camera_gone (map core (objs w) ! k)" for i
    using assms(4) unfolding table_ok_def by (blast, simp)
  show ?thesis
  proof (cases "Some k \<in> set (cam_objs w)")
    case True
    then obtain i where i: "i < length (cam_objs w)" "cam_objs w ! i = Some k"
      by (auto simp: in_set_conv_nth)
    from T(1) [OF i] assms(4) i show ?thesis
      by (auto simp: camera_in_def core_def Let_def)
  next
    case False
    with T(2) assms(4) show ?thesis
      by (auto simp: camera_gone_def core_def Let_def)
  qed
qed

lemma cameras_leak_nothing_witness:
  "let w = snd (intf_run ex_cam_env ex_calls (no_cameras 5 2)); x = objs w ! 0 in
    if freed x then failed (ctrl_fd x) else 0 < ref_count x \<and> \<not> failed (ctrl_fd x)"
proof -
  have "objs (snd (intf_run ex_cam_env ex_calls (no_cameras 5 2))) \<noteq> []"
    by (simp add: ex_calls_def ex_opens no_cameras_def camera_open_def camera_open_begin_def camera_open_end_def
      on_store_def mm_camera_util_generate_handler_def no_channels_def next_count_def handler_of_def upd_obj_def
      new_camera_def mm_camera_util_get_camera_by_handler_def mm_camera_util_get_index_by_handler_def
      mm_camera_intf_query_capability_def returned_def intf_call_def mm_camera_query_capability_def then_unlock_def
      cam_io_def unlock_def case_prod_beta Let_def mm_camera_intf_cancel_buf_def)
  then show ?thesis
    using cameras_leak_nothing [OF _ ex_known refl, of 0] by (auto simp: Let_def split: if_splits)
qed

text \<open>One camera that is open, without channels; its handle is 256.\<close>

definition ex_cams :: cams where
  "ex_cams = \<lparr>store = no_channels, objs = [(new_camera 256)\<lparr>ctrl_fd := 3, cam_lock := False\<rparr>], cam_objs = [Some 0, None],
     num_cam = 2, g_intf_lock = False\<rparr>"

lemma ex_cams_ok: "cams_ok ex_cams"
  by (simp add: cams_ok_def ex_cams_def locks_def table_ok_def new_camera_def camera_in_def core_def failed_def
      nth_Cons' mm_camera_util_get_index_by_handler_def)

lemma ex_cams_find: "mm_camera_util_get_camera_by_handler 256 ex_cams = Some 0"
  by (simp add: mm_camera_util_get_camera_by_handler_def ex_cams_def new_camera_def mm_camera_util_get_index_by_handler_def)

lemma ex_cams_no_channel: "mm_camera_util_get_channel_by_handler 0 9 ex_cams = None"
  by (simp add: mm_camera_util_get_channel_by_handler_def ex_cams_def path_def no_channels_def zero_channel_def find_None_iff)

text \<open>
  C29. Cancelling a buffer for a channel that the camera does not have answers -1 and leaves the camera locked: the
  next call for this camera waits for ever, and because it holds the lock of the interface, so does every call
  for every camera after it.
\<close>

theorem cancel_of_unknown_channel_blocks:
  fixes f :: "nat \<Rightarrow> 'a ctl" and g :: "nat \<Rightarrow> 'b ctl"
  assumes "cams_ok w" and "mm_camera_util_get_camera_by_handler cam w = Some k"
    and "mm_camera_util_get_channel_by_handler k h w = None"
    and "run_state (mm_camera_intf_cancel_buf E cam h sid i) w = (r, t)"
    and "run_state (intf_call cam none f) t = (r', u)"
  shows "r = Some (- 1) \<and> r' = None \<and> fst (run_state (intf_call other none' g) u) = None"
proof -
  note c = found_camera [OF assms(1,2)]
  have "mm_camera_util_get_channel_by_handler k h (upd_obj k (\<lambda>x. x\<lparr>cam_lock := True\<rparr>) w) = None"
    using assms(3) by (simp add: mm_camera_util_get_channel_by_handler_def upd_obj_def)
  with assms(1,2,4) c(2) have t: "r = Some (- 1)" "t = upd_obj k (\<lambda>x. x\<lparr>cam_lock := True\<rparr>) w"
    by (simp_all add: mm_camera_intf_cancel_buf_def intf_call_def mm_camera_cancel_buf_def cams_ok_def)
  have "mm_camera_util_get_camera_by_handler cam t = Some k"
    using c by (simp add: t(2) mm_camera_util_get_camera_by_handler_def upd_obj_def Let_def)
  with assms(1,5) c(1) have u: "r' = None" "g_intf_lock u"
    by (auto simp: t(2) intf_call_def cams_ok_def upd_obj_def)
  then show ?thesis
    by (simp add: t(1) intf_call_def)
qed

lemma cancel_of_unknown_channel_blocks_witness:
  "let t = snd (run_state (mm_camera_intf_cancel_buf ex_cam_env 256 9 1 0) ex_cams);
       u = snd (run_state (mm_camera_intf_query_capability ex_cam_env 256) t)
   in fst (run_state (mm_camera_intf_flush ex_cam_env 7) u) = None"
  unfolding mm_camera_intf_query_capability_def mm_camera_intf_flush_def Let_def
  by (rule conjunct2 [OF conjunct2 [OF cancel_of_unknown_channel_blocks [OF ex_cams_ok ex_cams_find ex_cams_no_channel
        prod.collapse [symmetric] prod.collapse [symmetric]]]])

section \<open>Opening\<close>

lemma open_device_tries:
  assumes "open_device f i n = (a, j)" "0 < n"
  shows "i \<le> j \<and> j < i + n \<and> a = f j
    \<and> (\<forall>l \<in> {i ..< j}. failed (fst (f l)) \<and> (snd (f l) = EIO \<or> snd (f l) = E_TIMEDOUT))"
  using assms
proof (induction f i n rule: open_device.induct)
  case (2 f i left)
  show ?case
  proof (cases "\<not> failed (fst (f i)) \<or> (snd (f i) \<noteq> EIO \<and> snd (f i) \<noteq> E_TIMEDOUT) \<or> left = 0")
    case True
    with 2(2) have "j = i" "a = f i"
      by (auto split: if_splits)
    then show ?thesis
      by simp
  next
    case False
    with 2(2) have "open_device f (i + 1) left = (a, j)"
      by (simp only: open_device.simps if_False)
    from 2(1) [OF False this] False have *: "i + 1 \<le> j" "j < i + 1 + left" "a = f j"
      "\<forall>l \<in> {i + 1 ..< j}. failed (fst (f l)) \<and> (snd (f l) = EIO \<or> snd (f l) = E_TIMEDOUT)"
      by simp_all
    have "failed (fst (f l)) \<and> (snd (f l) = EIO \<or> snd (f l) = E_TIMEDOUT)" if "l \<in> {i ..< j}" for l
      using that * False by (cases "l = i") auto
    with * show ?thesis
      by auto
  qed
qed simp

text \<open>
  C32. Opening tries the device at most 20 times, again only while it fails with EIO or ETIMEDOUT, and goes by
  what the last attempt answered.
\<close>

theorem opening_is_bounded:
  "case open_device (dev_open D) 0 MM_CAMERA_DEV_OPEN_TRIES of (a, j) \<Rightarrow>
     j < 20 \<and> a = dev_open D j
     \<and> list_all (\<lambda>l. failed (fst (dev_open D l)) \<and> snd (dev_open D l) \<in> {EIO, E_TIMEDOUT}) [0 ..< j]
     \<and> (fst (mm_camera_open D) = 0) = (\<not> failed (fst a) \<and> \<not> failed (open_session D))"
proof -
  obtain a j where o: "open_device (dev_open D) 0 MM_CAMERA_DEV_OPEN_TRIES = (a, j)"
    by fastforce
  from open_device_tries [OF this] have "j < 20" "a = dev_open D j"
    "list_all (\<lambda>l. failed (fst (dev_open D l)) \<and> snd (dev_open D l) \<in> {EIO, E_TIMEDOUT}) [0 ..< j]"
    by (simp_all add: MM_CAMERA_DEV_OPEN_TRIES_def list_all_iff)
  moreover have "(fst (mm_camera_open D) = 0) = (\<not> failed (fst a) \<and> \<not> failed (open_session D))"
    using o by (cases a) (auto simp: mm_camera_open_def failed_def)
  ultimately show ?thesis
    using o by simp
qed

text \<open>
  C30. When a camera is opened by two threads at once, so that both find its place in the table empty, the second
  replaces the first: its handle leads nowhere any more, closing it fails, and its device stays open.
\<close>

theorem second_open_loses_the_first:
  assumes "unat idx < num_cam w" and "unat idx < length (cam_objs w)" and "cam_objs w ! unat idx = None"
    and "run_state (camera_open_begin idx True) w = (Opening k1, w1)"
    and "run_state (camera_open_begin idx True) w1 = (Opening k2, w2)"
    and "run_state (camera_open_end D idx k1) w2 = (Opened h1, w3)"
    and "run_state (camera_open_end D' idx k2) w3 = (Opened h2, w4)"
    and "\<not> g_intf_lock w"
  shows "mm_camera_util_get_camera_by_handler h2 w4 = Some k2 \<and> mm_camera_util_get_camera_by_handler h1 w4 = None
    \<and> fst (run_state (mm_camera_intf_close E h1) w4) = Some (- 1)
    \<and> \<not> freed (objs w4 ! k1) \<and> \<not> failed (ctrl_fd (objs w4 ! k1))"
proof -
  let ?c = "next_count (g_handler_history_count (store w))"
  let ?h1 = "handler_of ?c idx" and ?h2 = "handler_of (next_count ?c) idx"
  obtain fd n where d: "mm_camera_open D = (0, fd, n)"
    using assms(6) by (auto simp: camera_open_end_def split: prod.splits if_splits)
  obtain fd' n' where d': "mm_camera_open D' = (0, fd', n')"
    using assms(7) by (auto simp: camera_open_end_def split: prod.splits if_splits)
  let ?x1 = "(new_camera ?h1)\<lparr>ctrl_fd := fd, cam_sessionid := n, cam_lock := False\<rparr>"
  let ?x2 = "(new_camera ?h2)\<lparr>ctrl_fd := fd', cam_sessionid := n', cam_lock := False\<rparr>"
  have k: "k1 = length (objs w)" "k2 = length (objs w) + 1"
    and w2: "objs w2 = objs w @ [new_camera ?h1, new_camera ?h2]" "cam_objs w2 = cam_objs w"
      "g_intf_lock w2 = g_intf_lock w"
    using assms(1,3,4,5)
    by (auto simp: camera_open_begin_def on_store_def mm_camera_util_generate_handler_def)
  have w4: "objs w4 = objs w @ [?x1, ?x2]" "cam_objs w4 = (cam_objs w)[unat idx := Some k2]" "h1 = ?h1" "h2 = ?h2"
    "g_intf_lock w4 = g_intf_lock w"
    using assms(6,7) d d' w2
    by (auto simp: camera_open_end_def k upd_obj_def nth_append list_update_append new_camera_def)
  have "?c + 1 \<noteq> ?c"
    by simp
  then have "next_count ?c \<noteq> ?c"
    unfolding next_count_def [of ?c] using next_count_def by (auto split: if_splits)
  then have "(ucast (next_count ?c) :: 32 word) \<noteq> ucast ?c"
    using unat_wider [of ?c] unat_wider [of "next_count ?c"] by (metis word_eq_iff_unsigned)
  then have "h1 \<noteq> h2"
    using handler_count [of ?c idx] handler_count [of "next_count ?c" idx] w4(3,4) by auto
  with assms(2,8) w4 opened_device [OF d] show ?thesis
    by (simp add: mm_camera_util_get_camera_by_handler_def handler_index nth_append k new_camera_def
        mm_camera_intf_close_def)
qed

lemma second_open_loses_the_first_witness:
  "\<exists>h1 h2 w. mm_camera_util_get_camera_by_handler h2 w = Some 2 \<and> mm_camera_util_get_camera_by_handler h1 w = None
    \<and> \<not> failed (ctrl_fd (objs w ! 1))"
proof -
  obtain w1 where 1: "run_state (camera_open_begin 1 True) ex_cams = (Opening 1, w1)" "length (objs w1) = 2"
      "cam_objs w1 = cam_objs ex_cams" "num_cam w1 = 2"
    by (simp add: camera_open_begin_def ex_cams_def on_store_def mm_camera_util_generate_handler_def)
  then obtain w2 where 2: "run_state (camera_open_begin 1 True) w1 = (Opening 2, w2)"
    by (simp add: camera_open_begin_def ex_cams_def on_store_def mm_camera_util_generate_handler_def)
  obtain h1 w3 where 3: "run_state (camera_open_end ex_open_env 1 1) w2 = (Opened h1, w3)"
    by (simp add: camera_open_end_def ex_opens)
  obtain h2 w4 where 4: "run_state (camera_open_end ex_open_env 1 2) w3 = (Opened h2, w4)"
    by (simp add: camera_open_end_def ex_opens)
  from second_open_loses_the_first [OF _ _ _ 1(1) 2 3 4] show ?thesis
    by (auto simp: ex_cams_def)
qed

end
