(* ===== verification/ChannelReady.thy ===== *)
theory ChannelReady
  imports ChannelSteps
begin

text \<open>
  What starting a channel leaves for its command thread: a queue in order when it succeeds, and a queue without its
  attributes when it fails.
\<close>

section \<open>What the streams do not touch\<close>

lemma path_upd [simp]:
  "path p (upd_slot q i f s) = path p s" "path p (upd_chan q g s) = path p s"
  "path p (upd_path q h s) = (if q = p then h (path p s) else path p s)"
  "path p (s\<lparr>broken := b\<rparr>) = path p s"
  by (simp_all add: path_def upd_slot_def upd_chan_def upd_path_def put_chan_def)

lemma keeps_path_streams [keeps_intros]:
  "keeps (path p) breaks" "keeps (path p) (check_info q is)" "keeps (path p) (on_stream q i m)"
  "keeps (path p) (stream_fsm P E qj e)" "keeps (path p) (set_user u q i)"
proof -
  show b: "keeps (path p) breaks"
    by (simp add: keeps_def breaks_def)
  show "keeps (path p) (check_info q is)"
    unfolding check_info_def by (intro keeps_intros b)
  show "keeps (path p) (on_stream q i m)" for m
    by (simp add: keeps_def)
  show "keeps (path p) (stream_fsm P E qj e)"
    by (simp add: stream_fsm_def keeps_def)
  show "keeps (path p) (set_user u q i)"
    unfolding set_user_def by (intro keeps_intros b; simp)
qed

lemma keeps_path_loops [keeps_intros]:
  "keeps (path p) (set_users u q is)" "keeps (path p) (mark_bundled q is)" "keeps (path p) (start_streams P E q is n)"
proof -
  show "keeps (path p) (set_users u q is)"
    by (induction "is") (simp_all only: set_users.simps, (intro keeps_intros)+)
  show "keeps (path p) (mark_bundled q is)"
    by (induction "is") (simp_all only: mark_bundled.simps, (intro keeps_intros)+)
  show "keeps (path p) (start_streams P E q is n)"
    by (induction "is" arbitrary: n)
      (simp_all only: start_streams.simps bring_up_def, (intro keeps_intros; assumption?)+)
qed

lemma keepsD: "keeps f m \<Longrightarrow> run_state m s = (a, t) \<Longrightarrow> f t = f s"
  by (metis keeps_def snd_conv)

section \<open>A start that succeeds\<close>

lemma start_bundle_path:
  assumes "run_state (start_bundle p is) s = (x, t)"
  shows "\<exists>hs. length hs \<le> length is \<and> path p t = upd_queue (fresh_queue hs) (path p s)"
proof -
  let ?fs = "filter (\<lambda>i. \<not> noFrameExpected (strm_info (stream p i s))) is"
  let ?hs = "map (\<lambda>i. my_hdl (stream p i s)) ?fs"
  have "path p (snd (run_state (mark_bundled p ?fs) (upd_path p (upd_queue (fresh_queue ?hs)) s)))
      = upd_queue (fresh_queue ?hs) (path p s)"
    using keeps_path_loops(2) [of p p ?fs] by (simp add: keeps_def)
  then have "path p t = upd_queue (fresh_queue ?hs) (path p s)"
    using assms by (auto simp: start_bundle_def launch_threads_def case_prod_beta)
  moreover have "length ?hs \<le> length is"
    by simp
  ultimately show ?thesis
    by blast
qed

lemma streams_of_length: "length (streams_of p s) \<le> MAX_STREAM_NUM_IN_BUNDLE"
proof -
  have "length (List.map_filter f xs) \<le> length xs" for f :: "nat \<Rightarrow> nat option" and xs
    by (induction xs) (simp_all add: List.map_filter_simps split: option.split)
  from this [of _ all_slots] show ?thesis
    by (simp add: streams_of_def all_slots_def)
qed

lemma start_path:
  assumes r: "run_state (mm_channel_start P E p) s = (0, t)" and cb: "super_buf_notify_cb (path p s)"
  shows "\<exists>hs. length hs \<le> MAX_STREAM_NUM_IN_BUNDLE
    \<and> path p t = (upd_queue (fresh_queue hs) (path p s))\<lparr>bWaitForPrepSnapshotDone := False\<rparr>"
proof -
  define is0 where "is0 = streams_of p s"
  define s1 where "s1 = snd (run_state (check_info p is0) s)"
  define ks where "ks = meta_first p is0 s1"
  define s2 where "s2 = snd (run_state (start_bundle p ks) s1)"
  define s3 where "s3 = snd (run_state (set_users p p ks) s2)"
  define s4 where "s4 = snd (run_state (start_streams P E p ks 0) s3)"
  define s5 where "s5 = upd_path p (\<lambda>c. c\<lparr>bWaitForPrepSnapshotDone := False\<rparr>) s4"
  have 1: "path p s1 = path p s"
    using keeps_path_streams(2) [of p p is0] by (simp add: keeps_def s1_def)
  have l: "length ks \<le> MAX_STREAM_NUM_IN_BUNDLE"
    using streams_of_length [of p s] by (simp add: ks_def meta_first_def swap_at_def is0_def Let_def)
  obtain hs where 2: "length hs \<le> length ks" "path p s2 = upd_queue (fresh_queue hs) (path p s)"
    using start_bundle_path [of p ks s1] 1 by (metis prod.collapse s2_def)
  have 3: "path p s3 = path p s2"
    using keeps_path_loops(1) [of p p p ks] by (simp add: keeps_def s3_def)
  have 4: "path p s4 = path p s3"
    using keeps_path_loops(3) [of p P E p ks 0] by (simp add: keeps_def s4_def)
  have t: "path p t = path p s5"
    using r cb 1 unfolding mm_channel_start_def
    by (auto simp: case_prod_beta is0_def [symmetric] s1_def [symmetric] ks_def [symmetric] s2_def [symmetric]
        s3_def [symmetric] s4_def [symmetric] s5_def [symmetric] on_sync_def path_def split: if_splits)
  show ?thesis
    using l 2 3 4 t by (intro exI [of _ hs]) (simp add: s5_def)
qed

section \<open>A start that fails\<close>

text \<open>What depends neither on the streams nor on the world of the threads nor on the commands that are queued.\<close>

locale bystander =
  fixes f :: "channels \<Rightarrow> 'b"
  assumes slot_free: "f (upd_slot q i g s) = f s"
    and world_free: "f (s\<lparr>cworld := w\<rparr>) = f s"
    and broken_free: "f (s\<lparr>broken := b\<rparr>) = f s"
    and cmds_free: "f (upd_chan q (cmds_update h) s) = f s"
begin

lemma modifies:
  "keeps f (modify (upd_slot q i g))" "keeps f breaks" "keeps f (check_info q is)" "keeps f alloc"
  "keeps f (on_stream q i m)" "keeps f (modify (\<lambda>s. s\<lparr>cworld := w\<rparr>))" "keeps f (modify (upd_chan q (cmds_update h)))"
proof -
  show b: "keeps f breaks"
    by (simp add: keeps_def breaks_def broken_free)
  show "keeps f (check_info q is)"
    unfolding check_info_def by (intro keeps_intros b)
  show "keeps f alloc"
    by (simp add: keeps_def alloc_def case_prod_beta world_free)
qed (simp_all add: keeps_def slot_free world_free cmds_free)

lemma streams: "keeps f (stream_fsm P E qj e)" "keeps f (set_user u q i)"
  unfolding stream_fsm_def set_user_def by (intro keeps_intros modifies)+

lemma give: "keeps f (give_back P E q bs)" "keeps f (give_back_all P E ps)"
proof -
  show g: "keeps f (give_back P E q bs)" for q bs
    by (induction bs) (simp_all only: give_back.simps, (intro keeps_intros modifies streams; assumption?)+)
  show "keeps f (give_back_all P E ps)"
    by (induction ps) (auto intro!: keeps_intros g)
qed

lemma commands: "keeps f (run_cmd P E q c)" "keeps f (run_cmds P E q cs)" "keeps f (catch_up P E q cs)"
  "keeps f (mm_channel_flush_super_buf_queue P E q frame ty)"
proof -
  show c: "keeps f (run_cmd P E q c)" for c
    unfolding run_cmd_def by (intro keeps_intros modifies give)
  show r: "keeps f (run_cmds P E q cs)" for cs
    by (induction cs) (simp_all only: run_cmds.simps, (intro keeps_intros c; assumption?)+)
  show u: "keeps f (catch_up P E q cs)" for cs
    unfolding catch_up_def by (intro keeps_intros modifies r)
  show "keeps f (mm_channel_flush_super_buf_queue P E q frame ty)"
    unfolding mm_channel_flush_super_buf_queue_def by (intro keeps_intros modifies u)
qed

lemma loops: "keeps f (set_users u q is)" "keeps f (start_streams P E q is n)" "keeps f (unlink_failed P E q k is)"
  "keeps f (each_own (\<lambda>i. take_down (stream_fsm P E (q, i))) q is)"
proof -
  show "keeps f (set_users u q is)"
    by (induction "is") (simp_all only: set_users.simps, (intro keeps_intros streams; assumption?)+)
  show "keeps f (start_streams P E q is n)"
    by (induction "is" arbitrary: n)
      (simp_all only: start_streams.simps bring_up_def, (intro keeps_intros streams; assumption?)+)
  show "keeps f (unlink_failed P E q k is)"
    by (induction "is") (simp_all only: unlink_failed.simps, (intro keeps_intros streams modifies commands; assumption?)+)
  show "keeps f (each_own (\<lambda>i. take_down (stream_fsm P E (q, i))) q is)"
    by (induction "is")
      (simp_all only: each_own.simps take_down_def stop_unreg_def put_back_def, (intro keeps_intros streams; assumption?)+)
qed

end

interpretation bystands: bystander "\<lambda>s. bundle_active (chs s p)" for p
  by unfold_locales (auto simp: upd_slot_def upd_chan_def)

lemma end_bundle_path:
  "path p (snd (run_state (end_bundle P E p (\<lambda>q. zero_queue)) s)) =
     (path p (snd (run_state (release_threads P E p) s)))\<lparr>superbuf_queue := zero_queue\<rparr>"
  by (simp add: end_bundle_def upd_queue_def case_prod_beta)

lemma failed_start_path:
  assumes r: "run_state (mm_channel_start P E p) s = (rc, t)" "rc \<noteq> 0" and cb: "super_buf_notify_cb (path p s)"
  shows "superbuf_queue (path p t) = zero_queue"
proof -
  define is0 where "is0 = streams_of p s"
  define s1 where "s1 = snd (run_state (check_info p is0) s)"
  define ks where "ks = meta_first p is0 s1"
  define s2 where "s2 = snd (run_state (start_bundle p ks) s1)"
  define s3 where "s3 = snd (run_state (set_users p p ks) s2)"
  define s4 where "s4 = snd (run_state (start_streams P E p ks 0) s3)"
  define n where "n = snd (fst (run_state (start_streams P E p ks 0) s3))"
  define s5 where "s5 = snd (run_state (unlink_failed P E p (ks ! n) ks) s4)"
  define s6 where "s6 = snd (run_state (each_own (\<lambda>i. take_down (stream_fsm P E (p, i))) p (take (Suc n) ks)) s5)"
  define s7 where "s7 = snd (run_state (end_bundle P E p (\<lambda>q. zero_queue)) s6)"
  have 1: "path p s1 = path p s"
    using keeps_path_streams(2) [of p p is0] by (simp add: keeps_def s1_def)
  have "bundle_active (chs s2 p)"
    by (simp add: s2_def start_bundle_def upd_chan_def case_prod_beta)
  then have a: "bundle_active (chs s6 p)"
    using bystands.loops(1) [of p p p ks] bystands.loops(2) [of p P E p ks 0] bystands.loops(3) [of p P E p "ks ! n" ks]
      bystands.loops(4) [of p P E p "take (Suc n) ks"]
    by (simp add: keeps_def s3_def s4_def s5_def s6_def)
  have u: "snd (run_state (undo_start P E p ks n) s4) = s7"
    using a by (simp add: undo_start_def case_prod_beta s5_def [symmetric] s6_def [symmetric] s7_def [symmetric])
  have q: "superbuf_queue (path p s7) = zero_queue"
    by (simp add: s7_def end_bundle_path)
  let ?s8 = "upd_path p (\<lambda>c. c\<lparr>bWaitForPrepSnapshotDone := False\<rparr>) s7"
  have "\<not> frame_synced p ?s8"
    by (simp add: frame_synced_def q zero_queue_def zero_attr_def)
  then have "t = ?s8"
    using r cb 1 u unfolding mm_channel_start_def
    by (auto simp: case_prod_beta is0_def [symmetric] s1_def [symmetric] ks_def [symmetric] s2_def [symmetric]
        s3_def [symmetric] s4_def [symmetric] n_def [symmetric] split: if_splits)
  with q show ?thesis
    by simp
qed

end
