(* ===== verification/ChannelInv.thy ===== *)
theory ChannelInv
  imports ChannelProcess
begin

text \<open>
  The buffers of a channel through its command thread: each is in the queue, given back, or in a
  superbuffer that was sent (\<open>account\<close>), and the invariant of the queue (\<open>chan_ok\<close>) is kept.
\<close>

section \<open>The invariant of a channel\<close>

definition chan_ok :: "mm_channel \<Rightarrow> bool" where
  "chan_ok c \<longleftrightarrow> queue_ok (superbuf_queue c) \<and> ordered c \<and> in_place (superbuf_queue c)
     \<and> priority (attr (superbuf_queue c)) \<noteq> PRIORITY_LOW
     \<and> max_unmatched_frames (attr (superbuf_queue c)) < 255"

definition chans_ok :: "cam_world \<Rightarrow> bool" where
  "chans_ok w \<longleftrightarrow> (\<forall>p c. chans w p = Some c \<longrightarrow> chan_ok c)"

definition msg_held :: "superbuf_msg \<Rightarrow> mm_camera_buf_def list" where
  "msg_held m = List.map_filter id (msg_bufs m)"

definition sent_bufs :: "ptr \<Rightarrow> cam_world \<Rightarrow> mm_camera_buf_def multiset" where
  "sent_bufs p w = mset (concat (map (msg_held \<circ> snd) (filter (\<lambda>x. fst x = p) (sent w))))"

text \<open>The buffers of a channel: in its queue, given back, or in a superbuffer that was sent.\<close>

definition account :: "cam_world \<Rightarrow> ptr \<Rightarrow> mm_camera_buf_def multiset" where
  "account w p = (case chans w p of None \<Rightarrow> {#} | Some c \<Rightarrow> all_bufs c) + sent_bufs p w"

definition info_bufs :: "ptr \<Rightarrow> (ptr \<times> queue_node) list \<Rightarrow> mm_camera_buf_def multiset" where
  "info_bufs p info = held (map snd (filter (\<lambda>x. fst x = p) info))"

lemma info_bufs_simps [simp]:
  "info_bufs p [] = {#}"
  "info_bufs p ((q, n) # info) = (if q = p then mset (held_of n) else {#}) + info_bufs p info"
  by (simp_all add: info_bufs_def)

lemma sent_bufs_same: "sent w' = sent w \<Longrightarrow> sent_bufs p w' = sent_bufs p w"
  by (simp add: sent_bufs_def)

lemma account_put:
  "account (put_chan q c w) p = (if p = q then all_bufs c + sent_bufs p w else account w p)"
  by (simp add: account_def sent_bufs_def)

lemma chan_ok_cong:
  assumes "chan_ok c"
    and "que (superbuf_queue c') = que (superbuf_queue c)" "que_size (superbuf_queue c') = que_size (superbuf_queue c)"
    and "match_cnt (superbuf_queue c') = match_cnt (superbuf_queue c)"
    and "same_setup (superbuf_queue c) (superbuf_queue c')"
    and "priority (attr (superbuf_queue c')) = priority (attr (superbuf_queue c))"
    and "max_unmatched_frames (attr (superbuf_queue c')) = max_unmatched_frames (attr (superbuf_queue c))"
  shows "chan_ok c'"
  using assms node_in_place_cong [OF assms(5)]
  by (simp add: chan_ok_def queue_ok_def ordered_def counted_def in_place_def same_setup_def)

lemma kept_chan_ok:
  assumes "chan_ok c" "kept c c'"
  shows "chan_ok c'" "all_bufs c' = all_bufs c"
proof -
  have ok: "queue_ok (superbuf_queue c)" "ordered c"
    using assms(1) by (simp_all add: chan_ok_def)
  obtain ns where k: "queue_ok (superbuf_queue c')" "all_bufs c' = all_bufs c"
    "same_setup (superbuf_queue c) (superbuf_queue c')" "que (superbuf_queue c) = ns @ que (superbuf_queue c')"
    "priority (attr (superbuf_queue c')) = priority (attr (superbuf_queue c))"
    "max_unmatched_frames (attr (superbuf_queue c')) = max_unmatched_frames (attr (superbuf_queue c))"
    using assms(2) ok(1) by (auto simp: kept_def)
  have "in_place (superbuf_queue c')"
    using assms(1) k(4) node_in_place_cong [OF k(3)] by (simp add: chan_ok_def in_place_def)
  with k kept_ordered [OF assms(2) ok] assms(1) show "chan_ok c'" "all_bufs c' = all_bufs c"
    by (simp_all add: chan_ok_def)
qed

lemma flush_chan_ok:
  assumes "chan_ok c" "mm_channel_superbuf_flush CAM_STREAM_TYPE_DEFAULT (c, fs) = (c', fs')"
  shows "chan_ok c'" "all_bufs c' = all_bufs c"
  using kept_chan_ok [OF assms(1) kept_flush [of c fs]] assms(2) by simp_all

lemma comp_chan_ok:
  assumes "chan_ok c" "buf b = Some d"
    and "stream_id b \<in> set (take (num_streams (superbuf_queue c)) (bundled_streams (superbuf_queue c)))"
  shows "\<exists>rc c' fs'. mm_channel_superbuf_comp_and_enqueue self memory b (c, fs) = Some (rc, c', fs')
    \<and> chan_ok c' \<and> all_bufs c' = all_bufs c + {#d#}"
proof -
  have c: "queue_ok (superbuf_queue c)" "ordered c" "in_place (superbuf_queue c)"
    "priority (attr (superbuf_queue c)) \<noteq> PRIORITY_LOW"
    "max_unmatched_frames (attr (superbuf_queue c)) < 255"
    using assms(1) by (simp_all add: chan_ok_def)
  obtain rc c' fs' where r: "mm_channel_superbuf_comp_and_enqueue self memory b (c, fs) = Some (rc, c', fs')"
    "ordered c'"
    using comp_and_enqueue_ordered [OF c(1) assms(2) c(4,5,2)] by blast
  note s = comp_and_enqueue_conserves [OF c(1) assms(2,3) r(1)]
  note i = comp_and_enqueue_in_place [OF c(1,3) assms(2) r(1)]
  show ?thesis
    using r s i c(4,5) by (auto simp: chan_ok_def)
qed

section \<open>Taking and sending\<close>

lemma chan_ok_queue: "superbuf_queue c' = superbuf_queue c \<Longrightarrow> chan_ok c' = chan_ok c"
  by (simp add: chan_ok_def ordered_def)

lemma chan_ok_sel [simp]:
  "chan_ok (mm_channel_node_qbuf n c) = chan_ok c" "chan_ok (c\<lparr>unLockAEC := x\<rparr>) = chan_ok c"
  by (rule chan_ok_queue; simp)+

lemma dequeue_chan_ok:
  assumes "chan_ok c" "mm_channel_superbuf_dequeue (c, fs) = (r, c', fs')"
  shows "chan_ok c'" and "all_bufs c = all_bufs c' + (case r of None \<Rightarrow> {#} | Some n \<Rightarrow> mset (held_of n))"
proof -
  have "chan_ok c' \<and> all_bufs c = all_bufs c' + (case r of None \<Rightarrow> {#} | Some n \<Rightarrow> mset (held_of n))"
  proof (cases rule: dequeue_internal_cases [of c True fs])
    case (taken n ns c2 fs2)
    then have c': "c' = c2" "r = Some n" "matched n"
      using assms(2) by (simp_all add: mm_channel_superbuf_dequeue_def)
    have c: "queue_ok (superbuf_queue c)" "ordered c"
      using assms(1) by (simp_all add: chan_ok_def)
    have "superbuf_queue c' = (superbuf_queue c)\<lparr>que := ns, que_size := que_size (superbuf_queue c) - 1,
        match_cnt := match_cnt (superbuf_queue c) - 1\<rparr>"
      using taken(5) c' by simp
    note d = dequeue_ordered [OF c taken(1) c'(3) this] this
    have "same_setup (superbuf_queue c) (superbuf_queue c')"
      using d(3) by (simp add: same_setup_def)
    then have "node_in_place (superbuf_queue c') = node_in_place (superbuf_queue c)"
      by (rule node_in_place_cong)
    then have "in_place (superbuf_queue c')"
      using assms(1) taken(1) d(3) by (simp add: chan_ok_def in_place_def)
    with d assms(1) taken(1,4) c' show ?thesis
      by (simp add: chan_ok_def all_bufs_def)
  qed (use assms in \<open>auto simp: mm_channel_superbuf_dequeue_def\<close>)
  then show "chan_ok c'" and "all_bufs c = all_bufs c' + (case r of None \<Rightarrow> {#} | Some n \<Rightarrow> mset (held_of n))"
    by simp_all
qed

lemma dequeue_frame_chan_ok:
  assumes "chan_ok c" "mm_channel_superbuf_dequeue_frame_internal f c = (r, c')"
  shows "chan_ok c'" and "all_bufs c = all_bufs c' + (case r of None \<Rightarrow> {#} | Some n \<Rightarrow> mset (held_of n))"
proof -
  let ?q = "superbuf_queue c"
  have "chan_ok c' \<and> all_bufs c = all_bufs c' + (case r of None \<Rightarrow> {#} | Some n \<Rightarrow> mset (held_of n))"
  proof (cases "index_of (\<lambda>n. matched n \<and> node_frame_idx n = f) (que ?q)")
    case None
    with assms show ?thesis
      by (simp add: mm_channel_superbuf_dequeue_frame_internal_def)
  next
    case (Some i)
    let ?n = "que ?q ! i"
    have i: "i < length (que ?q)" "matched ?n"
      using index_of_Some [OF Some] by simp_all
    have c': "superbuf_queue c' = ?q\<lparr>que := take i (que ?q) @ drop (i + 1) (que ?q), que_size := que_size ?q - 1,
        match_cnt := match_cnt ?q - 1\<rparr>" "r = Some ?n" "qbufs c' = qbufs c"
      using assms(2) Some by (auto simp: mm_channel_superbuf_dequeue_frame_internal_def Let_def)
    obtain ms us where q: "que ?q = ms @ us" "list_all matched ms" "list_all (\<lambda>n. \<not> matched n) us"
      "sorted_wrt (<) (map node_frame_idx us)" "length us \<le> unat (max_unmatched_frames (attr ?q)) + 1"
      "list_all one_frame ms" "list_all one_frame us" "match_cnt ?q = of_nat (length ms)"
      using assms(1) by (auto simp: chan_ok_def elim: orderedE)
    have ims: "i < length ms"
    proof (rule ccontr)
      assume "\<not> i < length ms"
      then have "?n \<in> set us"
        using i(1) q(1) by (simp add: nth_append)
      with q(3) i(2) show False
        by (simp add: list_all_iff)
    qed
    then have que: "que (superbuf_queue c') = (take i ms @ drop (i + 1) ms) @ us"
      using c'(1) q(1) by simp
    have "ordered c'"
      using que q ims c'(1)
      by (intro orderedI [of _ "take i ms @ drop (i + 1) ms" us]) (simp_all add: list_all_cut of_nat_diff)
    moreover have "queue_ok (superbuf_queue c')"
      using assms(1) i(1) c'(1)
      by (auto simp: chan_ok_def queue_ok_def list_all_cut of_nat_diff min_def)
    moreover have "same_setup ?q (superbuf_queue c')"
      using c'(1) by (simp add: same_setup_def)
    then have "node_in_place (superbuf_queue c') = node_in_place ?q"
      by (rule node_in_place_cong)
    then have "in_place (superbuf_queue c')"
      using assms(1) c'(1) by (simp add: chan_ok_def in_place_def list_all_cut)
    moreover have "held (que ?q) = held (take i (que ?q) @ drop (i + 1) (que ?q)) + mset (held_of ?n)"
      using i(1) by (subst id_take_nth_drop [OF i(1)]) simp
    then have "all_bufs c = all_bufs c' + mset (held_of ?n)"
      using c'(1,3) by (simp add: all_bufs_def)
    ultimately show ?thesis
      using c'(1,2) assms(1) by (simp add: chan_ok_def)
  qed
  then show "chan_ok c'" and "all_bufs c = all_bufs c' + (case r of None \<Rightarrow> {#} | Some n \<Rightarrow> mset (held_of n))"
    by simp_all
qed

lemma chans_ok_put: "chans_ok w \<Longrightarrow> chan_ok c \<Longrightarrow> chans_ok (put_chan p c w)"
  by (simp add: chans_ok_def)

lemma take_frame_account:
  assumes "take_frame f ps w = Some (info, w')" "chans_ok w"
  shows "chans_ok w' \<and> account w p = account w' p + info_bufs p info
    \<and> sent w' = sent w \<and> zsl_calls w' = zsl_calls w \<and> dom (chans w') = dom (chans w)
    \<and> fst ` set info \<subseteq> dom (chans w)"
  using assms
proof (induction ps arbitrary: w info)
  case (Cons q ps)
  show ?case
  proof (cases "q = NULL")
    case False
    with Cons.prems obtain c r c1 where c: "chans w q = Some c"
      "mm_channel_superbuf_dequeue_frame_internal f c = (r, c1)"
      by (auto split: option.splits prod.splits)
    then obtain info1 where t: "take_frame f ps (put_chan q c1 w) = Some (info1, w')"
      "info = (case r of None \<Rightarrow> info1 | Some n \<Rightarrow> (q, n) # info1)"
      using False Cons.prems by (auto split: option.splits)
    have ok: "chan_ok c"
      using Cons.prems(2) c(1) by (simp add: chans_ok_def)
    note d = dequeue_frame_chan_ok [OF ok c(2)]
    from Cons.IH [OF t(1) chans_ok_put [OF Cons.prems(2) d(1)]] show ?thesis
      using t(2) c(1) d(2) by (auto simp: account_put account_def sent_bufs_def split: option.splits if_splits)
  qed (use Cons in simp)
qed simp

lemma node_qbuf_account:
  assumes "fst pn \<in> dom (chans w)"
  shows "account (node_qbuf pn w) p = account w p + info_bufs p [pn]"
    and "chans_ok w \<Longrightarrow> chans_ok (node_qbuf pn w)"
    and "dom (chans (node_qbuf pn w)) = dom (chans w)"
    and "sent (node_qbuf pn w) = sent w" "zsl_calls (node_qbuf pn w) = zsl_calls w"
proof -
  obtain q n where pn: "pn = (q, n)"
    by fastforce
  obtain c where c: "chans w q = Some c"
    using assms pn by auto
  show "account (node_qbuf pn w) p = account w p + info_bufs p [pn]"
    using pn c by (simp add: node_qbuf_def account_put) (simp add: account_def all_bufs_def qbufs_node_qbuf)
  show "chans_ok (node_qbuf pn w)" if "chans_ok w"
    using that pn c by (auto simp: node_qbuf_def chans_ok_def)
  show "dom (chans (node_qbuf pn w)) = dom (chans w)" "sent (node_qbuf pn w) = sent w"
    "zsl_calls (node_qbuf pn w) = zsl_calls w"
    using pn c by (auto simp: node_qbuf_def)
qed

lemma send_node_account:
  assumes "fst pn \<in> dom (chans w)"
  shows "account (send_node pn w) p = account w p + info_bufs p [pn]"
    and "chans_ok w \<Longrightarrow> chans_ok (send_node pn w)"
    and "dom (chans (send_node pn w)) = dom (chans w)"
proof -
  obtain q n where pn: "pn = (q, n)"
    by fastforce
  obtain c where c: "chans w q = Some c"
    using assms pn by auto
  obtain ok w1 where "malloc w = (ok, w1)"
    by fastforce
  then have m: "malloc w = (ok, w1)" "chans w1 = chans w" "sent w1 = sent w"
    by (auto simp: malloc_def split: list.splits)
  have held: "msg_held (superbuf_of c n) = held_of n"
    by (simp add: msg_held_def superbuf_of_def held_of_def List.map_filter_def filter_map comp_def)
  show "account (send_node pn w) p = account w p + info_bufs p [pn]"
    using pn c m held
    by (auto simp: send_node_def account_def sent_bufs_def all_bufs_def qbufs_node_qbuf)
  show "chans_ok (send_node pn w)" if "chans_ok w"
    using that pn c m
    by (auto simp: send_node_def chans_ok_def)
  show "dom (chans (send_node pn w)) = dom (chans w)"
    using pn c m by (auto simp: send_node_def)
qed

lemma info_bufs_Cons: "info_bufs p (pn # info) = info_bufs p [pn] + info_bufs p info"
  by (cases pn) simp

lemma fold_account:
  assumes "\<And>pn w. fst pn \<in> dom (chans w) \<Longrightarrow> account (f pn w) p = account w p + info_bufs p [pn]
      \<and> (chans_ok w \<longrightarrow> chans_ok (f pn w)) \<and> dom (chans (f pn w)) = dom (chans w)"
    and "fst ` set info \<subseteq> dom (chans w)" "chans_ok w"
  shows "account (fold f info w) p = account w p + info_bufs p info \<and> chans_ok (fold f info w)
    \<and> dom (chans (fold f info w)) = dom (chans w)"
  using assms(2,3)
proof (induction info arbitrary: w)
  case (Cons pn info)
  from assms(1) [of pn w] Cons.prems Cons.IH [of "f pn w"] show ?case
    by (simp add: info_bufs_Cons [of p pn info])
qed simp

lemma take_account:
  assumes "chans w self = Some c" "chans_ok w" "take_superbufs self c w = Some (info, w')"
  shows "chans_ok w' \<and> account w p = account w' p + info_bufs p info \<and> dom (chans w') = dom (chans w)
    \<and> fst ` set info \<subseteq> dom (chans w)"
proof (cases "req_type c = REQ_FRAME_SYNC_BUF")
  case False
  obtain r c1 fs1 where d: "mm_channel_superbuf_dequeue (c, sync w) = (r, c1, fs1)"
    by (metis prod_cases3)
  have ok: "chan_ok c"
    using assms(1,2) by (simp add: chans_ok_def)
  note q = dequeue_chan_ok [OF ok d]
  have n: "chan_ok (mm_channel_node_qbuf n c1)" "all_bufs (mm_channel_node_qbuf n c1) = all_bufs c1 + mset (held_of n)" for n
    using q(1) by (simp_all add: all_bufs_def qbufs_node_qbuf)
  have a: "account (put_cf self (c2, fs1) w) p = (if p = self then all_bufs c2 + sent_bufs p w else account w p)"
    "chan_ok c2 \<Longrightarrow> chans_ok (put_cf self (c2, fs1) w)" for c2
    using assms(2) by (simp_all add: account_def sent_bufs_def chans_ok_def)
  have s: "account w self = all_bufs c + sent_bufs self w"
    using assms(1) by (simp add: account_def)
  show ?thesis
    using False assms(1,3) d q n a s
    by (auto simp: take_superbufs_def take_own_def split: option.splits if_splits)
next
  case True
  let ?f = "mm_frame_sync_find_matched False (sync w)"
  show ?thesis
  proof (cases "?f = 0")
    case True
    with assms \<open>req_type c = REQ_FRAME_SYNC_BUF\<close> show ?thesis
      by (simp add: take_superbufs_def take_synced_def)
  next
    case False
    then obtain info1 w1 where t: "take_frame ?f (sync_ch (sync w)) w = Some (info1, w1)"
      using assms(3) True by (auto simp: take_superbufs_def take_synced_def Let_def split: option.splits)
    let ?w = "w1\<lparr>sync := snd (mm_frame_sync_remove ?f (sync w1))\<rparr>"
    note f = take_frame_account [OF t assms(2), of p]
    have w: "account ?w p = account w1 p" "chans_ok ?w = chans_ok w1" "dom (chans ?w) = dom (chans w1)"
      by (simp_all add: account_def sent_bufs_def chans_ok_def)
    have g: "account (fold node_qbuf info1 ?w) p = account ?w p + info_bufs p info1
        \<and> chans_ok (fold node_qbuf info1 ?w) \<and> dom (chans (fold node_qbuf info1 ?w)) = dom (chans ?w)"
      using f w by (intro fold_account) (simp_all add: node_qbuf_account)
    have "info = [] \<and> w' = fold node_qbuf info1 ?w \<or> info = info1 \<and> w' = ?w"
      using assms(3) True False t
      by (auto simp: take_superbufs_def take_synced_def Let_def split: if_splits)
    then show ?thesis
      using f w g by (elim disjE conjE) simp_all
  qed
qed

end
