(* ===== verification/ChannelStartSpec.thy ===== *)
theory ChannelStartSpec
  imports ChannelReady ChannelSpec ChannelInv
begin

text \<open>
  The properties of the handles of streams and of what starting a channel leaves for its thread, each with an example
  where its hypotheses hold.
\<close>

section \<open>Handles of streams\<close>

lemma add_result:
  assumes "free_slot p s = Some i" "i < length (slots (chs s p))"
    and "run_state (mm_channel_add_stream P E p) s = (h, t)" "h \<noteq> 0"
  shows "h = handler_of (next_count (g_handler_history_count s)) (of_nat i) \<and> my_hdl (stream p i t) = h
    \<and> state_of p i t = MM_STREAM_STATE_ACQUIRED \<and> owns p i t"
proof -
  let ?h = "handler_of (next_count (g_handler_history_count s)) (of_nat i)"
  let ?x = "fresh_stream ?h (sl_obj (slot p i s))"
  let ?r = "run_state (mm_stream_fsm_fn P (E p i) MM_STREAM_EVT_ACQUIRE) ?x"
  have r: "my_hdl (snd ?r) = ?h" "fst ?r = 0 \<Longrightarrow> st_state (snd ?r) = MM_STREAM_STATE_ACQUIRED"
    by (simp_all add: fresh_stream_def new_stream_def stream_edges_exact fsm_hdl stream_edge_def)
  have n: "slot p i (s\<lparr>g_handler_history_count := n\<rparr>) = slot p i s" "chs (s\<lparr>g_handler_history_count := n\<rparr>) = chs s" for n
    by (simp_all add: slot_def)
  from assms r show ?thesis
    by (auto simp: mm_channel_add_stream_def mm_camera_util_generate_handler_def run_stream_fsm stream_def owns_def
        n split: if_splits)
qed

text \<open>
  C11. The handle that adding a stream answers leads back to the stream: its low byte is the place in the array, which
  was free before, and looking the handle up finds that place, with a stream that the channel owns and that is
  acquired.
\<close>

theorem new_handle_leads_back:
  assumes "all_good s" and "p \<noteq> NULL" and "ch_state (chs s p) = MM_CHANNEL_STATE_STOPPED"
    and "g_handler_history_count s \<noteq> - 1"
    and "run_state (mm_channel_fsm_fn P E p MM_CHANNEL_EVT_ADD_STREAM) s = ((rc, Stream_hdl h), t)" and "h \<noteq> 0"
  shows "let i = unat (mm_camera_util_get_index_by_handler h) in
    \<not> used p i s \<and> find_stream p h t = Some i \<and> owns p i t \<and> state_of p i t = MM_STREAM_STATE_ACQUIRED"
proof -
  have c: "chan_good p s"
    using assms(1,2) by (simp add: all_good_def)
  have a: "run_state (mm_channel_add_stream P E p) s = (h, t)"
    using assms(3,5) by (auto simp: mm_channel_fsm_fn_def mm_channel_fsm_fn_stopped_def case_prod_beta)
  then obtain i where f: "free_slot p s = Some i"
    using assms(6) by (cases "free_slot p s") (simp_all add: mm_channel_add_stream_def)
  note i = free_slotD [OF f c] and r = add_result [OF f free_slotD(2) [OF f c] a assms(6)]
  have "unat (mm_camera_util_get_index_by_handler h) = i"
    using r i(1) by (simp add: handler_index unat_of_nat MAX_STREAM_NUM_IN_BUNDLE_def)
  moreover have "all_good t"
    using add_good [OF assms(1-4), of P E] a by simp
  then have "well_handled p t"
    using assms(2) good_well_handled(1) by (simp add: all_good_def)
  from find_own_handle [OF this i(1)] r have "find_stream p h t = Some i"
    by (simp add: used_def)
  moreover have "\<not> used p i s"
    using f by (auto simp: free_slot_def find_Some_iff used_def)
  ultimately show ?thesis
    using r by (simp add: Let_def)
qed

definition ex_empty_channels :: channels where
  "ex_empty_channels = no_channels\<lparr>chs := (\<lambda>p. no_chan\<lparr>ch_state := MM_CHANNEL_STATE_STOPPED\<rparr>)\<rparr>"

lemma ex_empty_good: "all_good ex_empty_channels"
  by (simp add: all_good_def chan_good_def marks_ok_def marks_def ex_empty_channels_def no_channels_def no_chan_def
      no_slot_def chan_mark_def mark_ok_def new_stream_def list_all_iff)

lemma new_handle_leads_back_witness:
  "\<exists>h t. let i = unat (mm_camera_util_get_index_by_handler h) in
    find_stream 1 h t = Some i \<and> state_of 1 i t = MM_STREAM_STATE_ACQUIRED"
proof -
  let ?E = "\<lambda>_ _. ex_env"
  have f: "free_slot 1 ex_empty_channels = Some 0"
    by (simp add: free_slot_def all_slots_def stream_def slot_def ex_empty_channels_def no_chan_def no_slot_def
        MAX_STREAM_NUM_IN_BUNDLE_def upt_conv_Cons)
  have st: "ch_state (chs ex_empty_channels 1) = MM_CHANNEL_STATE_STOPPED"
    by (simp add: ex_empty_channels_def)
  obtain h t where a: "run_state (mm_channel_add_stream ex_platform ?E 1) ex_empty_channels = (h, t)"
    by fastforce
  have "h = handler_of 1 0"
    using a f by (simp add: mm_channel_add_stream_def mm_camera_util_generate_handler_def stream_fsm_def case_prod_beta
        ex_acquire stream_def slot_def [symmetric] next_count_def ex_empty_channels_def no_channels_def no_chan_def
        MAX_STREAM_NUM_IN_BUNDLE_def)
  then have h: "h \<noteq> 0"
    by (simp add: handler_nonzero)
  have "run_state (mm_channel_fsm_fn ex_platform ?E 1 MM_CHANNEL_EVT_ADD_STREAM) ex_empty_channels
      = ((0, Stream_hdl h), t)"
    using a st by (simp add: mm_channel_fsm_fn_def mm_channel_fsm_fn_stopped_def del: One_nat_def)
  from new_handle_leads_back [OF ex_empty_good _ _ _ this h] show ?thesis
    by (intro exI [of _ h] exI [of _ t]) (simp add: Let_def ex_empty_channels_def no_channels_def)
qed

text \<open>
  C10. Over every allowed run of events, buffers and commands the array of streams of a channel is well formed: it has
  eight places, the handle of a place is zero exactly when the place is free, and every stream is the one that is
  found by its handle.
\<close>

theorem stream_array_is_well_formed:
  assumes "allowed_run E xs no_channels" and "s = chan_run E xs no_channels" and "p \<noteq> NULL"
  shows "length (slots (chs s p)) = MAX_STREAM_NUM_IN_BUNDLE
    \<and> list_all (\<lambda>i. if used p i s then my_hdl (stream p i s) \<noteq> 0 \<and> find_stream p (my_hdl (stream p i s)) s = Some i
        else my_hdl (stream p i s) = 0) [0 ..< MAX_STREAM_NUM_IN_BUNDLE]"
proof -
  have "chan_good p s"
    using run_good [OF no_channels_good assms(1)] assms(2,3) by (simp add: all_good_def)
  note w = good_well_handled(1) [OF this]
  then show ?thesis
    using find_own_handle [OF w] by (simp add: well_handled_def list_all_iff)
qed

lemma stream_array_is_well_formed_witness:
  "let s = chan_run ex_cam_env [Add_channel 1 0 5 None False, Chan_event 1 MM_CHANNEL_EVT_ADD_STREAM] no_channels
   in length (slots (chs s 1)) = 8"
proof -
  have "allowed_run ex_cam_env [Add_channel 1 0 5 None False, Chan_event 1 MM_CHANNEL_EVT_ADD_STREAM] no_channels"
    by (simp add: no_channels_def no_chan_def new_channel_def clear_chan_def mm_camera_util_generate_handler_def
        mm_channel_init_def to_chan_state_def next_count_def case_prod_beta)
  from stream_array_is_well_formed [OF this refl, of 1] show ?thesis
    by (simp add: Let_def MAX_STREAM_NUM_IN_BUNDLE_def)
qed

section \<open>A channel with one stream\<close>

text \<open>A channel with a callback whose one stream, its own, is in the state \<open>st\<close>.\<close>

definition ex_bundle :: "mm_stream_state_type \<Rightarrow> channels" where
  "ex_bundle st = (let x = ex_chan_slot\<lparr>sl_obj := (sl_obj ex_chan_slot)\<lparr>st_state := st\<rparr>\<rparr>
     in upd_path 1 (\<lambda>c. c\<lparr>super_buf_notify_cb := True\<rparr>) (upd_slot 1 0 (\<lambda>_. x) ex_channels))"

lemma ex_bundle_simps:
  "ch_state (chs (ex_bundle st) 1) = MM_CHANNEL_STATE_STOPPED"
  "path 1 (ex_bundle st) = zero_channel\<lparr>super_buf_notify_cb := True\<rparr>"
  "st \<noteq> MM_STREAM_STATE_NOTUSED \<Longrightarrow> streams_of 1 (ex_bundle st) = [0]"
  "owns 1 0 (ex_bundle st)"
  "stream 1 0 (ex_bundle st) = (new_stream 512)\<lparr>st_fd := 3, st_state := st\<rparr>"
proof -
  have l: "slot 1 0 (ex_bundle st) = ex_chan_slot\<lparr>sl_obj := (sl_obj ex_chan_slot)\<lparr>st_state := st\<rparr>\<rparr>"
    "0 < i \<Longrightarrow> i < 8 \<Longrightarrow> slot 1 i (ex_bundle st) = no_slot" for i
    using ex_slots(1) [of 1] ex_slots(2,3) by (simp_all add: ex_bundle_def Let_def upd_path_def slot_def
        upd_slot_def upd_chan_def del: One_nat_def)
  show "ch_state (chs (ex_bundle st) 1) = MM_CHANNEL_STATE_STOPPED"
    using ex_slots(4) by (simp add: ex_bundle_def Let_def upd_path_def)
  show "path 1 (ex_bundle st) = zero_channel\<lparr>super_buf_notify_cb := True\<rparr>"
    by (simp add: ex_bundle_def Let_def, simp add: path_def ex_channels_def no_channels_def)
  show "owns 1 0 (ex_bundle st)"
    by (simp add: owns_def l ex_chan_slot_def del: One_nat_def)
  show s: "stream 1 0 (ex_bundle st) = (new_stream 512)\<lparr>st_fd := 3, st_state := st\<rparr>"
    by (simp add: stream_def l ex_chan_slot_def del: One_nat_def)
  show "streams_of 1 (ex_bundle st) = [0]" if "st \<noteq> MM_STREAM_STATE_NOTUSED"
    using that s l(2) by (simp add: streams_of_def all_slots_def MAX_STREAM_NUM_IN_BUNDLE_def upt_conv_Cons
        List.map_filter_simps find_stream_def stream_def no_slot_def new_stream_def)
qed

lemma slot_kept [simp]:
  "slot p i (upd_path q h s) = slot p i s"
  "slot p i (upd_chan q (bundle_active_update f) s) = slot p i s"
  "slot p i (upd_chan q (\<lambda>c. c\<lparr>cmd_on := b, cmds := cs\<rparr>) s) = slot p i s"
  "slots (chs (upd_path q h s) r) = slots (chs s r)"
  by (simp_all add: slot_def upd_path_def upd_chan_def)

lemma bring_up_stored:
  assumes "i < length (slots (chs s p))"
  shows "fst (run_state (bring_up (stream_fsm P E (p, i))) s) = fst (run_state (bring_up (mm_stream_fsm_fn P (E p i))) (stream p i s))"
  using assms by (simp add: bring_up_def case_prod_beta stream_fsm_def stream_def)

lemma start_of_one:
  assumes "streams_of p s = [0]" "owns p 0 s" "has_info (stream p 0 s)" "\<not> noFrameExpected (strm_info (stream p 0 s))"
    "super_buf_notify_cb (path p s)" "0 < length (slots (chs s p))"
  shows "fst (run_state (mm_channel_start P E p) s) =
    (if st_state (stream p 0 s) = MM_STREAM_STATE_ACTIVE then - 1
     else fst (run_state (bring_up (mm_stream_fsm_fn P (E p 0))) ((stream p 0 s)\<lparr>is_bundled := True\<rparr>)))"
proof -
  define s2 where "s2 = snd (run_state (start_bundle p [0]) s)"
  have l: "0 < length (slots (chs s2 p))" "owns p 0 s2" "stream p 0 s2 = (stream p 0 s)\<lparr>is_bundled := True\<rparr>"
    using assms(2,4,6) by (simp_all add: s2_def start_bundle_def launch_threads_def owns_def stream_def case_prod_beta,
        simp add: upd_chan_def upd_slot_def)
  have "meta_first p [0] s = [0]"
    by (simp add: meta_first_def meta_idx_def)
  moreover have "run_state (check_info p [0]) s = ((), s)"
    using assms(3) by (simp add: check_info_def)
  ultimately have "fst (run_state (mm_channel_start P E p) s) = fst (fst (run_state (start_streams P E p [0] 0) s2))"
    using assms(1,5) l(2) unfolding mm_channel_start_def by (simp add: case_prod_beta s2_def [symmetric] del: start_streams.simps)
  also have "\<dots> = (if st_state (stream p 0 s) = MM_STREAM_STATE_ACTIVE then - 1
     else fst (run_state (bring_up (mm_stream_fsm_fn P (E p 0))) ((stream p 0 s)\<lparr>is_bundled := True\<rparr>)))"
    using l bring_up_stored [OF l(1), of P E] by (simp add: case_prod_beta)
  finally show ?thesis .
qed

lemma ex_bring_up:
  "fst (run_state (bring_up (mm_stream_fsm_fn ex_platform ex_env))
     ((new_stream 512)\<lparr>st_fd := 3, st_state := MM_STREAM_STATE_CFG, is_bundled := True\<rparr>)) = 0"
  by code_simp

lemma ex_start:
  assumes "st \<in> {MM_STREAM_STATE_CFG, MM_STREAM_STATE_ACTIVE}"
  shows "fst (fst (run_state (mm_channel_fsm_fn ex_platform (\<lambda>_ _. ex_env) 1 MM_CHANNEL_EVT_START) (ex_bundle st)))
    = (if st = MM_STREAM_STATE_CFG then 0 else - 1)"
proof -
  have st: "st \<noteq> MM_STREAM_STATE_NOTUSED"
    using assms by auto
  have l: "0 < length (slots (chs (ex_bundle st) 1))"
    using ex_slots(1) [of 1] by (simp add: ex_bundle_def Let_def)
  have "fst (run_state (mm_channel_start ex_platform (\<lambda>_ _. ex_env) 1) (ex_bundle st))
      = (if st = MM_STREAM_STATE_CFG then 0 else - 1)"
    using assms ex_bring_up start_of_one [OF ex_bundle_simps(3) [OF st] ex_bundle_simps(4) _ _ _ l, of ex_platform "\<lambda>_ _. ex_env"]
    by (auto simp: ex_bundle_simps has_info_def new_stream_def no_info_def simp del: One_nat_def)
  then show ?thesis
    by (simp add: mm_channel_fsm_fn_def mm_channel_fsm_fn_stopped_def plain_def case_prod_beta ex_bundle_simps(1)
        del: One_nat_def)
qed

section \<open>What a start leaves for the thread\<close>

text \<open>
  C9. Starting a channel with a callback makes its queue ready: when it succeeds the queue satisfies the invariant on
  which the handling of commands rests, and it is empty, with the attributes the channel was given.
\<close>

theorem started_channel_is_ready:
  assumes "ch_state (chs s p) = MM_CHANNEL_STATE_STOPPED" and "super_buf_notify_cb (path p s)"
    and "match_cnt (superbuf_queue (path p s)) = 0"
    and "length (bundled_streams (superbuf_queue (path p s))) = MAX_STREAM_NUM_IN_BUNDLE"
    and "priority (attr (superbuf_queue (path p s))) \<noteq> PRIORITY_LOW"
    and "max_unmatched_frames (attr (superbuf_queue (path p s))) < 255"
    and "run_state (mm_channel_fsm_fn P E p MM_CHANNEL_EVT_START) s = ((0, out), t)"
  shows "chan_ok (path p t) \<and> que (superbuf_queue (path p t)) = []
    \<and> attr (superbuf_queue (path p t)) = attr (superbuf_queue (path p s))"
proof -
  obtain u where r: "run_state (mm_channel_start P E p) s = (0, u)" "path p t = path p u"
    using assms(1,7) by (cases "run_state (mm_channel_start P E p) s")
      (auto simp: mm_channel_fsm_fn_def mm_channel_fsm_fn_stopped_def plain_def to_chan_state_def case_prod_beta)
  from start_path [OF r(1) assms(2)] obtain hs where
    "length hs \<le> MAX_STREAM_NUM_IN_BUNDLE"
    "path p u = (upd_queue (fresh_queue hs) (path p s))\<lparr>bWaitForPrepSnapshotDone := False\<rparr>"
    by blast
  with assms(3-6) r(2) show ?thesis
    by (simp add: chan_ok_def queue_ok_def ordered_def counted_def in_order_def incomplete_def in_place_def fresh_queue_def upd_queue_def)
qed

lemma started_channel_is_ready_witness:
  "\<exists>t. chan_ok (path 1 t) \<and> que (superbuf_queue (path 1 t)) = []"
proof -
  obtain rc out t where r: "run_state (mm_channel_fsm_fn ex_platform (\<lambda>_ _. ex_env) 1 MM_CHANNEL_EVT_START)
      (ex_bundle MM_STREAM_STATE_CFG) = ((rc, out), t)"
    by (metis prod.exhaust)
  then have z: "rc = 0"
    using ex_start [of MM_STREAM_STATE_CFG] by simp
  from started_channel_is_ready [OF _ _ _ _ _ _ r [unfolded z]] show ?thesis
    by (intro exI [of _ t]) (simp add: ex_bundle_simps zero_channel_def zero_queue_def zero_attr_def del: One_nat_def)
qed

text \<open>
  C31. When starting a channel with a callback fails, the attributes of its queue are lost with the queue: the channel
  can be started again, but in burst mode, without a water mark or a look back.
\<close>

theorem failed_start_forgets_attributes:
  assumes "ch_state (chs s p) = MM_CHANNEL_STATE_STOPPED" and "super_buf_notify_cb (path p s)"
    and "run_state (mm_channel_fsm_fn P E p MM_CHANNEL_EVT_START) s = ((rc, out), t)" and "rc \<noteq> 0"
  shows "attr (superbuf_queue (path p t)) = zero_attr \<and> bundled_streams (superbuf_queue (path p t)) = replicate 8 0"
proof -
  have "run_state (mm_channel_start P E p) s = (rc, t)"
    using assms(1,3,4) by (cases "run_state (mm_channel_start P E p) s")
      (auto simp: mm_channel_fsm_fn_def mm_channel_fsm_fn_stopped_def plain_def to_chan_state_def case_prod_beta
        split: if_splits)
  from failed_start_path [OF this assms(4,2)] show ?thesis
    by (simp add: zero_queue_def MAX_STREAM_NUM_IN_BUNDLE_def)
qed

lemma failed_start_forgets_attributes_witness:
  "\<exists>rc out t. run_state (mm_channel_fsm_fn ex_platform (\<lambda>_ _. ex_env) 1 MM_CHANNEL_EVT_START)
      (ex_bundle MM_STREAM_STATE_ACTIVE) = ((rc, out), t) \<and> rc = - 1 \<and> attr (superbuf_queue (path 1 t)) = zero_attr"
proof -
  obtain rc out t where r: "run_state (mm_channel_fsm_fn ex_platform (\<lambda>_ _. ex_env) 1 MM_CHANNEL_EVT_START)
      (ex_bundle MM_STREAM_STATE_ACTIVE) = ((rc, out), t)"
    by (metis prod.exhaust)
  then have z: "rc = - 1"
    using ex_start [of MM_STREAM_STATE_ACTIVE] by simp
  from failed_start_forgets_attributes [OF _ _ r] r z show ?thesis
    by (simp add: ex_bundle_simps del: One_nat_def)
qed

end
