(* ===== verification/ChannelControl.thy ===== *)
theory ChannelControl
  imports ChannelInv
begin

text \<open>
  The matching of frames and the loops over the queue leave the members alone that control a request
  (\<open>ctl\<close>), the way superbuffers are handed over and the registered channels.
\<close>

section \<open>What the queue's functions do not touch\<close>

text \<open>The members that only the commands and the counting of a request change.\<close>

definition ctl :: "mm_channel \<Rightarrow> uint32 \<times> uint32 \<times> req_buf_type \<times> nat \<times> bool \<times> bool \<times> bool" where
  "ctl c = (pending_cnt c, pending_retro_cnt c, req_type c, cur_capture_idx c, isConfigCapture c,
     manualZSLSnapshot c, startZSlSnapshotCalled c)"

text \<open>The channels that are registered for synchronised frames.\<close>

definition same_ctl :: "mm_channel \<times> frame_sync \<Rightarrow> mm_channel \<times> frame_sync \<Rightarrow> bool" where
  "same_ctl cf cf' \<longleftrightarrow> ctl (fst cf') = ctl (fst cf) \<and> sync_ch (snd cf') = sync_ch (snd cf)
     \<and> notify_mode (attr (superbuf_queue (fst cf'))) = notify_mode (attr (superbuf_queue (fst cf)))"

lemma same_ctl_refl [simp]: "same_ctl cf cf"
  by (simp add: same_ctl_def)

lemma same_ctl_trans: "same_ctl a b \<Longrightarrow> same_ctl b c \<Longrightarrow> same_ctl a c"
  by (simp add: same_ctl_def)

lemma ctl_upd_queue [simp]: "ctl (upd_queue f c) = ctl c"
  by (simp add: ctl_def upd_queue_def)

lemma ctl_qbuf [simp]: "ctl (mm_channel_qbuf b c) = ctl c"
  by (simp add: ctl_def mm_channel_qbuf_def split: option.split)

lemma ctl_fold: "(\<And>e c. ctl (f e c) = ctl c) \<Longrightarrow> ctl (fold f es c) = ctl c"
  by (induction es arbitrary: c) simp_all

lemma ctl_qbufs [simp]:
  "ctl (qbuf_frames n c) = ctl c" "ctl (qbuf_buffers n c) = ctl c" "ctl (qbuf_type t n c) = ctl c"
  "ctl (mm_channel_node_qbuf n c) = ctl c"
  unfolding qbuf_frames_def qbuf_buffers_def qbuf_type_def mm_channel_node_qbuf_def
  by (rule ctl_fold, simp)+

lemma ctl_blocks [simp]:
  "ctl (c\<lparr>bWaitForPrepSnapshotDone := x\<rparr>) = ctl c" "ctl (c\<lparr>needLEDFlash := x\<rparr>) = ctl c"
  "ctl (c\<lparr>isZoom1xFrameRequested := x\<rparr>) = ctl c" "ctl (c\<lparr>diverted_frame_id := d\<rparr>) = ctl c"
  "ctl (meta_divert m frame c) = ctl c" "ctl (meta_bracketing m c) = ctl c"
  "ctl (meta_config_capture m c) = ctl c" "ctl (meta_burst frame c) = ctl c"
  "ctl (meta_apply_low_light m c) = ctl c" "ctl (meta_instant_capture m frame c) = ctl c"
  "ctl (set_expected f c) = ctl c" "ctl (wait_future_frame c) = ctl c" "ctl (set_good f c) = ctl c"
  by (simp_all add: meta_defs set_expected_def ctl_def Let_def upd_queue_def split: option.split)

lemma mode_blocks [simp]:
  "notify_mode (attr (superbuf_queue (meta_divert m frame c))) = notify_mode (attr (superbuf_queue c))"
  "notify_mode (attr (superbuf_queue (meta_bracketing m c))) = notify_mode (attr (superbuf_queue c))"
  "notify_mode (attr (superbuf_queue (meta_config_capture m c))) = notify_mode (attr (superbuf_queue c))"
  "notify_mode (attr (superbuf_queue (meta_burst frame c))) = notify_mode (attr (superbuf_queue c))"
  "notify_mode (attr (superbuf_queue (meta_apply_low_light m c))) = notify_mode (attr (superbuf_queue c))"
  "notify_mode (attr (superbuf_queue (meta_instant_capture m frame c))) = notify_mode (attr (superbuf_queue c))"
  "notify_mode (attr (superbuf_queue (wait_future_frame c))) = notify_mode (attr (superbuf_queue c))"
  "notify_mode (attr (superbuf_queue (set_good f c))) = notify_mode (attr (superbuf_queue c))"
  by (simp_all add: meta_defs Let_def split: option.split)

lemma sync_ch_remove [simp]: "sync_ch (snd (mm_frame_sync_remove f fs)) = sync_ch fs"
  by (simp add: mm_frame_sync_remove_def split: option.split)

lemma sync_ch_add [simp]: "sync_ch (snd (mm_frame_sync_add f p fs)) = sync_ch fs"
  by (auto simp: mm_frame_sync_add_def Let_def split: option.split)

lemma dequeue_same_ctl:
  "same_ctl cf (snd (mm_channel_superbuf_dequeue_internal mo cf))"
  by (auto simp: mm_channel_superbuf_dequeue_internal_def same_ctl_def frame_sync_remove_def Let_def
      split: prod.split list.split)

lemma flush_same_ctl: "same_ctl cf (mm_channel_superbuf_flush t cf)"
proof (induction t cf rule: mm_channel_superbuf_flush.induct)
  case (1 t cf)
  obtain r c fs where d: "mm_channel_superbuf_dequeue_internal False cf = (r, c, fs)"
    by (metis prod_cases3)
  have "same_ctl cf (c, fs)"
    using dequeue_same_ctl [of cf False] d by simp
  moreover have "same_ctl (c, fs) (qbuf_type t n c, fs)" for n
    by (simp add: same_ctl_def)
  ultimately show ?case
    using 1 d by (cases r; subst mm_channel_superbuf_flush.simps) (simp_all, meson same_ctl_trans)
qed

lemma flush_matched_same_ctl: "same_ctl cf (mm_channel_superbuf_flush_matched cf)"
proof (induction cf rule: mm_channel_superbuf_flush_matched.induct)
  case (1 cf)
  obtain r c fs where d: "mm_channel_superbuf_dequeue_internal True cf = (r, c, fs)"
    by (metis prod_cases3)
  have "same_ctl cf (c, fs)"
    using dequeue_same_ctl [of cf True] d by simp
  moreover have "same_ctl (c, fs) (qbuf_buffers n c, fs)" for n
    by (simp add: same_ctl_def)
  ultimately show ?case
    using 1 d by (cases r; subst mm_channel_superbuf_flush_matched.simps) (simp_all, meson same_ctl_trans)
qed

lemma same_ctl_pair:
  "ctl c' = ctl c \<Longrightarrow> notify_mode (attr (superbuf_queue c')) = notify_mode (attr (superbuf_queue c))
    \<Longrightarrow> same_ctl (c, fs) (c', fs)"
  by (simp add: same_ctl_def)

lemma prep_same_ctl: "same_ctl (c, fs) (meta_prep m (c, fs))"
  using flush_same_ctl [of "(wait_future_frame (c\<lparr>bWaitForPrepSnapshotDone := False\<rparr>), fs)" CAM_STREAM_TYPE_DEFAULT]
  by (auto simp: meta_prep_def Let_def same_ctl_def split: option.split prod.split)

lemma zoom_same_ctl: "same_ctl (c, fs) (meta_zoom m frame (c, fs))"
  using flush_matched_same_ctl [of "(wait_future_frame c, fs)"]
  by (auto simp: meta_zoom_def same_ctl_def)

lemma good_range_same_ctl: "same_ctl (c, fs) (meta_good_range m (c, fs))"
  using flush_matched_same_ctl [of "(c, fs)"]
  by (auto simp: meta_good_range_def Let_def same_ctl_def split: option.split prod.split)

lemma handle_metadata_same_ctl: "same_ctl cf (snd (mm_channel_handle_metadata b cf))"
proof -
  have "same_ctl (c, fs) (handle_meta_entries m frame (c, fs))" for m frame c fs
  proof -
    obtain c1 fs1 where p: "meta_prep m (meta_divert m frame c, fs) = (c1, fs1)"
      by fastforce
    obtain c2 fs2 where g: "meta_good_range m (c1, fs1) = (c2, fs2)"
      by fastforce
    show ?thesis
      using prep_same_ctl [of "meta_divert m frame c" fs m] good_range_same_ctl [of c1 fs1 m]
        zoom_same_ctl [of "meta_divert m frame c" fs m frame] p g
      by (simp add: handle_meta_entries_def Let_def same_ctl_def)
  qed
  then show ?thesis
    by (cases cf) (simp add: mm_channel_handle_metadata_def split: option.split)
qed

lemma remove_nodes_same [simp]:
  "ctl (remove_nodes l i c) = ctl c"
  "attr (superbuf_queue (remove_nodes l i c)) = attr (superbuf_queue c)"
proof -
  have "ctl (fold qbuf_frames ns c) = ctl c" for ns
    by (rule ctl_fold) simp
  then show "ctl (remove_nodes l i c) = ctl c"
    "attr (superbuf_queue (remove_nodes l i c)) = attr (superbuf_queue c)"
    by (simp_all add: remove_nodes_def Let_def)
qed

lemma ctl_match [simp]:
  "ctl (set_node i n c) = ctl c" "ctl (count_match c) = ctl c" "ctl (insert_node before n c) = ctl c"
  "ctl (next_expected f c) = ctl c"
  by (simp_all add: set_node_def count_match_def insert_node_def next_expected_def Let_def)
    (simp_all add: ctl_def set_expected_def upd_queue_def)

lemma fill_same_ctl: "same_ctl (c, fs) (fill_superbuf self s b i l (c, fs))"
  by (auto simp: fill_superbuf_def Let_def same_ctl_def sync_added_def split: option.split)

lemma add_same_ctl: "same_ctl (c, fs) (add_superbuf self s b before (c, fs))"
  by (auto simp: add_superbuf_def Let_def same_ctl_def sync_added_def)

lemma start_same_ctl:
  assumes "start_superbuf self memory s b w (c, fs) = Some (c', fs')"
  shows "same_ctl (c, fs) (c', fs')"
proof -
  have d: "ctl (fst x) = ctl c \<and> attr (superbuf_queue (fst x)) = attr (superbuf_queue c)"
    if "drop_old limit w c = Some x" for limit x
    using that by (auto simp: drop_old_def Let_def split: option.splits if_splits)
  have e: "ctl (fst (drop_last limit w x)) = ctl (fst x)
      \<and> attr (superbuf_queue (fst (drop_last limit w x))) = attr (superbuf_queue (fst x))" for limit x
    by (auto simp: drop_last_def split: option.splits prod.split)
  show ?thesis
  proof (cases "max_unmatched_frames (attr (superbuf_queue c)) < unmatched_bundles w \<and> last_buf w = None")
    case True
    with assms show ?thesis
      by (auto simp: start_superbuf_def same_ctl_def)
  next
    case False
    then obtain x c2 before where
      x: "drop_old (max_unmatched_frames (attr (superbuf_queue c))) w c = Some x"
      "drop_last (max_unmatched_frames (attr (superbuf_queue c))) w x = (c2, before)"
      and r: "(if memory then add_superbuf self s b before (c2, fs) else (mm_channel_qbuf (buf b) c2, fs)) = (c', fs')"
      using assms by (auto simp: start_superbuf_def Let_def split: option.splits prod.splits)
    have "same_ctl (c, fs) (c2, fs)"
      using d [OF x(1)] e [of "max_unmatched_frames (attr (superbuf_queue c))" x] x(2)
      by (simp add: same_ctl_def)
    moreover have "same_ctl (c2, fs) (c', fs')"
      using r add_same_ctl [of c2 fs self s b before] by (cases memory) (auto simp: same_ctl_def)
    ultimately show ?thesis
      by (rule same_ctl_trans)
  qed
qed

lemma comp_same_ctl:
  assumes "mm_channel_superbuf_comp_and_enqueue self memory b (c, fs) = Some (rc, cf')"
  shows "same_ctl (c, fs) cf'"
proof -
  obtain rc1 c1 fs1 where h: "mm_channel_handle_metadata b (c, fs) = (rc1, c1, fs1)"
    by (metis prod_cases3)
  have k: "same_ctl (c, fs) (c1, fs1)"
    using handle_metadata_same_ctl [of "(c, fs)" b] h by simp
  have m: "same_ctl (c1, fs1) cf'" if "match_buf self memory s b (c1, fs1) = Some cf'" for s
    using that start_same_ctl [of self memory s b _ c1 fs1 "fst cf'" "snd cf'"]
    by (auto simp: match_buf_def Let_def intro: fill_same_ctl split: option.splits)
  have q: "same_ctl (c2, fs2) (mm_channel_qbuf (buf b) c2, fs2)" for c2 fs2
    by (simp add: same_ctl_def)
  show ?thesis
    using assms h k q [of c fs] same_ctl_trans [OF k q] same_ctl_trans [OF k m]
    by (auto simp: mm_channel_superbuf_comp_and_enqueue_def Let_def split: option.splits if_splits)
qed

lemma trim_same_ctl:
  assumes "trim_loop limit cf = Some cf'"
  shows "same_ctl cf cf'"
proof (rule trim_loop.raw_induct [where P = "\<lambda>l cf cf'. same_ctl cf cf'", OF _ assms])
  fix f l cf y
  assume IH: "\<And>l cf y. f l cf = Some y \<Longrightarrow> same_ctl cf y"
    and eq: "(if match_cnt (superbuf_queue (fst cf)) \<le> ucast l then Some cf
      else case mm_channel_superbuf_dequeue_internal True cf of
        (None, cf) \<Rightarrow> f l cf
      | (Some n, c, fs) \<Rightarrow> f l (qbuf_buffers n c, fs)) = Some y"
  obtain r c fs where d: "mm_channel_superbuf_dequeue_internal True cf = (r, c, fs)"
    by (metis prod_cases3)
  have "same_ctl cf (c, fs)"
    using dequeue_same_ctl [of cf True] d by simp
  moreover have "same_ctl (c, fs) (qbuf_buffers n c, fs)" for n
    by (simp add: same_ctl_def)
  ultimately show "same_ctl cf y"
    using eq d IH [of l "(c, fs)" y] IH [of l "(qbuf_buffers _ c, fs)" y]
    by (cases r) (simp_all split: if_splits, (meson same_ctl_trans)+)
qed

end
