(* ===== verification/ChannelRequest.thy ===== *)
theory ChannelRequest
  imports ChannelControl
begin

text \<open>
  The function of the command thread as a whole: it returns, keeps the invariant and accounts for every
  buffer (\<open>process_all\<close>), and it sends no more superbuffers than were asked for (\<open>dispatch_bound\<close>).
\<close>

section \<open>The world of a channel\<close>

text \<open>
  A configured capture has room for the pending superbuffers: each of them may end a batch, and the
  batch that follows must be one of the array.
\<close>

definition room :: "mm_channel \<Rightarrow> bool" where
  "room c \<longleftrightarrow> (isConfigCapture c \<longrightarrow> cur_capture_idx c + unat (pending_cnt c) < MAX_CAPTURE_BATCH_NUM)"

definition world_ok :: "ptr \<Rightarrow> cam_world \<Rightarrow> bool" where
  "world_ok self w \<longleftrightarrow> chans_ok w \<and> list_all (\<lambda>p. p = NULL \<or> chans w p \<noteq> None) (sync_ch (sync w))
     \<and> (case chans w self of None \<Rightarrow> False | Some c \<Rightarrow> room c)"

definition cmd_fits :: "mm_channel \<Rightarrow> cmdcb \<Rightarrow> bool" where
  "cmd_fits c cmd \<longleftrightarrow>
     (case cmd of
        DATA_CB b \<Rightarrow> buf b \<noteq> None
          \<and> stream_id b \<in> set (take (num_streams (superbuf_queue c)) (bundled_streams (superbuf_queue c)))
      | REQ_DATA_CB r \<Rightarrow> isConfigCapture c \<longrightarrow> cur_capture_idx c + unat (num_buf_requested r) < MAX_CAPTURE_BATCH_NUM
      | FLUSH_QUEUE _ t \<Rightarrow> t = CAM_STREAM_TYPE_DEFAULT
      | GENERAL t start f \<Rightarrow> t = CAPTURE_SETTING \<and> start \<noteq> 0 \<longrightarrow>
          num_batch f \<le> MAX_CAPTURE_BATCH_NUM \<and> unat (pending_cnt c) < MAX_CAPTURE_BATCH_NUM
      | _ \<Rightarrow> True)"

definition arrived :: "cmdcb \<Rightarrow> mm_camera_buf_def multiset" where
  "arrived cmd = (case cmd of DATA_CB b \<Rightarrow> (case buf b of None \<Rightarrow> {#} | Some d \<Rightarrow> {#d#}) | _ \<Rightarrow> {#})"

text \<open>What each part of the function keeps; \<open>extra\<close> are the buffers that come in.\<close>

definition keeps :: "ptr \<Rightarrow> cam_world \<Rightarrow> mm_camera_buf_def multiset \<Rightarrow> cam_world \<Rightarrow> bool" where
  "keeps self w extra w' \<longleftrightarrow> world_ok self w'
     \<and> (\<forall>p. account w' p = account w p + (if p = self then extra else {#}))"

lemma keeps_trans: "keeps self w e w1 \<Longrightarrow> keeps self w1 {#} w2 \<Longrightarrow> keeps self w e w2"
  by (simp add: keeps_def)

lemma room_ctl: "ctl c' = ctl c \<Longrightarrow> room c' = room c"
  by (simp add: room_def ctl_def)

lemma keeps_put:
  assumes "world_ok self w" "chans w self = Some c" "chan_ok c \<Longrightarrow> chan_ok c'" "room c'"
    and "chan_ok c \<Longrightarrow> all_bufs c' = all_bufs c + extra" "sync_ch fs' = sync_ch (sync w)"
  shows "keeps self w extra ((put_cf self (c', fs') w)\<lparr>zsl_calls := z\<rparr>)"
proof -
  have c: "chan_ok c" "chans_ok w"
    using assms(1,2) by (simp_all add: world_ok_def chans_ok_def)
  have "account ((put_cf self (c', fs') w)\<lparr>zsl_calls := z\<rparr>) p = account w p + (if p = self then extra else {#})" for p
    using assms(2) assms(5) [OF c(1)] by (simp add: account_def sent_bufs_def)
  moreover have "world_ok self ((put_cf self (c', fs') w)\<lparr>zsl_calls := z\<rparr>)"
    using assms(1,4,6) assms(3) [OF c(1)] c(2)
    by (auto simp: world_ok_def chans_ok_def list_all_iff)
  ultimately show ?thesis
    by (simp add: keeps_def)
qed

lemma put_cf_update: "(put_cf self cf w)\<lparr>zsl_calls := zsl_calls w\<rparr> = put_cf self cf w"
  by (simp add: put_cf_def put_chan_def)

lemma put_chan_cf: "put_cf self (c, sync w) w = put_chan self c w"
  by (simp add: put_cf_def put_chan_def)

lemmas keeps_cf = keeps_put [where z = "zsl_calls w" and w = w for w, unfolded put_cf_update]

lemma flush_all:
  assumes "mm_channel_superbuf_flush CAM_STREAM_TYPE_DEFAULT (c, fs) = (c', fs')"
  shows "chan_ok c \<Longrightarrow> chan_ok c'" "chan_ok c \<Longrightarrow> all_bufs c' = all_bufs c" "ctl c' = ctl c"
    "sync_ch fs' = sync_ch fs"
  using flush_chan_ok [OF _ assms] flush_same_ctl [of "(c, fs)" CAM_STREAM_TYPE_DEFAULT] assms
  by (simp_all add: same_ctl_def)

lemma trim_all:
  assumes "chan_ok c"
  shows "\<exists>c' fs'. trim_loop limit (c, fs) = Some (c', fs') \<and> chan_ok c' \<and> all_bufs c' = all_bufs c
    \<and> ctl c' = ctl c \<and> sync_ch fs' = sync_ch fs"
proof -
  have c: "queue_ok (superbuf_queue c)" "ordered c"
    using assms by (simp_all add: chan_ok_def)
  obtain c' fs' ns where r: "trim_loop limit (c, fs) = Some (c', fs')"
    "queue_ok (superbuf_queue c')" "ordered c'" "all_bufs c' = all_bufs c"
    "same_setup (superbuf_queue c) (superbuf_queue c')" "attr (superbuf_queue c') = attr (superbuf_queue c)"
    "que (superbuf_queue c) = ns @ que (superbuf_queue c')"
    using trim_loop_ends [OF c] by blast
  have "in_place (superbuf_queue c')"
    using assms r(7) node_in_place_cong [OF r(5)] by (simp add: chan_ok_def in_place_def)
  with r assms trim_same_ctl [OF r(1)] show ?thesis
    by (simp add: chan_ok_def same_ctl_def)
qed

lemma chan_ok_request [simp]: "chan_ok (process_request r c) = chan_ok c"
  "all_bufs (process_request r c) = all_bufs c"
  by (simp_all add: process_request_def Let_def chan_ok_def ordered_def all_bufs_def)

lemma skip_all:
  assumes "chan_ok c"
  shows "\<exists>c' fs'. mm_channel_superbuf_skip (c, fs) = Some (c', fs') \<and> chan_ok c' \<and> all_bufs c' = all_bufs c
    \<and> ctl c' = ctl c \<and> sync_ch fs' = sync_ch fs"
    "\<exists>c' fs'. mm_channel_superbuf_bufdone_overflow (c, fs) = Some (c', fs') \<and> chan_ok c' \<and> all_bufs c' = all_bufs c
    \<and> ctl c' = ctl c \<and> sync_ch fs' = sync_ch fs"
  using trim_all [OF assms] assms
  by (auto simp: mm_channel_superbuf_skip_def mm_channel_superbuf_bufdone_overflow_def Let_def)

lemma node_in_place_members [simp]:
  "node_in_place (q\<lparr>expected_frame_id := f\<rparr>) = node_in_place q"
  "node_in_place (q\<lparr>good_frame_id := f\<rparr>) = node_in_place q"
  by (simp_all add: fun_eq_iff node_in_place_def)

lemma chan_ok_members [simp]:
  "chan_ok (c\<lparr>manualZSLSnapshot := x\<rparr>) = chan_ok c" "all_bufs (c\<lparr>manualZSLSnapshot := x\<rparr>) = all_bufs c"
  "chan_ok (c\<lparr>bracketingState := s\<rparr>) = chan_ok c" "all_bufs (c\<lparr>bracketingState := s\<rparr>) = all_bufs c"
  "chan_ok (c\<lparr>isFlashBracketingEnabled := x\<rparr>) = chan_ok c" "all_bufs (c\<lparr>isFlashBracketingEnabled := x\<rparr>) = all_bufs c"
  "chan_ok (c\<lparr>isZoom1xFrameRequested := x\<rparr>) = chan_ok c" "all_bufs (c\<lparr>isZoom1xFrameRequested := x\<rparr>) = all_bufs c"
  "chan_ok (zsl_started c) = chan_ok c" "all_bufs (zsl_started c) = all_bufs c"
  "chan_ok (wait_batches c) = chan_ok c" "all_bufs (wait_batches c) = all_bufs c"
  "chan_ok (set_expected f c) = chan_ok c" "all_bufs (set_expected f c) = all_bufs c"
  "chan_ok (set_good f c) = chan_ok c" "all_bufs (set_good f c) = all_bufs c"
  by (simp_all add: chan_ok_def ordered_def all_bufs_def zsl_started_def wait_batches_def Let_def
      set_expected_def set_good_def upd_queue_def queue_ok_def counted_def in_place_def node_in_place_def)

lemma room_members [simp]:
  "room (c\<lparr>manualZSLSnapshot := x\<rparr>) = room c" "room (c\<lparr>bracketingState := s\<rparr>) = room c"
  "room (c\<lparr>isFlashBracketingEnabled := x\<rparr>) = room c" "room (c\<lparr>isZoom1xFrameRequested := x\<rparr>) = room c"
  "room (zsl_started c) = room c" "room (wait_batches c) = room c" "room (set_expected f c) = room c"
  by (simp_all add: room_def zsl_started_def wait_batches_def Let_def set_expected_def upd_queue_def)

lemma process_general_all:
  assumes "room c" "cmd_fits c (GENERAL t start f)"
  shows "\<exists>c' fs'. process_general t start f (c, fs) = Some (c', fs') \<and> (chan_ok c \<longrightarrow> chan_ok c')
    \<and> (chan_ok c \<longrightarrow> all_bufs c' = all_bufs c) \<and> room c' \<and> sync_ch fs' = sync_ch fs"
proof -
  obtain c1 fs1 where f: "mm_channel_superbuf_flush CAM_STREAM_TYPE_DEFAULT (c, fs) = (c1, fs1)"
    by fastforce
  note a = flush_all [OF f]
  have r: "room c1"
    using room_ctl [OF a(3)] assms(1) by simp
  have set: "chan_ok (c\<lparr>frameConfig := x, isConfigCapture := y, cur_capture_idx := z, capture_frame_id := u\<rparr>) = chan_ok c"
    "all_bufs (c\<lparr>frameConfig := x, isConfigCapture := y, cur_capture_idx := z, capture_frame_id := u\<rparr>) = all_bufs c" for x y z u
    by (simp_all add: chan_ok_def ordered_def all_bufs_def)
  have start: "unat (pending_cnt c) < MAX_CAPTURE_BATCH_NUM \<or> \<not> y \<Longrightarrow>
      room (c\<lparr>frameConfig := x, isConfigCapture := y, cur_capture_idx := 0, capture_frame_id := u\<rparr>)" for x y u
    by (auto simp: room_def)
  show ?thesis
    using a r assms f set start
    by (cases t) (auto simp: process_general_def Let_def cmd_fits_def)
qed

lemma process_cmd_all:
  assumes "world_ok self w" "chans w self = Some c" "cmd_fits c cmd"
  shows "\<exists>w'. process_cmd memory self cmd w = Some w' \<and> keeps self w (arrived cmd) w'"
proof -
  have ok: "chan_ok c" "room c"
    using assms(1,2) by (simp_all add: world_ok_def chans_ok_def)
  note put = keeps_cf [OF assms(1,2)]
  show ?thesis
  proof (cases cmd)
    case (DATA_CB b)
    then obtain d where d: "buf b = Some d"
      "stream_id b \<in> set (take (num_streams (superbuf_queue c)) (bundled_streams (superbuf_queue c)))"
      using assms(3) by (auto simp: cmd_fits_def)
    obtain rc c' fs' where r: "mm_channel_superbuf_comp_and_enqueue self memory b (c, sync w) = Some (rc, c', fs')"
      "chan_ok c'" "all_bufs c' = all_bufs c + {#d#}"
      using comp_chan_ok [OF ok(1) d] by blast
    have k: "ctl c' = ctl c" "sync_ch fs' = sync_ch (sync w)"
      using comp_same_ctl [OF r(1)] by (simp_all add: same_ctl_def)
    have "room c'"
      using room_ctl [OF k(1)] ok(2) by simp
    from put [OF _ this _ k(2), of "{#d#}"] r DATA_CB assms(2) d(1) show ?thesis
      by (simp add: process_cmd_def arrived_def)
  next
    case (REQ_DATA_CB r)
    have "chan_ok (process_request r c)"
      using ok(1) by simp
    from skip_all(1) [OF this, of "sync w"] obtain c' fs' where
      s: "mm_channel_superbuf_skip (process_request r c, sync w) = Some (c', fs')"
      "chan_ok c'" "all_bufs c' = all_bufs c" "ctl c' = ctl (process_request r c)" "sync_ch fs' = sync_ch (sync w)"
      by auto
    have "room (process_request r c)"
      using assms(3) REQ_DATA_CB by (simp add: cmd_fits_def room_def process_request_def Let_def)
    then have "room c'"
      using room_ctl [OF s(4)] by simp
    from put [OF _ this _ s(5), of "{#}"] s REQ_DATA_CB assms(2) show ?thesis
      by (simp add: process_cmd_def arrived_def)
  next
    case START_ZSL
    show ?thesis
      using keeps_put [OF assms(1,2), of "c\<lparr>manualZSLSnapshot := True\<rparr>" "{#}" "sync w" "zsl_calls w @ [Start_ZSL self]"]
        START_ZSL ok assms(2)
      by (simp add: process_cmd_def arrived_def put_chan_cf)
  next
    case STOP_ZSL
    show ?thesis
      using keeps_put [OF assms(1,2), of "c\<lparr>manualZSLSnapshot := False\<rparr>" "{#}" "sync w" "zsl_calls w @ [Stop_ZSL self]"]
        STOP_ZSL ok assms(2)
      by (simp add: process_cmd_def arrived_def put_chan_cf)
  next
    case (CONFIG_NOTIFY m)
    let ?c = "upd_queue (\<lambda>q. q\<lparr>attr := (attr q)\<lparr>notify_mode := m\<rparr>\<rparr>) c"
    have "chan_ok ?c"
      using ok(1) by (rule chan_ok_cong) (simp_all add: same_setup_def)
    moreover have "room ?c" "all_bufs ?c = all_bufs c"
      using room_ctl [of ?c c] ok(2) by (simp_all add: all_bufs_def)
    ultimately show ?thesis
      using put [of ?c "{#}" "sync w"] CONFIG_NOTIFY assms(2)
      by (simp add: process_cmd_def arrived_def put_chan_cf)
  next
    case (FLUSH_QUEUE frame t)
    obtain c' fs' where f: "mm_channel_superbuf_flush CAM_STREAM_TYPE_DEFAULT (set_expected frame c, sync w) = (c', fs')"
      by fastforce
    note a = flush_all [OF f]
    have "room c'"
      using room_ctl [OF a(3)] ok(2) by simp
    from put [OF _ this _ a(4), of "{#}"] a(1,2) f FLUSH_QUEUE assms(2,3) ok(1) show ?thesis
      by (simp add: process_cmd_def arrived_def cmd_fits_def)
  next
    case (GENERAL t start f)
    obtain c' fs' where g: "process_general t start f (c, sync w) = Some (c', fs')" "chan_ok c \<longrightarrow> chan_ok c'"
      "chan_ok c \<longrightarrow> all_bufs c' = all_bufs c" "room c'" "sync_ch fs' = sync_ch (sync w)"
      using process_general_all [OF ok(2) assms(3) [unfolded GENERAL]] by blast
    from put [OF _ g(4) _ g(5), of "{#}"] g GENERAL assms(2) show ?thesis
      by (simp add: process_cmd_def arrived_def)
  next
    case OTHER_CMD
    with assms show ?thesis
      by (simp add: process_cmd_def arrived_def keeps_def)
  qed
qed

section \<open>The loop that dispatches\<close>

lemma update_zsl_all:
  assumes "world_ok self w"
  shows "\<exists>w'. update_zsl self w = Some w' \<and> keeps self w {#} w'"
proof -
  obtain c where c: "chans w self = Some c" "chan_ok c" "room c"
    using assms by (auto simp: world_ok_def chans_ok_def split: option.splits)
  obtain c1 fs1 where f: "mm_channel_superbuf_flush CAM_STREAM_TYPE_DEFAULT (wait_batches c, sync w) = (c1, fs1)"
    by fastforce
  note a = flush_all [OF f, simplified]
  have r: "room (zsl_started c1)"
    using room_ctl [OF a(3)] c(3) by simp
  let ?off = "c\<lparr>startZSlSnapshotCalled := False, needLEDFlash := False, burstSnapNum := 0, stopZslSnapshot := False,
    bWaitForPrepSnapshotDone := False, unLockAEC := True, bracketingState := BRACKETING_OFF, isConfigCapture := False\<rparr>"
  have off: "chan_ok ?off = chan_ok c" "all_bufs ?off = all_bufs c" "room ?off"
    by (simp_all add: chan_ok_def ordered_def all_bufs_def room_def)
  have refl: "keeps self w {#} w"
    using assms by (simp add: keeps_def)
  note put = keeps_put [OF assms c(1), of _ "{#}"]
  show ?thesis
    using f a put [OF _ r _ a(4)] put [of "zsl_started c" "sync w"] put [of ?off "sync w"] c(1,3) off refl
    by (simp add: update_zsl_def put_chan_cf)
qed

lemma overflow_all:
  assumes "world_ok self w"
  shows "\<exists>w'. overflow self w = Some w' \<and> keeps self w {#} w'"
proof -
  obtain c where c: "chans w self = Some c" "chan_ok c" "room c"
    using assms by (auto simp: world_ok_def chans_ok_def split: option.splits)
  obtain c' fs' where s: "mm_channel_superbuf_bufdone_overflow (c, sync w) = Some (c', fs')"
    "chan_ok c'" "all_bufs c' = all_bufs c" "ctl c' = ctl c" "sync_ch fs' = sync_ch (sync w)"
    using skip_all(2) [OF c(2)] by blast
  have "room c'"
    using room_ctl [OF s(4)] c(3) by simp
  from keeps_cf [OF assms c(1) _ this _ s(5), of "{#}"] s c(1) show ?thesis
    by (simp add: overflow_def)
qed

text \<open>Taking superbuffers out leaves the control members of every channel.\<close>

definition same_control :: "cam_world \<Rightarrow> cam_world \<Rightarrow> bool" where
  "same_control w w' \<longleftrightarrow> sync_ch (sync w') = sync_ch (sync w)
     \<and> (\<forall>p. map_option ctl (chans w' p) = map_option ctl (chans w p))"

lemma same_control_refl [simp]: "same_control w w"
  by (simp add: same_control_def)

lemma same_control_trans: "same_control u v \<Longrightarrow> same_control v w \<Longrightarrow> same_control u w"
  by (simp add: same_control_def)

lemma same_control_put:
  "chans w p = Some c \<Longrightarrow> ctl c' = ctl c \<Longrightarrow> same_control w (put_chan p c' w)"
  "chans w p = Some c \<Longrightarrow> ctl c' = ctl c \<Longrightarrow> sync_ch fs = sync_ch (sync w) \<Longrightarrow> same_control w (put_cf p (c', fs) w)"
  by (auto simp: same_control_def)

lemma ctl_dequeue_frame:
  "mm_channel_superbuf_dequeue_frame_internal f c = (r, c') \<Longrightarrow> ctl c' = ctl c"
  by (auto simp: mm_channel_superbuf_dequeue_frame_internal_def Let_def split: option.splits)

lemma take_frame_control: "take_frame f ps w = Some (info, w') \<Longrightarrow> same_control w w'"
proof (induction ps arbitrary: w info)
  case (Cons p ps)
  show ?case
  proof (cases "p = NULL")
    case False
    with Cons.prems obtain c r c1 where c: "chans w p = Some c"
      "mm_channel_superbuf_dequeue_frame_internal f c = (r, c1)"
      by (auto split: option.splits prod.splits)
    then obtain info1 where "take_frame f ps (put_chan p c1 w) = Some (info1, w')"
      using False Cons.prems by (auto split: option.splits)
    from Cons.IH [OF this] same_control_put(1) [OF c(1) ctl_dequeue_frame [OF c(2)]] show ?thesis
      using same_control_trans by blast
  qed (use Cons in simp)
qed simp

lemma fold_control:
  "(\<And>x w. same_control w (f x w)) \<Longrightarrow> same_control w (fold f xs w)"
  by (induction xs arbitrary: w) (auto intro: same_control_trans)

lemma node_qbuf_control: "same_control w (node_qbuf pn w)"
  by (auto simp: node_qbuf_def intro: same_control_put split: option.split)

lemma ctl_unlock [simp]: "ctl (c\<lparr>unLockAEC := x\<rparr>) = ctl c"
  by (simp add: ctl_def)

lemma send_node_control: "same_control w (send_node pn w)"
  by (auto simp: send_node_def malloc_def same_control_def split: prod.split option.split list.split)

lemma take_control:
  assumes "chans w self = Some c" "take_superbufs self c w = Some (info, w')"
  shows "same_control w w'"
proof (cases "req_type c = REQ_FRAME_SYNC_BUF")
  case False
  obtain r c1 fs1 where d: "mm_channel_superbuf_dequeue (c, sync w) = (r, c1, fs1)"
    by (metis prod_cases3)
  have "ctl c1 = ctl c" "sync_ch fs1 = sync_ch (sync w)"
    using dequeue_same_ctl [of "(c, sync w)" True] d
    by (simp_all add: mm_channel_superbuf_dequeue_def same_ctl_def)
  then show ?thesis
    using False assms d
    by (auto simp: take_superbufs_def take_own_def intro: same_control_put split: option.splits if_splits)
next
  case True
  have s: "same_control w w1 \<Longrightarrow> same_control w (w1\<lparr>sync := snd (mm_frame_sync_remove f (sync w1))\<rparr>)" for w1 f
    by (simp add: same_control_def)
  show ?thesis
    using True assms(2) take_frame_control s same_control_trans [OF s fold_control [where f = node_qbuf, OF node_qbuf_control]]
    by (auto simp: take_superbufs_def take_synced_def Let_def split: if_splits option.splits)
qed

lemma unat_pred: "0 < x \<Longrightarrow> unat (x - 1) + 1 = unat x" for x :: uint32
proof -
  assume "0 < x"
  then have "x \<noteq> 0"
    by auto
  then show ?thesis
    by (simp add: unat_minus_one unat_gt_0)
qed

lemma count_batch_all:
  assumes "isConfigCapture c \<Longrightarrow> cur_capture_idx c + 1 + unat (pending_cnt c) < MAX_CAPTURE_BATCH_NUM"
  shows "\<exists>c'. count_batch c = Some c' \<and> chan_ok c' = chan_ok c \<and> all_bufs c' = all_bufs c
    \<and> pending_cnt c' = pending_cnt c \<and> room c'"
proof -
  have ok: "chan_ok (c\<lparr>frameConfig := x\<rparr>) = chan_ok c" "all_bufs (c\<lparr>frameConfig := x\<rparr>) = all_bufs c"
    "chan_ok (c\<lparr>frameConfig := x, cur_capture_idx := i\<rparr>) = chan_ok c"
    "all_bufs (c\<lparr>frameConfig := x, cur_capture_idx := i\<rparr>) = all_bufs c" for x i
    by (simp_all add: chan_ok_def ordered_def all_bufs_def)
  show ?thesis
    using assms ok by (auto simp: count_batch_def Let_def room_def set_good_def set_expected_def upd_queue_def
        chan_ok_def ordered_def all_bufs_def queue_ok_def counted_def in_place_def)
qed

lemma count_sent_all:
  assumes "world_ok self w" "chans w self = Some c" "pending_cnt c \<noteq> 0"
  shows "\<exists>w'. count_sent self w = Some w' \<and> keeps self w {#} w'"
proof -
  have ok: "chan_ok c" "room c"
    using assms(1,2) by (simp_all add: world_ok_def chans_ok_def)
  let ?c = "count_pending c"
  let ?d = "if all_received ?c then end_zsl ?c else ?c"
  have p: "unat (pending_cnt c - 1) + 1 = unat (pending_cnt c)"
    using assms(3) by (simp add: unat_minus_one unat_gt_0)
  have d: "chan_ok ?d" "all_bufs ?d = all_bufs c"
    using ok(1) by (simp_all add: count_pending_def end_zsl_def Let_def chan_ok_def ordered_def all_bufs_def)
  have "isConfigCapture ?d \<Longrightarrow> cur_capture_idx ?d + 1 + unat (pending_cnt ?d) < MAX_CAPTURE_BATCH_NUM"
    using ok(2) p by (auto simp: room_def count_pending_def end_zsl_def Let_def split: if_splits)
  from count_batch_all [OF this] d obtain c' where b: "count_batch ?d = Some c'" "chan_ok c'"
    "all_bufs c' = all_bufs c" "room c'"
    by auto
  from keeps_put [OF assms(1,2) _ b(4), of "{#}" "sync w"
      "zsl_calls w @ (if all_received ?c then [Stop_ZSL self] else [])"] b assms(2)
  show ?thesis
    by (simp add: count_sent_def Let_def put_chan_cf)
qed

lemma count_dom: "count_if_burst mode self w = Some w' \<Longrightarrow> dom (chans w') = dom (chans w)"
  by (auto simp: count_if_burst_def count_sent_def Let_def split: option.splits if_splits)

lemma world_ok_control:
  assumes "world_ok self w" "same_control w w'" "chans_ok w'"
  shows "world_ok self w'"
proof -
  obtain c where c: "chans w self = Some c" "room c"
    using assms(1) by (auto simp: world_ok_def split: option.splits)
  then obtain c' where c': "chans w' self = Some c'" "ctl c' = ctl c"
    using assms(2) unfolding same_control_def by (metis map_option_eq_Some)
  have "chans w' p \<noteq> None \<longleftrightarrow> chans w p \<noteq> None" for p
    using assms(2) unfolding same_control_def by (metis map_option_is_None)
  then show ?thesis
    using assms c' room_ctl [OF c'(2)] c(2) by (simp add: world_ok_def same_control_def)
qed

lemma take_frame_returns:
  "list_all (\<lambda>p. p = NULL \<or> chans w p \<noteq> None) ps \<Longrightarrow> \<exists>x. take_frame f ps w = Some x"
proof (induction ps arbitrary: w)
  case (Cons p ps)
  show ?case
  proof (cases "p = NULL")
    case False
    with Cons.prems obtain c where c: "chans w p = Some c"
      by auto
    obtain r c1 where d: "mm_channel_superbuf_dequeue_frame_internal f c = (r, c1)"
      by fastforce
    have "list_all (\<lambda>p. p = NULL \<or> chans (put_chan p' c1 w) p \<noteq> None) ps" for p'
      using Cons.prems by (auto simp: list_all_iff)
    from Cons.IH [OF this] obtain x where "take_frame f ps (put_chan p c1 w) = Some x"
      by blast
    with False c d show ?thesis
      by (auto split: option.split)
  qed (use Cons in simp)
qed simp

lemma take_returns:
  assumes "chans w self = Some c" "room c" "list_all (\<lambda>p. p = NULL \<or> chans w p \<noteq> None) (sync_ch (sync w))"
  shows "\<exists>x. take_superbufs self c w = Some x"
proof (cases "req_type c = REQ_FRAME_SYNC_BUF")
  case True
  obtain x where "take_frame (mm_frame_sync_find_matched False (sync w)) (sync_ch (sync w)) w = Some x"
    using take_frame_returns [OF assms(3)] by blast
  with True show ?thesis
    by (cases x) (auto simp: take_superbufs_def take_synced_def Let_def)
next
  case False
  obtain r c1 fs1 where d: "mm_channel_superbuf_dequeue (c, sync w) = (r, c1, fs1)"
    by (metis prod_cases3)
  have "ctl c1 = ctl c"
    using dequeue_same_ctl [of "(c, sync w)" True] d
    by (simp add: mm_channel_superbuf_dequeue_def same_ctl_def)
  with assms(2) have "isConfigCapture c1 \<Longrightarrow> cur_capture_idx c1 < MAX_CAPTURE_BATCH_NUM"
    by (simp add: room_def ctl_def)
  with False d show ?thesis
    by (cases r) (auto simp: take_superbufs_def take_own_def)
qed

lemma dispatch_all:
  assumes "world_ok self w"
  shows "\<exists>w'. dispatch_loop self mode w = Some w' \<and> keeps self w {#} w'"
  using assms
proof (induction self mode w rule: dispatch_loop.induct)
  case (1 self mode w)
  obtain c where c: "chans w self = Some c" "chan_ok c" "room c"
    using 1(2) by (auto simp: world_ok_def chans_ok_def split: option.splits)
  have refl: "keeps self w {#} w"
    using 1(2) by (simp add: keeps_def)
  show ?case
  proof (cases "(0 < pending_cnt c \<or> mode = NOTIFY_CONTINUOUS) \<and> \<not> bWaitForPrepSnapshotDone c")
    case False
    with c refl show ?thesis
      by (subst dispatch_loop.simps) auto
  next
    case True
    have chans: "chans_ok w" "list_all (\<lambda>p. p = NULL \<or> chans w p \<noteq> None) (sync_ch (sync w))"
      using 1(2) by (simp_all add: world_ok_def)
    obtain info w1 where t: "take_superbufs self c w = Some (info, w1)"
      using take_returns [OF c(1,3) chans(2)] by fastforce
    note a = take_account [OF c(1) chans(1) t]
    note same = take_control [OF c(1) t]
    then obtain c1 where c1: "chans w1 self = Some c1" "ctl c1 = ctl c" "sync_ch (sync w1) = sync_ch (sync w)"
      using c(1) unfolding same_control_def by (metis map_option_eq_Some)
    have dom: "list_all (\<lambda>p. p = NULL \<or> chans w1 p \<noteq> None) (sync_ch (sync w1))"
      using chans(2) a c1(3) by (auto simp: list_all_iff)
    have w1: "world_ok self w1"
      using a c1(1) room_ctl [OF c1(2)] c(3) dom by (simp add: world_ok_def)
    show ?thesis
    proof (cases "info = []")
      case True
      with t c \<open>(0 < pending_cnt c \<or> mode = NOTIFY_CONTINUOUS) \<and> \<not> bWaitForPrepSnapshotDone c\<close> a w1
      show ?thesis
        by (subst dispatch_loop.simps) (simp add: keeps_def)
    next
      case False
      have "mode = NOTIFY_BURST \<Longrightarrow> pending_cnt c1 \<noteq> 0"
        using True c1(2) by (auto simp: ctl_def)
      then obtain w2 where w2: "count_if_burst mode self w1 = Some w2" "keeps self w1 {#} w2"
        using count_sent_all [OF w1 c1(1)] w1
        by (cases "mode = NOTIFY_BURST") (auto simp: count_if_burst_def keeps_def)
      let ?w = "mm_channel_send_super_buf info w2"
      have sub: "fst ` set info \<subseteq> dom (chans w2)"
        using a count_dom [OF w2(1)] by simp
      have s: "account ?w p = account w2 p + info_bufs p info \<and> chans_ok ?w \<and> dom (chans ?w) = dom (chans w2)" for p
        unfolding mm_channel_send_super_buf_def
        using w2(2) sub by (intro fold_account) (simp_all add: send_node_account keeps_def world_ok_def)
      have ctl: "same_control w2 ?w"
        unfolding mm_channel_send_super_buf_def by (rule fold_control) (rule send_node_control)
      have ok: "world_ok self ?w"
        using s ctl w2(2) world_ok_control by (auto simp: keeps_def)
      have k: "keeps self w {#} ?w"
        using ok s w2(2) a by (simp add: keeps_def)
      obtain w' where "dispatch_loop self mode ?w = Some w'" "keeps self ?w {#} w'"
        using 1(1) [OF c(1) True t HOL.refl False w2(1) ok] by blast
      with t c True False w2(1) keeps_trans [OF k] show ?thesis
        by (subst dispatch_loop.simps) auto
    qed
  qed
qed

section \<open>The function\<close>

lemma process_all:
  assumes "world_ok self w" "chans w self = Some c" "cmd_fits c cmd"
  shows "\<exists>w'. mm_channel_process_stream_buf memory self cmd w = Some w' \<and> keeps self w (arrived cmd) w'"
proof -
  obtain w1 where w1: "process_cmd memory self cmd w = Some w1" "keeps self w (arrived cmd) w1"
    using process_cmd_all [OF assms] by blast
  then have ok: "world_ok self w1"
    by (simp add: keeps_def)
  then obtain c1 where c1: "chans w1 self = Some c1"
    by (auto simp: world_ok_def split: option.splits)
  obtain w2 where w2: "update_zsl self w1 = Some w2" "keeps self w1 {#} w2"
    using update_zsl_all [OF ok] by blast
  then obtain w3 where w3: "overflow self w2 = Some w3" "keeps self w2 {#} w3"
    using overflow_all [of self w2] unfolding keeps_def by blast
  then obtain w4 where w4: "dispatch_loop self (notify_mode (attr (superbuf_queue c1))) w3 = Some w4" "keeps self w3 {#} w4"
    using dispatch_all [of self w3] unfolding keeps_def by blast
  have "keeps self w (arrived cmd) w4"
    using keeps_trans [OF keeps_trans [OF keeps_trans [OF w1(2) w2(2)] w3(2)] w4(2)] .
  with w1 w2(1) w3(1) w4(1) c1 show ?thesis
    by (cases cmd) (simp_all add: mm_channel_process_stream_buf_def Let_def)
qed

section \<open>How many superbuffers are sent\<close>

definition sent_to :: "ptr \<Rightarrow> cam_world \<Rightarrow> nat" where
  "sent_to p w = length (filter (\<lambda>x. fst x = p) (sent w))"

lemma sent_to_put [simp]: "sent_to p (put_chan q c w) = sent_to p w" "sent_to p (put_cf q cf w) = sent_to p w"
  by (simp_all add: sent_to_def)

lemma take_own_sent:
  assumes "chans w self = Some c" "req_type c = REQ_SUPER_BUF" "take_superbufs self c w = Some (info, w')"
  shows "sent w' = sent w" "length info \<le> 1"
    "\<exists>c'. chans w' self = Some c' \<and> ctl c' = ctl c \<and> bWaitForPrepSnapshotDone c' = bWaitForPrepSnapshotDone c"
proof -
  have q: "bWaitForPrepSnapshotDone (mm_channel_qbuf b c) = bWaitForPrepSnapshotDone c" for b c
    by (simp add: mm_channel_qbuf_def split: option.split)
  have "bWaitForPrepSnapshotDone (fold (\<lambda>e. mm_channel_qbuf (buf e)) es c) = bWaitForPrepSnapshotDone c" for es c
    by (induction es arbitrary: c) (simp_all add: q)
  then have f: "bWaitForPrepSnapshotDone (mm_channel_node_qbuf n c) = bWaitForPrepSnapshotDone c" for n c
    by (simp add: mm_channel_node_qbuf_def)
  obtain r c1 fs1 where d: "mm_channel_superbuf_dequeue (c, sync w) = (r, c1, fs1)"
    by (metis prod_cases3)
  have c1: "ctl c1 = ctl c" "bWaitForPrepSnapshotDone c1 = bWaitForPrepSnapshotDone c"
    using dequeue_same_ctl [of "(c, sync w)" True] d
    by (auto simp: mm_channel_superbuf_dequeue_def same_ctl_def mm_channel_superbuf_dequeue_internal_def
        upd_queue_def Let_def split: list.splits if_splits)
  show "sent w' = sent w" "length info \<le> 1"
    "\<exists>c'. chans w' self = Some c' \<and> ctl c' = ctl c \<and> bWaitForPrepSnapshotDone c' = bWaitForPrepSnapshotDone c"
    using assms d c1 f
    by (auto simp: take_superbufs_def take_own_def split: option.splits if_splits)
qed

text \<open>The members that say how much of the request is left.\<close>

definition left_of :: "mm_channel \<Rightarrow> uint32 \<times> uint32 \<times> bool \<times> req_buf_type" where
  "left_of c = (pending_cnt c, pending_retro_cnt c, bWaitForPrepSnapshotDone c, req_type c)"

lemma left_of_sel [simp]:
  "left_of (c\<lparr>unLockAEC := x\<rparr>) = left_of c" "left_of (end_zsl c) = left_of c"
  by (simp_all add: left_of_def end_zsl_def)

lemma left_of_node_qbuf [simp]: "left_of (mm_channel_node_qbuf n c) = left_of c"
proof -
  have q: "left_of (mm_channel_qbuf b c) = left_of c" for b c
    by (simp add: left_of_def mm_channel_qbuf_def split: option.split)
  have "left_of (fold (\<lambda>e. mm_channel_qbuf (buf e)) es c) = left_of c" for es c
    by (induction es arbitrary: c) (simp_all add: q)
  then show ?thesis
    by (simp add: mm_channel_node_qbuf_def)
qed

lemma left_of_count_batch: "count_batch c = Some c' \<Longrightarrow> left_of c' = left_of c"
  by (auto simp: count_batch_def Let_def left_of_def set_good_def set_expected_def upd_queue_def split: if_splits)

lemma count_sent_left:
  assumes "count_sent self w = Some w'" "chans w self = Some c"
  shows "sent w' = sent w" "\<exists>c'. chans w' self = Some c' \<and> left_of c' = left_of (count_pending c)"
  using assms by (auto simp: count_sent_def Let_def dest!: left_of_count_batch split: if_splits)

lemma send_left:
  assumes "chans w self = Some c" "length info \<le> 1"
  shows "\<exists>c'. chans (mm_channel_send_super_buf info w) self = Some c' \<and> left_of c' = left_of c"
    "sent_to self (mm_channel_send_super_buf info w) \<le> sent_to self w + 1"
proof -
  have node: "\<exists>c'. chans (send_node pn w) self = Some c' \<and> left_of c' = left_of c"
    "sent_to self (send_node pn w) \<le> sent_to self w + 1" for pn
    using assms(1)
    by (auto simp: send_node_def malloc_def sent_to_def split: prod.split option.split list.split)
  from assms(2) consider "info = []" | pn where "info = [pn]"
    by (cases info) auto
  then show "\<exists>c'. chans (mm_channel_send_super_buf info w) self = Some c' \<and> left_of c' = left_of c"
    "sent_to self (mm_channel_send_super_buf info w) \<le> sent_to self w + 1"
    using assms(1) node by (cases; simp add: mm_channel_send_super_buf_def)+
qed

text \<open>
  With a request that is counted down no more superbuffers are sent than are pending, and with retro
  frames pending no more than those: the loop then waits for the prepared snapshot.
\<close>

lemma dispatch_bound:
  assumes "chans w self = Some c" "req_type c = REQ_SUPER_BUF" "dispatch_loop self NOTIFY_BURST w = Some w'"
  shows "\<exists>c'. chans w' self = Some c'
    \<and> sent_to self w' + unat (pending_cnt c') \<le> sent_to self w + unat (pending_cnt c)
    \<and> (0 < pending_retro_cnt c \<longrightarrow> sent_to self w' + unat (pending_retro_cnt c') \<le> sent_to self w + unat (pending_retro_cnt c))"
  using assms
proof (induction "open_frames (sync w) + own_length self w" arbitrary: w c rule: less_induct)
  case less
  show ?case
  proof (cases "0 < pending_cnt c \<and> \<not> bWaitForPrepSnapshotDone c")
    case False
    with less.prems show ?thesis
      by (subst (asm) dispatch_loop.simps) auto
  next
    case True
    with less.prems obtain info w1 where t: "take_superbufs self c w = Some (info, w1)"
      and d: "(if info = [] then Some w1 else (case count_if_burst NOTIFY_BURST self w1 of None \<Rightarrow> None
        | Some w2 \<Rightarrow> dispatch_loop self NOTIFY_BURST (mm_channel_send_super_buf info w2))) = Some w'"
      by (subst (asm) dispatch_loop.simps) (auto split: option.splits)
    note own = take_own_sent [OF less.prems(1,2) t]
    obtain c1 where c1: "chans w1 self = Some c1" "ctl c1 = ctl c"
      "bWaitForPrepSnapshotDone c1 = bWaitForPrepSnapshotDone c"
      using own(3) by blast
    have s1: "sent_to self w1 = sent_to self w"
      using own(1) by (simp add: sent_to_def)
    show ?thesis
    proof (cases "info = []")
      case True
      with d c1 s1 show ?thesis
        by (auto simp: ctl_def)
    next
      case False
      then obtain w2 where w2: "count_sent self w1 = Some w2"
        "dispatch_loop self NOTIFY_BURST (mm_channel_send_super_buf info w2) = Some w'"
        using d by (auto simp: count_if_burst_def split: option.splits)
      let ?w = "mm_channel_send_super_buf info w2"
      obtain c2 where c2: "chans w2 self = Some c2" "left_of c2 = left_of (count_pending c1)"
        using count_sent_left [OF w2(1) c1(1)] by blast
      obtain c3 where c3: "chans ?w self = Some c3" "left_of c3 = left_of c2"
        using send_left(1) [OF c2(1) own(2)] by blast
      have sent: "sent_to self ?w \<le> sent_to self w + 1"
        using send_left(2) [OF c2(1) own(2)] count_sent_left(1) [OF w2(1) c1(1)] s1 by (simp add: sent_to_def)
      have l: "pending_cnt c3 = pending_cnt c - 1" "req_type c3 = REQ_SUPER_BUF"
        "pending_retro_cnt c3 = (if 0 < pending_retro_cnt c then pending_retro_cnt c - 1 else pending_retro_cnt c)"
        "pending_retro_cnt c = 1 \<Longrightarrow> bWaitForPrepSnapshotDone c3"
        using c3(2) c2(2) c1(2) less.prems(2)
        by (auto simp: left_of_def count_pending_def Let_def ctl_def split: if_splits)
      have "open_frames (sync ?w) + own_length self ?w < open_frames (sync w) + own_length self w"
        using dispatch_decreases [OF less.prems(1) t False, of NOTIFY_BURST w2] w2(1)
        by (simp add: count_if_burst_def)
      from less.hyps [OF this c3(1) l(2) w2(2)] obtain c' where c': "chans w' self = Some c'"
        "sent_to self w' + unat (pending_cnt c') \<le> sent_to self ?w + unat (pending_cnt c3)"
        "0 < pending_retro_cnt c3 \<longrightarrow> sent_to self w' + unat (pending_retro_cnt c') \<le> sent_to self ?w + unat (pending_retro_cnt c3)"
        by blast
      have p: "unat (pending_cnt c3) + 1 = unat (pending_cnt c)"
        using True l(1) unat_pred by simp
      have r: "sent_to self w' + unat (pending_retro_cnt c') \<le> sent_to self w + unat (pending_retro_cnt c)"
        if pos: "0 < pending_retro_cnt c"
      proof (cases "pending_retro_cnt c = 1")
        case True
        then have "w' = ?w"
          using w2(2) l(4) c3(1) by (subst (asm) dispatch_loop.simps) simp
        then show ?thesis
          using True sent c'(1) c3(1) l(3) by simp
      next
        case False
        have "unat (pending_retro_cnt c3) + 1 = unat (pending_retro_cnt c)"
          using pos l(3) unat_pred by simp
        moreover have "0 < pending_retro_cnt c3"
          using pos l(3) False by (simp add: word_neq_0_conv [symmetric])
        ultimately show ?thesis
          using c'(3) sent by simp
      qed
      show ?thesis
        using c'(1,2) sent p r by auto
    qed
  qed
qed

end
