(* ===== verification/ChannelZsl.thy ===== *)
theory ChannelZsl
  imports ChannelRequest
begin

text \<open>
  The command thread starts and stops the ZSL snapshot in turn: what it calls at the server is balanced
  by the flag it keeps, up to the commands that start and stop it by hand.
\<close>

section \<open>Starting and stopping the ZSL snapshot\<close>

text \<open>The calls to start less the calls to stop, less one when the channel holds it started itself.\<close>

definition zsl_balance :: "ptr \<Rightarrow> cam_world \<Rightarrow> int" where
  "zsl_balance self w =
     int (count_list (zsl_calls w) (Start_ZSL self)) - int (count_list (zsl_calls w) (Stop_ZSL self))
     - (case chans w self of None \<Rightarrow> 0 | Some c \<Rightarrow> if startZSlSnapshotCalled c then 1 else 0)"

lemma zsl_balance_cong:
  assumes "zsl_calls w' = zsl_calls w" "chans w self = Some c" "chans w' self = Some c'"
    and "startZSlSnapshotCalled c' = startZSlSnapshotCalled c"
  shows "zsl_balance self w' = zsl_balance self w"
  using assms by (simp add: zsl_balance_def)

lemma ctl_started: "ctl c' = ctl c \<Longrightarrow> startZSlSnapshotCalled c' = startZSlSnapshotCalled c"
  by (simp add: ctl_def)

lemma balance_control:
  assumes "same_control w w'" "zsl_calls w' = zsl_calls w"
  shows "zsl_balance self w' = zsl_balance self w"
proof (cases "chans w self")
  case None
  then have "chans w' self = None"
    using assms(1) unfolding same_control_def by (metis map_option_is_None)
  with None assms(2) show ?thesis
    by (simp add: zsl_balance_def)
next
  case (Some c)
  then obtain c' where c': "chans w' self = Some c'" "ctl c' = ctl c"
    using assms(1) unfolding same_control_def by (metis map_option_eq_Some)
  from zsl_balance_cong [OF assms(2) Some c'(1) ctl_started [OF c'(2)]] show ?thesis .
qed

lemma process_general_started:
  assumes "process_general t start f (c, fs) = Some (c', fs')"
  shows "startZSlSnapshotCalled c' = startZSlSnapshotCalled c"
proof -
  obtain c1 fs1 where f: "mm_channel_superbuf_flush CAM_STREAM_TYPE_DEFAULT (c, fs) = (c1, fs1)"
    by fastforce
  have "startZSlSnapshotCalled c1 = startZSlSnapshotCalled c"
    using ctl_started [OF flush_all(3) [OF f]] .
  with assms f show ?thesis
    by (cases t) (auto simp: process_general_def Let_def split: if_splits)
qed

lemma loops_started:
  "mm_channel_superbuf_skip (c, fs) = Some (c', fs') \<Longrightarrow> startZSlSnapshotCalled c' = startZSlSnapshotCalled c"
  "mm_channel_superbuf_bufdone_overflow (c, fs) = Some (c', fs') \<Longrightarrow> startZSlSnapshotCalled c' = startZSlSnapshotCalled c"
proof -
  have "startZSlSnapshotCalled c' = startZSlSnapshotCalled c" if "trim_loop l (c, fs) = Some (c', fs')" for l
    using ctl_started [of c' c] trim_same_ctl [OF that] by (simp add: same_ctl_def)
  then show
    "mm_channel_superbuf_skip (c, fs) = Some (c', fs') \<Longrightarrow> startZSlSnapshotCalled c' = startZSlSnapshotCalled c"
    "mm_channel_superbuf_bufdone_overflow (c, fs) = Some (c', fs') \<Longrightarrow> startZSlSnapshotCalled c' = startZSlSnapshotCalled c"
    by (auto simp: mm_channel_superbuf_skip_def mm_channel_superbuf_bufdone_overflow_def Let_def split: if_splits)
qed

definition manual_calls :: "cmdcb \<Rightarrow> int" where
  "manual_calls cmd = (case cmd of START_ZSL \<Rightarrow> 1 | STOP_ZSL \<Rightarrow> - 1 | _ \<Rightarrow> 0)"

lemma process_cmd_balance:
  assumes "process_cmd memory self cmd w = Some w'"
  shows "zsl_balance self w' = zsl_balance self w + manual_calls cmd"
proof -
  obtain c where c: "chans w self = Some c"
    using assms by (auto simp: process_cmd_def split: option.splits)
  have same: "zsl_balance self (put_cf self (c', fs') w) = zsl_balance self w"
    if "startZSlSnapshotCalled c' = startZSlSnapshotCalled c" for c' fs'
    using that c by (simp add: zsl_balance_def)
  show ?thesis
  proof (cases cmd)
    case (DATA_CB b)
    then obtain rc c' fs' where r: "mm_channel_superbuf_comp_and_enqueue self memory b (c, sync w) = Some (rc, c', fs')"
      "w' = put_cf self (c', fs') w"
      using assms c by (auto simp: process_cmd_def)
    have "ctl c' = ctl c"
      using comp_same_ctl [OF r(1)] by (simp add: same_ctl_def)
    from same [OF ctl_started [OF this]] r(2) DATA_CB show ?thesis
      by (simp add: manual_calls_def)
  next
    case (REQ_DATA_CB r)
    then obtain c' fs' where s: "mm_channel_superbuf_skip (process_request r c, sync w) = Some (c', fs')"
      "w' = put_cf self (c', fs') w"
      using assms c by (auto simp: process_cmd_def)
    from loops_started(1) [OF s(1)] same [of c' fs'] s(2) REQ_DATA_CB show ?thesis
      by (simp add: process_request_def Let_def manual_calls_def)
  next
    case (FLUSH_QUEUE frame t)
    obtain c' fs' where f: "mm_channel_superbuf_flush t (set_expected frame c, sync w) = (c', fs')"
      by fastforce
    have "ctl c' = ctl c"
      using flush_same_ctl [of "(set_expected frame c, sync w)" t] f by (simp add: same_ctl_def)
    from same [OF ctl_started [OF this]] f assms c FLUSH_QUEUE show ?thesis
      by (auto simp: process_cmd_def manual_calls_def)
  next
    case (GENERAL t start f)
    then obtain c' fs' where g: "process_general t start f (c, sync w) = Some (c', fs')"
      "w' = put_cf self (c', fs') w"
      using assms c by (auto simp: process_cmd_def)
    from process_general_started [OF g(1)] same [of c' fs'] g(2) GENERAL show ?thesis
      by (simp add: manual_calls_def)
  qed (use assms c in \<open>auto simp: process_cmd_def manual_calls_def zsl_balance_def upd_queue_def\<close>)
qed

lemma update_zsl_balance:
  assumes "update_zsl self w = Some w'"
  shows "zsl_balance self w' = zsl_balance self w"
proof -
  obtain c where c: "chans w self = Some c"
    using assms by (auto simp: update_zsl_def split: option.splits)
  obtain c1 fs1 where f: "mm_channel_superbuf_flush CAM_STREAM_TYPE_DEFAULT (wait_batches c, sync w) = (c1, fs1)"
    by fastforce
  show ?thesis
    using assms c f
    by (auto simp: update_zsl_def zsl_balance_def needStartZSL_def zsl_started_def split: if_splits)
qed

lemma take_frame_calls: "take_frame f ps w = Some (info, w') \<Longrightarrow> zsl_calls w' = zsl_calls w"
proof (induction ps arbitrary: w info)
  case (Cons p ps)
  then show ?case
    by (auto split: if_splits option.splits prod.splits)
qed simp

lemma take_calls:
  assumes "chans w self = Some c" "take_superbufs self c w = Some (info, w')"
  shows "zsl_calls w' = zsl_calls w"
proof -
  have q: "zsl_calls (fold node_qbuf info w) = zsl_calls w" for info w
  proof (induction info arbitrary: w)
    case (Cons pn info)
    then show ?case
      by (simp add: node_qbuf_def split: option.split)
  qed simp
  show ?thesis
    using assms take_frame_calls
    by (auto simp: take_superbufs_def take_synced_def take_own_def Let_def q split: option.splits if_splits prod.splits)
qed

lemma send_calls: "zsl_calls (mm_channel_send_super_buf info w) = zsl_calls w"
proof -
  have "zsl_calls (send_node pn w) = zsl_calls w" for pn w
    by (auto simp: send_node_def malloc_def split: prod.split option.split list.split)
  then show ?thesis
    unfolding mm_channel_send_super_buf_def by (induction info arbitrary: w) simp_all
qed

lemma count_sent_balance:
  assumes "count_sent self w = Some w'"
  shows "zsl_balance self w' = zsl_balance self w"
proof -
  have b: "startZSlSnapshotCalled c' = startZSlSnapshotCalled c" if "count_batch c = Some c'" for c c'
    using that by (auto simp: count_batch_def Let_def set_good_def set_expected_def upd_queue_def split: if_splits)
  have p: "startZSlSnapshotCalled (count_pending c) = startZSlSnapshotCalled c" for c
    by (simp add: count_pending_def Let_def)
  obtain c where c: "chans w self = Some c"
    using assms by (auto simp: count_sent_def split: option.splits)
  let ?c = "count_pending c"
  let ?d = "if all_received ?c then end_zsl ?c else ?c"
  obtain c' where c': "count_batch ?d = Some c'"
    "w' = (put_chan self c' w)\<lparr>zsl_calls := zsl_calls w @ (if all_received ?c then [Stop_ZSL self] else [])\<rparr>"
    using assms c by (auto simp: count_sent_def Let_def)
  have "startZSlSnapshotCalled c' = (\<not> all_received ?c \<and> startZSlSnapshotCalled c)"
    using b [OF c'(1)] p [of c] by (simp add: end_zsl_def)
  then show ?thesis
    using c c'(2) p [of c] by (auto simp: zsl_balance_def all_received_def)
qed

lemma dispatch_balance:
  "dispatch_loop self mode w = Some w' \<Longrightarrow> zsl_balance self w' = zsl_balance self w"
proof (induction self mode w rule: dispatch_loop.induct)
  case (1 self mode w)
  obtain c where c: "chans w self = Some c"
    using 1(2) by (subst (asm) dispatch_loop.simps) (auto split: option.splits)
  show ?case
  proof (cases "(0 < pending_cnt c \<or> mode = NOTIFY_CONTINUOUS) \<and> \<not> bWaitForPrepSnapshotDone c")
    case False
    with 1(2) c show ?thesis
      by (subst (asm) dispatch_loop.simps) auto
  next
    case True
    with 1(2) c obtain info w1 where t: "take_superbufs self c w = Some (info, w1)"
      and d: "(if info = [] then Some w1 else (case count_if_burst mode self w1 of None \<Rightarrow> None
        | Some w2 \<Rightarrow> dispatch_loop self mode (mm_channel_send_super_buf info w2))) = Some w'"
      by (subst (asm) dispatch_loop.simps) (auto split: option.splits)
    have b1: "zsl_balance self w1 = zsl_balance self w"
      by (rule balance_control [OF take_control [OF c t] take_calls [OF c t]])
    show ?thesis
    proof (cases "info = []")
      case True
      with d b1 show ?thesis
        by simp
    next
      case False
      with d obtain w2 where w2: "count_if_burst mode self w1 = Some w2"
        "dispatch_loop self mode (mm_channel_send_super_buf info w2) = Some w'"
        by (auto split: option.splits)
      have b2: "zsl_balance self w2 = zsl_balance self w1"
        using w2(1) count_sent_balance by (auto simp: count_if_burst_def split: if_splits)
      have "same_control w2 (mm_channel_send_super_buf info w2)"
        unfolding mm_channel_send_super_buf_def by (rule fold_control) (rule send_node_control)
      from balance_control [OF this send_calls] 1(1) [OF c True t HOL.refl False w2] b1 b2 show ?thesis
        by simp
    qed
  qed
qed

lemma process_balance:
  assumes "mm_channel_process_stream_buf memory self cmd w = Some w'"
  shows "zsl_balance self w' = zsl_balance self w + manual_calls cmd"
proof -
  obtain w1 where w1: "process_cmd memory self cmd w = Some w1"
    using assms by (auto simp: mm_channel_process_stream_buf_def split: option.splits)
  note b1 = process_cmd_balance [OF w1]
  show ?thesis
  proof (cases "w' = w1")
    case False
    with assms w1 have "\<exists>mode w2 w3. update_zsl self w1 = Some w2 \<and> overflow self w2 = Some w3
      \<and> dispatch_loop self mode w3 = Some w'"
      by (cases cmd) (auto simp: mm_channel_process_stream_buf_def Let_def bind_eq_Some_conv split: option.splits)
    then obtain mode w2 w3 where r: "update_zsl self w1 = Some w2" "overflow self w2 = Some w3"
      "dispatch_loop self mode w3 = Some w'"
      by blast
    have "zsl_balance self w3 = zsl_balance self w2"
      using r(2) loops_started(2) by (auto simp: overflow_def zsl_balance_def split: option.splits)
    with b1 update_zsl_balance [OF r(1)] dispatch_balance [OF r(3)] show ?thesis
      by simp
  qed (use b1 in simp)
qed

end
