(* ===== verification/FrameSyncInv.thy ===== *)
theory FrameSyncInv
  imports SuperbufConserve
begin

text \<open>
  Frames synchronised between two registered channels: a frame is found matched only when both
  channels have added it since it was last removed, and the oldest matched frame is the smallest.
\<close>

datatype (plugins only: code size) sync_op = Added uint32 ptr | Removed uint32

fun sync_step :: "sync_op \<Rightarrow> frame_sync \<Rightarrow> frame_sync" where
  "sync_step (Added f ch) fs = snd (mm_frame_sync_add f ch fs)"
| "sync_step (Removed f) fs = snd (mm_frame_sync_remove f fs)"

definition two_cameras :: "ptr \<Rightarrow> ptr \<Rightarrow> frame_sync" where
  "two_cameras a b =
     snd (mm_frame_sync_register_channel b (snd (mm_frame_sync_register_channel a mm_frame_sync_reset)))"

definition sync_run :: "ptr \<Rightarrow> ptr \<Rightarrow> sync_op list \<Rightarrow> frame_sync" where
  "sync_run a b ops = fold sync_step ops (two_cameras a b)"

text \<open>The operations since the frame was last removed, the last one first.\<close>

definition since :: "uint32 \<Rightarrow> sync_op list \<Rightarrow> sync_op list" where
  "since f ops = takeWhile (\<lambda>x. x \<noteq> Removed f) (rev ops)"

lemma since_snoc:
  "since f (ops @ [x]) = (if x = Removed f then [] else x # since f ops)"
  by (simp add: since_def)

lemma two_cameras_eq:
  assumes "a \<noteq> NULL" "b \<noteq> NULL"
  shows "two_cameras a b =
    \<lparr>num_cam = 2, sync_pos = 0, sync_nodes = replicate MM_CAMERA_FRAME_SYNC_NODES no_sync_node, sync_ch = [a, b]\<rparr>"
  using assms
  by (simp add: two_cameras_def mm_frame_sync_register_channel_def mm_frame_sync_reset_def
      MAX_NUM_CAMERA_PER_BUNDLE_def Let_def numeral_2_eq_2)

definition node_sync_ok :: "sync_node \<Rightarrow> bool" where
  "node_sync_ok n \<longleftrightarrow> length (frame_valid n) = 2
     \<and> (sync_matched n \<longleftrightarrow> frame_valid n ! 0 \<and> frame_valid n ! 1)"

definition unique_frames :: "sync_node list \<Rightarrow> bool" where
  "unique_frames ns \<longleftrightarrow> (\<forall>i j. i < length ns \<and> j < length ns
     \<and> sync_frame_idx (ns ! i) = sync_frame_idx (ns ! j) \<and> sync_frame_idx (ns ! i) \<noteq> 0 \<longrightarrow> i = j)"

definition sync_ok :: "ptr \<Rightarrow> ptr \<Rightarrow> sync_op list \<Rightarrow> frame_sync \<Rightarrow> bool" where
  "sync_ok a b ops fs \<longleftrightarrow>
     num_cam fs = 2 \<and> sync_ch fs = [a, b] \<and> length (sync_nodes fs) = MM_CAMERA_FRAME_SYNC_NODES
     \<and> list_all node_sync_ok (sync_nodes fs)
     \<and> unique_frames (sync_nodes fs)
     \<and> (\<forall>n \<in> set (sync_nodes fs).
          (frame_valid n ! 0 \<longrightarrow> sync_frame_idx n \<noteq> 0 \<and> Added (sync_frame_idx n) a \<in> set (since (sync_frame_idx n) ops))
          \<and> (frame_valid n ! 1 \<longrightarrow> sync_frame_idx n \<noteq> 0 \<and> Added (sync_frame_idx n) b \<in> set (since (sync_frame_idx n) ops)))"

lemma no_sync_node_sel [simp]:
  "sync_frame_idx no_sync_node = 0" "frame_valid no_sync_node = [False, False]" "\<not> sync_matched no_sync_node"
  "node_sync_ok no_sync_node"
  by (simp_all add: no_sync_node_def MAX_NUM_CAMERA_PER_BUNDLE_def numeral_2_eq_2 node_sync_ok_def)

lemma count_valid:
  "length v = 2 \<Longrightarrow> length (filter (\<lambda>v. v) v) = 2 \<longleftrightarrow> v ! 0 \<and> v ! 1"
  by (cases v; cases "tl v") auto

lemma mark_matched_ok:
  assumes "length (frame_valid n) = 2" "sync_matched n \<longrightarrow> frame_valid n ! 0 \<and> frame_valid n ! 1"
  shows "node_sync_ok (mark_matched 2 n)" "sync_frame_idx (mark_matched 2 n) = sync_frame_idx n"
    "frame_valid (mark_matched 2 n) = frame_valid n"
  using assms count_valid [OF assms(1)] by (auto simp: mark_matched_def node_sync_ok_def)

text \<open>Putting a node into the array.\<close>

lemma sync_ok_update:
  assumes ok: "sync_ok a b ops fs" and i: "i < length (sync_nodes fs)" and n: "node_sync_ok n"
    and uniq: "\<And>j. j < length (sync_nodes fs) \<Longrightarrow> j \<noteq> i \<Longrightarrow> sync_frame_idx n \<noteq> 0
      \<Longrightarrow> sync_frame_idx (sync_nodes fs ! j) \<noteq> sync_frame_idx n"
    and mono: "\<And>j f ch. j < length (sync_nodes fs) \<Longrightarrow> j \<noteq> i \<Longrightarrow> f = sync_frame_idx (sync_nodes fs ! j)
      \<Longrightarrow> Added f ch \<in> set (since f ops) \<Longrightarrow> Added f ch \<in> set (since f ops')"
    and valid: "frame_valid n ! 0 \<Longrightarrow> sync_frame_idx n \<noteq> 0 \<and> Added (sync_frame_idx n) a \<in> set (since (sync_frame_idx n) ops')"
      "frame_valid n ! 1 \<Longrightarrow> sync_frame_idx n \<noteq> 0 \<and> Added (sync_frame_idx n) b \<in> set (since (sync_frame_idx n) ops')"
  shows "sync_ok a b ops' (fs\<lparr>sync_nodes := (sync_nodes fs)[i := n], sync_pos := p\<rparr>)"
proof -
  have nodes: "\<exists>j. j < length (sync_nodes fs) \<and> j \<noteq> i \<and> m = sync_nodes fs ! j" if "m \<in> set ((sync_nodes fs)[i := n])" "m \<noteq> n" for m
  proof -
    from that(1) obtain j where "j < length (sync_nodes fs)" "m = (sync_nodes fs)[i := n] ! j"
      by (auto simp: in_set_conv_nth)
    with that(2) i show ?thesis
      by (cases "j = i") auto
  qed
  have v: "(frame_valid m ! 0 \<longrightarrow> sync_frame_idx m \<noteq> 0 \<and> Added (sync_frame_idx m) a \<in> set (since (sync_frame_idx m) ops'))
      \<and> (frame_valid m ! 1 \<longrightarrow> sync_frame_idx m \<noteq> 0 \<and> Added (sync_frame_idx m) b \<in> set (since (sync_frame_idx m) ops'))"
    if m: "m \<in> set ((sync_nodes fs)[i := n])" for m
  proof (cases "m = n")
    case False
    with nodes [OF m] obtain j where j: "j < length (sync_nodes fs)" "j \<noteq> i" "m = sync_nodes fs ! j"
      by blast
    then have "m \<in> set (sync_nodes fs)"
      by simp
    with ok mono [OF j(1,2)] j(3) show ?thesis
      by (auto simp: sync_ok_def)
  qed (use valid in simp)
  have u: "j = k" if "j < length (sync_nodes fs)" "k < length (sync_nodes fs)"
    "sync_frame_idx ((sync_nodes fs)[i := n] ! j) = sync_frame_idx ((sync_nodes fs)[i := n] ! k)"
    "sync_frame_idx ((sync_nodes fs)[i := n] ! j) \<noteq> 0" for j k
    using that i ok uniq [of j] uniq [of k]
    by (cases "j = i"; cases "k = i") (auto simp: sync_ok_def unique_frames_def)
  then have "unique_frames ((sync_nodes fs)[i := n])"
    unfolding unique_frames_def by auto
  with ok n v show ?thesis
    unfolding sync_ok_def by (simp add: list_all_update)
qed

lemma find_frame_index:
  "mm_frame_sync_find_frame_index f fs = Some i \<Longrightarrow> i < length (sync_nodes fs) \<and> sync_frame_idx (sync_nodes fs ! i) = f"
  "mm_frame_sync_find_frame_index f fs = None \<Longrightarrow> j < length (sync_nodes fs) \<Longrightarrow> sync_frame_idx (sync_nodes fs ! j) \<noteq> f"
  unfolding mm_frame_sync_find_frame_index_def
   apply (drule index_of_Some, simp)
  apply (simp add: index_of_None)
  done

lemma sync_ok_remove:
  assumes "sync_ok a b ops fs"
  shows "sync_ok a b (ops @ [Removed f]) (snd (mm_frame_sync_remove f fs))"
proof (cases "f = 0")
  case True
  with assms show ?thesis
    by (auto simp: mm_frame_sync_remove_def sync_ok_def since_snoc)
next
  case False
  show ?thesis
  proof (cases "mm_frame_sync_find_frame_index f fs")
    case None
    then have no: "\<And>n. n \<in> set (sync_nodes fs) \<Longrightarrow> sync_frame_idx n \<noteq> f"
      using find_frame_index(2) by (metis in_set_conv_nth)
    with None assms show ?thesis
      using False by (auto simp: mm_frame_sync_remove_def sync_ok_def since_snoc)
  next
    case (Some i)
    have r: "snd (mm_frame_sync_remove f fs)
        = fs\<lparr>sync_nodes := (sync_nodes fs)[i := no_sync_node], sync_pos := sync_pos fs\<rparr>"
      using Some False by (simp add: mm_frame_sync_remove_def)
    have i: "i < length (sync_nodes fs)" "sync_frame_idx (sync_nodes fs ! i) = f"
      using find_frame_index(1) [OF Some] by simp_all
    have "sync_frame_idx (sync_nodes fs ! j) \<noteq> f" if "j < length (sync_nodes fs)" "j \<noteq> i" for j
      using assms i that False by (auto simp: sync_ok_def unique_frames_def)
    then show ?thesis
      unfolding r by (intro sync_ok_update [OF assms i(1)]) (auto simp: since_snoc)
  qed
qed

lemma sync_ok_add:
  assumes ok: "sync_ok a b ops fs" and "a \<noteq> b"
  shows "sync_ok a b (ops @ [Added f ch]) (snd (mm_frame_sync_add f ch fs))"
proof (cases "f = 0 \<or> ch = NULL \<or> ch \<notin> {a, b}")
  case True
  then have "snd (mm_frame_sync_add f ch fs) = fs"
    using ok by (auto simp: mm_frame_sync_add_def sync_ok_def)
  then show ?thesis
    using ok by (auto simp: sync_ok_def since_snoc)
next
  case False
  define ci where "ci = (if ch = a then 0 else 1 :: nat)"
  have ci: "index_of (\<lambda>c. c = ch) (sync_ch fs) = Some ci" "ci < 2" "ch = (if ci = 0 then a else b)"
    using False ok assms(2) by (auto simp: ci_def sync_ok_def)
  have add: "Added f ch \<in> set (since f (ops @ [Added f ch]))"
    by (simp add: since_snoc)
  have mono: "Added g c \<in> set (since g ops) \<Longrightarrow> Added g c \<in> set (since g (ops @ [Added f ch]))" for g c
    by (simp add: since_snoc)
  have num: "num_cam fs = 2"
    using ok by (simp add: sync_ok_def)
  show ?thesis
  proof (cases "mm_frame_sync_find_frame_index f fs")
    case (Some i)
    let ?n = "(sync_nodes fs ! i)\<lparr>frame_valid := (frame_valid (sync_nodes fs ! i))[ci := True]\<rparr>"
    have i: "i < length (sync_nodes fs)" "sync_frame_idx (sync_nodes fs ! i) = f"
      using find_frame_index(1) [OF Some] by simp_all
    have r: "snd (mm_frame_sync_add f ch fs)
        = fs\<lparr>sync_nodes := (sync_nodes fs)[i := mark_matched 2 ?n], sync_pos := sync_pos fs\<rparr>"
      using False ci(1) Some num i(1) by (simp add: mm_frame_sync_add_def Let_def)
    have old: "node_sync_ok (sync_nodes fs ! i)" "sync_nodes fs ! i \<in> set (sync_nodes fs)"
      using ok i(1) by (auto simp: sync_ok_def list_all_length)
    have "length (frame_valid ?n) = 2" "sync_matched ?n \<longrightarrow> frame_valid ?n ! 0 \<and> frame_valid ?n ! 1"
      using old(1) ci(2) by (auto simp: node_sync_ok_def nth_list_update)
    note m = mark_matched_ok [OF this]
    show ?thesis
      unfolding r
    proof (rule sync_ok_update [OF ok i(1) m(1)])
      show "sync_frame_idx (sync_nodes fs ! j) \<noteq> sync_frame_idx (mark_matched 2 ?n)"
        if "j < length (sync_nodes fs)" "j \<noteq> i" "sync_frame_idx (mark_matched 2 ?n) \<noteq> 0" for j
        using ok that i m(2) by (auto simp: sync_ok_def unique_frames_def)
      show "sync_frame_idx (mark_matched 2 ?n) \<noteq> 0
          \<and> Added (sync_frame_idx (mark_matched 2 ?n)) a \<in> set (since (sync_frame_idx (mark_matched 2 ?n)) (ops @ [Added f ch]))"
        if "frame_valid (mark_matched 2 ?n) ! 0"
        using that ok old ci(2,3) i(2) False add mono m(2,3)
        by (cases "ci = 0") (auto simp: sync_ok_def node_sync_ok_def)
      show "sync_frame_idx (mark_matched 2 ?n) \<noteq> 0
          \<and> Added (sync_frame_idx (mark_matched 2 ?n)) b \<in> set (since (sync_frame_idx (mark_matched 2 ?n)) (ops @ [Added f ch]))"
        if "frame_valid (mark_matched 2 ?n) ! 1"
        using that ok old ci(2,3) i(2) False add mono m(2,3)
        by (cases "ci = 0") (auto simp: sync_ok_def node_sync_ok_def nth_list_update)
    qed (use mono in auto)
  next
    case None
    let ?i = "if MM_CAMERA_FRAME_SYNC_NODES \<le> sync_pos fs then 0 else sync_pos fs"
    let ?n = "no_sync_node\<lparr>sync_frame_idx := f, frame_valid := (frame_valid no_sync_node)[ci := True],
      sync_matched := (num_cam fs = 1)\<rparr>"
    have i: "?i < length (sync_nodes fs)"
      using ok by (simp add: sync_ok_def MM_CAMERA_FRAME_SYNC_NODES_def)
    have r: "snd (mm_frame_sync_add f ch fs)
        = fs\<lparr>sync_nodes := (sync_nodes fs)[?i := mark_matched 2 ?n], sync_pos := ?i + 1\<rparr>"
      using False ci(1) None num i by (simp add: mm_frame_sync_add_def Let_def)
    have "length (frame_valid ?n) = 2" "sync_matched ?n \<longrightarrow> frame_valid ?n ! 0 \<and> frame_valid ?n ! 1"
      using num less_2_cases [OF ci(2)] by auto
    note m = mark_matched_ok [OF this]
    show ?thesis
      unfolding r
    proof (rule sync_ok_update [OF ok i m(1)])
      show "sync_frame_idx (sync_nodes fs ! j) \<noteq> sync_frame_idx (mark_matched 2 ?n)"
        if "j < length (sync_nodes fs)" for j
        using find_frame_index(2) [OF None that] m(2) by simp
      show "sync_frame_idx (mark_matched 2 ?n) \<noteq> 0
          \<and> Added (sync_frame_idx (mark_matched 2 ?n)) a \<in> set (since (sync_frame_idx (mark_matched 2 ?n)) (ops @ [Added f ch]))"
        if "frame_valid (mark_matched 2 ?n) ! 0"
        using that ci(3) False add m(2,3) less_2_cases [OF ci(2)] by auto
      show "sync_frame_idx (mark_matched 2 ?n) \<noteq> 0
          \<and> Added (sync_frame_idx (mark_matched 2 ?n)) b \<in> set (since (sync_frame_idx (mark_matched 2 ?n)) (ops @ [Added f ch]))"
        if "frame_valid (mark_matched 2 ?n) ! 1"
        using that ci(3) False add m(2,3) less_2_cases [OF ci(2)] by auto
    qed (use mono in auto)
  qed
qed

lemma sync_ok_run:
  assumes "a \<noteq> NULL" "b \<noteq> NULL" "a \<noteq> b"
  shows "sync_ok a b ops (sync_run a b ops)"
proof (induction ops rule: rev_induct)
  case Nil
  show ?case
    using two_cameras_eq [OF assms(1,2)]
    by (auto simp: sync_run_def sync_ok_def list_all_iff unique_frames_def)
next
  case (snoc x ops)
  have r: "sync_run a b (ops @ [x]) = sync_step x (sync_run a b ops)"
    by (simp add: sync_run_def)
  show ?case
    using sync_ok_add [OF snoc assms(3)] sync_ok_remove [OF snoc]
    unfolding r by (cases x) simp_all
qed

text \<open>What the search finds.\<close>

lemma find_matched_from_least:
  assumes "\<And>n. n \<in> set ns \<Longrightarrow> sync_matched n \<Longrightarrow> sync_frame_idx n \<noteq> 0"
  shows "(f \<noteq> 0 \<longrightarrow> find_matched_from True f ns \<noteq> 0 \<and> find_matched_from True f ns \<le> f)
     \<and> (\<forall>n \<in> set ns. sync_matched n \<longrightarrow> find_matched_from True f ns \<noteq> 0 \<and> find_matched_from True f ns \<le> sync_frame_idx n)"
  using assms
proof (induction ns arbitrary: f)
  case (Cons n ns)
  show ?case
  proof (cases "sync_matched n")
    case False
    with Cons.IH [of f] Cons.prems show ?thesis
      by auto
  next
    case True
    then have i: "sync_frame_idx n \<noteq> 0"
      using Cons.prems by simp
    show ?thesis
      using True i Cons.IH [of f] Cons.IH [of "sync_frame_idx n"] Cons.prems
      by (cases "f = 0"; cases "sync_frame_idx n < f") (auto simp: Let_def not_less intro: order_trans)
  qed
qed simp

end
