(* ===== verification/CameraSpec.thy ===== *)
theory CameraSpec
  imports ChannelZsl FrameSyncInv
begin

text \<open>
  The properties of the frame path of the camera interface library
  (\<^verbatim>\<open>stack/mm-camera-interface/src/mm_camera_channel.c\<close>), each with an example where its hypotheses hold.
\<close>

section \<open>Objects for the examples\<close>

definition ex_attr :: channel_attr where
  "ex_attr = \<lparr>notify_mode = NOTIFY_BURST, water_mark = 2, look_back = 2, post_frame_skip = 0,
     max_unmatched_frames = 3, enable_frame_sync = False, priority = PRIORITY_NORMAL,
     user_expected_frame_id = 0\<rparr>"

definition ex_queue :: channel_queue where
  "ex_queue = \<lparr>que = [], que_size = 0, num_streams = 2, bundled_streams = [17, 18], attr = ex_attr,
     expected_frame_id = 0, match_cnt = 0, expected_frame_id_without_led = 0, led_on_start_frame_id = 0,
     led_off_start_frame_id = 0, led_on_num_frames = 0, once = False, frame_skip_count = 0, good_frame_id = 0\<rparr>"

definition ex_slot :: "uint32 \<Rightarrow> cam_stream_type \<Rightarrow> stream_slot" where
  "ex_slot hdl t = \<lparr>slot_used = True, slot_hdl = hdl, slot_type = Some t, server_stream_id = hdl,
     slot_owned = True, slot_linked = False\<rparr>"

definition ex_channel :: mm_channel where
  "ex_channel = \<lparr>ch_hdl = 1, cam_hdl = 1, super_buf_notify_cb = True, superbuf_queue = ex_queue,
     pending_cnt = 0, pending_retro_cnt = 0, req_type = REQ_SUPER_BUF, bWaitForPrepSnapshotDone = False,
     unLockAEC = False, stopZslSnapshot = False,
     streams = [ex_slot 17 CAM_STREAM_TYPE_PREVIEW, ex_slot 18 CAM_STREAM_TYPE_SNAPSHOT],
     manualZSLSnapshot = False, startZSlSnapshotCalled = False, needLEDFlash = False,
     bracketingState = BRACKETING_OFF, isFlashBracketingEnabled = False, isZoom1xFrameRequested = False,
     burstSnapNum = 0, diverted_frame_id = 0, isConfigCapture = False, cur_capture_idx = 0,
     capture_frame_id = replicate 32 0, frameConfig = \<lparr>num_batch = 0, configs = no_configs\<rparr>,
     needLowLightZSL = False, qbufs = []\<rparr>"

definition ex_buf :: "uint32 \<Rightarrow> cam_stream_type \<Rightarrow> mm_camera_buf_def" where
  "ex_buf hdl t = \<lparr>buf_stream_id = hdl, buf_idx = 0, stream_type = t, buffer_meta = None\<rparr>"

definition ex_info :: "uint32 \<Rightarrow> uint32 \<Rightarrow> mm_camera_buf_info" where
  "ex_info hdl frame = \<lparr>stream_id = hdl, frame_idx = frame, info_flags = 0,
     buf = Some (ex_buf hdl (if hdl = 17 then CAM_STREAM_TYPE_PREVIEW else CAM_STREAM_TYPE_SNAPSHOT))\<rparr>"

definition ex_world :: cam_world where
  "ex_world = \<lparr>chans = [1 \<mapsto> ex_channel], sync = mm_frame_sync_reset, out_of_memory = [], sent = [], zsl_calls = []\<rparr>"

lemmas ex_defs = ex_attr_def ex_queue_def ex_channel_def ex_world_def

lemma ex_channel_ok: "chan_ok ex_channel"
  by (simp add: ex_defs chan_ok_def queue_ok_def ordered_def counted_def in_order_def incomplete_def
      in_place_def MAX_STREAM_NUM_IN_BUNDLE_def)

lemma ex_world_ok: "world_ok 1 ex_world" "chans ex_world 1 = Some ex_channel"
proof -
  show c: "chans ex_world 1 = Some ex_channel"
    by (simp add: ex_world_def)
  have "chans_ok ex_world"
    using ex_channel_ok by (simp add: chans_ok_def ex_world_def)
  then show "world_ok 1 ex_world"
    by (simp add: world_ok_def c)
      (simp add: ex_world_def mm_frame_sync_reset_def list_all_iff room_def ex_channel_def)
qed

section \<open>The queue of superbuffers\<close>

text \<open>
  C13. No buffer is lost or duplicated: a buffer of a bundled stream that is handed to the matching is
  afterwards in the queue or has been given back to the driver, and so is every buffer that was in the
  queue before, whatever the metadata of the frame flush and whatever is removed to make room; the
  queue stays well formed.
\<close>

theorem superbuf_accounts_for_buffers:
  assumes "queue_ok (superbuf_queue c)" and "buf b = Some d"
    and "stream_id b \<in> set (take (num_streams (superbuf_queue c)) (bundled_streams (superbuf_queue c)))"
    and "mm_channel_superbuf_comp_and_enqueue self memory b (c, fs) = Some (rc, c', fs')"
  shows "all_bufs c' = all_bufs c + {#d#} \<and> queue_ok (superbuf_queue c')"
  using comp_and_enqueue_conserves [OF assms] by blast

lemma superbuf_accounts_for_buffers_witness:
  "\<exists>c' fs'. mm_channel_superbuf_comp_and_enqueue 1 True (ex_info 17 5) (ex_channel, mm_frame_sync_reset)
      = Some (0, c', fs')
    \<and> all_bufs c' = {#ex_buf 17 CAM_STREAM_TYPE_PREVIEW#} \<and> qbufs c' = []"
proof -
  have "case mm_channel_superbuf_comp_and_enqueue 1 True (ex_info 17 5) (ex_channel, mm_frame_sync_reset) of
      None \<Rightarrow> False | Some (rc, c', fs') \<Rightarrow> rc = 0 \<and> qbufs c' = []"
    by code_simp
  then obtain c' fs' where r: "mm_channel_superbuf_comp_and_enqueue 1 True (ex_info 17 5) (ex_channel, mm_frame_sync_reset)
      = Some (0, c', fs')" "qbufs c' = []"
    by (auto split: option.splits)
  have e: "all_bufs ex_channel = {#}" "buf (ex_info 17 5) = Some (ex_buf 17 CAM_STREAM_TYPE_PREVIEW)"
    "queue_ok (superbuf_queue ex_channel)"
    "stream_id (ex_info 17 5) \<in> set (take (num_streams (superbuf_queue ex_channel)) (bundled_streams (superbuf_queue ex_channel)))"
    using ex_channel_ok by (simp_all add: all_bufs_def ex_defs ex_info_def chan_ok_def)
  from superbuf_accounts_for_buffers [OF e(3,2,4) r(1)] r e(1) show ?thesis
    by auto
qed

text \<open>
  C4. For every priority but \<open>PRIORITY_LOW\<close>, and at most 254 incomplete superbuffers allowed, the matching
  always returns without working on freed memory, and the queue stays in order: complete superbuffers
  first and counted by \<open>match_cnt\<close>, then the incomplete ones by strictly increasing frame number, at most
  one more than \<open>max_unmatched_frames\<close>; all buffers of a superbuffer have its frame number.
\<close>

theorem superbuf_queue_stays_ordered:
  assumes "queue_ok (superbuf_queue c)" and "buf b = Some d"
    and "priority (attr (superbuf_queue c)) \<noteq> PRIORITY_LOW"
    and "max_unmatched_frames (attr (superbuf_queue c)) < 255" and "ordered c"
  shows "\<exists>rc c' fs'. mm_channel_superbuf_comp_and_enqueue self memory b (c, fs) = Some (rc, c', fs')
    \<and> ordered c'"
  by (rule comp_and_enqueue_ordered [OF assms])

lemma superbuf_queue_stays_ordered_witness:
  "\<exists>rc c' fs'. mm_channel_superbuf_comp_and_enqueue 1 True (ex_info 17 5) (ex_channel, mm_frame_sync_reset)
      = Some (rc, c', fs') \<and> ordered c'"
  using ex_channel_ok
  by (intro superbuf_queue_stays_ordered [where d = "ex_buf 17 CAM_STREAM_TYPE_PREVIEW"])
    (simp_all add: chan_ok_def ex_info_def)

text \<open>
  C14. A superbuffer that is taken out of the queue has a buffer of each bundled stream, in the order of
  the streams, all with the same frame number.
\<close>

theorem superbufs_are_complete:
  assumes "chan_ok c" and "mm_channel_superbuf_dequeue (c, fs) = (Some n, c', fs')"
    and "s < num_streams (superbuf_queue c)"
  shows "buf (super_buf n ! s) \<noteq> None \<and> stream_id (super_buf n ! s) = bundled_streams (superbuf_queue c) ! s
    \<and> frame_idx (super_buf n ! s) = node_frame_idx n"
proof (cases rule: dequeue_internal_cases [of c True fs])
  case (taken n' ns c2 fs2)
  then have n: "n \<in> set (que (superbuf_queue c))" "matched n"
    using assms(2) by (auto simp: mm_channel_superbuf_dequeue_def)
  have ok: "node_ok (num_streams (superbuf_queue c)) n" "one_frame n" "node_in_place (superbuf_queue c) n"
    using assms(1) n(1)
    by (auto simp: chan_ok_def queue_ok_def ordered_def in_order_def in_place_def list_all_iff)
  have k: "num_streams (superbuf_queue c) \<le> MAX_STREAM_NUM_IN_BUNDLE"
    using assms(1) by (simp add: chan_ok_def queue_ok_def)
  have e: "super_buf n ! s \<in> set (node_entries n)"
    using ok(1) assms(3) k by (auto simp: node_entries_def node_ok_def in_set_conv_nth)
  have "frame_idx (super_buf n ! s) \<noteq> 0"
    using ok(1) n(2) e by (simp add: node_ok_def list_all_iff)
  with e ok entries_ok [OF ok(1) e] assms(3) show ?thesis
    by (auto simp: one_frame_def list_all_iff node_in_place_def entry_ok_def)
qed (use assms(2) in \<open>auto simp: mm_channel_superbuf_dequeue_def\<close>)

definition ex_node :: queue_node where
  "ex_node = \<lparr>num_of_bufs = 2, super_buf = ex_info 17 5 # ex_info 18 5 # replicate 6 no_buf, matched = True,
     expected_frame = False, node_frame_idx = 5, unmatched_meta_idx = 0\<rparr>"

definition ex_full :: mm_channel where
  "ex_full = ex_channel\<lparr>superbuf_queue := ex_queue\<lparr>que := [ex_node], que_size := 1, match_cnt := 1\<rparr>\<rparr>"

lemma ex_full_ok: "chan_ok ex_full"
proof -
  have "chan_ok ex_full \<longleftrightarrow> node_ok 2 ex_node \<and> one_frame ex_node \<and> matched ex_node
      \<and> node_in_place (superbuf_queue ex_full) ex_node"
    by (auto simp: ex_full_def ex_defs chan_ok_def queue_ok_def ordered_def counted_def in_order_def
        incomplete_def in_place_def MAX_STREAM_NUM_IN_BUNDLE_def)
  moreover have "node_in_place (superbuf_queue ex_full) ex_node"
    by (auto simp: ex_full_def ex_defs node_in_place_def ex_node_def ex_info_def less_2_cases_iff)
  moreover have "node_ok 2 ex_node \<and> one_frame ex_node \<and> matched ex_node"
    by (simp add: ex_node_def node_ok_def one_frame_def node_entries_def ex_info_def entry_ok_def
        MAX_STREAM_NUM_IN_BUNDLE_def list_all_iff)
  ultimately show ?thesis
    by simp
qed

lemma superbufs_are_complete_witness:
  "\<exists>n c' fs'. mm_channel_superbuf_dequeue (ex_full, mm_frame_sync_reset) = (Some n, c', fs')
    \<and> stream_id (super_buf n ! 1) = 18 \<and> frame_idx (super_buf n ! 1) = node_frame_idx n"
proof -
  have "fst (mm_channel_superbuf_dequeue (ex_full, mm_frame_sync_reset)) = Some ex_node"
    by (simp add: mm_channel_superbuf_dequeue_def mm_channel_superbuf_dequeue_internal_def ex_full_def
        ex_node_def Let_def)
  then obtain c' fs' where r: "mm_channel_superbuf_dequeue (ex_full, mm_frame_sync_reset) = (Some ex_node, c', fs')"
    by (metis prod.collapse)
  have "1 < num_streams (superbuf_queue ex_full)" "bundled_streams (superbuf_queue ex_full) ! 1 = 18"
    by (simp_all add: ex_full_def ex_defs)
  with superbufs_are_complete [OF ex_full_ok r this(1)] r show ?thesis
    by auto
qed

text \<open>
  C39. When an incomplete superbuffer is first in the queue and more than \<open>water_mark\<close> are complete, the loop
  that gives back the superfluous ones never ends.
\<close>

theorem overflow_never_returns:
  assumes "que (superbuf_queue c) = n # ns" and "\<not> matched n"
    and "notify_mode (attr (superbuf_queue c)) = NOTIFY_BURST"
    and "ucast (water_mark (attr (superbuf_queue c))) < match_cnt (superbuf_queue c)"
  shows "mm_channel_superbuf_bufdone_overflow (c, fs) = None"
  using trim_loop_stuck [OF assms(1,2,4)] assms(3)
  by (simp add: mm_channel_superbuf_bufdone_overflow_def Let_def)

lemma overflow_never_returns_witness:
  "mm_channel_superbuf_bufdone_overflow
     (ex_channel\<lparr>superbuf_queue := ex_queue\<lparr>que := [ex_node\<lparr>matched := False\<rparr>, ex_node, ex_node, ex_node],
        que_size := 4, match_cnt := 3\<rparr>\<rparr>, mm_frame_sync_reset) = None"
  by (rule overflow_never_returns [where n = "ex_node\<lparr>matched := False\<rparr>" and ns = "[ex_node, ex_node, ex_node]"])
    (simp_all add: ex_defs)

text \<open>
  Flushing the queue for one type of stream empties it, and gives back only the buffers of that type:
  the others are in no queue any more and the driver does not get them.
\<close>

theorem flush_of_a_type_loses_the_others:
  "que (superbuf_queue (fst (mm_channel_superbuf_flush t (c, fs)))) = []
    \<and> qbufs (fst (mm_channel_superbuf_flush t (c, fs))) = qbufs c
        @ filter (of_type t) (concat (map held_of (que (superbuf_queue c))))"
  by (rule flush_type)

text \<open>
  Diverting works for frame numbers below 256 only: a new incomplete superbuffer of a later frame is
  never marked as the expected one because of it, since \<open>diverted_frame_id\<close> has 8 bits.
\<close>

theorem diverted_frames_have_8_bits:
  assumes "256 \<le> frame_idx b" and "frame_idx b \<noteq> good_frame_id (superbuf_queue c)"
    and "n \<in> set (que (superbuf_queue (fst (add_superbuf self s b before
      (meta_divert m (frame_idx b) c, fs)))))"
    and "n \<notin> set (que (superbuf_queue c))"
  shows "\<not> expected_frame n"
proof -
  let ?c = "meta_divert m (frame_idx b) c"
  have q: "superbuf_queue ?c = superbuf_queue c"
    by (simp add: meta_divert_def split: option.split)
  have "unat (diverted_frame_id ?c) < 2 ^ LENGTH(8)"
    by (rule unsigned_less)
  then have "unat (ucast (diverted_frame_id ?c) :: uint32) < 256"
    by (simp add: unsigned_ucast_eq take_bit_nat_eq_self)
  then have "(ucast (diverted_frame_id ?c) :: uint32) \<noteq> frame_idx b"
    using assms(1) by (auto simp: word_le_nat_alt)
  with assms(2-4) q show ?thesis
    by (auto simp: add_superbuf_def Let_def new_superbuf_def dest: in_set_takeD in_set_dropD
        split: option.splits if_splits)
qed

lemma diverted_frames_have_8_bits_witness:
  "\<exists>n. n \<in> set (que (superbuf_queue (fst (add_superbuf 1 0 (ex_info 17 300) None
      (meta_divert \<lparr>meta_need_future_frame = None, meta_good_frame_idx_range = None, meta_crop_data = None,
         meta_divert_frame_id = Some 300, meta_low_light = None, meta_aec_settled = None\<rparr> 300 ex_channel,
       mm_frame_sync_reset))))) \<and> \<not> expected_frame n"
proof -
  let ?m = "\<lparr>meta_need_future_frame = None, meta_good_frame_idx_range = None, meta_crop_data = None,
     meta_divert_frame_id = Some 300, meta_low_light = None, meta_aec_settled = None\<rparr> :: metadata_buffer"
  let ?c = "fst (add_superbuf 1 0 (ex_info 17 300) None (meta_divert ?m 300 ex_channel, mm_frame_sync_reset))"
  have "que (superbuf_queue ?c) \<noteq> [] \<and> frame_idx (ex_info 17 300) = 300
      \<and> good_frame_id (superbuf_queue ex_channel) = 0 \<and> que (superbuf_queue ex_channel) = []"
    by code_simp
  then obtain n where "n \<in> set (que (superbuf_queue ?c))" "frame_idx (ex_info 17 300) = 300"
    "good_frame_id (superbuf_queue ex_channel) = 0" "n \<notin> set (que (superbuf_queue ex_channel))"
    by (cases "que (superbuf_queue ?c)") auto
  with diverted_frames_have_8_bits [of "ex_info 17 300" ex_channel n 1 0 None ?m mm_frame_sync_reset]
  show ?thesis
    by auto
qed

section \<open>The command thread\<close>

text \<open>
  C2. The command thread of a channel: a well-formed command on a well-formed world is handled to its
  end.  The function returns (no loop spins, no array is read outside its bounds), the invariant is
  kept, and for every channel the buffers in its queue, given back or sent in superbuffers are those of
  before and the one that came in.
\<close>

theorem command_thread_accounts:
  assumes "world_ok self w" and "chans w self = Some c" and "cmd_fits c cmd"
  shows "\<exists>w'. mm_channel_process_stream_buf memory self cmd w = Some w' \<and> world_ok self w'
    \<and> (\<forall>p. account w' p = account w p + (if p = self then arrived cmd else {#}))"
  using process_all [OF assms] by (simp add: keeps_def)

lemma command_thread_accounts_witness:
  "\<exists>w'. mm_channel_process_stream_buf True 1 (DATA_CB (ex_info 17 5)) ex_world = Some w' \<and> world_ok 1 w'
    \<and> account w' 1 = account ex_world 1 + {#ex_buf 17 CAM_STREAM_TYPE_PREVIEW#}"
proof -
  have fits: "cmd_fits ex_channel (DATA_CB (ex_info 17 5))"
    by (simp add: cmd_fits_def ex_info_def ex_defs)
  show ?thesis
    using command_thread_accounts [OF ex_world_ok fits, of True] by (auto simp: arrived_def ex_info_def)
qed

text \<open>
  C21. A request for superbuffers is not exceeded: dispatching sends at most as many as are pending, and
  while retroactive ones are pending at most those, before the channel waits for the prepared snapshot.
\<close>

theorem requests_are_not_exceeded:
  assumes "chans w self = Some c" and "req_type c = REQ_SUPER_BUF"
    and "dispatch_loop self NOTIFY_BURST w = Some w'"
  shows "\<exists>c'. chans w' self = Some c'
    \<and> sent_to self w' + unat (pending_cnt c') \<le> sent_to self w + unat (pending_cnt c)
    \<and> (0 < pending_retro_cnt c \<longrightarrow>
        sent_to self w' + unat (pending_retro_cnt c') \<le> sent_to self w + unat (pending_retro_cnt c))"
  by (rule dispatch_bound [OF assms])

definition ex_pending :: cam_world where
  "ex_pending = ex_world\<lparr>chans := [1 \<mapsto> ex_full\<lparr>pending_cnt := 2, pending_retro_cnt := 1\<rparr>]\<rparr>"

lemma requests_are_not_exceeded_witness:
  "\<exists>w'. dispatch_loop 1 NOTIFY_BURST ex_pending = Some w' \<and> sent_to 1 w' \<le> 1"
proof -
  have "dispatch_loop 1 NOTIFY_BURST ex_pending \<noteq> None"
    by code_simp
  then obtain w' where r: "dispatch_loop 1 NOTIFY_BURST ex_pending = Some w'"
    by auto
  have c: "chans ex_pending 1 = Some (ex_full\<lparr>pending_cnt := 2, pending_retro_cnt := 1\<rparr>)"
    "sent_to 1 ex_pending = 0"
    by (simp_all add: ex_pending_def sent_to_def ex_world_def)
  have "req_type (ex_full\<lparr>pending_cnt := 2, pending_retro_cnt := 1\<rparr>) = REQ_SUPER_BUF"
    by (simp add: ex_full_def ex_channel_def)
  from requests_are_not_exceeded [OF c(1) this r] c(2) r show ?thesis
    by auto
qed

text \<open>
  C24. The command thread starts and stops the ZSL snapshot at the server in turn: the calls to start less
  the calls to stop, less one while the channel's flag says started, change only by the commands that
  start and stop it by hand.
\<close>

theorem zsl_snapshot_is_balanced:
  assumes "mm_channel_process_stream_buf memory self cmd w = Some w'"
  shows "zsl_balance self w' = zsl_balance self w + manual_calls cmd"
  by (rule process_balance [OF assms])

lemma zsl_snapshot_is_balanced_witness:
  "\<exists>w'. mm_channel_process_stream_buf True 1 START_ZSL ex_world = Some w'
    \<and> zsl_balance 1 w' = zsl_balance 1 ex_world + 1"
proof -
  have "cmd_fits ex_channel START_ZSL"
    by (simp add: cmd_fits_def)
  then obtain w' where "mm_channel_process_stream_buf True 1 START_ZSL ex_world = Some w'"
    using process_all [OF ex_world_ok] by blast
  with zsl_snapshot_is_balanced [OF this] show ?thesis
    by (simp add: manual_calls_def)
qed

section \<open>Synchronised frames\<close>

text \<open>
  C17. Two cameras that are registered: whatever frames they add and whatever frames are removed, the
  frame that the search finds has been added by both since it was last removed, and the search for the
  oldest finds the smallest of the matched frames.
\<close>

theorem synced_frames_are_in_both:
  assumes "a \<noteq> NULL" and "b \<noteq> NULL" and "a \<noteq> b"
    and "f = mm_frame_sync_find_matched oldest (sync_run a b ops)" and "f \<noteq> 0"
  shows "Added f a \<in> set (since f ops) \<and> Added f b \<in> set (since f ops)
    \<and> (oldest \<longrightarrow> (\<forall>n \<in> set (sync_nodes (sync_run a b ops)). sync_matched n \<longrightarrow> f \<le> sync_frame_idx n))"
proof -
  have ok: "sync_ok a b ops (sync_run a b ops)"
    by (rule sync_ok_run [OF assms(1-3)])
  obtain n where n: "n \<in> set (sync_nodes (sync_run a b ops))" "sync_matched n" "sync_frame_idx n = f"
    using find_matched_in [of oldest 0] assms(4,5) unfolding mm_frame_sync_find_matched_def by auto
  have "frame_valid n ! 0 \<and> frame_valid n ! 1"
    using ok n(1,2) by (auto simp: sync_ok_def list_all_iff node_sync_ok_def)
  then have both: "Added f a \<in> set (since f ops)" "Added f b \<in> set (since f ops)"
    using ok n by (auto simp: sync_ok_def)
  have idx: "sync_frame_idx m \<noteq> 0" if "m \<in> set (sync_nodes (sync_run a b ops))" "sync_matched m" for m
    using ok that by (auto simp: sync_ok_def list_all_iff node_sync_ok_def)
  have "\<forall>m \<in> set (sync_nodes (sync_run a b ops)). sync_matched m \<longrightarrow> f \<le> sync_frame_idx m" if oldest
    using find_matched_from_least [OF idx, where f = 0] that assms(4)
    unfolding mm_frame_sync_find_matched_def by auto
  with both show ?thesis
    by blast
qed

lemma synced_frames_are_in_both_witness:
  "mm_frame_sync_find_matched False (sync_run 1 2 [Added 5 1, Added 6 2, Added 5 2]) = 5
    \<and> Added 5 1 \<in> set (since 5 [Added 5 1, Added 6 2, Added 5 2])"
proof -
  have f: "mm_frame_sync_find_matched False (sync_run 1 2 [Added 5 1, Added 6 2, Added 5 2]) = 5"
    by code_simp
  with synced_frames_are_in_both [of 1 2 5 False "[Added 5 1, Added 6 2, Added 5 2]"] show ?thesis
    by simp
qed

end
