(* ===== verification/SMTypes.thy ===== *)
theory SMTypes
  imports Prelude
begin

text \<open>
  The types of \<^verbatim>\<open>HAL/QCameraStateMachine.h\<close> and the interface between the state machine and its
  parent, the hardware interface object \<open>QCamera2HardwareInterface\<close>.

  An event is posted as an enumerator and a \<open>void *\<close> payload whose type the enumerator determines; the
  type \<open>sm_evt\<close> has one constructor per enumerator, carrying the payload the handlers cast to, and
  \<open>evt_id\<close> is the enumerator itself (it is what a result carries back in \<open>request_api\<close>).

  Every use a handler makes of \<open>m_parent\<close> is a value of \<open>hwi_call\<close>.  What the parent does and answers
  is a parameter of the model, the field \<open>do_call\<close> of the record \<open>hwi\<close>: any function from the call, the
  state the machine is in (the parent may ask for it during the call) and the parent's own state to an
  answer and a new state of the parent, so a theorem holds whatever the parent does.
\<close>

section \<open>Events\<close>

datatype (plugins only: code size) qcamera_sm_evt_enum =
    SM_EVT_SET_PREVIEW_WINDOW | SM_EVT_SET_CALLBACKS | SM_EVT_ENABLE_MSG_TYPE
    | SM_EVT_DISABLE_MSG_TYPE | SM_EVT_MSG_TYPE_ENABLED | SM_EVT_SET_PARAMS
    | SM_EVT_SET_PARAMS_STOP | SM_EVT_SET_PARAMS_COMMIT | SM_EVT_SET_PARAMS_RESTART
    | SM_EVT_GET_PARAMS | SM_EVT_PUT_PARAMS | SM_EVT_PREPARE_PREVIEW | SM_EVT_START_PREVIEW
    | SM_EVT_START_NODISPLAY_PREVIEW | SM_EVT_STOP_PREVIEW | SM_EVT_PREVIEW_ENABLED
    | SM_EVT_STORE_METADATA_IN_BUFS | SM_EVT_PRE_START_RECORDING | SM_EVT_START_RECORDING
    | SM_EVT_STOP_RECORDING | SM_EVT_RECORDING_ENABLED | SM_EVT_RELEASE_RECORIDNG_FRAME
    | SM_EVT_PREPARE_SNAPSHOT | SM_EVT_PRE_TAKE_PICTURE | SM_EVT_TAKE_PICTURE
    | SM_EVT_CANCEL_PICTURE | SM_EVT_START_AUTO_FOCUS | SM_EVT_STOP_AUTO_FOCUS
    | SM_EVT_SEND_COMMAND | SM_EVT_RELEASE | SM_EVT_DUMP | SM_EVT_REG_FACE_IMAGE
    | SM_EVT_EVT_INTERNAL | SM_EVT_EVT_NOTIFY | SM_EVT_JPEG_EVT_NOTIFY
    | SM_EVT_SNAPSHOT_DONE | SM_EVT_THERMAL_NOTIFY | SM_EVT_STOP_CAPTURE_CHANNEL
    | SM_EVT_RESTART_PERVIEW | SM_EVT_DELAYED_RESTART | SM_EVT_SEND_COMMAND_RESTART
    | SM_EVT_RESTART_START_PREVIEW | SM_EVT_RESTART_STOP_PREVIEW | SM_EVT_MAX

text \<open>The enumerators' values: the first one is 1.\<close>

fun evt_num :: "qcamera_sm_evt_enum \<Rightarrow> int32" where
  "evt_num SM_EVT_SET_PREVIEW_WINDOW = 1"
| "evt_num SM_EVT_SET_CALLBACKS = 2"
| "evt_num SM_EVT_ENABLE_MSG_TYPE = 3"
| "evt_num SM_EVT_DISABLE_MSG_TYPE = 4"
| "evt_num SM_EVT_MSG_TYPE_ENABLED = 5"
| "evt_num SM_EVT_SET_PARAMS = 6"
| "evt_num SM_EVT_SET_PARAMS_STOP = 7"
| "evt_num SM_EVT_SET_PARAMS_COMMIT = 8"
| "evt_num SM_EVT_SET_PARAMS_RESTART = 9"
| "evt_num SM_EVT_GET_PARAMS = 10"
| "evt_num SM_EVT_PUT_PARAMS = 11"
| "evt_num SM_EVT_PREPARE_PREVIEW = 12"
| "evt_num SM_EVT_START_PREVIEW = 13"
| "evt_num SM_EVT_START_NODISPLAY_PREVIEW = 14"
| "evt_num SM_EVT_STOP_PREVIEW = 15"
| "evt_num SM_EVT_PREVIEW_ENABLED = 16"
| "evt_num SM_EVT_STORE_METADATA_IN_BUFS = 17"
| "evt_num SM_EVT_PRE_START_RECORDING = 18"
| "evt_num SM_EVT_START_RECORDING = 19"
| "evt_num SM_EVT_STOP_RECORDING = 20"
| "evt_num SM_EVT_RECORDING_ENABLED = 21"
| "evt_num SM_EVT_RELEASE_RECORIDNG_FRAME = 22"
| "evt_num SM_EVT_PREPARE_SNAPSHOT = 23"
| "evt_num SM_EVT_PRE_TAKE_PICTURE = 24"
| "evt_num SM_EVT_TAKE_PICTURE = 25"
| "evt_num SM_EVT_CANCEL_PICTURE = 26"
| "evt_num SM_EVT_START_AUTO_FOCUS = 27"
| "evt_num SM_EVT_STOP_AUTO_FOCUS = 28"
| "evt_num SM_EVT_SEND_COMMAND = 29"
| "evt_num SM_EVT_RELEASE = 30"
| "evt_num SM_EVT_DUMP = 31"
| "evt_num SM_EVT_REG_FACE_IMAGE = 32"
| "evt_num SM_EVT_EVT_INTERNAL = 33"
| "evt_num SM_EVT_EVT_NOTIFY = 34"
| "evt_num SM_EVT_JPEG_EVT_NOTIFY = 35"
| "evt_num SM_EVT_SNAPSHOT_DONE = 36"
| "evt_num SM_EVT_THERMAL_NOTIFY = 37"
| "evt_num SM_EVT_STOP_CAPTURE_CHANNEL = 38"
| "evt_num SM_EVT_RESTART_PERVIEW = 39"
| "evt_num SM_EVT_DELAYED_RESTART = 40"
| "evt_num SM_EVT_SEND_COMMAND_RESTART = 41"
| "evt_num SM_EVT_RESTART_START_PREVIEW = 42"
| "evt_num SM_EVT_RESTART_STOP_PREVIEW = 43"
| "evt_num SM_EVT_MAX = 44"

text \<open>
  The numbers tell the enumerators apart: a command returns two of them to say which restart of the
  preview it wants.  Comparing enumerators compares their numbers, as the header's banners of API
  events and other events do.
\<close>

definition all_evts :: "qcamera_sm_evt_enum list" where
  "all_evts =
     [SM_EVT_SET_PREVIEW_WINDOW, SM_EVT_SET_CALLBACKS, SM_EVT_ENABLE_MSG_TYPE,
      SM_EVT_DISABLE_MSG_TYPE, SM_EVT_MSG_TYPE_ENABLED, SM_EVT_SET_PARAMS,
      SM_EVT_SET_PARAMS_STOP, SM_EVT_SET_PARAMS_COMMIT, SM_EVT_SET_PARAMS_RESTART,
      SM_EVT_GET_PARAMS, SM_EVT_PUT_PARAMS, SM_EVT_PREPARE_PREVIEW, SM_EVT_START_PREVIEW,
      SM_EVT_START_NODISPLAY_PREVIEW, SM_EVT_STOP_PREVIEW, SM_EVT_PREVIEW_ENABLED,
      SM_EVT_STORE_METADATA_IN_BUFS, SM_EVT_PRE_START_RECORDING, SM_EVT_START_RECORDING,
      SM_EVT_STOP_RECORDING, SM_EVT_RECORDING_ENABLED, SM_EVT_RELEASE_RECORIDNG_FRAME,
      SM_EVT_PREPARE_SNAPSHOT, SM_EVT_PRE_TAKE_PICTURE, SM_EVT_TAKE_PICTURE,
      SM_EVT_CANCEL_PICTURE, SM_EVT_START_AUTO_FOCUS, SM_EVT_STOP_AUTO_FOCUS,
      SM_EVT_SEND_COMMAND, SM_EVT_RELEASE, SM_EVT_DUMP, SM_EVT_REG_FACE_IMAGE,
      SM_EVT_EVT_INTERNAL, SM_EVT_EVT_NOTIFY, SM_EVT_JPEG_EVT_NOTIFY, SM_EVT_SNAPSHOT_DONE,
      SM_EVT_THERMAL_NOTIFY, SM_EVT_STOP_CAPTURE_CHANNEL, SM_EVT_RESTART_PERVIEW,
      SM_EVT_DELAYED_RESTART, SM_EVT_SEND_COMMAND_RESTART, SM_EVT_RESTART_START_PREVIEW,
      SM_EVT_RESTART_STOP_PREVIEW, SM_EVT_MAX]"

lemma all_evts_nth: "all_evts ! (unat (evt_num e) - 1) = e"
  by (cases e) (simp_all add: all_evts_def)

lemma inj_evt_num: "inj evt_num"
  by (rule injI) (metis all_evts_nth)

instantiation qcamera_sm_evt_enum :: linorder
begin

definition less_eq_qcamera_sm_evt_enum :: "qcamera_sm_evt_enum \<Rightarrow> qcamera_sm_evt_enum \<Rightarrow> bool" where
  "less_eq_qcamera_sm_evt_enum a b \<longleftrightarrow> evt_num a \<le> evt_num b"

definition less_qcamera_sm_evt_enum :: "qcamera_sm_evt_enum \<Rightarrow> qcamera_sm_evt_enum \<Rightarrow> bool" where
  "less_qcamera_sm_evt_enum a b \<longleftrightarrow> evt_num a < evt_num b"

instance
  by standard
    (auto simp: less_eq_qcamera_sm_evt_enum_def less_qcamera_sm_evt_enum_def injD [OF inj_evt_num])

end

lemmas evt_order = less_eq_qcamera_sm_evt_enum_def less_qcamera_sm_evt_enum_def

record setcb_payload =
  notify_cb :: ptr
  data_cb :: ptr
  data_cb_timestamp :: ptr
  get_memory :: ptr
  cb_user :: ptr

record command_payload =
  cmd :: int32
  arg1 :: int32
  arg2 :: int32

record reg_face_payload =
  img_ptr :: ptr
  config :: ptr

datatype (plugins only: code size) qcamera_internal_evt_type =
    INTERNAL_EVT_FOCUS_UPDATE | INTERNAL_EVT_PREP_SNAPSHOT_DONE | INTERNAL_EVT_FACE_DETECT_RESULT
  | INTERNAL_EVT_HISTOGRAM_STATS | INTERNAL_EVT_CROP_INFO | INTERNAL_EVT_ASD_UPDATE
  | INTERNAL_EVT_READY_FOR_SNAPSHOT | INTERNAL_EVT_LED_MODE_OVERRIDE | INTERNAL_EVT_AWB_UPDATE
  | INTERNAL_EVT_AE_UPDATE | INTERNAL_EVT_FOCUS_POS_UPDATE | INTERNAL_EVT_HDR_UPDATE
  | INTERNAL_EVT_RETRO_AEC_UNLOCK | INTERNAL_EVT_ZSL_CAPTURE_DONE | INTERNAL_EVT_MAX

text \<open>The contents of the union of an internal event, which the state machine only passes on.\<close>

type_synonym blob = nat

datatype (plugins only: code size) cam_event_type =
    CAM_EVENT_TYPE_MAP_UNMAP_DONE | CAM_EVENT_TYPE_AUTO_FOCUS_DONE | CAM_EVENT_TYPE_ZOOM_DONE
  | CAM_EVENT_TYPE_DAEMON_DIED | CAM_EVENT_TYPE_INT_TAKE_JPEG | CAM_EVENT_TYPE_INT_TAKE_RAW
  | CAM_EVENT_TYPE_DAEMON_PULL_REQ | CAM_EVENT_TYPE_CAC_DONE | CAM_EVENT_TYPE_MAX

datatype (plugins only: code size) sm_evt =
    SET_PREVIEW_WINDOW ptr | SET_CALLBACKS setcb_payload | ENABLE_MSG_TYPE int32
    | DISABLE_MSG_TYPE int32 | MSG_TYPE_ENABLED int32 | SET_PARAMS string | SET_PARAMS_STOP
    | SET_PARAMS_COMMIT | SET_PARAMS_RESTART | GET_PARAMS | PUT_PARAMS string
    | PREPARE_PREVIEW | START_PREVIEW | START_NODISPLAY_PREVIEW | STOP_PREVIEW
    | PREVIEW_ENABLED | STORE_METADATA_IN_BUFS int32 | PRE_START_RECORDING | START_RECORDING
    | STOP_RECORDING | RECORDING_ENABLED | RELEASE_RECORIDNG_FRAME ptr | PREPARE_SNAPSHOT
    | PRE_TAKE_PICTURE | TAKE_PICTURE | CANCEL_PICTURE | START_AUTO_FOCUS | STOP_AUTO_FOCUS
    | SEND_COMMAND command_payload | RELEASE | DUMP int32 | REG_FACE_IMAGE reg_face_payload
    | EVT_INTERNAL qcamera_internal_evt_type blob | EVT_NOTIFY cam_event_type
    | JPEG_EVT_NOTIFY ptr | SNAPSHOT_DONE | THERMAL_NOTIFY ptr | STOP_CAPTURE_CHANNEL
    | RESTART_PERVIEW | DELAYED_RESTART | SEND_COMMAND_RESTART command_payload
    | RESTART_START_PREVIEW | RESTART_STOP_PREVIEW

fun evt_id :: "sm_evt \<Rightarrow> qcamera_sm_evt_enum" where
  "evt_id (SET_PREVIEW_WINDOW x) = SM_EVT_SET_PREVIEW_WINDOW"
| "evt_id (SET_CALLBACKS x) = SM_EVT_SET_CALLBACKS"
| "evt_id (ENABLE_MSG_TYPE x) = SM_EVT_ENABLE_MSG_TYPE"
| "evt_id (DISABLE_MSG_TYPE x) = SM_EVT_DISABLE_MSG_TYPE"
| "evt_id (MSG_TYPE_ENABLED x) = SM_EVT_MSG_TYPE_ENABLED"
| "evt_id (SET_PARAMS x) = SM_EVT_SET_PARAMS"
| "evt_id SET_PARAMS_STOP = SM_EVT_SET_PARAMS_STOP"
| "evt_id SET_PARAMS_COMMIT = SM_EVT_SET_PARAMS_COMMIT"
| "evt_id SET_PARAMS_RESTART = SM_EVT_SET_PARAMS_RESTART"
| "evt_id GET_PARAMS = SM_EVT_GET_PARAMS"
| "evt_id (PUT_PARAMS x) = SM_EVT_PUT_PARAMS"
| "evt_id PREPARE_PREVIEW = SM_EVT_PREPARE_PREVIEW"
| "evt_id START_PREVIEW = SM_EVT_START_PREVIEW"
| "evt_id START_NODISPLAY_PREVIEW = SM_EVT_START_NODISPLAY_PREVIEW"
| "evt_id STOP_PREVIEW = SM_EVT_STOP_PREVIEW"
| "evt_id PREVIEW_ENABLED = SM_EVT_PREVIEW_ENABLED"
| "evt_id (STORE_METADATA_IN_BUFS x) = SM_EVT_STORE_METADATA_IN_BUFS"
| "evt_id PRE_START_RECORDING = SM_EVT_PRE_START_RECORDING"
| "evt_id START_RECORDING = SM_EVT_START_RECORDING"
| "evt_id STOP_RECORDING = SM_EVT_STOP_RECORDING"
| "evt_id RECORDING_ENABLED = SM_EVT_RECORDING_ENABLED"
| "evt_id (RELEASE_RECORIDNG_FRAME x) = SM_EVT_RELEASE_RECORIDNG_FRAME"
| "evt_id PREPARE_SNAPSHOT = SM_EVT_PREPARE_SNAPSHOT"
| "evt_id PRE_TAKE_PICTURE = SM_EVT_PRE_TAKE_PICTURE"
| "evt_id TAKE_PICTURE = SM_EVT_TAKE_PICTURE"
| "evt_id CANCEL_PICTURE = SM_EVT_CANCEL_PICTURE"
| "evt_id START_AUTO_FOCUS = SM_EVT_START_AUTO_FOCUS"
| "evt_id STOP_AUTO_FOCUS = SM_EVT_STOP_AUTO_FOCUS"
| "evt_id (SEND_COMMAND x) = SM_EVT_SEND_COMMAND"
| "evt_id RELEASE = SM_EVT_RELEASE"
| "evt_id (DUMP x) = SM_EVT_DUMP"
| "evt_id (REG_FACE_IMAGE x) = SM_EVT_REG_FACE_IMAGE"
| "evt_id (EVT_INTERNAL x y) = SM_EVT_EVT_INTERNAL"
| "evt_id (EVT_NOTIFY x) = SM_EVT_EVT_NOTIFY"
| "evt_id (JPEG_EVT_NOTIFY x) = SM_EVT_JPEG_EVT_NOTIFY"
| "evt_id SNAPSHOT_DONE = SM_EVT_SNAPSHOT_DONE"
| "evt_id (THERMAL_NOTIFY x) = SM_EVT_THERMAL_NOTIFY"
| "evt_id STOP_CAPTURE_CHANNEL = SM_EVT_STOP_CAPTURE_CHANNEL"
| "evt_id RESTART_PERVIEW = SM_EVT_RESTART_PERVIEW"
| "evt_id DELAYED_RESTART = SM_EVT_DELAYED_RESTART"
| "evt_id (SEND_COMMAND_RESTART x) = SM_EVT_SEND_COMMAND_RESTART"
| "evt_id RESTART_START_PREVIEW = SM_EVT_RESTART_START_PREVIEW"
| "evt_id RESTART_STOP_PREVIEW = SM_EVT_RESTART_STOP_PREVIEW"

section \<open>Results\<close>

text \<open>The tag \<open>result_type\<close> and the union it selects.\<close>

datatype (plugins only: code size) qcamera_api_result_type =
    RESULT_TYPE_DEF | RESULT_TYPE_ENABLE_FLAG int32 | RESULT_TYPE_PARAMS "string option"
  | RESULT_TYPE_HANDLE int32

record qcamera_api_result =
  status :: int32
  request_api :: qcamera_sm_evt_enum
  result_type :: qcamera_api_result_type

section \<open>The parent\<close>

text \<open>The states of the machine.\<close>

datatype (plugins only: code size) qcamera_state =
    PREVIEW_STOPPED | PREVIEW_READY | PREVIEWING | PREPARE_SNAPSHOT_STATE | PIC_TAKING
  | RECORDING | VIDEO_PIC_TAKING | PREVIEW_PIC_TAKING

datatype (plugins only: code size) channel_type =
    QCAMERA_CH_TYPE_ZSL | QCAMERA_CH_TYPE_PREVIEW | QCAMERA_CH_TYPE_CALLBACK

text \<open>Member functions (and one field) the handlers only query.\<close>

datatype (plugins only: code size) hwi_query =
    GetPreviewWindow | IsZSLMode | IsLongshotEnabled | IsRetroPicture | IsPreviewRestartEnabled
  | IsCACEnabled | IsOEMFeatEnabled | IsCaptureShutterEnabled | GetRecordingHintValue
  | GetManualCaptureMode

text \<open>Member functions without arguments (and two assignments to fields of the parent).\<close>

datatype (plugins only: code size) hwi_op =
    WaitDeferredWork_ParamInit | CommitParameterChanges | GetParameters | MemoryPoolClear
  | PreparePreview | UnpreparePreview | StartPreview | StopPreview
  | Release | AutoFocus | CancelAutoFocus
  | PreStartRecording | StartRecording | StopRecording
  | PreTakePicture | TakePicture | CancelPicture | TakeLiveSnapshot | CancelLiveSnapshot
  | LongShot | UnconfigureAdvancedCapture | PlayShutter
  | ProcessRetroAECUnlock | ProcessZSLCaptureDone
  | Set_mCACDoneReceived | Set_m_bPreviewStarted | SendEvtNotify_ServerDied

text \<open>Member functions that take the contents of an internal event.\<close>

datatype (plugins only: code size) hwi_meta =
    UpdateFlashMode | ProcessAutoFocusEvent | ProcessPrepSnapshotDoneEvent
  | ProcessFaceDetectionResult | ProcessHistogramStats | ProcessZoomEvent | ProcessASDUpdate
  | TransAwbMetaToParams | ProcessAEInfo | ProcessFocusPositionInfo | ProcessHDRData

datatype (plugins only: code size) hwi_call =
    Query hwi_query | Op hwi_op | Meta hwi_meta blob
  | SetPreviewWindow ptr | SetCallBacks ptr ptr ptr ptr ptr
  | EnableMsgType int32 | DisableMsgType int32 | MsgTypeEnabled int32
  | UpdateParameters string | PutParameters string | SetNeedRestart bool | MallocNullParams
  | StoreMetaDataInBuffers int32 | Dump int32 | SendCommand int32 int32 int32
  | RegisterFaceImage ptr ptr | ReleaseRecordingFrame ptr | PrepareHardwareForSnapshot bool
  | StopCaptureChannel bool | StopChannel channel_type
  | UpdateRecordingHintValue bool | UpdateZSLModeValue bool
  | UpdateThermalLevel ptr | ProcessJpegNotify ptr
  | SignalAPIResult qcamera_api_result | SignalEvtResult qcamera_api_result

text \<open>
  The answer to a call: the integer or enumeration returned, the boolean returned (for the queries
  and for \<open>mPreviewWindow != NULL\<close>), the by-reference results \<open>faceID\<close>, \<open>needRestart\<close> and the \<open>arg1\<close> and
  \<open>arg2\<close> of a command, the string returned.  A handler reads the component its call has.
\<close>

record hwi_reply =
  r_int :: int32
  r_bool :: bool
  r_faceID :: int32
  r_needRestart :: bool
  r_arg1 :: int32
  r_arg2 :: int32
  r_params :: "string option"

text \<open>
  The parent and the build: its behaviour, whether \<open>VANILLA_HAL\<close> is defined (\<^verbatim>\<open>Android.bp\<close> defines
  it), and the constants of Android's \<^verbatim>\<open>system/camera.h\<close> the handlers compare with.
\<close>

record 'p hwi =
  do_call :: "hwi_call \<Rightarrow> qcamera_state \<Rightarrow> 'p \<Rightarrow> hwi_reply \<times> 'p"
  vanilla_hal :: bool
  msg_preview_frame :: int32
  cmd_longshot_on :: int32
  cmd_longshot_off :: int32

section \<open>The object\<close>

text \<open>
  The members of \<open>QCameraStateMachine\<close> its handlers use, the state of the parent, and the calls made
  on the parent so far, in order (a record of the run that no handler reads).
\<close>

record 'p sm =
  m_state :: qcamera_state
  m_bDelayPreviewMsgs :: bool
  m_bPreviewNeedsRestart :: bool
  m_bPreviewDelayedRestart :: bool
  m_DelayedMsgs :: int32
  m_RestoreZSL :: bool
  m_bPreviewCallbackNeeded :: bool
  parent :: 'p
  calls :: "hwi_call list"

end
