(* ===== verification/SMCore.thy ===== *)
theory SMCore
  imports SMTypes
begin

text \<open>
  The vocabulary of the handlers of \<^verbatim>\<open>HAL/QCameraStateMachine.cpp\<close>: calls on the parent, the
  assignments to the members, the shapes that recur in every \<open>switch\<close> (\<open>rc = ...; result.status =
  rc; ...; signalAPIResult(&result)\<close>), \<open>applyDelayedMsgs\<close>, the constructor and the state queries.
  The last part sets up the proofs: how a call changes the object, the results a run has signalled, and
  a rule that replaces the parent's answers by arbitrary ones.
\<close>

unbundle bit_operations_syntax

type_synonym ('p, 'a) smM = "('p sm, 'a) state"

section \<open>Calls and assignments\<close>

definition call :: "'p hwi \<Rightarrow> hwi_call \<Rightarrow> ('p, hwi_reply) smM" where
  "call H c = State (\<lambda>s.
     let (r, p) = do_call H c (m_state s) (parent s)
     in (r, s\<lparr>parent := p, calls := calls s @ [c]\<rparr>))"

definition call0 :: "'p hwi \<Rightarrow> hwi_call \<Rightarrow> ('p, unit) smM" where
  "call0 H c = do { _ \<leftarrow> call H c; State_Monad.return () }"

definition rc_of :: "'p hwi \<Rightarrow> hwi_call \<Rightarrow> ('p, int32) smM" where
  "rc_of H c = do { r \<leftarrow> call H c; State_Monad.return (r_int r) }"

definition query :: "'p hwi \<Rightarrow> hwi_query \<Rightarrow> ('p, bool) smM" where
  "query H q = do { r \<leftarrow> call H (Query q); State_Monad.return (r_bool r) }"

abbreviation op :: "'p hwi \<Rightarrow> hwi_op \<Rightarrow> ('p, int32) smM" where
  "op H f \<equiv> rc_of H (Op f)"

abbreviation op0 :: "'p hwi \<Rightarrow> hwi_op \<Rightarrow> ('p, unit) smM" where
  "op0 H f \<equiv> call0 H (Op f)"

abbreviation skip :: "('p, unit) smM" where
  "skip \<equiv> State_Monad.return ()"

abbreviation ret :: "int32 \<Rightarrow> ('p, int32) smM" where
  "ret rc \<equiv> State_Monad.return rc"

definition goto :: "qcamera_state \<Rightarrow> ('p, unit) smM" where
  "goto st = modify (\<lambda>s. s\<lparr>m_state := st\<rparr>)"

section \<open>Signalling results\<close>

definition signalAPI ::
  "'p hwi \<Rightarrow> qcamera_sm_evt_enum \<Rightarrow> int32 \<Rightarrow> qcamera_api_result_type \<Rightarrow> ('p, unit) smM" where
  "signalAPI H evt rc ty =
     call0 H (SignalAPIResult \<lparr>status = rc, request_api = evt, result_type = ty\<rparr>)"

definition signalEvt ::
  "'p hwi \<Rightarrow> qcamera_sm_evt_enum \<Rightarrow> int32 \<Rightarrow> ('p, unit) smM" where
  "signalEvt H evt rc =
     call0 H (SignalEvtResult \<lparr>status = rc, request_api = evt, result_type = RESULT_TYPE_DEF\<rparr>)"

text \<open>\<open>rc = m; result.status = rc; result.request_api = evt; DEF; signalAPIResult(&result);\<close>\<close>

definition api :: "'p hwi \<Rightarrow> sm_evt \<Rightarrow> ('p, int32) smM \<Rightarrow> ('p, int32) smM" where
  "api H e m = do { rc \<leftarrow> m; signalAPI H (evt_id e) rc RESULT_TYPE_DEF; ret rc }"

text \<open>An answer that only carries a flag; \<open>rc\<close> still has its initial value \<open>NO_ERROR\<close>.\<close>

definition api_flag :: "'p hwi \<Rightarrow> sm_evt \<Rightarrow> int32 \<Rightarrow> ('p, int32) smM" where
  "api_flag H e enabled =
     do { signalAPI H (evt_id e) NO_ERROR (RESULT_TYPE_ENABLE_FLAG enabled); ret NO_ERROR }"

section \<open>Bodies that several states share word for word\<close>

definition do_setCallBacks :: "'p hwi \<Rightarrow> setcb_payload \<Rightarrow> ('p, int32) smM" where
  "do_setCallBacks H p =
     rc_of H (SetCallBacks (notify_cb p) (data_cb p) (data_cb_timestamp p) (get_memory p) (cb_user p))"

definition do_sendCommand :: "'p hwi \<Rightarrow> command_payload \<Rightarrow> ('p, int32) smM" where
  "do_sendCommand H p = rc_of H (SendCommand (cmd p) (arg1 p) (arg2 p))"

definition do_msgTypeEnabled :: "'p hwi \<Rightarrow> sm_evt \<Rightarrow> int32 \<Rightarrow> ('p, int32) smM" where
  "do_msgTypeEnabled H e msgs = do { enabled \<leftarrow> rc_of H (MsgTypeEnabled msgs); api_flag H e enabled }"

definition do_getParameters :: "'p hwi \<Rightarrow> sm_evt \<Rightarrow> ('p, int32) smM" where
  "do_getParameters H e = do {
     r \<leftarrow> call H (Op GetParameters);
     let rc = (if r_params r \<noteq> None then NO_ERROR else UNKNOWN_ERROR);
     signalAPI H (evt_id e) rc (RESULT_TYPE_PARAMS (r_params r));
     ret rc }"

definition do_registerFaceImage :: "'p hwi \<Rightarrow> sm_evt \<Rightarrow> reg_face_payload \<Rightarrow> ('p, int32) smM" where
  "do_registerFaceImage H e p = do {
     r \<leftarrow> call H (RegisterFaceImage (img_ptr p) (config p));
     signalAPI H (evt_id e) (r_int r) (RESULT_TYPE_HANDLE (r_faceID r));
     ret (r_int r) }"

definition invalid :: "'p hwi \<Rightarrow> sm_evt \<Rightarrow> ('p, int32) smM" where
  "invalid H e = api H e (ret INVALID_OPERATION)"

text \<open>The event is only logged: \<open>rc\<close> keeps its initial value.\<close>

definition ignored :: "('p, int32) smM" where
  "ignored = ret NO_ERROR"

text \<open>\<open>SNAPSHOT_DONE\<close> where there is nothing to do but to notify.\<close>

definition snapshot_done_notify :: "'p hwi \<Rightarrow> sm_evt \<Rightarrow> ('p, int32) smM" where
  "snapshot_done_notify H e = do { signalEvt H (evt_id e) NO_ERROR; ret NO_ERROR }"

definition daemon_died :: "'p hwi \<Rightarrow> ('p, int32) smM" where
  "daemon_died H = do { op0 H SendEvtNotify_ServerDied; ret NO_ERROR }"

text \<open>The same in the states where a caller may be waiting for a snapshot.\<close>

definition daemon_died_waiters :: "'p hwi \<Rightarrow> ('p, int32) smM" where
  "daemon_died_waiters H = do {
     signalAPI H SM_EVT_PREPARE_SNAPSHOT NO_ERROR RESULT_TYPE_DEF;
     signalAPI H SM_EVT_TAKE_PICTURE NO_ERROR RESULT_TYPE_DEF;
     op0 H SendEvtNotify_ServerDied;
     ret NO_ERROR }"

definition cac_done :: "'p hwi \<Rightarrow> ('p, int32) smM" where
  "cac_done H = do {
     cac \<leftarrow> query H IsCACEnabled;
     oem \<leftarrow> (if cac then State_Monad.return True else query H IsOEMFeatEnabled);
     (if oem then do {
        longshot \<leftarrow> query H IsLongshotEnabled;
        shutter \<leftarrow> (if longshot then query H IsCaptureShutterEnabled else State_Monad.return True);
        (if longshot \<and> \<not> shutter then op0 H PlayShutter else skip);
        op0 H Set_mCACDoneReceived }
      else skip);
     ret NO_ERROR }"

section \<open>The member functions\<close>

definition applyDelayedMsgs :: "'p hwi \<Rightarrow> ('p, int32) smM" where
  "applyDelayedMsgs H = do {
     delay \<leftarrow> gets m_bDelayPreviewMsgs;
     msgs \<leftarrow> gets m_DelayedMsgs;
     (if delay \<and> msgs \<noteq> 0 then do {
        rc \<leftarrow> rc_of H (EnableMsgType msgs);
        modify (\<lambda>s. s\<lparr>m_bDelayPreviewMsgs := False, m_DelayedMsgs := 0\<rparr>);
        ret rc }
      else if delay then do {
        modify (\<lambda>s. s\<lparr>m_bDelayPreviewMsgs := False\<rparr>);
        ret NO_ERROR }
      else ret NO_ERROR) }"

definition delayed_msgs :: "'p hwi \<Rightarrow> ('p, unit) smM" where
  "delayed_msgs H = do { _ \<leftarrow> applyDelayedMsgs H; skip }"

text \<open>
  The constructor leaves \<open>m_bPreviewNeedsRestart\<close> and \<open>m_bPreviewDelayedRestart\<close> unset, so their
  first values are arguments.
\<close>

definition QCameraStateMachine :: "bool \<Rightarrow> bool \<Rightarrow> 'p \<Rightarrow> 'p sm" where
  "QCameraStateMachine needs delayed ctrl =
     \<lparr>m_state = PREVIEW_STOPPED, m_bDelayPreviewMsgs = False, m_bPreviewNeedsRestart = needs,
      m_bPreviewDelayedRestart = delayed, m_DelayedMsgs = 0, m_RestoreZSL = True,
      m_bPreviewCallbackNeeded = True, parent = ctrl, calls = []\<rparr>"

definition isRecording :: "'p sm \<Rightarrow> bool" where
  "isRecording s = (case m_state s of RECORDING \<Rightarrow> True | VIDEO_PIC_TAKING \<Rightarrow> True | _ \<Rightarrow> False)"

definition isPreviewRunning :: "'p sm \<Rightarrow> bool" where
  "isPreviewRunning s =
     (case m_state s of
        PREVIEWING \<Rightarrow> True | RECORDING \<Rightarrow> True | VIDEO_PIC_TAKING \<Rightarrow> True
      | PREVIEW_PIC_TAKING \<Rightarrow> True | PREPARE_SNAPSHOT_STATE \<Rightarrow> True | PREVIEW_READY \<Rightarrow> True
      | _ \<Rightarrow> False)"

definition isPreviewReady :: "'p sm \<Rightarrow> bool" where
  "isPreviewReady s = (case m_state s of PREVIEW_READY \<Rightarrow> True | _ \<Rightarrow> False)"

definition isCaptureRunning :: "'p sm \<Rightarrow> bool" where
  "isCaptureRunning s =
     (case m_state s of
        PIC_TAKING \<Rightarrow> True | VIDEO_PIC_TAKING \<Rightarrow> True | PREVIEW_PIC_TAKING \<Rightarrow> True | _ \<Rightarrow> False)"

definition isNonZSLCaptureRunning :: "'p sm \<Rightarrow> bool" where
  "isNonZSLCaptureRunning s = (case m_state s of PIC_TAKING \<Rightarrow> True | _ \<Rightarrow> False)"

definition setPreviewCallbackNeeded :: "bool \<Rightarrow> 'p sm \<Rightarrow> 'p sm" where
  "setPreviewCallbackNeeded enabled s = s\<lparr>m_bPreviewCallbackNeeded := enabled\<rparr>"

text \<open>
  The dump of the state for \<open>dumpsys\<close>: each line is printed into a buffer of 128 characters, which
  the longest of them does not fill.
\<close>

fun state_digit :: "qcamera_state \<Rightarrow> char" where
  "state_digit PREVIEW_STOPPED = CHR ''0''"
| "state_digit PREVIEW_READY = CHR ''1''"
| "state_digit PREVIEWING = CHR ''2''"
| "state_digit PREPARE_SNAPSHOT_STATE = CHR ''3''"
| "state_digit PIC_TAKING = CHR ''4''"
| "state_digit RECORDING = CHR ''5''"
| "state_digit VIDEO_PIC_TAKING = CHR ''6''"
| "state_digit PREVIEW_PIC_TAKING = CHR ''7''"

fun state_name :: "qcamera_state \<Rightarrow> string" where
  "state_name PREVIEW_STOPPED = ''PREVIEW_STOPPED''"
| "state_name PREVIEW_READY = ''PREVIEW_READY''"
| "state_name PREVIEWING = ''PREVIEWING''"
| "state_name PREPARE_SNAPSHOT_STATE = ''PREPARE_SNAPSHOT''"
| "state_name PIC_TAKING = ''PIC_TAKING''"
| "state_name RECORDING = ''RECORDING''"
| "state_name VIDEO_PIC_TAKING = ''VIDEO_PIC_TAKING''"
| "state_name PREVIEW_PIC_TAKING = ''PREVIEW_PIC_TAKING''"

definition print_line :: "string \<Rightarrow> string \<Rightarrow> string" where
  "print_line label val = take 127 (label @ val @ [CHR 0x0A])"

definition print_bool :: "bool \<Rightarrow> string" where
  "print_bool b = (if b then ''1'' else ''0'')"

definition sm_dump :: "'p sm \<Rightarrow> string" where
  "sm_dump s =
     [CHR 0x0A]
     @ print_line ''Is Preview Running: '' (print_bool (isPreviewRunning s))
     @ print_line ''Is Capture Running: '' (print_bool (isCaptureRunning s))
     @ print_line ''Is Non ZSL Capture Running: '' (print_bool (isNonZSLCaptureRunning s))
     @ print_line ''Current State: '' (state_digit (m_state s) # '' '')
     @ print_line '' QCAMERA_SM_STATE_'' (state_name (m_state s) @ '' '')"

lemma dump_tells_state: "sm_dump s = sm_dump t \<longleftrightarrow> m_state s = m_state t"
  by (cases "m_state s"; cases "m_state t")
    (simp_all add: sm_dump_def print_line_def print_bool_def isPreviewRunning_def isCaptureRunning_def
      isNonZSLCaptureRunning_def)

section \<open>Proof rules\<close>

text \<open>
  A call leaves the object in \<open>after H c s\<close> and returns \<open>answer H c s\<close>.  Both stay folded in proofs,
  so a handler's state is a short term however many calls it has made.
\<close>

definition after :: "'p hwi \<Rightarrow> hwi_call \<Rightarrow> 'p sm \<Rightarrow> 'p sm" where
  "after H c s =
     s\<lparr>parent := snd (do_call H c (m_state s) (parent s)), calls := calls s @ [c]\<rparr>"

definition answer :: "'p hwi \<Rightarrow> hwi_call \<Rightarrow> 'p sm \<Rightarrow> hwi_reply" where
  "answer H c s = fst (do_call H c (m_state s) (parent s))"

lemma after_simps [simp]:
  "m_state (after H c s) = m_state s"
  "m_bDelayPreviewMsgs (after H c s) = m_bDelayPreviewMsgs s"
  "m_bPreviewNeedsRestart (after H c s) = m_bPreviewNeedsRestart s"
  "m_bPreviewDelayedRestart (after H c s) = m_bPreviewDelayedRestart s"
  "m_DelayedMsgs (after H c s) = m_DelayedMsgs s"
  "m_RestoreZSL (after H c s) = m_RestoreZSL s"
  "m_bPreviewCallbackNeeded (after H c s) = m_bPreviewCallbackNeeded s"
  "calls (after H c s) = calls s @ [c]"
  by (simp_all add: after_def)

lemma run_call: "run_state (call H c) s = (answer H c s, after H c s)"
  by (simp add: call_def after_def answer_def split: prod.splits)

lemma wp_call [wp_simps]: "wp (call H c) Q s = Q (answer H c s) (after H c s)"
  by (simp add: wp_def run_call)

lemma wp_call0 [wp_simps]: "wp (call0 H c) Q s = Q () (after H c s)"
  by (simp add: call0_def wp_simps)

lemma wp_rc_of [wp_simps]: "wp (rc_of H c) Q s = Q (r_int (answer H c s)) (after H c s)"
  by (simp add: rc_of_def wp_simps)

lemma wp_query [wp_simps]:
  "wp (query H q) Q s = Q (r_bool (answer H (Query q) s)) (after H (Query q) s)"
  by (simp add: query_def wp_simps)

lemma wp_goto [wp_simps]: "wp (goto st) Q s = Q () (s\<lparr>m_state := st\<rparr>)"
  by (simp add: goto_def wp_simps)

text \<open>The results a run has signalled, in order, to the callers of the API and to those of \<open>processSyncEvt\<close>.\<close>

fun api_result_of :: "hwi_call \<Rightarrow> qcamera_api_result option" where
  "api_result_of (SignalAPIResult r) = Some r"
| "api_result_of _ = None"

definition api_results :: "hwi_call list \<Rightarrow> qcamera_api_result list" where
  "api_results cs = List.map_filter api_result_of cs"

lemma api_results_simps [simp]:
  "api_results [] = []"
  "api_results (xs @ ys) = api_results xs @ api_results ys"
  "api_results (c # cs) = (case api_result_of c of None \<Rightarrow> api_results cs | Some r \<Rightarrow> r # api_results cs)"
  by (simp_all add: api_results_def map_filter_def split: option.splits)

lemma wp_signalAPI [wp_simps]:
  "wp (signalAPI H evt rc ty) Q s =
     Q () (after H (SignalAPIResult \<lparr>status = rc, request_api = evt, result_type = ty\<rparr>) s)"
  by (simp add: signalAPI_def wp_simps)

lemma wp_signalEvt [wp_simps]:
  "wp (signalEvt H evt rc) Q s =
     Q () (after H (SignalEvtResult
       \<lparr>status = rc, request_api = evt, result_type = RESULT_TYPE_DEF\<rparr>) s)"
  by (simp add: signalEvt_def wp_simps)

lemma wp_api [wp_simps]:
  "wp (api H e m) Q s =
     wp m (\<lambda>rc t. Q rc (after H (SignalAPIResult
       \<lparr>status = rc, request_api = evt_id e, result_type = RESULT_TYPE_DEF\<rparr>) t)) s"
  unfolding api_def wp_bind wp_signalAPI wp_return by (rule refl)

text \<open>The object after \<open>applyDelayedMsgs\<close>.\<close>

definition undelayed :: "'p hwi \<Rightarrow> 'p sm \<Rightarrow> 'p sm" where
  "undelayed H s =
     (if m_bDelayPreviewMsgs s \<and> m_DelayedMsgs s \<noteq> 0
      then (after H (EnableMsgType (m_DelayedMsgs s)) s)
             \<lparr>m_bDelayPreviewMsgs := False, m_DelayedMsgs := 0\<rparr>
      else if m_bDelayPreviewMsgs s then s\<lparr>m_bDelayPreviewMsgs := False\<rparr>
      else s)"

lemma undelayed_simps [simp]:
  "m_state (undelayed H s) = m_state s"
  "m_bDelayPreviewMsgs (undelayed H s) = False"
  "m_DelayedMsgs (undelayed H s) = (if m_bDelayPreviewMsgs s then 0 else m_DelayedMsgs s)"
  "api_results (calls (undelayed H s)) = api_results (calls s)"
  by (simp_all add: undelayed_def)

lemma filter_undelayed [simp]:
  "(\<And>m. \<not> P (EnableMsgType m)) \<Longrightarrow> filter P (calls (undelayed H s)) = filter P (calls s)"
  by (simp add: undelayed_def)

lemma wp_delayed_msgs [wp_simps]: "wp (delayed_msgs H) Q s = Q () (undelayed H s)"
  by (simp add: delayed_msgs_def applyDelayedMsgs_def undelayed_def wp_simps)

lemmas shared_defs =
  do_setCallBacks_def do_sendCommand_def do_msgTypeEnabled_def do_getParameters_def
  do_registerFaceImage_def invalid_def ignored_def snapshot_done_notify_def daemon_died_def
  daemon_died_waiters_def cac_done_def api_flag_def

end
