(* ===== verification/SMStopped.thy ===== *)
theory SMStopped
  imports SMCore
begin

text \<open>
  \<open>procEvtPreviewStoppedState\<close> and \<open>procEvtPreviewReadyState\<close>: the handlers of the states in which
  the preview is stopped, and prepared but not started.  The cases of each \<open>switch\<close> are grouped in
  the order of the source: configuration, preview control, and the rest; each group passes the events
  it does not mention to the next.
\<close>

section \<open>PREVIEW_STOPPED\<close>

text \<open>
  In this state the parameters may still be being initialised by a deferred job, and most handlers
  first wait for it.
\<close>

definition after_init :: "'p hwi \<Rightarrow> ('p, int32) smM \<Rightarrow> ('p, int32) smM" where
  "after_init H m = do {
     rc \<leftarrow> op H WaitDeferredWork_ParamInit;
     (if rc \<noteq> NO_ERROR then ret rc else m) }"

definition stopped_get_params :: "'p hwi \<Rightarrow> sm_evt \<Rightarrow> ('p, int32) smM" where
  "stopped_get_params H e = do {
     rc \<leftarrow> op H WaitDeferredWork_ParamInit;
     params \<leftarrow> (if rc \<noteq> NO_ERROR
       then do { r \<leftarrow> call H MallocNullParams;
                 State_Monad.return (if r_bool r then Some '''' else None) }
       else do { r \<leftarrow> call H (Op GetParameters); State_Monad.return (r_params r) });
     let rc = (if params \<noteq> None then NO_ERROR else UNKNOWN_ERROR);
     signalAPI H (evt_id e) rc (RESULT_TYPE_PARAMS params);
     ret rc }"

definition stopped_prepare_preview :: "'p hwi \<Rightarrow> ('p, int32) smM" where
  "stopped_prepare_preview H = do {
     rc \<leftarrow> after_init H (op H PreparePreview);
     (if rc = NO_ERROR then goto PREVIEW_READY else skip);
     ret rc }"

definition stopped_start_preview :: "'p hwi \<Rightarrow> ('p, int32) smM" where
  "stopped_start_preview H = do {
     rc \<leftarrow> op H WaitDeferredWork_ParamInit;
     (if rc \<noteq> NO_ERROR then ret rc
      else do {
        window \<leftarrow> query H GetPreviewWindow;
        (if \<not> window then do {
           rc \<leftarrow> op H PreparePreview;
           (if rc = NO_ERROR then goto PREVIEW_READY else skip);
           ret rc }
         else do {
           rc \<leftarrow> op H PreparePreview;
           (if rc = NO_ERROR then do {
              delayed_msgs H;
              rc \<leftarrow> op H StartPreview;
              (if rc \<noteq> NO_ERROR then op0 H UnpreparePreview else goto PREVIEWING);
              ret rc }
            else ret rc) }) }) }"

definition stopped_start_nodisplay :: "'p hwi \<Rightarrow> ('p, int32) smM" where
  "stopped_start_nodisplay H = do {
     rc \<leftarrow> after_init H (op H PreparePreview);
     (if rc = NO_ERROR then do {
        delayed_msgs H;
        rc \<leftarrow> op H StartPreview;
        (if rc \<noteq> NO_ERROR then op0 H UnpreparePreview else goto PREVIEWING);
        ret rc }
      else ret rc) }"

definition stopped_rest :: "'p hwi \<Rightarrow> sm_evt \<Rightarrow> ('p, int32) smM" where
  "stopped_rest H e =
     (case e of
        PRE_START_RECORDING \<Rightarrow> invalid H e
      | RESTART_STOP_PREVIEW \<Rightarrow> invalid H e
      | RESTART_START_PREVIEW \<Rightarrow> invalid H e
      | START_RECORDING \<Rightarrow> invalid H e
      | STOP_RECORDING \<Rightarrow> invalid H e
      | RELEASE_RECORIDNG_FRAME _ \<Rightarrow> invalid H e
      | PREPARE_SNAPSHOT \<Rightarrow> invalid H e
      | PRE_TAKE_PICTURE \<Rightarrow> invalid H e
      | TAKE_PICTURE \<Rightarrow> invalid H e
      | START_AUTO_FOCUS \<Rightarrow> api H e (ret NO_ERROR)
      | CANCEL_PICTURE \<Rightarrow> api H e (ret NO_ERROR)
      | STOP_AUTO_FOCUS \<Rightarrow> api H e (after_init H (op H CancelAutoFocus))
      | REG_FACE_IMAGE p \<Rightarrow> do_registerFaceImage H e p
      | THERMAL_NOTIFY level \<Rightarrow> after_init H (rc_of H (UpdateThermalLevel level))
      | EVT_NOTIFY t \<Rightarrow> (if t = CAM_EVENT_TYPE_DAEMON_DIED then daemon_died H else ignored)
      | SNAPSHOT_DONE \<Rightarrow> snapshot_done_notify H e
      | EVT_INTERNAL t d \<Rightarrow>
          (if t = INTERNAL_EVT_LED_MODE_OVERRIDE
           then after_init H (rc_of H (Meta UpdateFlashMode d)) else ignored)
      | _ \<Rightarrow> ignored)"

definition stopped_preview :: "'p hwi \<Rightarrow> sm_evt \<Rightarrow> ('p, int32) smM" where
  "stopped_preview H e =
     (case e of
        PREPARE_PREVIEW \<Rightarrow> api H e (stopped_prepare_preview H)
      | START_PREVIEW \<Rightarrow> api H e (stopped_start_preview H)
      | START_NODISPLAY_PREVIEW \<Rightarrow> api H e (stopped_start_nodisplay H)
      | STOP_PREVIEW \<Rightarrow> api H e (ret NO_ERROR)
      | PREVIEW_ENABLED \<Rightarrow> api_flag H e 0
      | RECORDING_ENABLED \<Rightarrow> api_flag H e 0
      | RELEASE \<Rightarrow> api H e (op H Release)
      | STORE_METADATA_IN_BUFS enable \<Rightarrow> api H e (rc_of H (StoreMetaDataInBuffers enable))
      | DUMP fd \<Rightarrow> api H e (after_init H (rc_of H (Dump fd)))
      | SEND_COMMAND p \<Rightarrow> api H e (after_init H (do_sendCommand H p))
      | _ \<Rightarrow> stopped_rest H e)"

definition stopped_config :: "'p hwi \<Rightarrow> sm_evt \<Rightarrow> ('p, int32) smM" where
  "stopped_config H e =
     (case e of
        SET_PREVIEW_WINDOW w \<Rightarrow> api H e (rc_of H (SetPreviewWindow w))
      | SET_CALLBACKS p \<Rightarrow> api H e (do_setCallBacks H p)
      | ENABLE_MSG_TYPE msgs \<Rightarrow> api H e (after_init H (rc_of H (EnableMsgType msgs)))
      | DISABLE_MSG_TYPE msgs \<Rightarrow> api H e (after_init H (rc_of H (DisableMsgType msgs)))
      | MSG_TYPE_ENABLED msgs \<Rightarrow> do_msgTypeEnabled H e msgs
      | SET_PARAMS params \<Rightarrow> api H e (after_init H (rc_of H (UpdateParameters params)))
      | SET_PARAMS_STOP \<Rightarrow> api H e (do { op0 H MemoryPoolClear; ret NO_ERROR })
      | SET_PARAMS_COMMIT \<Rightarrow> api H e (op H CommitParameterChanges)
      | SET_PARAMS_RESTART \<Rightarrow> api H e (do { call0 H (SetNeedRestart False); ret NO_ERROR })
      | GET_PARAMS \<Rightarrow> stopped_get_params H e
      | PUT_PARAMS params \<Rightarrow> api H e (rc_of H (PutParameters params))
      | _ \<Rightarrow> stopped_preview H e)"

definition procEvtPreviewStoppedState :: "'p hwi \<Rightarrow> sm_evt \<Rightarrow> ('p, int32) smM" where
  "procEvtPreviewStoppedState H e = stopped_config H e"

section \<open>PREVIEW_READY\<close>

definition ready_set_window :: "'p hwi \<Rightarrow> ptr \<Rightarrow> ('p, int32) smM" where
  "ready_set_window H w = do {
     call0 H (SetPreviewWindow w);
     window \<leftarrow> query H GetPreviewWindow;
     (if window then do {
        delayed_msgs H;
        rc \<leftarrow> op H StartPreview;
        (if rc \<noteq> NO_ERROR then do { op0 H UnpreparePreview; goto PREVIEW_STOPPED }
         else goto PREVIEWING);
        ret rc }
      else ret NO_ERROR) }"

definition ready_params_restart :: "'p hwi \<Rightarrow> ('p, int32) smM" where
  "ready_params_restart H = do {
     rc \<leftarrow> op H PreparePreview;
     (if rc \<noteq> NO_ERROR then goto PREVIEW_STOPPED else skip);
     call0 H (SetNeedRestart False);
     ret rc }"

definition ready_start :: "'p hwi \<Rightarrow> ('p, unit) smM" where
  "ready_start H = do {
     rc \<leftarrow> op H StartPreview;
     (if rc \<noteq> NO_ERROR then do { op0 H UnpreparePreview; goto PREVIEW_STOPPED }
      else goto PREVIEWING) }"

definition ready_rest :: "'p hwi \<Rightarrow> sm_evt \<Rightarrow> ('p, int32) smM" where
  "ready_rest H e =
     (case e of
        PRE_START_RECORDING \<Rightarrow> invalid H e
      | RESTART_STOP_PREVIEW \<Rightarrow> invalid H e
      | RESTART_START_PREVIEW \<Rightarrow> invalid H e
      | START_RECORDING \<Rightarrow> invalid H e
      | STOP_RECORDING \<Rightarrow> invalid H e
      | PREPARE_SNAPSHOT \<Rightarrow> invalid H e
      | PRE_TAKE_PICTURE \<Rightarrow> invalid H e
      | TAKE_PICTURE \<Rightarrow> invalid H e
      | CANCEL_PICTURE \<Rightarrow> invalid H e
      | RELEASE_RECORIDNG_FRAME _ \<Rightarrow> invalid H e
      | RELEASE \<Rightarrow> invalid H e
      | EVT_NOTIFY t \<Rightarrow> (if t = CAM_EVENT_TYPE_DAEMON_DIED then daemon_died H else ignored)
      | SNAPSHOT_DONE \<Rightarrow> snapshot_done_notify H e
      | EVT_INTERNAL t d \<Rightarrow>
          (if t = INTERNAL_EVT_LED_MODE_OVERRIDE then rc_of H (Meta UpdateFlashMode d)
           else ignored)
      | _ \<Rightarrow> ignored)"

definition ready_preview :: "'p hwi \<Rightarrow> sm_evt \<Rightarrow> ('p, int32) smM" where
  "ready_preview H e =
     (case e of
        START_NODISPLAY_PREVIEW \<Rightarrow> api H e (do { ready_start H; ret NO_ERROR })
      | START_PREVIEW \<Rightarrow> api H e (do {
          window \<leftarrow> query H GetPreviewWindow;
          (if window then ready_start H else skip);
          ret NO_ERROR })
      | STOP_PREVIEW \<Rightarrow> api H e (do { op0 H UnpreparePreview; goto PREVIEW_STOPPED; ret 0 })
      | PREVIEW_ENABLED \<Rightarrow> api_flag H e 1
      | RECORDING_ENABLED \<Rightarrow> api_flag H e 0
      | STORE_METADATA_IN_BUFS enable \<Rightarrow> api H e (rc_of H (StoreMetaDataInBuffers enable))
      | DUMP fd \<Rightarrow> api H e (rc_of H (Dump fd))
      | START_AUTO_FOCUS \<Rightarrow> api H e (op H AutoFocus)
      | STOP_AUTO_FOCUS \<Rightarrow> api H e (op H CancelAutoFocus)
      | SEND_COMMAND p \<Rightarrow> api H e (do_sendCommand H p)
      | REG_FACE_IMAGE p \<Rightarrow> do_registerFaceImage H e p
      | _ \<Rightarrow> ready_rest H e)"

definition ready_config :: "'p hwi \<Rightarrow> sm_evt \<Rightarrow> ('p, int32) smM" where
  "ready_config H e =
     (case e of
        SET_PREVIEW_WINDOW w \<Rightarrow> api H e (ready_set_window H w)
      | SET_CALLBACKS p \<Rightarrow> api H e (do_setCallBacks H p)
      | ENABLE_MSG_TYPE msgs \<Rightarrow> api H e (rc_of H (EnableMsgType msgs))
      | DISABLE_MSG_TYPE msgs \<Rightarrow> api H e (rc_of H (DisableMsgType msgs))
      | MSG_TYPE_ENABLED msgs \<Rightarrow> do_msgTypeEnabled H e msgs
      | SET_PARAMS params \<Rightarrow> api H e (rc_of H (UpdateParameters params))
      | SET_PARAMS_STOP \<Rightarrow> api H e (do {
          op0 H UnpreparePreview; op0 H MemoryPoolClear; ret NO_ERROR })
      | SET_PARAMS_COMMIT \<Rightarrow> api H e (op H CommitParameterChanges)
      | SET_PARAMS_RESTART \<Rightarrow> api H e (ready_params_restart H)
      | GET_PARAMS \<Rightarrow> do_getParameters H e
      | PUT_PARAMS params \<Rightarrow> api H e (rc_of H (PutParameters params))
      | PREPARE_PREVIEW \<Rightarrow> api H e (ret NO_ERROR)
      | _ \<Rightarrow> ready_preview H e)"

definition procEvtPreviewReadyState :: "'p hwi \<Rightarrow> sm_evt \<Rightarrow> ('p, int32) smM" where
  "procEvtPreviewReadyState H e = ready_config H e"

text \<open>The definitions of each handler, for the proofs that go through all its cases.\<close>

lemmas stopped_defs =
  after_init_def stopped_get_params_def stopped_prepare_preview_def stopped_start_preview_def
  stopped_start_nodisplay_def stopped_rest_def stopped_preview_def stopped_config_def
  procEvtPreviewStoppedState_def

lemmas ready_defs =
  ready_set_window_def ready_params_restart_def ready_start_def ready_rest_def ready_preview_def
  ready_config_def procEvtPreviewReadyState_def

end
