(* ===== verification/SMPreviewing.thy ===== *)
theory SMPreviewing
  imports SMCore
begin

text \<open>
  \<open>procEvtPreviewingState\<close> and \<open>procEvtPrepareSnapshotState\<close>: the preview is running, or running
  while the hardware prepares for a snapshot.
\<close>

section \<open>PREVIEWING\<close>

definition previewing_enable :: "'p hwi \<Rightarrow> int32 \<Rightarrow> ('p, int32) smM" where
  "previewing_enable H enable_msgs = do {
     delay \<leftarrow> gets m_bDelayPreviewMsgs;
     (if delay \<and> enable_msgs AND msg_preview_frame H \<noteq> 0 then do {
        modify (\<lambda>s. s\<lparr>m_DelayedMsgs := msg_preview_frame H\<rparr>);
        rc_of H (EnableMsgType (enable_msgs AND NOT (msg_preview_frame H))) }
      else rc_of H (EnableMsgType enable_msgs)) }"

definition previewing_disable :: "'p hwi \<Rightarrow> int32 \<Rightarrow> ('p, int32) smM" where
  "previewing_disable H disable_msgs = do {
     delay \<leftarrow> gets m_bDelayPreviewMsgs;
     msgs \<leftarrow> gets m_DelayedMsgs;
     (if delay \<and> msgs \<noteq> 0 then do {
        modify (\<lambda>s. s\<lparr>m_DelayedMsgs := msgs AND NOT disable_msgs\<rparr>);
        (if msgs AND NOT disable_msgs = 0
         then modify (\<lambda>s. s\<lparr>m_bDelayPreviewMsgs := False\<rparr>) else skip) }
      else skip);
     rc_of H (DisableMsgType disable_msgs) }"

definition previewing_msg_enabled :: "'p hwi \<Rightarrow> sm_evt \<Rightarrow> int32 \<Rightarrow> ('p, int32) smM" where
  "previewing_msg_enabled H e msgs = do {
     enabled \<leftarrow> rc_of H (MsgTypeEnabled msgs);
     delay \<leftarrow> gets m_bDelayPreviewMsgs;
     delayed \<leftarrow> gets m_DelayedMsgs;
     api_flag H e (if delay \<and> delayed \<noteq> 0 then enabled OR (msgs AND delayed) else enabled) }"

definition previewing_params_restart :: "'p hwi \<Rightarrow> ('p, int32) smM" where
  "previewing_params_restart H = do {
     rc \<leftarrow> op H PreparePreview;
     rc \<leftarrow> (if rc = NO_ERROR then do {
         delayed_msgs H;
         rc \<leftarrow> op H StartPreview;
         (if rc \<noteq> NO_ERROR then op0 H UnpreparePreview else skip);
         (if rc \<noteq> NO_ERROR then goto PREVIEW_STOPPED else skip);
         ret rc }
       else ret rc);
     call0 H (SetNeedRestart False);
     ret rc }"

definition previewing_start_recording :: "'p hwi \<Rightarrow> ('p, int32) smM" where
  "previewing_start_recording H = do {
     rc \<leftarrow> op H StartRecording;
     (if rc = NO_ERROR then do { goto RECORDING; delayed_msgs H } else skip);
     ret rc }"

definition previewing_prepare_snapshot :: "'p hwi \<Rightarrow> sm_evt \<Rightarrow> ('p, int32) smM" where
  "previewing_prepare_snapshot H e = do {
     rc \<leftarrow> rc_of H (PrepareHardwareForSnapshot False);
     (if rc = NO_ERROR then do { goto PREPARE_SNAPSHOT_STATE; delayed_msgs H }
      else signalAPI H (evt_id e) rc RESULT_TYPE_DEF);
     ret rc }"

text \<open>
  Taking a picture.  The recording hint is cleared first, with a restart of the preview whose status
  the later calls overwrite; then the ZSL or longshot path, which keeps the preview (unless manual
  capture asks for a restart), or the regular path, which gives it up.
\<close>

definition take_clear_hint :: "'p hwi \<Rightarrow> ('p, unit) smM" where
  "take_clear_hint H = do {
     hint \<leftarrow> query H GetRecordingHintValue;
     (if hint then do {
        op0 H StopPreview;
        call0 H (UpdateRecordingHintValue False);
        rc \<leftarrow> op H PreparePreview;
        (if rc = NO_ERROR then do {
           rc \<leftarrow> op H StartPreview;
           (if rc \<noteq> NO_ERROR then op0 H UnpreparePreview else skip) }
         else skip) }
      else skip) }"

definition take_zsl :: "'p hwi \<Rightarrow> sm_evt \<Rightarrow> ('p, int32) smM" where
  "take_zsl H e = do {
     restartPreview \<leftarrow> query H IsPreviewRestartEnabled;
     manual \<leftarrow> (if restartPreview then rc_of H (Query GetManualCaptureMode) else ret 0);
     (if restartPreview \<and> 3 \<le> sint manual then do {
        op0 H StopPreview;
        call0 H (UpdateZSLModeValue False);
        modify (\<lambda>s. s\<lparr>m_RestoreZSL := True, m_bDelayPreviewMsgs := True, m_state := PIC_TAKING\<rparr>) }
      else modify (\<lambda>s. s\<lparr>m_state := PREVIEW_PIC_TAKING, m_bDelayPreviewMsgs := True\<rparr>));
     rc \<leftarrow> op H TakePicture;
     (if rc \<noteq> NO_ERROR then do { op0 H UnconfigureAdvancedCapture; goto PREVIEWING } else skip);
     retro \<leftarrow> query H IsRetroPicture;
     (if \<not> retro \<or> rc \<noteq> NO_ERROR then signalAPI H (evt_id e) rc RESULT_TYPE_DEF else skip);
     ret rc }"

definition take_regular :: "'p hwi \<Rightarrow> ('p, int32) smM" where
  "take_regular H = do {
     goto PIC_TAKING;
     rc \<leftarrow> op H TakePicture;
     (if rc \<noteq> NO_ERROR then do {
        op0 H UnconfigureAdvancedCapture;
        op0 H StopPreview;
        temp_rc \<leftarrow> op H PreparePreview;
        (if temp_rc = NO_ERROR then do {
           temp_rc \<leftarrow> op H StartPreview;
           (if temp_rc \<noteq> NO_ERROR then do { op0 H UnpreparePreview; goto PREVIEW_STOPPED }
            else goto PREVIEWING) }
         else goto PREVIEW_STOPPED) }
      else skip);
     ret rc }"

definition previewing_take_picture :: "'p hwi \<Rightarrow> sm_evt \<Rightarrow> ('p, int32) smM" where
  "previewing_take_picture H e = do {
     take_clear_hint H;
     zsl \<leftarrow> query H IsZSLMode;
     longshot \<leftarrow> (if zsl then State_Monad.return True else query H IsLongshotEnabled);
     (if longshot then take_zsl H e else api H e (take_regular H)) }"

text \<open>Sending a command, which may rewrite the two arguments; the part under \<open>#ifndef VANILLA_HAL\<close> restarts the preview.\<close>

definition previewing_send_command :: "'p hwi \<Rightarrow> command_payload \<Rightarrow> ('p, int32) smM" where
  "previewing_send_command H p = do {
     r \<leftarrow> call H (SendCommand (cmd p) (arg1 p) (arg2 p));
     let rc = r_int r;
     modify (\<lambda>s. s\<lparr>m_bPreviewNeedsRestart := evt_num SM_EVT_RESTART_PERVIEW = r_arg1 r,
                    m_bPreviewDelayedRestart := evt_num SM_EVT_DELAYED_RESTART = r_arg2 r\<rparr>);
     needs \<leftarrow> gets m_bPreviewNeedsRestart;
     delayed \<leftarrow> gets m_bPreviewDelayedRestart;
     (if \<not> vanilla_hal H \<and> cmd_longshot_on H = cmd p \<and> needs then do {
        op0 H StopPreview;
        op0 H MemoryPoolClear;
        (if \<not> delayed then do {
           rc \<leftarrow> op H PreparePreview;
           (if rc = NO_ERROR then do {
              delayed_msgs H;
              rc \<leftarrow> op H StartPreview;
              (if rc \<noteq> NO_ERROR then op0 H UnpreparePreview else skip);
              ret rc }
            else ret rc) }
         else ret rc) }
      else ret rc) }"

definition previewing_command_restart :: "'p hwi \<Rightarrow> command_payload \<Rightarrow> ('p, int32) smM" where
  "previewing_command_restart H p = do {
     needs \<leftarrow> gets m_bPreviewNeedsRestart;
     delayed \<leftarrow> gets m_bPreviewDelayedRestart;
     (if \<not> vanilla_hal H \<and> cmd_longshot_on H = cmd p \<and> needs \<and> delayed then do {
        rc \<leftarrow> op H PreparePreview;
        (if rc = NO_ERROR then do {
           rc \<leftarrow> op H StartPreview;
           (if rc \<noteq> NO_ERROR then op0 H UnpreparePreview else skip);
           ret rc }
         else ret rc) }
      else ret NO_ERROR) }"

text \<open>\<open>RESTART_START_PREVIEW\<close>, the same in two states.\<close>

definition restart_start :: "'p hwi \<Rightarrow> ('p, int32) smM" where
  "restart_start H = do {
     rc \<leftarrow> op H PreparePreview;
     (if rc = NO_ERROR then op H StartPreview else ret rc) }"

definition previewing_internal ::
  "'p hwi \<Rightarrow> qcamera_internal_evt_type \<Rightarrow> blob \<Rightarrow> ('p, int32) smM" where
  "previewing_internal H t d =
     (case t of
        INTERNAL_EVT_FOCUS_UPDATE \<Rightarrow> rc_of H (Meta ProcessAutoFocusEvent d)
      | INTERNAL_EVT_PREP_SNAPSHOT_DONE \<Rightarrow> ignored
      | INTERNAL_EVT_FACE_DETECT_RESULT \<Rightarrow> rc_of H (Meta ProcessFaceDetectionResult d)
      | INTERNAL_EVT_HISTOGRAM_STATS \<Rightarrow> rc_of H (Meta ProcessHistogramStats d)
      | INTERNAL_EVT_CROP_INFO \<Rightarrow> rc_of H (Meta ProcessZoomEvent d)
      | INTERNAL_EVT_ASD_UPDATE \<Rightarrow> rc_of H (Meta ProcessASDUpdate d)
      | INTERNAL_EVT_LED_MODE_OVERRIDE \<Rightarrow> rc_of H (Meta UpdateFlashMode d)
      | INTERNAL_EVT_AWB_UPDATE \<Rightarrow> rc_of H (Meta TransAwbMetaToParams d)
      | INTERNAL_EVT_AE_UPDATE \<Rightarrow> rc_of H (Meta ProcessAEInfo d)
      | INTERNAL_EVT_FOCUS_POS_UPDATE \<Rightarrow> rc_of H (Meta ProcessFocusPositionInfo d)
      | INTERNAL_EVT_HDR_UPDATE \<Rightarrow> rc_of H (Meta ProcessHDRData d)
      | INTERNAL_EVT_RETRO_AEC_UNLOCK \<Rightarrow> op H ProcessRetroAECUnlock
      | INTERNAL_EVT_ZSL_CAPTURE_DONE \<Rightarrow> op H ProcessZSLCaptureDone
      | _ \<Rightarrow> ignored)"

definition previewing_events :: "'p hwi \<Rightarrow> sm_evt \<Rightarrow> ('p, int32) smM" where
  "previewing_events H e =
     (case e of
        EVT_INTERNAL t d \<Rightarrow> previewing_internal H t d
      | EVT_NOTIFY t \<Rightarrow> (if t = CAM_EVENT_TYPE_DAEMON_DIED then daemon_died H else ignored)
      | THERMAL_NOTIFY level \<Rightarrow> rc_of H (UpdateThermalLevel level)
      | SNAPSHOT_DONE \<Rightarrow> snapshot_done_notify H e
      | RESTART_STOP_PREVIEW \<Rightarrow> api H e (do { op0 H StopPreview; ret NO_ERROR })
      | RESTART_START_PREVIEW \<Rightarrow> api H e (restart_start H)
      | _ \<Rightarrow> ignored)"

definition previewing_capture :: "'p hwi \<Rightarrow> sm_evt \<Rightarrow> ('p, int32) smM" where
  "previewing_capture H e =
     (case e of
        START_AUTO_FOCUS \<Rightarrow> api H e (op H AutoFocus)
      | STOP_AUTO_FOCUS \<Rightarrow> api H e (op H CancelAutoFocus)
      | PRE_START_RECORDING \<Rightarrow> api H e (op H PreStartRecording)
      | START_RECORDING \<Rightarrow> api H e (previewing_start_recording H)
      | PREPARE_SNAPSHOT \<Rightarrow> previewing_prepare_snapshot H e
      | PRE_TAKE_PICTURE \<Rightarrow> api H e (op H PreTakePicture)
      | TAKE_PICTURE \<Rightarrow> previewing_take_picture H e
      | SEND_COMMAND p \<Rightarrow> api H e (previewing_send_command H p)
      | SEND_COMMAND_RESTART p \<Rightarrow> api H e (previewing_command_restart H p)
      | REG_FACE_IMAGE p \<Rightarrow> do_registerFaceImage H e p
      | CANCEL_PICTURE \<Rightarrow> invalid H e
      | STOP_RECORDING \<Rightarrow> invalid H e
      | RELEASE_RECORIDNG_FRAME _ \<Rightarrow> invalid H e
      | RELEASE \<Rightarrow> invalid H e
      | _ \<Rightarrow> previewing_events H e)"

definition previewing_preview :: "'p hwi \<Rightarrow> sm_evt \<Rightarrow> ('p, int32) smM" where
  "previewing_preview H e =
     (case e of
        PREPARE_PREVIEW \<Rightarrow> api H e (ret NO_ERROR)
      | START_PREVIEW \<Rightarrow> api H e (do { delayed_msgs H; ret NO_ERROR })
      | START_NODISPLAY_PREVIEW \<Rightarrow> api H e (do { delayed_msgs H; ret NO_ERROR })
      | STOP_PREVIEW \<Rightarrow> api H e (do {
          rc \<leftarrow> op H StopPreview; delayed_msgs H; goto PREVIEW_STOPPED; ret rc })
      | PREVIEW_ENABLED \<Rightarrow> do { delayed_msgs H; api_flag H e 1 }
      | RECORDING_ENABLED \<Rightarrow> api_flag H e 0
      | STORE_METADATA_IN_BUFS enable \<Rightarrow> api H e (rc_of H (StoreMetaDataInBuffers enable))
      | DUMP fd \<Rightarrow> api H e (rc_of H (Dump fd))
      | _ \<Rightarrow> previewing_capture H e)"

definition previewing_config :: "'p hwi \<Rightarrow> sm_evt \<Rightarrow> ('p, int32) smM" where
  "previewing_config H e =
     (case e of
        SET_PREVIEW_WINDOW _ \<Rightarrow> invalid H e
      | SET_CALLBACKS p \<Rightarrow> api H e (do_setCallBacks H p)
      | ENABLE_MSG_TYPE msgs \<Rightarrow> api H e (previewing_enable H msgs)
      | DISABLE_MSG_TYPE msgs \<Rightarrow> api H e (previewing_disable H msgs)
      | MSG_TYPE_ENABLED msgs \<Rightarrow> previewing_msg_enabled H e msgs
      | SET_PARAMS params \<Rightarrow> api H e (rc_of H (UpdateParameters params))
      | SET_PARAMS_STOP \<Rightarrow> api H e (do {
          rc \<leftarrow> op H StopPreview; op0 H MemoryPoolClear; ret rc })
      | SET_PARAMS_COMMIT \<Rightarrow> api H e (op H CommitParameterChanges)
      | SET_PARAMS_RESTART \<Rightarrow> api H e (previewing_params_restart H)
      | GET_PARAMS \<Rightarrow> do_getParameters H e
      | PUT_PARAMS params \<Rightarrow> api H e (rc_of H (PutParameters params))
      | _ \<Rightarrow> previewing_preview H e)"

definition procEvtPreviewingState :: "'p hwi \<Rightarrow> sm_evt \<Rightarrow> ('p, int32) smM" where
  "procEvtPreviewingState H e = previewing_config H e"

section \<open>PREPARE_SNAPSHOT\<close>

definition prepare_internal ::
  "'p hwi \<Rightarrow> qcamera_internal_evt_type \<Rightarrow> blob \<Rightarrow> ('p, int32) smM" where
  "prepare_internal H t d =
     (case t of
        INTERNAL_EVT_FOCUS_UPDATE \<Rightarrow> rc_of H (Meta ProcessAutoFocusEvent d)
      | INTERNAL_EVT_PREP_SNAPSHOT_DONE \<Rightarrow> do {
          call0 H (Meta ProcessPrepSnapshotDoneEvent d);
          goto PREVIEWING;
          signalAPI H SM_EVT_PREPARE_SNAPSHOT NO_ERROR RESULT_TYPE_DEF;
          ret NO_ERROR }
      | INTERNAL_EVT_FACE_DETECT_RESULT \<Rightarrow> rc_of H (Meta ProcessFaceDetectionResult d)
      | INTERNAL_EVT_HISTOGRAM_STATS \<Rightarrow> rc_of H (Meta ProcessHistogramStats d)
      | INTERNAL_EVT_CROP_INFO \<Rightarrow> rc_of H (Meta ProcessZoomEvent d)
      | INTERNAL_EVT_ASD_UPDATE \<Rightarrow> rc_of H (Meta ProcessASDUpdate d)
      | INTERNAL_EVT_LED_MODE_OVERRIDE \<Rightarrow> ignored
      | INTERNAL_EVT_AWB_UPDATE \<Rightarrow> rc_of H (Meta TransAwbMetaToParams d)
      | INTERNAL_EVT_AE_UPDATE \<Rightarrow> rc_of H (Meta ProcessAEInfo d)
      | INTERNAL_EVT_FOCUS_POS_UPDATE \<Rightarrow> rc_of H (Meta ProcessFocusPositionInfo d)
      | INTERNAL_EVT_HDR_UPDATE \<Rightarrow> rc_of H (Meta ProcessHDRData d)
      | INTERNAL_EVT_RETRO_AEC_UNLOCK \<Rightarrow> op H ProcessRetroAECUnlock
      | INTERNAL_EVT_ZSL_CAPTURE_DONE \<Rightarrow> op H ProcessZSLCaptureDone
      | _ \<Rightarrow> ignored)"

definition prepare_events :: "'p hwi \<Rightarrow> sm_evt \<Rightarrow> ('p, int32) smM" where
  "prepare_events H e =
     (case e of
        EVT_INTERNAL t d \<Rightarrow> prepare_internal H t d
      | EVT_NOTIFY t \<Rightarrow>
          (if t = CAM_EVENT_TYPE_DAEMON_DIED then daemon_died_waiters H else ignored)
      | SNAPSHOT_DONE \<Rightarrow> snapshot_done_notify H e
      | THERMAL_NOTIFY level \<Rightarrow> rc_of H (UpdateThermalLevel level)
      | _ \<Rightarrow> ignored)"

text \<open>The events the first labels of the \<open>switch\<close> reject.\<close>

fun prepare_rejected :: "qcamera_sm_evt_enum \<Rightarrow> bool" where
  "prepare_rejected SM_EVT_SET_PREVIEW_WINDOW = True"
| "prepare_rejected SM_EVT_SET_CALLBACKS = True"
| "prepare_rejected SM_EVT_ENABLE_MSG_TYPE = True"
| "prepare_rejected SM_EVT_DISABLE_MSG_TYPE = True"
| "prepare_rejected SM_EVT_MSG_TYPE_ENABLED = True"
| "prepare_rejected SM_EVT_SET_PARAMS = True"
| "prepare_rejected SM_EVT_SET_PARAMS_STOP = True"
| "prepare_rejected SM_EVT_SET_PARAMS_COMMIT = True"
| "prepare_rejected SM_EVT_SET_PARAMS_RESTART = True"
| "prepare_rejected SM_EVT_GET_PARAMS = True"
| "prepare_rejected SM_EVT_PUT_PARAMS = True"
| "prepare_rejected SM_EVT_PREPARE_PREVIEW = True"
| "prepare_rejected SM_EVT_START_PREVIEW = True"
| "prepare_rejected SM_EVT_START_NODISPLAY_PREVIEW = True"
| "prepare_rejected SM_EVT_STOP_PREVIEW = True"
| "prepare_rejected SM_EVT_PREVIEW_ENABLED = True"
| "prepare_rejected SM_EVT_RECORDING_ENABLED = True"
| "prepare_rejected SM_EVT_STORE_METADATA_IN_BUFS = True"
| "prepare_rejected SM_EVT_DUMP = True"
| "prepare_rejected SM_EVT_START_AUTO_FOCUS = True"
| "prepare_rejected SM_EVT_STOP_AUTO_FOCUS = True"
| "prepare_rejected SM_EVT_PRE_START_RECORDING = True"
| "prepare_rejected SM_EVT_RESTART_STOP_PREVIEW = True"
| "prepare_rejected SM_EVT_RESTART_START_PREVIEW = True"
| "prepare_rejected SM_EVT_START_RECORDING = True"
| "prepare_rejected SM_EVT_PRE_TAKE_PICTURE = True"
| "prepare_rejected SM_EVT_TAKE_PICTURE = True"
| "prepare_rejected SM_EVT_PREPARE_SNAPSHOT = True"
| "prepare_rejected SM_EVT_SEND_COMMAND = True"
| "prepare_rejected SM_EVT_CANCEL_PICTURE = True"
| "prepare_rejected SM_EVT_STOP_RECORDING = True"
| "prepare_rejected SM_EVT_RELEASE_RECORIDNG_FRAME = True"
| "prepare_rejected SM_EVT_RELEASE = True"
| "prepare_rejected _ = False"

definition procEvtPrepareSnapshotState :: "'p hwi \<Rightarrow> sm_evt \<Rightarrow> ('p, int32) smM" where
  "procEvtPrepareSnapshotState H e =
     (if prepare_rejected (evt_id e) then invalid H e else prepare_events H e)"

text \<open>The definitions of each handler, for the proofs that go through all its cases.\<close>

lemmas previewing_defs =
  previewing_enable_def previewing_disable_def previewing_msg_enabled_def
  previewing_params_restart_def previewing_start_recording_def previewing_prepare_snapshot_def
  take_zsl_def take_regular_def previewing_take_picture_def
  previewing_send_command_def previewing_command_restart_def restart_start_def
  previewing_internal_def previewing_events_def previewing_capture_def previewing_preview_def
  previewing_config_def procEvtPreviewingState_def

lemmas prepare_defs =
  prepare_internal_def prepare_events_def procEvtPrepareSnapshotState_def

text \<open>
  Clearing the hint comes first in the longest handler of the machine; the object it leaves is kept
  folded, like that after a call.
\<close>

definition hint_cleared :: "'p hwi \<Rightarrow> 'p sm \<Rightarrow> 'p sm" where
  "hint_cleared H s = snd (run_state (take_clear_hint H) s)"

lemma wp_take_clear_hint [wp_simps]: "wp (take_clear_hint H) Q s = Q () (hint_cleared H s)"
  by (simp add: wp_run hint_cleared_def)

lemma hint_cleared_simps [simp]:
  "m_state (hint_cleared H s) = m_state s"
  "m_bDelayPreviewMsgs (hint_cleared H s) = m_bDelayPreviewMsgs s"
  "m_DelayedMsgs (hint_cleared H s) = m_DelayedMsgs s"
  "m_bPreviewNeedsRestart (hint_cleared H s) = m_bPreviewNeedsRestart s"
  "m_bPreviewDelayedRestart (hint_cleared H s) = m_bPreviewDelayedRestart s"
  "api_results (calls (hint_cleared H s)) = api_results (calls s)"
proof -
  have "wp (take_clear_hint H) (\<lambda>_ t. m_state t = m_state s
     \<and> m_bDelayPreviewMsgs t = m_bDelayPreviewMsgs s \<and> m_DelayedMsgs t = m_DelayedMsgs s
     \<and> m_bPreviewNeedsRestart t = m_bPreviewNeedsRestart s
     \<and> m_bPreviewDelayedRestart t = m_bPreviewDelayedRestart s
     \<and> api_results (calls t) = api_results (calls s)) s"
    by (simp add: take_clear_hint_def wp_bind wp_query wp_if wp_return wp_call0 wp_rc_of)
  then show
    "m_state (hint_cleared H s) = m_state s"
    "m_bDelayPreviewMsgs (hint_cleared H s) = m_bDelayPreviewMsgs s"
    "m_DelayedMsgs (hint_cleared H s) = m_DelayedMsgs s"
    "m_bPreviewNeedsRestart (hint_cleared H s) = m_bPreviewNeedsRestart s"
    "m_bPreviewDelayedRestart (hint_cleared H s) = m_bPreviewDelayedRestart s"
    "api_results (calls (hint_cleared H s)) = api_results (calls s)"
    by (simp_all add: wp_run hint_cleared_def)
qed

text \<open>The calls it may make.\<close>

fun hint_call :: "hwi_call \<Rightarrow> bool" where
  "hint_call (Query q) = (q = GetRecordingHintValue)"
| "hint_call (Op f) = (f = StopPreview \<or> f = PreparePreview \<or> f = StartPreview \<or> f = UnpreparePreview)"
| "hint_call (UpdateRecordingHintValue b) = (b = False)"
| "hint_call _ = False"

lemma filter_hint_cleared [simp]:
  assumes "\<And>c. hint_call c \<Longrightarrow> \<not> P c"
  shows "filter P (calls (hint_cleared H s)) = filter P (calls s)"
proof -
  have "wp (take_clear_hint H) (\<lambda>_ t. filter P (calls t) = filter P (calls s)) s"
    by (simp add: take_clear_hint_def wp_simps assms del: wp_take_clear_hint)
  then show ?thesis
    by (simp add: wp_run hint_cleared_def)
qed

end
