(* ===== verification/SMPicTaking.thy ===== *)
theory SMPicTaking
  imports SMCore
begin

text \<open>
  \<open>procEvtPicTakingState\<close>: a picture is being taken and the preview does not run.
\<close>

section \<open>PIC_TAKING\<close>

text \<open>The end of a capture in this state: the picture is cancelled and the preview is stopped.\<close>

definition pic_cancel :: "'p hwi \<Rightarrow> ('p, int32) smM" where
  "pic_cancel H = do { rc \<leftarrow> op H CancelPicture; goto PREVIEW_STOPPED; ret rc }"

text \<open>Under \<open>#ifndef VANILLA_HAL\<close> the end of a longshot goes back to the preview (two states).\<close>

definition longshot_send_command :: "'p hwi \<Rightarrow> command_payload \<Rightarrow> ('p, int32) smM" where
  "longshot_send_command H p = do {
     rc \<leftarrow> do_sendCommand H p;
     (if \<not> vanilla_hal H \<and> cmd_longshot_off H = cmd p then goto PREVIEWING else skip);
     ret rc }"

text \<open>A picture while one is being taken is only possible in a longshot (two states).\<close>

definition longshot_pre_take :: "'p hwi \<Rightarrow> ('p, int32) smM" where
  "longshot_pre_take H = do {
     longshot \<leftarrow> query H IsLongshotEnabled;
     ret (if longshot then NO_ERROR else INVALID_OPERATION) }"

definition longshot_take :: "'p hwi \<Rightarrow> ('p, int32) smM" where
  "longshot_take H = do {
     longshot \<leftarrow> query H IsLongshotEnabled;
     (if longshot then op H LongShot else ret INVALID_OPERATION) }"

text \<open>Preparing and starting the preview again, once a capture is over.\<close>

definition pic_restart_preview :: "'p hwi \<Rightarrow> ('p, int32) smM" where
  "pic_restart_preview H = do {
     rc \<leftarrow> op H PreparePreview;
     (if rc = NO_ERROR then do {
        op0 H Set_m_bPreviewStarted;
        delayed_msgs H;
        op H StartPreview }
      else ret rc) }"

definition pic_stop_capture_channel :: "'p hwi \<Rightarrow> ('p, int32) smM" where
  "pic_stop_capture_channel H = do {
     restartPreview \<leftarrow> query H IsPreviewRestartEnabled;
     rc \<leftarrow> rc_of H (StopCaptureChannel restartPreview);
     (if restartPreview \<and> rc = NO_ERROR then pic_restart_preview H else ret rc) }"

definition pic_snapshot_done :: "'p hwi \<Rightarrow> sm_evt \<Rightarrow> ('p, int32) smM" where
  "pic_snapshot_done H e = do {
     rc \<leftarrow> op H CancelPicture;
     restartPreview \<leftarrow> query H IsPreviewRestartEnabled;
     rc \<leftarrow> (if restartPreview then do {
         manual \<leftarrow> rc_of H (Query GetManualCaptureMode);
         rc \<leftarrow> (if 3 \<le> sint manual then do {
             restore \<leftarrow> gets m_RestoreZSL;
             call0 H (UpdateZSLModeValue restore);
             modify (\<lambda>s. s\<lparr>m_RestoreZSL := False\<rparr>);
             pic_restart_preview H }
           else ret rc);
         goto PREVIEWING;
         ret rc }
       else do { goto PREVIEW_STOPPED; ret rc });
     signalEvt H (evt_id e) rc;
     ret rc }"

definition pic_internal ::
  "'p hwi \<Rightarrow> qcamera_internal_evt_type \<Rightarrow> blob \<Rightarrow> ('p, int32) smM" where
  "pic_internal H t d =
     (case t of
        INTERNAL_EVT_FOCUS_UPDATE \<Rightarrow> rc_of H (Meta ProcessAutoFocusEvent d)
      | INTERNAL_EVT_PREP_SNAPSHOT_DONE \<Rightarrow> ignored
      | INTERNAL_EVT_FACE_DETECT_RESULT \<Rightarrow> ignored
      | INTERNAL_EVT_HISTOGRAM_STATS \<Rightarrow> ignored
      | INTERNAL_EVT_CROP_INFO \<Rightarrow> rc_of H (Meta ProcessZoomEvent d)
      | INTERNAL_EVT_ASD_UPDATE \<Rightarrow> rc_of H (Meta ProcessASDUpdate d)
      | INTERNAL_EVT_LED_MODE_OVERRIDE \<Rightarrow> ignored
      | INTERNAL_EVT_AWB_UPDATE \<Rightarrow> rc_of H (Meta TransAwbMetaToParams d)
      | INTERNAL_EVT_AE_UPDATE \<Rightarrow> rc_of H (Meta ProcessAEInfo d)
      | INTERNAL_EVT_FOCUS_POS_UPDATE \<Rightarrow> rc_of H (Meta ProcessFocusPositionInfo d)
      | INTERNAL_EVT_HDR_UPDATE \<Rightarrow> rc_of H (Meta ProcessHDRData d)
      | INTERNAL_EVT_RETRO_AEC_UNLOCK \<Rightarrow> op H ProcessRetroAECUnlock
      | INTERNAL_EVT_ZSL_CAPTURE_DONE \<Rightarrow> op H ProcessZSLCaptureDone
      | _ \<Rightarrow> ignored)"

definition pic_events :: "'p hwi \<Rightarrow> sm_evt \<Rightarrow> ('p, int32) smM" where
  "pic_events H e =
     (case e of
        EVT_INTERNAL t d \<Rightarrow> pic_internal H t d
      | EVT_NOTIFY t \<Rightarrow>
          (if t = CAM_EVENT_TYPE_DAEMON_DIED then daemon_died_waiters H
           else if t = CAM_EVENT_TYPE_CAC_DONE then cac_done H
           else ignored)
      | JPEG_EVT_NOTIFY job \<Rightarrow> rc_of H (ProcessJpegNotify job)
      | STOP_CAPTURE_CHANNEL \<Rightarrow> api H e (pic_stop_capture_channel H)
      | SNAPSHOT_DONE \<Rightarrow> pic_snapshot_done H e
      | THERMAL_NOTIFY level \<Rightarrow> rc_of H (UpdateThermalLevel level)
      | _ \<Rightarrow> ignored)"

definition pic_capture :: "'p hwi \<Rightarrow> sm_evt \<Rightarrow> ('p, int32) smM" where
  "pic_capture H e =
     (case e of
        SEND_COMMAND p \<Rightarrow> api H e (longshot_send_command H p)
      | CANCEL_PICTURE \<Rightarrow> api H e (pic_cancel H)
      | REG_FACE_IMAGE p \<Rightarrow> do_registerFaceImage H e p
      | PRE_TAKE_PICTURE \<Rightarrow> api H e (longshot_pre_take H)
      | TAKE_PICTURE \<Rightarrow> api H e (longshot_take H)
      | PREPARE_SNAPSHOT \<Rightarrow> invalid H e
      | PRE_START_RECORDING \<Rightarrow> invalid H e
      | RESTART_STOP_PREVIEW \<Rightarrow> invalid H e
      | RESTART_START_PREVIEW \<Rightarrow> invalid H e
      | START_RECORDING \<Rightarrow> invalid H e
      | STOP_RECORDING \<Rightarrow> invalid H e
      | RELEASE_RECORIDNG_FRAME _ \<Rightarrow> invalid H e
      | PREPARE_PREVIEW \<Rightarrow> invalid H e
      | START_PREVIEW \<Rightarrow> invalid H e
      | START_NODISPLAY_PREVIEW \<Rightarrow> invalid H e
      | RELEASE \<Rightarrow> invalid H e
      | _ \<Rightarrow> pic_events H e)"

definition pic_config :: "'p hwi \<Rightarrow> sm_evt \<Rightarrow> ('p, int32) smM" where
  "pic_config H e =
     (case e of
        SET_PREVIEW_WINDOW _ \<Rightarrow> invalid H e
      | SET_CALLBACKS p \<Rightarrow> api H e (do_setCallBacks H p)
      | ENABLE_MSG_TYPE msgs \<Rightarrow> api H e (rc_of H (EnableMsgType msgs))
      | DISABLE_MSG_TYPE msgs \<Rightarrow> api H e (rc_of H (DisableMsgType msgs))
      | MSG_TYPE_ENABLED msgs \<Rightarrow> do_msgTypeEnabled H e msgs
      | SET_PARAMS params \<Rightarrow> api H e (rc_of H (UpdateParameters params))
      | SET_PARAMS_STOP \<Rightarrow> api H e (ret NO_ERROR)
      | SET_PARAMS_COMMIT \<Rightarrow> api H e (op H CommitParameterChanges)
      | SET_PARAMS_RESTART \<Rightarrow> api H e (do { call0 H (SetNeedRestart False); ret NO_ERROR })
      | GET_PARAMS \<Rightarrow> do_getParameters H e
      | PUT_PARAMS params \<Rightarrow> api H e (rc_of H (PutParameters params))
      | STOP_PREVIEW \<Rightarrow> api H e (pic_cancel H)
      | PREVIEW_ENABLED \<Rightarrow> api_flag H e 0
      | RECORDING_ENABLED \<Rightarrow> api_flag H e 0
      | STORE_METADATA_IN_BUFS enable \<Rightarrow> api H e (rc_of H (StoreMetaDataInBuffers enable))
      | DUMP fd \<Rightarrow> api H e (rc_of H (Dump fd))
      | START_AUTO_FOCUS \<Rightarrow> api H e (op H AutoFocus)
      | STOP_AUTO_FOCUS \<Rightarrow> api H e (op H CancelAutoFocus)
      | _ \<Rightarrow> pic_capture H e)"

definition procEvtPicTakingState :: "'p hwi \<Rightarrow> sm_evt \<Rightarrow> ('p, int32) smM" where
  "procEvtPicTakingState H e = pic_config H e"

text \<open>The definitions of each handler, for the proofs that go through all its cases.\<close>

lemmas pic_defs =
  pic_cancel_def longshot_send_command_def longshot_pre_take_def longshot_take_def
  pic_restart_preview_def pic_stop_capture_channel_def pic_snapshot_done_def pic_internal_def
  pic_events_def pic_capture_def pic_config_def procEvtPicTakingState_def

end
