(* ===== verification/SMRecording.thy ===== *)
theory SMRecording
  imports SMCore
begin

text \<open>
  \<open>procEvtRecordingState\<close> and \<open>procEvtVideoPicTakingState\<close>: a video is being recorded, without and
  with a live snapshot in progress.
\<close>

text \<open>Parameters that need a restart of the preview are refused while a video is recorded.\<close>

definition recording_set_params :: "'p hwi \<Rightarrow> string \<Rightarrow> ('p, int32) smM" where
  "recording_set_params H params = do {
     r \<leftarrow> call H (UpdateParameters params);
     let rc = (if r_int r = NO_ERROR \<and> r_needRestart r then BAD_VALUE else r_int r);
     (if rc \<noteq> NO_ERROR then call0 H (SetNeedRestart False) else skip);
     ret rc }"

text \<open>The internal events are handled alike in both states.\<close>

definition recording_internal ::
  "'p hwi \<Rightarrow> qcamera_internal_evt_type \<Rightarrow> blob \<Rightarrow> ('p, int32) smM" where
  "recording_internal H t d =
     (case t of
        INTERNAL_EVT_FOCUS_UPDATE \<Rightarrow> rc_of H (Meta ProcessAutoFocusEvent d)
      | INTERNAL_EVT_PREP_SNAPSHOT_DONE \<Rightarrow> ignored
      | INTERNAL_EVT_FACE_DETECT_RESULT \<Rightarrow> rc_of H (Meta ProcessFaceDetectionResult d)
      | INTERNAL_EVT_HISTOGRAM_STATS \<Rightarrow> rc_of H (Meta ProcessHistogramStats d)
      | INTERNAL_EVT_CROP_INFO \<Rightarrow> rc_of H (Meta ProcessZoomEvent d)
      | INTERNAL_EVT_ASD_UPDATE \<Rightarrow> rc_of H (Meta ProcessASDUpdate d)
      | INTERNAL_EVT_LED_MODE_OVERRIDE \<Rightarrow> ignored
      | INTERNAL_EVT_AWB_UPDATE \<Rightarrow> rc_of H (Meta TransAwbMetaToParams d)
      | INTERNAL_EVT_AE_UPDATE \<Rightarrow> rc_of H (Meta ProcessAEInfo d)
      | INTERNAL_EVT_FOCUS_POS_UPDATE \<Rightarrow> rc_of H (Meta ProcessFocusPositionInfo d)
      | INTERNAL_EVT_HDR_UPDATE \<Rightarrow> rc_of H (Meta ProcessHDRData d)
      | INTERNAL_EVT_RETRO_AEC_UNLOCK \<Rightarrow> op H ProcessRetroAECUnlock
      | INTERNAL_EVT_ZSL_CAPTURE_DONE \<Rightarrow> op H ProcessZSLCaptureDone
      | _ \<Rightarrow> ignored)"

section \<open>RECORDING\<close>

definition recording_take_picture :: "'p hwi \<Rightarrow> ('p, int32) smM" where
  "recording_take_picture H = do {
     goto VIDEO_PIC_TAKING;
     rc \<leftarrow> op H TakeLiveSnapshot;
     (if rc \<noteq> NO_ERROR then do { op0 H UnconfigureAdvancedCapture; goto RECORDING } else skip);
     ret rc }"

text \<open>The status of \<open>stopRecording\<close> is overwritten by that of \<open>stopPreview\<close>.\<close>

definition recording_stop_preview :: "'p hwi \<Rightarrow> ('p, int32) smM" where
  "recording_stop_preview H = do {
     op0 H StopRecording;
     goto PREVIEWING;
     rc \<leftarrow> op H StopPreview;
     goto PREVIEW_STOPPED;
     ret rc }"

definition recording_events :: "'p hwi \<Rightarrow> sm_evt \<Rightarrow> ('p, int32) smM" where
  "recording_events H e =
     (case e of
        CANCEL_PICTURE \<Rightarrow> invalid H e
      | START_NODISPLAY_PREVIEW \<Rightarrow> invalid H e
      | RELEASE \<Rightarrow> invalid H e
      | EVT_INTERNAL t d \<Rightarrow> recording_internal H t d
      | EVT_NOTIFY t \<Rightarrow> (if t = CAM_EVENT_TYPE_DAEMON_DIED then daemon_died H else ignored)
      | THERMAL_NOTIFY level \<Rightarrow> rc_of H (UpdateThermalLevel level)
      | SNAPSHOT_DONE \<Rightarrow> snapshot_done_notify H e
      | _ \<Rightarrow> ignored)"

definition recording_capture :: "'p hwi \<Rightarrow> sm_evt \<Rightarrow> ('p, int32) smM" where
  "recording_capture H e =
     (case e of
        SEND_COMMAND p \<Rightarrow> api H e (do_sendCommand H p)
      | PRE_TAKE_PICTURE \<Rightarrow> api H e (ret NO_ERROR)
      | TAKE_PICTURE \<Rightarrow> api H e (recording_take_picture H)
      | PRE_START_RECORDING \<Rightarrow> api H e (ret 0)
      | RESTART_STOP_PREVIEW \<Rightarrow> api H e (ret 0)
      | RESTART_START_PREVIEW \<Rightarrow> api H e (ret 0)
      | START_RECORDING \<Rightarrow> api H e (ret 0)
      | STOP_RECORDING \<Rightarrow> api H e (do { rc \<leftarrow> op H StopRecording; goto PREVIEWING; ret rc })
      | STOP_PREVIEW \<Rightarrow> api H e (recording_stop_preview H)
      | RELEASE_RECORIDNG_FRAME opaque \<Rightarrow> api H e (rc_of H (ReleaseRecordingFrame opaque))
      | REG_FACE_IMAGE p \<Rightarrow> do_registerFaceImage H e p
      | PREPARE_SNAPSHOT \<Rightarrow> api H e (ret NO_ERROR)
      | _ \<Rightarrow> recording_events H e)"

definition recording_config :: "'p hwi \<Rightarrow> sm_evt \<Rightarrow> ('p, int32) smM" where
  "recording_config H e =
     (case e of
        PREPARE_PREVIEW \<Rightarrow> api H e (ret NO_ERROR)
      | START_PREVIEW \<Rightarrow> api H e (ret NO_ERROR)
      | SET_PREVIEW_WINDOW _ \<Rightarrow> api H e (ret NO_ERROR)
      | SET_CALLBACKS p \<Rightarrow> api H e (do_setCallBacks H p)
      | ENABLE_MSG_TYPE msgs \<Rightarrow> api H e (rc_of H (EnableMsgType msgs))
      | DISABLE_MSG_TYPE msgs \<Rightarrow> api H e (rc_of H (DisableMsgType msgs))
      | MSG_TYPE_ENABLED msgs \<Rightarrow> do_msgTypeEnabled H e msgs
      | SET_PARAMS params \<Rightarrow> api H e (recording_set_params H params)
      | SET_PARAMS_COMMIT \<Rightarrow> api H e (op H CommitParameterChanges)
      | SET_PARAMS_STOP \<Rightarrow> invalid H e
      | SET_PARAMS_RESTART \<Rightarrow> invalid H e
      | GET_PARAMS \<Rightarrow> do_getParameters H e
      | PUT_PARAMS params \<Rightarrow> api H e (rc_of H (PutParameters params))
      | PREVIEW_ENABLED \<Rightarrow> api_flag H e 0
      | RECORDING_ENABLED \<Rightarrow> api_flag H e 1
      | STORE_METADATA_IN_BUFS enable \<Rightarrow> api H e (rc_of H (StoreMetaDataInBuffers enable))
      | DUMP fd \<Rightarrow> api H e (rc_of H (Dump fd))
      | START_AUTO_FOCUS \<Rightarrow> api H e (op H AutoFocus)
      | STOP_AUTO_FOCUS \<Rightarrow> api H e (op H CancelAutoFocus)
      | _ \<Rightarrow> recording_capture H e)"

definition procEvtRecordingState :: "'p hwi \<Rightarrow> sm_evt \<Rightarrow> ('p, int32) smM" where
  "procEvtRecordingState H e = recording_config H e"

section \<open>VIDEO_PIC_TAKING\<close>

definition video_cancel :: "'p hwi \<Rightarrow> ('p, int32) smM" where
  "video_cancel H = do { rc \<leftarrow> op H CancelLiveSnapshot; goto RECORDING; ret rc }"

definition video_stop_recording :: "'p hwi \<Rightarrow> ('p, int32) smM" where
  "video_stop_recording H = do {
     op0 H CancelLiveSnapshot;
     goto RECORDING;
     rc \<leftarrow> op H StopRecording;
     goto PREVIEWING;
     ret rc }"

definition video_stop_preview :: "'p hwi \<Rightarrow> ('p, int32) smM" where
  "video_stop_preview H = do {
     op0 H CancelLiveSnapshot;
     goto RECORDING;
     op0 H StopRecording;
     goto PREVIEWING;
     rc \<leftarrow> op H StopPreview;
     goto PREVIEW_STOPPED;
     ret rc }"

definition video_snapshot_done :: "'p hwi \<Rightarrow> sm_evt \<Rightarrow> ('p, int32) smM" where
  "video_snapshot_done H e = do { rc \<leftarrow> video_cancel H; signalEvt H (evt_id e) rc; ret rc }"

definition video_events :: "'p hwi \<Rightarrow> sm_evt \<Rightarrow> ('p, int32) smM" where
  "video_events H e =
     (case e of
        EVT_INTERNAL t d \<Rightarrow> recording_internal H t d
      | EVT_NOTIFY t \<Rightarrow> (if t = CAM_EVENT_TYPE_DAEMON_DIED then daemon_died H else ignored)
      | JPEG_EVT_NOTIFY job \<Rightarrow> rc_of H (ProcessJpegNotify job)
      | SNAPSHOT_DONE \<Rightarrow> video_snapshot_done H e
      | THERMAL_NOTIFY level \<Rightarrow> rc_of H (UpdateThermalLevel level)
      | _ \<Rightarrow> ignored)"

definition video_capture :: "'p hwi \<Rightarrow> sm_evt \<Rightarrow> ('p, int32) smM" where
  "video_capture H e =
     (case e of
        SEND_COMMAND p \<Rightarrow> api H e (do_sendCommand H p)
      | STOP_RECORDING \<Rightarrow> api H e (video_stop_recording H)
      | RELEASE_RECORIDNG_FRAME opaque \<Rightarrow> api H e (rc_of H (ReleaseRecordingFrame opaque))
      | CANCEL_PICTURE \<Rightarrow> api H e (video_cancel H)
      | REG_FACE_IMAGE p \<Rightarrow> do_registerFaceImage H e p
      | STOP_PREVIEW \<Rightarrow> api H e (video_stop_preview H)
      | PRE_START_RECORDING \<Rightarrow> invalid H e
      | RESTART_STOP_PREVIEW \<Rightarrow> invalid H e
      | RESTART_START_PREVIEW \<Rightarrow> invalid H e
      | START_RECORDING \<Rightarrow> invalid H e
      | PREPARE_PREVIEW \<Rightarrow> invalid H e
      | START_PREVIEW \<Rightarrow> invalid H e
      | START_NODISPLAY_PREVIEW \<Rightarrow> invalid H e
      | PREPARE_SNAPSHOT \<Rightarrow> invalid H e
      | PRE_TAKE_PICTURE \<Rightarrow> invalid H e
      | TAKE_PICTURE \<Rightarrow> invalid H e
      | RELEASE \<Rightarrow> invalid H e
      | _ \<Rightarrow> video_events H e)"

definition video_config :: "'p hwi \<Rightarrow> sm_evt \<Rightarrow> ('p, int32) smM" where
  "video_config H e =
     (case e of
        SET_PREVIEW_WINDOW _ \<Rightarrow> invalid H e
      | SET_CALLBACKS p \<Rightarrow> api H e (do_setCallBacks H p)
      | ENABLE_MSG_TYPE msgs \<Rightarrow> api H e (rc_of H (EnableMsgType msgs))
      | DISABLE_MSG_TYPE msgs \<Rightarrow> api H e (rc_of H (DisableMsgType msgs))
      | MSG_TYPE_ENABLED msgs \<Rightarrow> do_msgTypeEnabled H e msgs
      | SET_PARAMS params \<Rightarrow> api H e (recording_set_params H params)
      | SET_PARAMS_COMMIT \<Rightarrow> api H e (op H CommitParameterChanges)
      | SET_PARAMS_STOP \<Rightarrow> invalid H e
      | SET_PARAMS_RESTART \<Rightarrow> invalid H e
      | GET_PARAMS \<Rightarrow> do_getParameters H e
      | PUT_PARAMS params \<Rightarrow> api H e (rc_of H (PutParameters params))
      | PREVIEW_ENABLED \<Rightarrow> api_flag H e 1
      | RECORDING_ENABLED \<Rightarrow> api_flag H e 1
      | STORE_METADATA_IN_BUFS enable \<Rightarrow> api H e (rc_of H (StoreMetaDataInBuffers enable))
      | DUMP fd \<Rightarrow> api H e (rc_of H (Dump fd))
      | START_AUTO_FOCUS \<Rightarrow> api H e (op H AutoFocus)
      | STOP_AUTO_FOCUS \<Rightarrow> api H e (op H CancelAutoFocus)
      | _ \<Rightarrow> video_capture H e)"

definition procEvtVideoPicTakingState :: "'p hwi \<Rightarrow> sm_evt \<Rightarrow> ('p, int32) smM" where
  "procEvtVideoPicTakingState H e = video_config H e"

text \<open>The definitions of each handler, for the proofs that go through all its cases.\<close>

lemmas recording_defs =
  recording_set_params_def recording_internal_def recording_take_picture_def
  recording_stop_preview_def recording_events_def recording_capture_def recording_config_def
  procEvtRecordingState_def

lemmas video_defs =
  recording_set_params_def recording_internal_def video_cancel_def video_stop_recording_def
  video_stop_preview_def video_snapshot_done_def video_events_def video_capture_def
  video_config_def procEvtVideoPicTakingState_def

end
