(* ===== verification/SMPreviewPicTaking.thy ===== *)
theory SMPreviewPicTaking
  imports SMPicTaking SMPreviewing
begin

text \<open>
  \<open>procEvtPreviewPicTakingState\<close>: a picture is being taken while the preview runs (zero shutter lag,
  longshot, or a live snapshot).
\<close>

section \<open>PREVIEW_PIC_TAKING\<close>

definition ppt_params_restart :: "'p hwi \<Rightarrow> ('p, int32) smM" where
  "ppt_params_restart H = do {
     rc \<leftarrow> op H PreparePreview;
     rc \<leftarrow> (if rc = NO_ERROR then do {
         delayed_msgs H;
         rc \<leftarrow> op H StartPreview;
         (if rc \<noteq> NO_ERROR then op0 H UnpreparePreview else skip);
         ret rc }
       else ret rc);
     (if rc \<noteq> NO_ERROR then goto PIC_TAKING else skip);
     call0 H (SetNeedRestart False);
     ret rc }"

text \<open>A ZSL or longshot capture is cancelled as a picture, any other as a live snapshot.\<close>

definition ppt_cancel :: "'p hwi \<Rightarrow> ('p, int32) smM" where
  "ppt_cancel H = do {
     zsl \<leftarrow> query H IsZSLMode;
     longshot \<leftarrow> (if zsl then State_Monad.return True else query H IsLongshotEnabled);
     rc \<leftarrow> (if longshot then op H CancelPicture else op H CancelLiveSnapshot);
     goto PREVIEWING;
     ret rc }"

definition ppt_stop_preview :: "'p hwi \<Rightarrow> ('p, int32) smM" where
  "ppt_stop_preview H = do {
     zsl \<leftarrow> query H IsZSLMode;
     rc \<leftarrow> (if zsl then do {
         rc \<leftarrow> op H CancelPicture;
         call0 H (StopChannel QCAMERA_CH_TYPE_ZSL);
         ret rc }
       else do {
         longshot \<leftarrow> query H IsLongshotEnabled;
         (if longshot then op H CancelPicture
          else do {
            rc \<leftarrow> op H CancelLiveSnapshot;
            call0 H (StopChannel QCAMERA_CH_TYPE_PREVIEW);
            ret rc }) });
     op0 H UnpreparePreview;
     goto PREVIEW_STOPPED;
     ret rc }"

text \<open>Recording during a capture is refused in ZSL mode and in a longshot.\<close>

definition ppt_unless_burst :: "'p hwi \<Rightarrow> ('p, int32) smM \<Rightarrow> ('p, int32) smM" where
  "ppt_unless_burst H m = do {
     zsl \<leftarrow> query H IsZSLMode;
     (if zsl then ret INVALID_OPERATION
      else do {
        longshot \<leftarrow> query H IsLongshotEnabled;
        (if longshot then ret INVALID_OPERATION else m) }) }"

definition ppt_pre_start_recording :: "'p hwi \<Rightarrow> ('p, int32) smM" where
  "ppt_pre_start_recording H = ppt_unless_burst H (op H PreStartRecording)"

definition ppt_start_recording :: "'p hwi \<Rightarrow> ('p, int32) smM" where
  "ppt_start_recording H = ppt_unless_burst H (do {
     rc \<leftarrow> op H StartRecording;
     (if rc = NO_ERROR then goto VIDEO_PIC_TAKING else skip);
     ret rc })"

definition ppt_prepare_snapshot :: "'p hwi \<Rightarrow> sm_evt \<Rightarrow> ('p, int32) smM" where
  "ppt_prepare_snapshot H e = do {
     retro \<leftarrow> query H IsRetroPicture;
     (if retro then do {
        rc \<leftarrow> rc_of H (PrepareHardwareForSnapshot False);
        (if rc \<noteq> NO_ERROR then signalAPI H (evt_id e) rc RESULT_TYPE_DEF else skip);
        ret rc }
      else api H e (ret INVALID_OPERATION)) }"

definition ppt_prep_snapshot_done :: "'p hwi \<Rightarrow> blob \<Rightarrow> ('p, int32) smM" where
  "ppt_prep_snapshot_done H d = do {
     retro \<leftarrow> query H IsRetroPicture;
     (if retro then do {
        call0 H (Meta ProcessPrepSnapshotDoneEvent d);
        signalAPI H SM_EVT_PREPARE_SNAPSHOT NO_ERROR RESULT_TYPE_DEF }
      else skip);
     ret NO_ERROR }"

definition ppt_ready_for_snapshot :: "'p hwi \<Rightarrow> ('p, int32) smM" where
  "ppt_ready_for_snapshot H = do {
     retro \<leftarrow> query H IsRetroPicture;
     (if retro then signalAPI H SM_EVT_TAKE_PICTURE NO_ERROR RESULT_TYPE_DEF else skip);
     ret NO_ERROR }"

definition ppt_internal ::
  "'p hwi \<Rightarrow> qcamera_internal_evt_type \<Rightarrow> blob \<Rightarrow> ('p, int32) smM" where
  "ppt_internal H t d =
     (case t of
        INTERNAL_EVT_FOCUS_UPDATE \<Rightarrow> rc_of H (Meta ProcessAutoFocusEvent d)
      | INTERNAL_EVT_PREP_SNAPSHOT_DONE \<Rightarrow> ppt_prep_snapshot_done H d
      | INTERNAL_EVT_FACE_DETECT_RESULT \<Rightarrow> rc_of H (Meta ProcessFaceDetectionResult d)
      | INTERNAL_EVT_READY_FOR_SNAPSHOT \<Rightarrow> ppt_ready_for_snapshot H
      | INTERNAL_EVT_HISTOGRAM_STATS \<Rightarrow> rc_of H (Meta ProcessHistogramStats d)
      | INTERNAL_EVT_CROP_INFO \<Rightarrow> rc_of H (Meta ProcessZoomEvent d)
      | INTERNAL_EVT_ASD_UPDATE \<Rightarrow> rc_of H (Meta ProcessASDUpdate d)
      | INTERNAL_EVT_LED_MODE_OVERRIDE \<Rightarrow> ignored
      | INTERNAL_EVT_AWB_UPDATE \<Rightarrow> rc_of H (Meta TransAwbMetaToParams d)
      | INTERNAL_EVT_AE_UPDATE \<Rightarrow> rc_of H (Meta ProcessAEInfo d)
      | INTERNAL_EVT_FOCUS_POS_UPDATE \<Rightarrow> rc_of H (Meta ProcessFocusPositionInfo d)
      | INTERNAL_EVT_HDR_UPDATE \<Rightarrow> rc_of H (Meta ProcessHDRData d)
      | INTERNAL_EVT_RETRO_AEC_UNLOCK \<Rightarrow> op H ProcessRetroAECUnlock
      | INTERNAL_EVT_ZSL_CAPTURE_DONE \<Rightarrow> op H ProcessZSLCaptureDone
      | _ \<Rightarrow> ignored)"

definition ppt_snapshot_done :: "'p hwi \<Rightarrow> sm_evt \<Rightarrow> ('p, int32) smM" where
  "ppt_snapshot_done H e = do {
     rc \<leftarrow> ppt_cancel H;
     retro \<leftarrow> query H IsRetroPicture;
     (if retro then signalAPI H (evt_id e) rc RESULT_TYPE_DEF else skip);
     signalEvt H (evt_id e) rc;
     ret rc }"

definition ppt_events :: "'p hwi \<Rightarrow> sm_evt \<Rightarrow> ('p, int32) smM" where
  "ppt_events H e =
     (case e of
        EVT_INTERNAL t d \<Rightarrow> ppt_internal H t d
      | EVT_NOTIFY t \<Rightarrow>
          (if t = CAM_EVENT_TYPE_DAEMON_DIED then daemon_died_waiters H
           else if t = CAM_EVENT_TYPE_CAC_DONE then cac_done H
           else ignored)
      | JPEG_EVT_NOTIFY job \<Rightarrow> rc_of H (ProcessJpegNotify job)
      | SNAPSHOT_DONE \<Rightarrow> ppt_snapshot_done H e
      | THERMAL_NOTIFY level \<Rightarrow> rc_of H (UpdateThermalLevel level)
      | RESTART_STOP_PREVIEW \<Rightarrow> api H e (do { op0 H StopPreview; ret NO_ERROR })
      | RESTART_START_PREVIEW \<Rightarrow> api H e (restart_start H)
      | _ \<Rightarrow> ignored)"

definition ppt_capture :: "'p hwi \<Rightarrow> sm_evt \<Rightarrow> ('p, int32) smM" where
  "ppt_capture H e =
     (case e of
        SEND_COMMAND p \<Rightarrow> api H e (longshot_send_command H p)
      | RELEASE_RECORIDNG_FRAME opaque \<Rightarrow> api H e (rc_of H (ReleaseRecordingFrame opaque))
      | CANCEL_PICTURE \<Rightarrow> api H e (ppt_cancel H)
      | STOP_PREVIEW \<Rightarrow> api H e (ppt_stop_preview H)
      | PRE_START_RECORDING \<Rightarrow> api H e (ppt_pre_start_recording H)
      | START_RECORDING \<Rightarrow> api H e (ppt_start_recording H)
      | REG_FACE_IMAGE p \<Rightarrow> do_registerFaceImage H e p
      | PRE_TAKE_PICTURE \<Rightarrow> api H e (longshot_pre_take H)
      | TAKE_PICTURE \<Rightarrow> api H e (longshot_take H)
      | PREPARE_SNAPSHOT \<Rightarrow> ppt_prepare_snapshot H e
      | STOP_RECORDING \<Rightarrow> invalid H e
      | PREPARE_PREVIEW \<Rightarrow> invalid H e
      | START_PREVIEW \<Rightarrow> invalid H e
      | START_NODISPLAY_PREVIEW \<Rightarrow> invalid H e
      | SET_PREVIEW_WINDOW _ \<Rightarrow> invalid H e
      | RELEASE \<Rightarrow> invalid H e
      | _ \<Rightarrow> ppt_events H e)"

definition ppt_config :: "'p hwi \<Rightarrow> sm_evt \<Rightarrow> ('p, int32) smM" where
  "ppt_config H e =
     (case e of
        SET_CALLBACKS p \<Rightarrow> api H e (do_setCallBacks H p)
      | ENABLE_MSG_TYPE msgs \<Rightarrow> api H e (rc_of H (EnableMsgType msgs))
      | DISABLE_MSG_TYPE msgs \<Rightarrow> api H e (rc_of H (DisableMsgType msgs))
      | MSG_TYPE_ENABLED msgs \<Rightarrow> do_msgTypeEnabled H e msgs
      | SET_PARAMS params \<Rightarrow> api H e (rc_of H (UpdateParameters params))
      | SET_PARAMS_STOP \<Rightarrow> api H e (do {
          rc \<leftarrow> op H StopPreview; op0 H MemoryPoolClear; ret rc })
      | SET_PARAMS_COMMIT \<Rightarrow> api H e (op H CommitParameterChanges)
      | SET_PARAMS_RESTART \<Rightarrow> api H e (ppt_params_restart H)
      | GET_PARAMS \<Rightarrow> do_getParameters H e
      | PUT_PARAMS params \<Rightarrow> api H e (rc_of H (PutParameters params))
      | PREVIEW_ENABLED \<Rightarrow> api_flag H e 1
      | RECORDING_ENABLED \<Rightarrow> api_flag H e 0
      | STORE_METADATA_IN_BUFS enable \<Rightarrow> api H e (rc_of H (StoreMetaDataInBuffers enable))
      | DUMP fd \<Rightarrow> api H e (rc_of H (Dump fd))
      | START_AUTO_FOCUS \<Rightarrow> api H e (op H AutoFocus)
      | STOP_AUTO_FOCUS \<Rightarrow> api H e (op H CancelAutoFocus)
      | _ \<Rightarrow> ppt_capture H e)"

definition procEvtPreviewPicTakingState :: "'p hwi \<Rightarrow> sm_evt \<Rightarrow> ('p, int32) smM" where
  "procEvtPreviewPicTakingState H e = ppt_config H e"

text \<open>The definitions of each handler, for the proofs that go through all its cases.\<close>

lemmas ppt_defs =
  ppt_params_restart_def ppt_cancel_def ppt_stop_preview_def ppt_unless_burst_def
  ppt_pre_start_recording_def ppt_start_recording_def ppt_prepare_snapshot_def
  ppt_prep_snapshot_done_def ppt_ready_for_snapshot_def ppt_internal_def ppt_snapshot_done_def
  ppt_events_def ppt_capture_def ppt_config_def procEvtPreviewPicTakingState_def
  longshot_send_command_def longshot_pre_take_def longshot_take_def restart_start_def

end
