(* ===== verification/StateMachine.thy ===== *)
theory StateMachine
  imports SMStopped SMPreviewing SMPicTaking SMRecording SMPreviewPicTaking
begin

text \<open>
  The entry function \<open>stateMachine\<close>, and what one step of the machine does: which state it can go to,
  and which results it signals.
\<close>

section \<open>The dispatcher\<close>

definition stateMachine :: "'p hwi \<Rightarrow> sm_evt \<Rightarrow> ('p, int32) smM" where
  "stateMachine H e = do {
     st \<leftarrow> gets m_state;
     (case st of
        PREVIEW_STOPPED \<Rightarrow> procEvtPreviewStoppedState H e
      | PREVIEW_READY \<Rightarrow> procEvtPreviewReadyState H e
      | PREVIEWING \<Rightarrow> procEvtPreviewingState H e
      | PREPARE_SNAPSHOT_STATE \<Rightarrow> procEvtPrepareSnapshotState H e
      | PIC_TAKING \<Rightarrow> procEvtPicTakingState H e
      | RECORDING \<Rightarrow> procEvtRecordingState H e
      | VIDEO_PIC_TAKING \<Rightarrow> procEvtVideoPicTakingState H e
      | PREVIEW_PIC_TAKING \<Rightarrow> procEvtPreviewPicTakingState H e) }"

text \<open>A fact about a step is proved by cases on the state and the event, over these equations.\<close>

lemma wp_stateMachine:
  "wp (stateMachine H e) Q s =
     (case m_state s of
        PREVIEW_STOPPED \<Rightarrow> wp (procEvtPreviewStoppedState H e) Q s
      | PREVIEW_READY \<Rightarrow> wp (procEvtPreviewReadyState H e) Q s
      | PREVIEWING \<Rightarrow> wp (procEvtPreviewingState H e) Q s
      | PREPARE_SNAPSHOT_STATE \<Rightarrow> wp (procEvtPrepareSnapshotState H e) Q s
      | PIC_TAKING \<Rightarrow> wp (procEvtPicTakingState H e) Q s
      | RECORDING \<Rightarrow> wp (procEvtRecordingState H e) Q s
      | VIDEO_PIC_TAKING \<Rightarrow> wp (procEvtVideoPicTakingState H e) Q s
      | PREVIEW_PIC_TAKING \<Rightarrow> wp (procEvtPreviewPicTakingState H e) Q s)"
  by (simp add: stateMachine_def wp_bind wp_gets split: qcamera_state.split)

lemmas handler_defs =
  stopped_defs ready_defs previewing_defs prepare_defs pic_defs recording_defs video_defs ppt_defs

lemmas step_simps = wp_stateMachine handler_defs shared_defs wp_simps

lemma run_stateMachine:
  "m_state s = PREVIEW_STOPPED \<Longrightarrow>
     run_state (stateMachine H e) s = run_state (procEvtPreviewStoppedState H e) s"
  "m_state s = PREVIEW_READY \<Longrightarrow>
     run_state (stateMachine H e) s = run_state (procEvtPreviewReadyState H e) s"
  "m_state s = PREVIEWING \<Longrightarrow>
     run_state (stateMachine H e) s = run_state (procEvtPreviewingState H e) s"
  "m_state s = PREPARE_SNAPSHOT_STATE \<Longrightarrow>
     run_state (stateMachine H e) s = run_state (procEvtPrepareSnapshotState H e) s"
  "m_state s = PIC_TAKING \<Longrightarrow>
     run_state (stateMachine H e) s = run_state (procEvtPicTakingState H e) s"
  "m_state s = RECORDING \<Longrightarrow>
     run_state (stateMachine H e) s = run_state (procEvtRecordingState H e) s"
  "m_state s = VIDEO_PIC_TAKING \<Longrightarrow>
     run_state (stateMachine H e) s = run_state (procEvtVideoPicTakingState H e) s"
  "m_state s = PREVIEW_PIC_TAKING \<Longrightarrow>
     run_state (stateMachine H e) s = run_state (procEvtPreviewPicTakingState H e) s"
  by (simp_all add: stateMachine_def State_Monad.bind_def)

section \<open>Successor states\<close>

text \<open>
  The state diagram: for each state the events that may lead to another one, and which.
\<close>

fun edges :: "qcamera_state \<Rightarrow> (qcamera_sm_evt_enum \<times> qcamera_state) list" where
  "edges PREVIEW_STOPPED =
     [(SM_EVT_PREPARE_PREVIEW, PREVIEW_READY), (SM_EVT_START_PREVIEW, PREVIEW_READY),
      (SM_EVT_START_PREVIEW, PREVIEWING), (SM_EVT_START_NODISPLAY_PREVIEW, PREVIEWING)]"
| "edges PREVIEW_READY =
     [(SM_EVT_SET_PREVIEW_WINDOW, PREVIEWING), (SM_EVT_SET_PREVIEW_WINDOW, PREVIEW_STOPPED),
      (SM_EVT_SET_PARAMS_RESTART, PREVIEW_STOPPED),
      (SM_EVT_START_PREVIEW, PREVIEWING), (SM_EVT_START_PREVIEW, PREVIEW_STOPPED),
      (SM_EVT_START_NODISPLAY_PREVIEW, PREVIEWING),
      (SM_EVT_START_NODISPLAY_PREVIEW, PREVIEW_STOPPED), (SM_EVT_STOP_PREVIEW, PREVIEW_STOPPED)]"
| "edges PREVIEWING =
     [(SM_EVT_SET_PARAMS_RESTART, PREVIEW_STOPPED), (SM_EVT_STOP_PREVIEW, PREVIEW_STOPPED),
      (SM_EVT_START_RECORDING, RECORDING), (SM_EVT_PREPARE_SNAPSHOT, PREPARE_SNAPSHOT_STATE),
      (SM_EVT_TAKE_PICTURE, PREVIEW_PIC_TAKING), (SM_EVT_TAKE_PICTURE, PIC_TAKING),
      (SM_EVT_TAKE_PICTURE, PREVIEW_STOPPED)]"
| "edges PREPARE_SNAPSHOT_STATE = [(SM_EVT_EVT_INTERNAL, PREVIEWING)]"
| "edges PIC_TAKING =
     [(SM_EVT_STOP_PREVIEW, PREVIEW_STOPPED), (SM_EVT_CANCEL_PICTURE, PREVIEW_STOPPED),
      (SM_EVT_SEND_COMMAND, PREVIEWING), (SM_EVT_SNAPSHOT_DONE, PREVIEWING),
      (SM_EVT_SNAPSHOT_DONE, PREVIEW_STOPPED)]"
| "edges RECORDING =
     [(SM_EVT_TAKE_PICTURE, VIDEO_PIC_TAKING), (SM_EVT_STOP_RECORDING, PREVIEWING),
      (SM_EVT_STOP_PREVIEW, PREVIEW_STOPPED)]"
| "edges VIDEO_PIC_TAKING =
     [(SM_EVT_STOP_RECORDING, PREVIEWING), (SM_EVT_CANCEL_PICTURE, RECORDING),
      (SM_EVT_STOP_PREVIEW, PREVIEW_STOPPED), (SM_EVT_SNAPSHOT_DONE, RECORDING)]"
| "edges PREVIEW_PIC_TAKING =
     [(SM_EVT_SET_PARAMS_RESTART, PIC_TAKING), (SM_EVT_SEND_COMMAND, PREVIEWING),
      (SM_EVT_CANCEL_PICTURE, PREVIEWING), (SM_EVT_STOP_PREVIEW, PREVIEW_STOPPED),
      (SM_EVT_START_RECORDING, VIDEO_PIC_TAKING), (SM_EVT_SNAPSHOT_DONE, PREVIEWING)]"

definition may_go :: "qcamera_state \<Rightarrow> qcamera_sm_evt_enum \<Rightarrow> qcamera_state \<Rightarrow> bool" where
  "may_go st evt st' \<longleftrightarrow> st' = st \<or> (evt, st') \<in> set (edges st)"

lemma stateMachine_goes:
  "wp (stateMachine H e) (\<lambda>_ t. may_go (m_state s) (evt_id e) (m_state t)) s"
  by (cases "m_state s"; induct e)
    (simp_all add: may_go_def step_simps split: qcamera_internal_evt_type.split)

section \<open>Answers\<close>

text \<open>The events whose sender waits for a result (\<open>processAPI\<close> followed by \<open>waitAPIResult\<close>).\<close>

fun is_request :: "sm_evt \<Rightarrow> bool" where
  "is_request (EVT_INTERNAL _ _) = False"
| "is_request (EVT_NOTIFY _) = False"
| "is_request (JPEG_EVT_NOTIFY _) = False"
| "is_request SNAPSHOT_DONE = False"
| "is_request (THERMAL_NOTIFY _) = False"
| "is_request STOP_CAPTURE_CHANNEL = False"
| "is_request RESTART_PERVIEW = False"
| "is_request DELAYED_RESTART = False"
| "is_request _ = True"

text \<open>
  They are the events between the banners \<open>BEGIN OF: API EVT\<close> and \<open>END OF: API EVT\<close> of the header, and
  three more that were added after them.
\<close>

lemma is_request_order:
  "is_request e \<longleftrightarrow> evt_id e \<le> SM_EVT_REG_FACE_IMAGE \<or> SM_EVT_SEND_COMMAND_RESTART \<le> evt_id e"
  by (cases e) (simp_all add: evt_order)

text \<open>The requests no label of a state's \<open>switch\<close> mentions.\<close>

definition unanswered :: "qcamera_state \<Rightarrow> qcamera_sm_evt_enum \<Rightarrow> bool" where
  "unanswered st evt \<longleftrightarrow>
     evt = SM_EVT_SEND_COMMAND_RESTART \<and> st \<noteq> PREVIEWING
     \<or> evt = SM_EVT_REG_FACE_IMAGE \<and> st = PREPARE_SNAPSHOT_STATE"

text \<open>
  The requests whose result comes later, with another event: a snapshot the hardware is preparing for,
  and a picture in retro mode.
\<close>

definition deferred :: "qcamera_state \<Rightarrow> qcamera_sm_evt_enum \<Rightarrow> int32 \<Rightarrow> qcamera_state \<Rightarrow> bool" where
  "deferred st evt rc st' \<longleftrightarrow>
     rc = NO_ERROR \<and>
     (evt = SM_EVT_PREPARE_SNAPSHOT \<and> st = PREVIEWING \<and> st' = PREPARE_SNAPSHOT_STATE
      \<or> evt = SM_EVT_PREPARE_SNAPSHOT \<and> st = PREVIEW_PIC_TAKING \<and> st' = PREVIEW_PIC_TAKING
      \<or> evt = SM_EVT_TAKE_PICTURE \<and> st = PREVIEWING \<and> (st' = PREVIEW_PIC_TAKING \<or> st' = PIC_TAKING))"

text \<open>A step answers the request once, with the status it returns, or defers the answer.\<close>

definition replies :: "'p sm \<Rightarrow> sm_evt \<Rightarrow> int32 \<Rightarrow> 'p sm \<Rightarrow> bool" where
  "replies s e rc t \<longleftrightarrow>
     (\<exists>ty. api_results (calls t) = api_results (calls s)
        @ [\<lparr>status = rc, request_api = evt_id e, result_type = ty\<rparr>])
     \<or> api_results (calls t) = api_results (calls s) \<and> deferred (m_state s) (evt_id e) rc (m_state t)"

lemmas reply_simps = replies_def deferred_def unanswered_def

lemma stateMachine_replies:
  "is_request e \<Longrightarrow> \<not> unanswered (m_state s) (evt_id e) \<Longrightarrow> wp (stateMachine H e) (replies s e) s"
  by (cases "m_state s"; induct e)
    (simp_all add: reply_simps step_simps)

text \<open>A request that is not mentioned leaves everything as it is.\<close>

lemma stateMachine_unanswered:
  "unanswered (m_state s) (evt_id e) \<Longrightarrow> run_state (stateMachine H e) s = (NO_ERROR, s)"
  by (cases e; cases "m_state s")
    (simp_all add: unanswered_def run_stateMachine handler_defs ignored_def)

text \<open>The other events signal at most the results a deferred request waits for, and their own.\<close>

definition async_apis :: "qcamera_sm_evt_enum list" where
  "async_apis = [SM_EVT_PREPARE_SNAPSHOT, SM_EVT_TAKE_PICTURE, SM_EVT_SNAPSHOT_DONE,
     SM_EVT_STOP_CAPTURE_CHANNEL]"

lemma stateMachine_async:
  "\<not> is_request e \<Longrightarrow>
   wp (stateMachine H e) (\<lambda>_ t. \<exists>new. api_results (calls t) = api_results (calls s) @ new
     \<and> request_api ` set new \<subseteq> set async_apis) s"
  by (cases "m_state s"; induct e)
    (simp_all add: async_apis_def step_simps split: qcamera_internal_evt_type.split)

end
