(* ===== verification/SMProtocol.thy ===== *)
theory SMProtocol
  imports StateMachine
begin

text \<open>
  What a step may do to the parent: the events a state refuses without touching anything, the calls
  that start and stop a recording, the release of the camera, the end of the wait for a snapshot.
\<close>

section \<open>Refused events\<close>

fun rejects :: "qcamera_state \<Rightarrow> qcamera_sm_evt_enum list" where
  "rejects PREVIEW_STOPPED =
     [SM_EVT_PRE_START_RECORDING, SM_EVT_RESTART_STOP_PREVIEW, SM_EVT_RESTART_START_PREVIEW,
      SM_EVT_START_RECORDING, SM_EVT_STOP_RECORDING, SM_EVT_RELEASE_RECORIDNG_FRAME,
      SM_EVT_PREPARE_SNAPSHOT, SM_EVT_PRE_TAKE_PICTURE, SM_EVT_TAKE_PICTURE]"
| "rejects PREVIEW_READY =
     [SM_EVT_PRE_START_RECORDING, SM_EVT_RESTART_STOP_PREVIEW, SM_EVT_RESTART_START_PREVIEW,
      SM_EVT_START_RECORDING, SM_EVT_STOP_RECORDING, SM_EVT_PREPARE_SNAPSHOT,
      SM_EVT_PRE_TAKE_PICTURE, SM_EVT_TAKE_PICTURE, SM_EVT_CANCEL_PICTURE,
      SM_EVT_RELEASE_RECORIDNG_FRAME, SM_EVT_RELEASE]"
| "rejects PREVIEWING =
     [SM_EVT_SET_PREVIEW_WINDOW, SM_EVT_CANCEL_PICTURE, SM_EVT_STOP_RECORDING,
      SM_EVT_RELEASE_RECORIDNG_FRAME, SM_EVT_RELEASE]"
| "rejects PREPARE_SNAPSHOT_STATE =
     [SM_EVT_SET_PREVIEW_WINDOW, SM_EVT_SET_CALLBACKS, SM_EVT_ENABLE_MSG_TYPE,
      SM_EVT_DISABLE_MSG_TYPE, SM_EVT_MSG_TYPE_ENABLED, SM_EVT_SET_PARAMS, SM_EVT_SET_PARAMS_STOP,
      SM_EVT_SET_PARAMS_COMMIT, SM_EVT_SET_PARAMS_RESTART, SM_EVT_GET_PARAMS, SM_EVT_PUT_PARAMS,
      SM_EVT_PREPARE_PREVIEW, SM_EVT_START_PREVIEW, SM_EVT_START_NODISPLAY_PREVIEW,
      SM_EVT_STOP_PREVIEW, SM_EVT_PREVIEW_ENABLED, SM_EVT_RECORDING_ENABLED,
      SM_EVT_STORE_METADATA_IN_BUFS, SM_EVT_DUMP, SM_EVT_START_AUTO_FOCUS, SM_EVT_STOP_AUTO_FOCUS,
      SM_EVT_PRE_START_RECORDING, SM_EVT_RESTART_STOP_PREVIEW, SM_EVT_RESTART_START_PREVIEW,
      SM_EVT_START_RECORDING, SM_EVT_PRE_TAKE_PICTURE, SM_EVT_TAKE_PICTURE,
      SM_EVT_PREPARE_SNAPSHOT, SM_EVT_SEND_COMMAND, SM_EVT_CANCEL_PICTURE, SM_EVT_STOP_RECORDING,
      SM_EVT_RELEASE_RECORIDNG_FRAME, SM_EVT_RELEASE]"
| "rejects PIC_TAKING =
     [SM_EVT_SET_PREVIEW_WINDOW, SM_EVT_PREPARE_SNAPSHOT, SM_EVT_PRE_START_RECORDING,
      SM_EVT_RESTART_STOP_PREVIEW, SM_EVT_RESTART_START_PREVIEW, SM_EVT_START_RECORDING,
      SM_EVT_STOP_RECORDING, SM_EVT_RELEASE_RECORIDNG_FRAME, SM_EVT_PREPARE_PREVIEW,
      SM_EVT_START_PREVIEW, SM_EVT_START_NODISPLAY_PREVIEW, SM_EVT_RELEASE]"
| "rejects RECORDING =
     [SM_EVT_SET_PARAMS_STOP, SM_EVT_SET_PARAMS_RESTART, SM_EVT_CANCEL_PICTURE,
      SM_EVT_START_NODISPLAY_PREVIEW, SM_EVT_RELEASE]"
| "rejects VIDEO_PIC_TAKING =
     [SM_EVT_SET_PREVIEW_WINDOW, SM_EVT_SET_PARAMS_STOP, SM_EVT_SET_PARAMS_RESTART,
      SM_EVT_PRE_START_RECORDING, SM_EVT_RESTART_STOP_PREVIEW, SM_EVT_RESTART_START_PREVIEW,
      SM_EVT_START_RECORDING, SM_EVT_PREPARE_PREVIEW, SM_EVT_START_PREVIEW,
      SM_EVT_START_NODISPLAY_PREVIEW, SM_EVT_PREPARE_SNAPSHOT, SM_EVT_PRE_TAKE_PICTURE,
      SM_EVT_TAKE_PICTURE, SM_EVT_RELEASE]"
| "rejects PREVIEW_PIC_TAKING =
     [SM_EVT_STOP_RECORDING, SM_EVT_PREPARE_PREVIEW, SM_EVT_START_PREVIEW,
      SM_EVT_START_NODISPLAY_PREVIEW, SM_EVT_SET_PREVIEW_WINDOW, SM_EVT_RELEASE]"

definition refuse :: "'p hwi \<Rightarrow> sm_evt \<Rightarrow> 'p sm \<Rightarrow> 'p sm" where
  "refuse H e s = after H (SignalAPIResult
     \<lparr>status = INVALID_OPERATION, request_api = evt_id e, result_type = RESULT_TYPE_DEF\<rparr>) s"

lemma run_invalid: "run_state (invalid H e) s = (INVALID_OPERATION, refuse H e s)"
proof -
  have "wp (invalid H e) (\<lambda>rc t. rc = INVALID_OPERATION \<and> t = refuse H e s) s"
    by (simp add: invalid_def wp_simps refuse_def)
  then show ?thesis
    by (simp add: wp_run prod_eq_iff)
qed

lemma stateMachine_refuses:
  "evt_id e \<in> set (rejects (m_state s)) \<Longrightarrow>
   run_state (stateMachine H e) s = (INVALID_OPERATION, refuse H e s)"
  by (cases "m_state s"; induct e)
    (simp_all add: run_stateMachine handler_defs run_invalid)

text \<open>A parent that answers every call with success, and every question with \<open>b\<close>.\<close>

definition obliging :: "bool \<Rightarrow> 'p hwi" where
  "obliging b =
     \<lparr>do_call = (\<lambda>c st p.
        (\<lparr>r_int = NO_ERROR, r_bool = b, r_faceID = 0, r_needRestart = False, r_arg1 = 0, r_arg2 = 0,
          r_params = Some ''''\<rparr>, p)),
      vanilla_hal = True, msg_preview_frame = 16, cmd_longshot_on = 1, cmd_longshot_off = 2\<rparr>"

lemma answer_obliging [simp]:
  "answer (obliging b) c s =
     \<lparr>r_int = NO_ERROR, r_bool = b, r_faceID = 0, r_needRestart = False, r_arg1 = 0, r_arg2 = 0,
      r_params = Some ''''\<rparr>"
  by (simp add: answer_def obliging_def)

definition accepted :: "sm_evt \<Rightarrow> 'p sm \<Rightarrow> bool" where
  "accepted e s \<longleftrightarrow>
     wp (stateMachine (obliging True) e) (\<lambda>rc _. rc = NO_ERROR) s
     \<or> wp (stateMachine (obliging False) e) (\<lambda>rc _. rc = NO_ERROR) s"

lemma accepts:
  "evt_id e \<notin> set (rejects (m_state s)) \<Longrightarrow> accepted e s"
  by (cases "m_state s"; induct e)
    (simp_all add: accepted_def step_simps
      split: qcamera_internal_evt_type.split)

section \<open>Recording\<close>

text \<open>The calls that start and stop a recording, in order.\<close>

definition rec_calls :: "hwi_call list \<Rightarrow> hwi_call list" where
  "rec_calls cs = filter (\<lambda>c. c = Op StartRecording \<or> c = Op StopRecording) cs"

lemma rec_calls_simps [simp]:
  "rec_calls (xs @ ys) = rec_calls xs @ rec_calls ys"
  "rec_calls [] = []"
  "rec_calls (c # cs) =
     (if c = Op StartRecording \<or> c = Op StopRecording then c # rec_calls cs else rec_calls cs)"
  "rec_calls (calls (undelayed H s)) = rec_calls (calls s)"
  by (simp_all add: rec_calls_def)

lemma rec_calls_hint_cleared [simp]: "rec_calls (calls (hint_cleared H s)) = rec_calls (calls s)"
  unfolding rec_calls_def by (rule filter_hint_cleared) auto

text \<open>
  A step that enters a recording state has called \<open>startRecording\<close>, one that leaves them has called
  \<open>stopRecording\<close>, and one that stays in them has called neither; elsewhere \<open>startRecording\<close> may have
  been tried and have failed.
\<close>

definition rec_step :: "'p sm \<Rightarrow> 'p sm \<Rightarrow> bool" where
  "rec_step s t \<longleftrightarrow>
     (\<exists>new. rec_calls (calls t) = rec_calls (calls s) @ new \<and>
        (if isRecording s
         then new = (if isRecording t then [] else [Op StopRecording])
         else new = [Op StartRecording] \<or> new = [] \<and> \<not> isRecording t))"

lemma stateMachine_rec: "wp (stateMachine H e) (\<lambda>_. rec_step s) s"
  by (cases "m_state s"; induct e)
    (simp_all add: rec_step_def isRecording_def step_simps split: qcamera_internal_evt_type.split)

section \<open>Releasing the camera\<close>

definition release_calls :: "hwi_call list \<Rightarrow> hwi_call list" where
  "release_calls cs = filter (\<lambda>c. c = Op Release) cs"

lemma release_calls_simps [simp]:
  "release_calls (xs @ ys) = release_calls xs @ release_calls ys"
  "release_calls [] = []"
  "release_calls (c # cs) = (if c = Op Release then c # release_calls cs else release_calls cs)"
  "release_calls (calls (undelayed H s)) = release_calls (calls s)"
  by (simp_all add: release_calls_def)

lemma release_calls_hint_cleared [simp]:
  "release_calls (calls (hint_cleared H s)) = release_calls (calls s)"
  unfolding release_calls_def by (rule filter_hint_cleared) auto

lemma stateMachine_release_call:
  "wp (stateMachine H e) (\<lambda>_ t. release_calls (calls t) = release_calls (calls s) @
     (if m_state s = PREVIEW_STOPPED \<and> e = RELEASE then [Op Release] else [])) s"
  by (cases "m_state s"; induct e)
    (simp_all add: step_simps split: qcamera_internal_evt_type.split)

section \<open>Captures\<close>

definition capture_calls :: "hwi_call list \<Rightarrow> hwi_call list" where
  "capture_calls cs =
     filter (\<lambda>c. c = Op TakePicture \<or> c = Op TakeLiveSnapshot \<or> c = Op LongShot) cs"

lemma capture_calls_simps [simp]:
  "capture_calls (xs @ ys) = capture_calls xs @ capture_calls ys"
  "capture_calls [] = []"
  "capture_calls (c # cs) =
     (if c = Op TakePicture \<or> c = Op TakeLiveSnapshot \<or> c = Op LongShot
      then c # capture_calls cs else capture_calls cs)"
  "capture_calls (calls (undelayed H s)) = capture_calls (calls s)"
  by (simp_all add: capture_calls_def)

lemma capture_calls_hint_cleared [simp]:
  "capture_calls (calls (hint_cleared H s)) = capture_calls (calls s)"
  unfolding capture_calls_def by (rule filter_hint_cleared) auto

text \<open>Which captures an event may start.\<close>

definition captures :: "qcamera_state \<Rightarrow> sm_evt \<Rightarrow> hwi_call list \<Rightarrow> bool" where
  "captures st e cs \<longleftrightarrow>
     (if e \<noteq> TAKE_PICTURE then cs = []
      else case st of
          PREVIEWING \<Rightarrow> cs = [Op TakePicture]
        | RECORDING \<Rightarrow> cs = [Op TakeLiveSnapshot]
        | PIC_TAKING \<Rightarrow> cs = [] \<or> cs = [Op LongShot]
        | PREVIEW_PIC_TAKING \<Rightarrow> cs = [] \<or> cs = [Op LongShot]
        | _ \<Rightarrow> cs = [])"

lemma stateMachine_captures:
  "wp (stateMachine H e) (\<lambda>_ t. \<exists>new. capture_calls (calls t) = capture_calls (calls s) @ new
     \<and> captures (m_state s) e new) s"
  by (cases "m_state s"; induct e)
    (simp_all add: captures_def step_simps split: qcamera_internal_evt_type.split)

end
