(* ===== verification/SMRuns.thy ===== *)
theory SMRuns
  imports SMProtocol
begin

text \<open>
  Runs of the machine: sequences of events, the objects reachable from the constructor, and what holds
  of all of them (the invariant on the delayed messages, the balance of the recording calls), the wait
  for a snapshot, and the way back from any state to the release of the camera.
\<close>

section \<open>Sequences of events\<close>

text \<open>One event, and a sequence of events handled one after the other.\<close>

definition handled :: "'p hwi \<Rightarrow> sm_evt \<Rightarrow> 'p sm \<Rightarrow> 'p sm" where
  "handled H e s = snd (run_state (stateMachine H e) s)"

definition handled_all :: "'p hwi \<Rightarrow> sm_evt list \<Rightarrow> 'p sm \<Rightarrow> 'p sm" where
  "handled_all H es s = fold (handled H) es s"

lemma handled_all_simps [simp]:
  "handled_all H [] s = s"
  "handled_all H (e # es) s = handled_all H es (handled H e s)"
  "handled_all H (es @ fs) s = handled_all H fs (handled_all H es s)"
  by (simp_all add: handled_all_def)

lemma handledI: "wp (stateMachine H e) (\<lambda>_ t. P t) s \<Longrightarrow> P (handled H e s)"
  by (simp add: wp_run handled_def)

text \<open>
  The reachable objects.  Between two events other threads may change the parent, and
  \<open>setPreviewCallbackNeeded\<close> may be called.
\<close>

inductive reachable :: "'p hwi \<Rightarrow> 'p sm \<Rightarrow> bool" for H :: "'p hwi" where
  created: "reachable H (QCameraStateMachine needs delayed ctrl)"
| step: "reachable H s \<Longrightarrow> reachable H (handled H e s)"
| callback: "reachable H s \<Longrightarrow> reachable H (setPreviewCallbackNeeded b s)"
| parent: "reachable H s \<Longrightarrow> reachable H (s\<lparr>parent := p\<rparr>)"

lemma reachable_all: "reachable H s \<Longrightarrow> reachable H (handled_all H es s)"
  by (induction es arbitrary: s) (auto intro: reachable.step)

section \<open>Delayed messages\<close>

text \<open>
  What is delayed is at most the preview frames, and only while messages are being delayed.
\<close>

definition delay_inv :: "'p hwi \<Rightarrow> 'p sm \<Rightarrow> bool" where
  "delay_inv H s \<longleftrightarrow>
     (m_DelayedMsgs s \<noteq> 0 \<longrightarrow> m_bDelayPreviewMsgs s)
     \<and> m_DelayedMsgs s AND NOT (msg_preview_frame H) = 0"

lemma stateMachine_delay_inv:
  "delay_inv H s \<Longrightarrow> wp (stateMachine H e) (\<lambda>_. delay_inv H) s"
  by (cases "m_state s"; induct e)
    (simp_all add: delay_inv_def step_simps split: qcamera_internal_evt_type.split,
     (blast intro: masked_clear)+)

lemma reachable_delay_inv: "reachable H s \<Longrightarrow> delay_inv H s"
proof (induction rule: reachable.induct)
  case (step s e)
  then show ?case
    using handledI stateMachine_delay_inv by blast
qed (simp_all add: delay_inv_def QCameraStateMachine_def setPreviewCallbackNeeded_def)

section \<open>Recordings and releases over a run\<close>

text \<open>The recording calls of a run end with a start while a recording state lasts.\<close>

definition rec_inv :: "'p sm \<Rightarrow> bool" where
  "rec_inv s \<longleftrightarrow>
     isRecording s \<longrightarrow> rec_calls (calls s) \<noteq> [] \<and> last (rec_calls (calls s)) = Op StartRecording"

lemma rec_step_inv: "rec_step s t \<Longrightarrow> rec_inv s \<Longrightarrow> rec_inv t"
  by (auto simp: rec_step_def rec_inv_def split: if_splits)

lemma isRecording_simps [simp]:
  "isRecording (s\<lparr>parent := p\<rparr>) = isRecording s"
  "isRecording (setPreviewCallbackNeeded b s) = isRecording s"
  "\<not> isRecording (QCameraStateMachine needs delayed ctrl)"
  by (simp_all add: isRecording_def setPreviewCallbackNeeded_def QCameraStateMachine_def)

lemma reachable_rec_inv: "reachable H s \<Longrightarrow> rec_inv s"
proof (induction rule: reachable.induct)
  case (step s e)
  then show ?case
    using handledI [OF stateMachine_rec] rec_step_inv by blast
qed (simp_all add: rec_inv_def, simp_all add: setPreviewCallbackNeeded_def)

section \<open>The wait for a snapshot\<close>

definition prep_done :: "sm_evt \<Rightarrow> bool" where
  "prep_done e \<longleftrightarrow> (\<exists>d. e = EVT_INTERNAL INTERNAL_EVT_PREP_SNAPSHOT_DONE d)"

lemma prepare_stays:
  "m_state s = PREPARE_SNAPSHOT_STATE \<Longrightarrow> \<not> prep_done e \<Longrightarrow>
   wp (stateMachine H e) (\<lambda>_ t. m_state t = PREPARE_SNAPSHOT_STATE) s"
  by (induct e)
    (simp_all add: prep_done_def step_simps split: qcamera_internal_evt_type.split)

lemma prepare_stays_all:
  "m_state s = PREPARE_SNAPSHOT_STATE \<Longrightarrow> \<forall>e \<in> set es. \<not> prep_done e \<Longrightarrow>
   m_state (handled_all H es s) = PREPARE_SNAPSHOT_STATE"
proof (induction es arbitrary: s)
  case (Cons e es)
  then have "m_state (handled H e s) = PREPARE_SNAPSHOT_STATE"
    by (simp add: handledI [OF prepare_stays])
  with Cons show ?case by simp
qed simp

text \<open>The end of the wait answers the request that began it.\<close>

lemma prepare_done_answers:
  "m_state s = PREPARE_SNAPSHOT_STATE \<Longrightarrow>
   wp (stateMachine H (EVT_INTERNAL INTERNAL_EVT_PREP_SNAPSHOT_DONE d)) (\<lambda>rc t.
      m_state t = PREVIEWING \<and> api_results (calls t) = api_results (calls s)
        @ [\<lparr>status = NO_ERROR, request_api = SM_EVT_PREPARE_SNAPSHOT, result_type = RESULT_TYPE_DEF\<rparr>]) s"
  by (simp add: step_simps)

section \<open>The way to the release\<close>

lemma prep_done_leaves:
  "wp (stateMachine H (EVT_INTERNAL INTERNAL_EVT_PREP_SNAPSHOT_DONE d))
     (\<lambda>_ t. m_state t \<noteq> PREPARE_SNAPSHOT_STATE) s"
  by (cases "m_state s") (simp_all add: step_simps)

lemma stop_preview_stops:
  "m_state s \<noteq> PREPARE_SNAPSHOT_STATE \<Longrightarrow>
   wp (stateMachine H STOP_PREVIEW) (\<lambda>_ t. m_state t = PREVIEW_STOPPED) s"
  by (cases "m_state s") (simp_all add: step_simps)

lemma shutdown_stops:
  "m_state (handled_all H [EVT_INTERNAL INTERNAL_EVT_PREP_SNAPSHOT_DONE d, STOP_PREVIEW] s)
     = PREVIEW_STOPPED"
  by (simp add: handledI [OF stop_preview_stops] handledI [OF prep_done_leaves])

end
