(* ===== verification/CamList.thy ===== *)
theory CamList
  imports Prelude
begin

text \<open>
  The intrusive doubly linked list of \<^verbatim>\<open>stack/common/cam_list.h\<close>, at the level of the
  pointers: a store maps the address of a \<open>struct cam_list\<close> to its \<open>next\<close> and \<open>prev\<close> fields, and
  each inline function is the sequence of assignments of the C code.  The second half shows that on a
  well-formed ring the four functions are the expected operations on the list of its nodes.
\<close>

section \<open>The store and the four list functions\<close>

record links =
  nxt :: "ptr \<Rightarrow> ptr"
  prv :: "ptr \<Rightarrow> ptr"

definition set_next :: "ptr \<Rightarrow> ptr \<Rightarrow> links \<Rightarrow> links" where
  "set_next p x h = h\<lparr>nxt := (nxt h)(p := x)\<rparr>"

definition set_prev :: "ptr \<Rightarrow> ptr \<Rightarrow> links \<Rightarrow> links" where
  "set_prev p x h = h\<lparr>prv := (prv h)(p := x)\<rparr>"

definition cam_list_init :: "ptr \<Rightarrow> links \<Rightarrow> links" where
  "cam_list_init p h = set_prev p p (set_next p p h)"

definition cam_list_add_tail_node :: "ptr \<Rightarrow> ptr \<Rightarrow> links \<Rightarrow> links" where
  "cam_list_add_tail_node item head h =
     (let prev = prv h head;
          h = set_prev head item h;
          h = set_next item head h;
          h = set_prev item prev h
      in set_next prev item h)"

definition cam_list_insert_before_node :: "ptr \<Rightarrow> ptr \<Rightarrow> links \<Rightarrow> links" where
  "cam_list_insert_before_node item node h =
     (let h = set_next item node h;
          h = set_prev item (prv h node) h;
          h = set_next (prv h item) item h
      in set_prev node item h)"

definition cam_list_del_node :: "ptr \<Rightarrow> links \<Rightarrow> links" where
  "cam_list_del_node p h =
     (let prev = prv h p;
          next = nxt h p;
          h = set_prev next (prv h p) h;
          h = set_next prev (nxt h p) h;
          h = set_next p p h
      in set_prev p p h)"

section \<open>Segments and rings\<close>

text \<open>
  \<open>lseg h a xs b\<close>: following \<open>next\<close> from \<open>a\<close> one passes the nodes \<open>xs\<close> and arrives at \<open>b\<close>, and
  \<open>prev\<close> leads back the same way.  A ring is a segment from the head to itself.
\<close>

fun lseg :: "links \<Rightarrow> ptr \<Rightarrow> ptr list \<Rightarrow> ptr \<Rightarrow> bool" where
  "lseg h a [] b \<longleftrightarrow> nxt h a = b \<and> prv h b = a"
| "lseg h a (x # xs) b \<longleftrightarrow> nxt h a = x \<and> prv h x = a \<and> lseg h x xs b"

definition ring :: "links \<Rightarrow> ptr \<Rightarrow> ptr list \<Rightarrow> bool" where
  "ring h hp xs \<longleftrightarrow> distinct (hp # xs) \<and> lseg h hp xs hp"

lemma lseg_append: "lseg h a (xs @ y # ys) b \<longleftrightarrow> lseg h a xs y \<and> lseg h y ys b"
  by (induction xs arbitrary: a) auto

lemma lseg_cong:
  "lseg h a xs b \<Longrightarrow> (\<And>p. p \<in> insert a (set xs) \<Longrightarrow> nxt h' p = nxt h p) \<Longrightarrow>
   (\<And>p. p \<in> insert b (set xs) \<Longrightarrow> prv h' p = prv h p) \<Longrightarrow> lseg h' a xs b"
  by (induction xs arbitrary: a) auto

lemma lseg_set_next [simp]: "p \<noteq> a \<Longrightarrow> p \<notin> set xs \<Longrightarrow> lseg (set_next p x h) a xs b = lseg h a xs b"
  by (induction xs arbitrary: a) (auto simp: set_next_def)

lemma lseg_set_prev [simp]: "p \<noteq> b \<Longrightarrow> p \<notin> set xs \<Longrightarrow> lseg (set_prev p x h) a xs b = lseg h a xs b"
  by (induction xs arbitrary: a) (auto simp: set_prev_def)

lemma lseg_last: "lseg h a xs b \<Longrightarrow> prv h b = last (a # xs)"
  by (induction xs arbitrary: a) auto

lemma lseg_first: "lseg h a xs b \<Longrightarrow> nxt h a = hd (xs @ [b])"
  by (cases xs) auto

lemma set_sel [simp]:
  "nxt (set_next p x h) = (nxt h)(p := x)" "prv (set_next p x h) = prv h"
  "nxt (set_prev p x h) = nxt h" "prv (set_prev p x h) = (prv h)(p := x)"
  by (simp_all add: set_next_def set_prev_def)

lemma ring_init: "ring (cam_list_init p h) p []"
  by (simp add: ring_def cam_list_init_def)

lemma ring_first: "ring h hp xs \<Longrightarrow> nxt h hp = hd (xs @ [hp])"
  by (simp add: ring_def lseg_first)

lemma ring_last: "ring h hp xs \<Longrightarrow> prv h hp = last (hp # xs)"
  unfolding ring_def by (blast intro: lseg_last)

lemma lseg_retarget:
  assumes "lseg h a xs b" and "distinct (a # xs)" and "c \<notin> set xs"
  shows "lseg (set_next (last (a # xs)) c (set_prev c (last (a # xs)) h)) a xs c"
  using assms
proof (induction xs arbitrary: a)
  case Nil
  then show ?case by simp
next
  case (Cons x xs)
  have "lseg (set_next (last (x # xs)) c (set_prev c (last (x # xs)) h)) x xs c"
    using Cons.prems by (intro Cons.IH) auto
  moreover have "last (x # xs) \<noteq> a" "c \<noteq> x"
    using Cons.prems last_in_set [of "x # xs"] by auto
  ultimately show ?case using Cons.prems by auto
qed

lemma ring_add_tail:
  assumes r: "ring h hp xs" and new: "item \<noteq> hp" "item \<notin> set xs"
  shows "ring (cam_list_add_tail_node item hp h) hp (xs @ [item])"
proof -
  let ?l = "last (hp # xs)"
  have eq: "lseg (cam_list_add_tail_node item hp h) hp xs item =
      lseg (set_next ?l item (set_prev item ?l h)) hp xs item"
    using r new by (auto simp: cam_list_add_tail_node_def Let_def ring_last ring_def
      intro!: iffI elim!: lseg_cong)
  have "lseg (set_next ?l item (set_prev item ?l h)) hp xs item"
    using r new by (intro lseg_retarget) (auto simp: ring_def)
  moreover have "?l \<noteq> item" using new last_in_set [of "hp # xs"] by auto
  ultimately show ?thesis
    using r new eq by (auto simp: ring_def lseg_append cam_list_add_tail_node_def Let_def ring_last)
qed

lemma ring_del:
  assumes "ring h hp (us @ x # vs)"
  shows "ring (cam_list_del_node x h) hp (us @ vs)"
proof -
  define p where "p = last (hp # us)"
  define n where "n = hd (vs @ [hp])"
  have d: "distinct (hp # us @ x # vs)" and l1: "lseg h hp us x" and l2: "lseg h x vs hp"
    using assms by (auto simp: ring_def lseg_append)
  have p: "prv h x = p" and n: "nxt h x = n"
    using l1 l2 by (auto simp: p_def n_def lseg_last lseg_first)
  have pn: "p \<in> insert hp (set us)" "p \<noteq> x" "n \<in> insert hp (set vs)" "n \<noteq> x"
    using d last_in_set [of "hp # us"] hd_in_set [of "vs @ [hp]"]
    by (auto simp: p_def n_def)
  have del: "cam_list_del_node x h = set_prev x x (set_next x x (set_next p n (set_prev n p h)))"
    using p n pn by (simp add: cam_list_del_node_def Let_def)
  have s1: "lseg (set_next p n (set_prev n p h)) hp us n"
    unfolding p_def by (rule lseg_retarget [OF l1]) (use d pn in auto)
  show ?thesis
  proof (cases vs)
    case Nil
    then show ?thesis using s1 d pn by (auto simp: ring_def del n_def)
  next
    case (Cons v vs')
    then have "n = v" by (simp add: n_def)
    with Cons l2 have "lseg h v vs' hp" by simp
    then have "lseg (set_next p n (set_prev n p h)) v vs' hp"
      by (rule lseg_cong) (use d pn Cons \<open>n = v\<close> in auto)
    with s1 d pn Cons \<open>n = v\<close> show ?thesis by (auto simp: ring_def del lseg_append)
  qed
qed

lemma lseg_retarget_first:
  assumes "lseg h a xs b" and "distinct xs" and "c \<notin> set xs" and "b \<notin> set xs"
  shows "lseg (set_next c (hd (xs @ [b])) (set_prev (hd (xs @ [b])) c h)) c xs b"
proof (cases xs)
  case Nil
  then show ?thesis by simp
next
  case (Cons x ys)
  with assms show ?thesis by simp
qed

text \<open>Linking a new node right after the head, as \<open>enqueueWithPriority\<close> does inline.\<close>

definition link_after_head :: "ptr \<Rightarrow> ptr \<Rightarrow> links \<Rightarrow> links" where
  "link_after_head item hp h =
     (let p_next = nxt h hp;
          h = set_next hp item h;
          h = set_prev p_next item h;
          h = set_next item p_next h
      in set_prev item hp h)"

lemma ring_add_head:
  assumes r: "ring h hp xs" and new: "item \<noteq> hp" "item \<notin> set xs"
  shows "ring (link_after_head item hp h) hp (item # xs)"
proof -
  let ?f = "hd (xs @ [hp])"
  have f: "nxt h hp = ?f" "?f \<noteq> item"
    using r new hd_in_set [of "xs @ [hp]"] by (auto simp: ring_first)
  have "lseg (set_next item ?f (set_prev ?f item h)) item xs hp"
    using r new by (intro lseg_retarget_first [of h hp]) (auto simp: ring_def)
  then have "lseg (link_after_head item hp h) item xs hp"
    by (rule lseg_cong) (use r new f in \<open>auto simp: link_after_head_def Let_def ring_def\<close>)
  with r new f show ?thesis by (auto simp: ring_def link_after_head_def Let_def)
qed

lemma ring_insert_before:
  assumes r: "ring h hp (us @ x # vs)" and new: "item \<noteq> hp" "item \<notin> set (us @ x # vs)"
  shows "ring (cam_list_insert_before_node item x h) hp (us @ item # x # vs)"
proof -
  let ?l = "last (hp # us)"
  have d: "distinct (hp # us @ x # vs)" and l1: "lseg h hp us x" and l2: "lseg h x vs hp"
    using r by (auto simp: ring_def lseg_append)
  have p: "prv h x = ?l" using l1 by (rule lseg_last)
  have lx: "?l \<noteq> x" "?l \<noteq> item" "?l \<in> insert hp (set us)"
    using d new last_in_set [of "hp # us"] by auto
  have eq: "cam_list_insert_before_node item x h =
      set_prev x item (set_next ?l item (set_prev item ?l (set_next item x h)))"
    using p new by (simp add: cam_list_insert_before_node_def Let_def)
  have "lseg (set_next ?l item (set_prev item ?l h)) hp us item"
    using l1 d new by (intro lseg_retarget) auto
  then have s1: "lseg (cam_list_insert_before_node item x h) hp us item"
    unfolding eq by (rule lseg_cong) (use d new lx in auto)
  have s2: "lseg (cam_list_insert_before_node item x h) x vs hp"
    unfolding eq using l2 by (rule lseg_cong) (use d new lx in auto)
  have "nxt (cam_list_insert_before_node item x h) item = x"
       "prv (cam_list_insert_before_node item x h) x = item"
    unfolding eq using lx new by auto
  with s1 s2 d new show ?thesis by (auto simp: ring_def lseg_append)
qed

text \<open>The facts about rings that a client of the list needs.\<close>

lemmas ring_ops = ring_init ring_add_tail ring_add_head ring_insert_before ring_del

end
