(* ===== verification/CameraQueue.thy ===== *)
theory CameraQueue
  imports CamList
begin

text \<open>
  \<^verbatim>\<open>util/QCameraQueue.cpp\<close>: the queue every camera thread is fed from.  The object is a record of
  the store its nodes live in and the members of the class; every operation runs under \<open>m_lock\<close>
  from beginning to end, so each is one function on the record.  The address that \<open>malloc\<close> returned
  is an argument (\<open>NULL\<close> when it failed).  Data pointers are values of \<open>'d option\<close>, \<open>None\<close> for
  \<open>NULL\<close>; the match callbacks are functions that already hold \<open>m_userData\<close> and the match data.
  What is handed to \<open>m_dataFn\<close> and to \<open>free\<close> is recorded in order.
\<close>

section \<open>The object and its operations\<close>

record 'd cqueue =
  mem :: links
  dat :: "ptr \<Rightarrow> 'd option"
  m_head :: ptr
  m_size :: int
  m_active :: bool
  m_dataFn :: bool
  released :: "'d list"
  freed_data :: "'d list"
  freed_nodes :: "ptr list"

definition QCameraQueue :: "ptr \<Rightarrow> bool \<Rightarrow> 'd cqueue" where
  "QCameraQueue head data_rel_fn =
     \<lparr>mem = cam_list_init head \<lparr>nxt = (\<lambda>_. NULL), prv = (\<lambda>_. NULL)\<rparr>, dat = (\<lambda>_. None),
      m_head = head, m_size = 0, m_active = True, m_dataFn = data_rel_fn,
      released = [], freed_data = [], freed_nodes = []\<rparr>"

definition queue_init :: "'d cqueue \<Rightarrow> 'd cqueue" where
  "queue_init q = q\<lparr>m_active := True\<rparr>"

definition isEmpty :: "'d cqueue \<Rightarrow> bool" where
  "isEmpty q = (let flag = True in if m_size q > 0 then False else flag)"

definition free_node :: "ptr \<Rightarrow> 'd cqueue \<Rightarrow> 'd cqueue" where
  "free_node node q = q\<lparr>freed_nodes := freed_nodes q @ [node]\<rparr>"

definition memset_node :: "ptr \<Rightarrow> 'd option \<Rightarrow> 'd cqueue \<Rightarrow> 'd cqueue" where
  "memset_node node data q =
     q\<lparr>mem := set_prev node NULL (set_next node NULL (mem q)), dat := (dat q)(node := data)\<rparr>"

definition enqueue :: "ptr \<Rightarrow> 'd option \<Rightarrow> 'd cqueue \<Rightarrow> bool \<times> 'd cqueue" where
  "enqueue node data q =
     (if node = NULL then (False, q)
      else let q = memset_node node data q
           in if m_active q
              then (True, q\<lparr>mem := cam_list_add_tail_node node (m_head q) (mem q),
                            m_size := m_size q + 1\<rparr>)
              else (False, free_node node q))"

definition enqueueWithPriority :: "ptr \<Rightarrow> 'd option \<Rightarrow> 'd cqueue \<Rightarrow> bool \<times> 'd cqueue" where
  "enqueueWithPriority node data q =
     (if node = NULL then (False, q)
      else let q = memset_node node data q
           in if m_active q
              then (True, q\<lparr>mem := link_after_head node (m_head q) (mem q),
                            m_size := m_size q + 1\<rparr>)
              else (False, free_node node q))"

definition peek :: "'d cqueue \<Rightarrow> 'd option" where
  "peek q =
     (if m_active q \<and> nxt (mem q) (m_head q) \<noteq> m_head q
      then dat q (nxt (mem q) (m_head q)) else None)"

definition unlink :: "ptr \<Rightarrow> 'd cqueue \<Rightarrow> 'd cqueue" where
  "unlink node q = q\<lparr>mem := cam_list_del_node node (mem q), m_size := m_size q - 1\<rparr>"

definition dequeue :: "bool \<Rightarrow> 'd cqueue \<Rightarrow> 'd option \<times> 'd cqueue" where
  "dequeue bFromHead q =
     (if m_active q
      then let head = m_head q;
               pos = (if bFromHead then nxt (mem q) head else prv (mem q) head)
           in if pos \<noteq> head then (dat q pos, free_node pos (unlink pos q)) else (None, q)
      else (None, q))"

partial_function (option) dequeue_match_loop ::
  "('d option \<Rightarrow> bool) \<Rightarrow> ptr \<Rightarrow> 'd cqueue \<Rightarrow> ('d option \<times> 'd cqueue) option" where
  "dequeue_match_loop match pos q =
     (if pos \<noteq> m_head q
      then if match (dat q pos) then Some (dat q pos, free_node pos (unlink pos q))
           else dequeue_match_loop match (nxt (mem q) pos) q
      else Some (None, q))"

definition dequeue_match ::
  "('d option \<Rightarrow> bool) option \<Rightarrow> bool \<Rightarrow> 'd cqueue \<Rightarrow> ('d option \<times> 'd cqueue) option" where
  "dequeue_match match match_data q =
     (case match of
        None \<Rightarrow> Some (None, q)
      | Some f \<Rightarrow>
          if \<not> match_data then Some (None, q)
          else if m_active q then dequeue_match_loop f (nxt (mem q) (m_head q)) q
          else Some (None, q))"

text \<open>The part of the body of the three flush loops that releases one node.\<close>

definition free_data :: "'d option \<Rightarrow> 'd cqueue \<Rightarrow> 'd cqueue" where
  "free_data d q =
     (case d of
        None \<Rightarrow> q
      | Some x \<Rightarrow>
          q\<lparr>released := (if m_dataFn q then released q @ [x] else released q),
            freed_data := freed_data q @ [x]\<rparr>)"

definition flush_node :: "ptr \<Rightarrow> 'd cqueue \<Rightarrow> 'd cqueue" where
  "flush_node node q = free_node node (free_data (dat q node) (unlink node q))"

partial_function (option) flush_loop :: "ptr \<Rightarrow> 'd cqueue \<Rightarrow> 'd cqueue option" where
  "flush_loop pos q =
     (if pos \<noteq> m_head q then flush_loop (nxt (mem q) pos) (flush_node pos q) else Some q)"

definition flush :: "'d cqueue \<Rightarrow> 'd cqueue option" where
  "flush q =
     (if m_active q
      then map_option (\<lambda>q. q\<lparr>m_size := 0, m_active := False\<rparr>)
             (flush_loop (nxt (mem q) (m_head q)) q)
      else Some q)"

partial_function (option) flushNodes_loop ::
  "('d option \<Rightarrow> bool) \<Rightarrow> ptr \<Rightarrow> 'd cqueue \<Rightarrow> 'd cqueue option" where
  "flushNodes_loop match pos q =
     (if pos \<noteq> m_head q
      then flushNodes_loop match (nxt (mem q) pos)
             (if match (dat q pos) then flush_node pos q else q)
      else Some q)"

definition flushNodes :: "('d option \<Rightarrow> bool) option \<Rightarrow> 'd cqueue \<Rightarrow> 'd cqueue option" where
  "flushNodes match q =
     (case match of
        None \<Rightarrow> Some q
      | Some f \<Rightarrow>
          if m_active q then flushNodes_loop f (nxt (mem q) (m_head q)) q else Some q)"

text \<open>The overload whose callback takes match data closes over it.\<close>

definition flushNodes_data ::
  "('d option \<Rightarrow> 'm \<Rightarrow> bool) option \<Rightarrow> 'm \<Rightarrow> 'd cqueue \<Rightarrow> 'd cqueue option" where
  "flushNodes_data match match_data q =
     (case match of
        None \<Rightarrow> Some q
      | Some f \<Rightarrow>
          if m_active q
          then flushNodes_loop (\<lambda>d. f d match_data) (nxt (mem q) (m_head q)) q
          else Some q)"

section \<open>The invariant\<close>

text \<open>The nodes of a queue, by walking \<open>m_size\<close> steps from the head.\<close>

fun walk :: "nat \<Rightarrow> links \<Rightarrow> ptr \<Rightarrow> ptr list" where
  "walk 0 h a = []"
| "walk (Suc n) h a = nxt h a # walk n h (nxt h a)"

definition nodes :: "'d cqueue \<Rightarrow> ptr list" where
  "nodes q = walk (nat (m_size q)) (mem q) (m_head q)"

definition queue_inv :: "'d cqueue \<Rightarrow> bool" where
  "queue_inv q \<longleftrightarrow> 0 \<le> m_size q \<and> ring (mem q) (m_head q) (nodes q)"

definition fresh_node :: "ptr \<Rightarrow> 'd cqueue \<Rightarrow> bool" where
  "fresh_node p q \<longleftrightarrow> p \<noteq> NULL \<and> p \<noteq> m_head q \<and> p \<notin> set (nodes q)"

lemma length_walk [simp]: "length (walk n h a) = n"
  by (induction n arbitrary: a) auto

lemma walk_lseg: "lseg h a xs b \<Longrightarrow> walk (length xs) h a = xs"
  by (induction xs arbitrary: a) auto

text \<open>The introduction rule: to know the nodes of a queue it is enough to name the ring.\<close>

lemma queue_nodesI:
  "ring (mem q) (m_head q) xs \<Longrightarrow> m_size q = int (length xs) \<Longrightarrow> queue_inv q \<and> nodes q = xs"
  by (auto simp: queue_inv_def nodes_def ring_def walk_lseg)

lemma queue_invD:
  "queue_inv q \<Longrightarrow> ring (mem q) (m_head q) (nodes q) \<and> m_size q = int (length (nodes q))"
  by (simp add: queue_inv_def nodes_def)

lemma queue_frame [simp]:
  "mem (free_node p q) = mem q" "m_size (free_node p q) = m_size q"
  "m_head (free_node p q) = m_head q" "dat (free_node p q) = dat q"
  "m_active (free_node p q) = m_active q" "m_dataFn (free_node p q) = m_dataFn q"
  "released (free_node p q) = released q" "freed_data (free_node p q) = freed_data q"
  "freed_nodes (free_node p q) = freed_nodes q @ [p]"
  by (simp_all add: free_node_def)

lemma memset_sel [simp]:
  "m_size (memset_node p d q) = m_size q" "m_head (memset_node p d q) = m_head q"
  "dat (memset_node p d q) = (dat q)(p := d)" "m_active (memset_node p d q) = m_active q"
  "m_dataFn (memset_node p d q) = m_dataFn q" "freed_nodes (memset_node p d q) = freed_nodes q"
  "released (memset_node p d q) = released q" "freed_data (memset_node p d q) = freed_data q"
  by (simp_all add: memset_node_def)

lemma free_data_sel [simp]:
  "mem (free_data d q) = mem q" "m_size (free_data d q) = m_size q"
  "m_head (free_data d q) = m_head q" "dat (free_data d q) = dat q"
  "m_active (free_data d q) = m_active q" "m_dataFn (free_data d q) = m_dataFn q"
  "freed_nodes (free_data d q) = freed_nodes q"
  "freed_data (free_data d q) = freed_data q @ (case d of None \<Rightarrow> [] | Some x \<Rightarrow> [x])"
  "released (free_data d q) =
     released q @ (if m_dataFn q then (case d of None \<Rightarrow> [] | Some x \<Rightarrow> [x]) else [])"
  by (simp_all add: free_data_def split: option.splits)

lemma unlink_sel [simp]:
  "mem (unlink p q) = cam_list_del_node p (mem q)" "m_size (unlink p q) = m_size q - 1"
  "m_head (unlink p q) = m_head q" "dat (unlink p q) = dat q"
  "m_active (unlink p q) = m_active q" "m_dataFn (unlink p q) = m_dataFn q"
  "freed_nodes (unlink p q) = freed_nodes q" "freed_data (unlink p q) = freed_data q"
  "released (unlink p q) = released q"
  by (simp_all add: unlink_def)

lemma flush_node_sel [simp]:
  "mem (flush_node p q) = cam_list_del_node p (mem q)" "m_size (flush_node p q) = m_size q - 1"
  "m_head (flush_node p q) = m_head q" "dat (flush_node p q) = dat q"
  "m_active (flush_node p q) = m_active q" "m_dataFn (flush_node p q) = m_dataFn q"
  "freed_nodes (flush_node p q) = freed_nodes q @ [p]"
  "freed_data (flush_node p q) = freed_data q @ (case dat q p of None \<Rightarrow> [] | Some x \<Rightarrow> [x])"
  by (simp_all add: flush_node_def)

lemma ring_memset:
  assumes "ring (mem q) (m_head q) xs" and "p \<noteq> m_head q" and "p \<notin> set xs"
  shows "ring (mem (memset_node p d q)) (m_head q) xs"
  using assms by (auto simp: memset_node_def ring_def)

lemma QCameraQueue_inv:
  "queue_inv (QCameraQueue hp f :: 'd cqueue) \<and> nodes (QCameraQueue hp f :: 'd cqueue) = []"
  by (rule queue_nodesI) (simp_all add: QCameraQueue_def ring_init)

section \<open>The operations on the ring of nodes\<close>

lemma enqueue_nodes:
  assumes inv: "queue_inv q" and new: "fresh_node p q"
  shows "fst (enqueue p d q) = m_active q"
    and "queue_inv (snd (enqueue p d q)) \<and>
         nodes (snd (enqueue p d q)) = (if m_active q then nodes q @ [p] else nodes q)"
proof -
  have r: "ring (mem (memset_node p d q)) (m_head q) (nodes q)"
    using inv new by (intro ring_memset) (auto simp: queue_inv_def fresh_node_def)
  have p: "p \<noteq> NULL" "p \<noteq> m_head q" "p \<notin> set (nodes q)" using new by (auto simp: fresh_node_def)
  show "fst (enqueue p d q) = m_active q"
    using p by (simp add: enqueue_def Let_def)
  show "queue_inv (snd (enqueue p d q)) \<and>
         nodes (snd (enqueue p d q)) = (if m_active q then nodes q @ [p] else nodes q)"
    using inv p r ring_add_tail [OF r p(2,3)]
    by (intro queue_nodesI) (auto simp: enqueue_def Let_def dest: queue_invD)
qed

lemma enqueueWithPriority_nodes:
  assumes inv: "queue_inv q" and new: "fresh_node p q"
  shows "fst (enqueueWithPriority p d q) = m_active q"
    and "queue_inv (snd (enqueueWithPriority p d q)) \<and>
         nodes (snd (enqueueWithPriority p d q)) = (if m_active q then p # nodes q else nodes q)"
proof -
  have r: "ring (mem (memset_node p d q)) (m_head q) (nodes q)"
    using inv new by (intro ring_memset) (auto simp: queue_inv_def fresh_node_def)
  have p: "p \<noteq> NULL" "p \<noteq> m_head q" "p \<notin> set (nodes q)" using new by (auto simp: fresh_node_def)
  show "fst (enqueueWithPriority p d q) = m_active q"
    using p by (simp add: enqueueWithPriority_def Let_def)
  show "queue_inv (snd (enqueueWithPriority p d q)) \<and>
         nodes (snd (enqueueWithPriority p d q)) = (if m_active q then p # nodes q else nodes q)"
    using inv p r ring_add_head [OF r p(2,3)]
    by (intro queue_nodesI) (auto simp: enqueueWithPriority_def Let_def dest: queue_invD)
qed

lemma remove_nodes:
  assumes inv: "queue_inv q" and split: "nodes q = us @ x # vs"
    and q': "mem q' = cam_list_del_node x (mem q)" "m_size q' = m_size q - 1" "m_head q' = m_head q"
  shows "queue_inv q' \<and> nodes q' = us @ vs"
proof (rule queue_nodesI)
  have "ring (mem q) (m_head q) (us @ x # vs)" "m_size q = int (length (us @ x # vs))"
    using inv split by (auto dest!: queue_invD)
  then show "ring (mem q') (m_head q') (us @ vs)" "m_size q' = int (length (us @ vs))"
    using q' by (auto intro: ring_del)
qed

lemma next_nodes:
  assumes "queue_inv q" and "nodes q = us @ x # vs"
  shows "nxt (mem q) x = hd (vs @ [m_head q])"
    and "x \<noteq> m_head q"
  using assms by (auto simp: queue_inv_def ring_def lseg_append lseg_first)

lemma first_node: "queue_inv q \<Longrightarrow> nxt (mem q) (m_head q) = hd (nodes q @ [m_head q])"
  by (simp add: queue_inv_def ring_first)

lemma last_node: "queue_inv q \<Longrightarrow> prv (mem q) (m_head q) = last (m_head q # nodes q)"
  unfolding queue_inv_def by (blast intro: ring_last)

lemma head_not_node: "queue_inv q \<Longrightarrow> m_head q \<notin> set (nodes q)"
  by (simp add: queue_inv_def ring_def)

section \<open>The abstract queue and the refinement\<close>

text \<open>
  What the queue promises: a list of data pointers and a flag.  \<open>queue_abs\<close> is the abstraction
  function; the lemmas below show that every operation of the class is its abstract counterpart.
\<close>

record 'd aqueue =
  elems :: "'d option list"
  is_open :: bool

definition queue_abs :: "'d cqueue \<Rightarrow> 'd aqueue" where
  "queue_abs q = \<lparr>elems = map (dat q) (nodes q), is_open = m_active q\<rparr>"

definition aq_enqueue :: "'d option \<Rightarrow> 'd aqueue \<Rightarrow> bool \<times> 'd aqueue" where
  "aq_enqueue d a = (if is_open a then (True, a\<lparr>elems := elems a @ [d]\<rparr>) else (False, a))"

definition aq_enqueueWithPriority :: "'d option \<Rightarrow> 'd aqueue \<Rightarrow> bool \<times> 'd aqueue" where
  "aq_enqueueWithPriority d a =
     (if is_open a then (True, a\<lparr>elems := d # elems a\<rparr>) else (False, a))"

definition aq_dequeue :: "bool \<Rightarrow> 'd aqueue \<Rightarrow> 'd option \<times> 'd aqueue" where
  "aq_dequeue bFromHead a =
     (if is_open a \<and> elems a \<noteq> []
      then if bFromHead then (hd (elems a), a\<lparr>elems := tl (elems a)\<rparr>)
           else (last (elems a), a\<lparr>elems := butlast (elems a)\<rparr>)
      else (None, a))"

definition aq_flush :: "'d aqueue \<Rightarrow> 'd aqueue" where
  "aq_flush a = (if is_open a then \<lparr>elems = [], is_open = False\<rparr> else a)"

definition aq_flushNodes :: "('d option \<Rightarrow> bool) \<Rightarrow> 'd aqueue \<Rightarrow> 'd aqueue" where
  "aq_flushNodes match a =
     (if is_open a then a\<lparr>elems := filter (\<lambda>d. \<not> match d) (elems a)\<rparr> else a)"

lemmas aq_defs = aq_enqueue_def aq_enqueueWithPriority_def aq_dequeue_def aq_flush_def
  aq_flushNodes_def

lemma map_fun_upd_notin [simp]: "p \<notin> set xs \<Longrightarrow> map (f(p := x)) xs = map f xs"
  by (induction xs) auto

lemma enqueue_dat:
  "fresh_node p q \<Longrightarrow> dat (snd (enqueue p d q)) = (dat q)(p := d) \<and>
     m_active (snd (enqueue p d q)) = m_active q \<and> m_head (snd (enqueue p d q)) = m_head q"
  by (simp add: enqueue_def Let_def fresh_node_def)

lemma enqueueWithPriority_dat:
  "fresh_node p q \<Longrightarrow> dat (snd (enqueueWithPriority p d q)) = (dat q)(p := d) \<and>
     m_active (snd (enqueueWithPriority p d q)) = m_active q \<and>
     m_head (snd (enqueueWithPriority p d q)) = m_head q"
  by (simp add: enqueueWithPriority_def Let_def fresh_node_def)

lemma enqueue_refines:
  assumes "queue_inv q" and "fresh_node p q"
  shows "queue_inv (snd (enqueue p d q)) \<and>
         (fst (enqueue p d q), queue_abs (snd (enqueue p d q))) = aq_enqueue d (queue_abs q)"
  using assms enqueue_nodes [OF assms, of d] enqueue_dat [OF assms(2), of d]
  by (auto simp: queue_abs_def aq_defs fresh_node_def)

lemma enqueueWithPriority_refines:
  assumes "queue_inv q" and "fresh_node p q"
  shows "queue_inv (snd (enqueueWithPriority p d q)) \<and>
         (fst (enqueueWithPriority p d q), queue_abs (snd (enqueueWithPriority p d q)))
           = aq_enqueueWithPriority d (queue_abs q)"
  using assms enqueueWithPriority_nodes [OF assms, of d] enqueueWithPriority_dat [OF assms(2), of d]
  by (auto simp: queue_abs_def aq_defs fresh_node_def)

text \<open>Which node \<open>dequeue\<close> takes, and what it leaves.\<close>

lemma dequeue_nodes:
  assumes inv: "queue_inv q" and act: "m_active q" and split: "nodes q = us @ x # vs"
    and pos: "(if b then nxt (mem q) (m_head q) else prv (mem q) (m_head q)) = x"
  shows "dequeue b q = (dat q x, free_node x (unlink x q))"
    and "queue_inv (free_node x (unlink x q)) \<and> nodes (free_node x (unlink x q)) = us @ vs"
proof -
  have "x \<noteq> m_head q" using next_nodes(2) [OF inv split] .
  then show "dequeue b q = (dat q x, free_node x (unlink x q))"
    using act pos by (simp add: dequeue_def Let_def)
  show "queue_inv (free_node x (unlink x q)) \<and> nodes (free_node x (unlink x q)) = us @ vs"
    by (rule remove_nodes [OF inv split]) simp_all
qed

lemma dequeue_empty:
  assumes "queue_inv q" and "nodes q = [] \<or> \<not> m_active q"
  shows "dequeue b q = (None, q)"
  using assms first_node [of q] last_node [of q] by (auto simp: dequeue_def Let_def)

lemma dequeue_refines:
  assumes inv: "queue_inv q"
  shows "queue_inv (snd (dequeue b q)) \<and>
         (fst (dequeue b q), queue_abs (snd (dequeue b q))) = aq_dequeue b (queue_abs q)"
proof (cases "nodes q = [] \<or> \<not> m_active q")
  case True
  then show ?thesis using inv dequeue_empty [OF inv True] by (auto simp: queue_abs_def aq_defs)
next
  case False
  then have act: "m_active q" and ne: "nodes q \<noteq> []" by auto
  show ?thesis
  proof (cases b)
    case True
    obtain x vs where xs: "nodes q = [] @ x # vs" using ne by (cases "nodes q") auto
    have "nxt (mem q) (m_head q) = x" using first_node [OF inv] xs by simp
    with dequeue_nodes [OF inv act xs, of b] True xs act show ?thesis
      by (auto simp: queue_abs_def aq_defs)
  next
    case False
    obtain x us where xs: "nodes q = us @ x # []" using ne by (cases "nodes q" rule: rev_cases) auto
    have "prv (mem q) (m_head q) = x" using last_node [OF inv] xs by simp
    with dequeue_nodes [OF inv act xs, of b] False xs act show ?thesis
      by (auto simp: queue_abs_def aq_defs butlast_append)
  qed
qed

section \<open>The loops: matching dequeue and the flushes\<close>

text \<open>A flush loop visits the nodes once, in order, and releases those that match.\<close>

definition release_nodes ::
  "('d option \<Rightarrow> bool) \<Rightarrow> ptr list \<Rightarrow> 'd cqueue \<Rightarrow> 'd cqueue" where
  "release_nodes match vs q =
     fold (\<lambda>x q. if match (dat q x) then flush_node x q else q) vs q"

lemma release_nodes_simps [simp]:
  "release_nodes match [] q = q"
  "release_nodes match (x # vs) q =
     release_nodes match vs (if match (dat q x) then flush_node x q else q)"
  by (simp_all add: release_nodes_def)

lemma flush_node_nodes:
  assumes "queue_inv q" and "nodes q = us @ x # vs"
  shows "queue_inv (flush_node x q) \<and> nodes (flush_node x q) = us @ vs"
  using assms by (intro remove_nodes) simp_all

lemma flushNodes_loop_eq:
  assumes "queue_inv q" and "nodes q = us @ vs"
  shows "flushNodes_loop match (hd (vs @ [m_head q])) q = Some (release_nodes match vs q)"
  using assms
proof (induction vs arbitrary: us q)
  case Nil
  then show ?case by (simp add: flushNodes_loop.simps)
next
  case (Cons x vs)
  let ?q = "if match (dat q x) then flush_node x q else q"
  have step: "flushNodes_loop match x q = flushNodes_loop match (hd (vs @ [m_head q])) ?q"
    using next_nodes [OF Cons.prems] by (simp add: flushNodes_loop.simps [of match x q])
  have "\<exists>us'. queue_inv ?q \<and> nodes ?q = us' @ vs"
    using flush_node_nodes [OF Cons.prems] Cons.prems by (auto intro: exI [of _ "us @ [x]"])
  then obtain us' where "queue_inv ?q" "nodes ?q = us' @ vs" by blast
  from Cons.IH [OF this] step show ?case by (simp split: if_splits)
qed

lemma flush_loop_eq:
  assumes "queue_inv q" and "nodes q = vs"
  shows "flush_loop (hd (vs @ [m_head q])) q = Some (release_nodes (\<lambda>_. True) vs q)"
  using assms
proof (induction vs arbitrary: q)
  case Nil
  then show ?case by (simp add: flush_loop.simps)
next
  case (Cons x vs)
  then have xs: "nodes q = [] @ x # vs" by simp
  have "flush_loop x q = flush_loop (hd (vs @ [m_head q])) (flush_node x q)"
    using next_nodes [OF Cons.prems(1) xs] by (simp add: flush_loop.simps [of x q])
  with Cons.IH [of "flush_node x q"] flush_node_nodes [OF Cons.prems(1) xs] show ?case by simp
qed

text \<open>The data pointers that are not NULL, in order: what a flush hands to \<open>free\<close>.\<close>

definition non_null :: "'d option list \<Rightarrow> 'd list" where
  "non_null ds = map the (filter (\<lambda>d. d \<noteq> None) ds)"

lemma release_nodes_sel:
  "m_head (release_nodes match vs q) = m_head q \<and> dat (release_nodes match vs q) = dat q \<and>
   m_active (release_nodes match vs q) = m_active q \<and>
   freed_nodes (release_nodes match vs q) =
     freed_nodes q @ filter (\<lambda>x. match (dat q x)) vs \<and>
   freed_data (release_nodes match vs q) =
     freed_data q @ non_null (filter match (map (dat q) vs))"
  by (induction vs arbitrary: q) (auto simp: non_null_def split: option.splits)

lemma release_nodes_nodes:
  assumes "queue_inv q" and "nodes q = us @ vs"
  shows "queue_inv (release_nodes match vs q) \<and>
         nodes (release_nodes match vs q) = us @ filter (\<lambda>x. \<not> match (dat q x)) vs"
  using assms
proof (induction vs arbitrary: us q)
  case Nil
  then show ?case by simp
next
  case (Cons x vs)
  show ?case
  proof (cases "match (dat q x)")
    case True
    with Cons.IH [of "flush_node x q" us] flush_node_nodes [OF Cons.prems] show ?thesis by simp
  next
    case False
    with Cons.IH [of q "us @ [x]"] Cons.prems show ?thesis by simp
  qed
qed

text \<open>\<open>flush\<close> returns, leaves an inactive empty queue, and frees every node and datum once.\<close>

lemma flush_spec:
  assumes inv: "queue_inv q"
  shows "\<exists>q'. flush q = Some q' \<and> queue_inv q' \<and> queue_abs q' = aq_flush (queue_abs q) \<and>
    (m_active q \<longrightarrow> freed_nodes q' = freed_nodes q @ nodes q \<and>
                   freed_data q' = freed_data q @ non_null (elems (queue_abs q)))"
proof (cases "m_active q")
  case True
  let ?r = "release_nodes (\<lambda>_. True) (nodes q) q"
  let ?f = "?r\<lparr>m_size := 0, m_active := False\<rparr>"
  have r: "queue_inv ?r \<and> nodes ?r = []"
    using release_nodes_nodes [OF inv, of "[]" "nodes q" "\<lambda>_. True"] by simp
  have f: "queue_inv ?f \<and> nodes ?f = []"
    using r by (intro queue_nodesI) (auto dest: queue_invD)
  have "flush q = Some ?f"
    using True flush_loop_eq [OF inv refl] first_node [OF inv] by (simp add: flush_def)
  then show ?thesis
    using f True by (auto simp: queue_abs_def aq_defs release_nodes_sel)
next
  case False
  then show ?thesis using inv by (simp add: flush_def queue_abs_def aq_defs)
qed

lemma flushNodes_spec:
  assumes inv: "queue_inv q"
  shows "\<exists>q'. flushNodes (Some match) q = Some q' \<and> queue_inv q' \<and>
    queue_abs q' = aq_flushNodes match (queue_abs q) \<and>
    (m_active q \<longrightarrow>
       freed_nodes q' = freed_nodes q @ filter (\<lambda>x. match (dat q x)) (nodes q) \<and>
       freed_data q' = freed_data q @ non_null (filter match (elems (queue_abs q))))"
proof (cases "m_active q")
  case True
  have "flushNodes (Some match) q = Some (release_nodes match (nodes q) q)"
    using True flushNodes_loop_eq [OF inv, of "[]" "nodes q" match] first_node [OF inv]
    by (simp add: flushNodes_def)
  then show ?thesis
    using release_nodes_nodes [OF inv, of "[]" "nodes q" match] True
    by (auto simp: queue_abs_def aq_defs release_nodes_sel filter_map o_def)
next
  case False
  then show ?thesis using inv by (simp add: flushNodes_def queue_abs_def aq_defs)
qed

lemma dequeue_match_loop_eq:
  assumes "queue_inv q" and "nodes q = us @ vs"
  shows "dequeue_match_loop match (hd (vs @ [m_head q])) q =
    (case find (\<lambda>x. match (dat q x)) vs of
       None \<Rightarrow> Some (None, q)
     | Some x \<Rightarrow> Some (dat q x, free_node x (unlink x q)))"
  using assms
proof (induction vs arbitrary: us)
  case Nil
  then show ?case by (simp add: dequeue_match_loop.simps)
next
  case (Cons x vs)
  from Cons.IH [of "us @ [x]"] next_nodes [OF Cons.prems] Cons.prems show ?case
    by (simp add: dequeue_match_loop.simps [of match x q])
qed

text \<open>Taking out the first datum that matches; the node goes with it.\<close>

definition aq_dequeue_match :: "('d option \<Rightarrow> bool) \<Rightarrow> 'd aqueue \<Rightarrow> 'd option \<times> 'd aqueue" where
  "aq_dequeue_match match a =
     (if is_open a
      then case dropWhile (\<lambda>d. \<not> match d) (elems a) of
             [] \<Rightarrow> (None, a)
           | d # ds \<Rightarrow> (d, a\<lparr>elems := takeWhile (\<lambda>d. \<not> match d) (elems a) @ ds\<rparr>)
      else (None, a))"

lemma find_split:
  "find P xs = Some x \<Longrightarrow>
     \<exists>us vs. xs = us @ x # vs \<and> P x \<and> (\<forall>u\<in>set us. \<not> P u)"
proof (induction xs)
  case (Cons y ys)
  show ?case
  proof (cases "P y")
    case True
    with Cons.prems show ?thesis by (auto intro: exI [of _ "[]"])
  next
    case False
    with Cons.prems have "find P ys = Some x" by simp
    then obtain us vs where "ys = us @ x # vs" "P x" "\<forall>u\<in>set us. \<not> P u" using Cons.IH by blast
    with False show ?thesis by (intro exI [of _ "y # us"] exI [of _ vs]) auto
  qed
qed simp

lemma aq_dequeue_match_split:
  "is_open a \<Longrightarrow> elems a = ds @ d # es \<Longrightarrow> match d \<Longrightarrow> \<forall>d\<in>set ds. \<not> match d \<Longrightarrow>
   aq_dequeue_match match a = (d, a\<lparr>elems := ds @ es\<rparr>)"
  by (simp add: aq_dequeue_match_def dropWhile_append takeWhile_append)

lemma aq_dequeue_match_none:
  "\<forall>d\<in>set (elems a). \<not> match d \<Longrightarrow> aq_dequeue_match match a = (None, a)"
  by (simp add: aq_dequeue_match_def dropWhile_eq_Nil_conv [THEN iffD2])

lemma dequeue_match_refines:
  assumes inv: "queue_inv q"
  shows "\<exists>d q'. dequeue_match (Some match) True q = Some (d, q') \<and> queue_inv q' \<and>
           (d, queue_abs q') = aq_dequeue_match match (queue_abs q)"
proof (cases "m_active q")
  case False
  then show ?thesis using inv by (simp add: dequeue_match_def aq_dequeue_match_def queue_abs_def)
next
  case True
  have loop: "dequeue_match (Some match) True q =
      (case find (\<lambda>x. match (dat q x)) (nodes q) of
         None \<Rightarrow> Some (None, q)
       | Some x \<Rightarrow> Some (dat q x, free_node x (unlink x q)))"
    using True dequeue_match_loop_eq [OF inv, of "[]" "nodes q" match] first_node [OF inv]
    by (simp add: dequeue_match_def)
  show ?thesis
  proof (cases "find (\<lambda>x. match (dat q x)) (nodes q)")
    case None
    then have "\<forall>d\<in>set (elems (queue_abs q)). \<not> match d" by (auto simp: find_None_iff queue_abs_def)
    from aq_dequeue_match_none [OF this] None loop inv show ?thesis by simp
  next
    case (Some x)
    then obtain us vs where xs: "nodes q = us @ x # vs" "match (dat q x)"
      and us: "\<forall>u\<in>set us. \<not> match (dat q u)" by (blast dest: find_split)
    have "queue_inv (free_node x (unlink x q)) \<and> nodes (free_node x (unlink x q)) = us @ vs"
      by (rule remove_nodes [OF inv xs(1)]) simp_all
    moreover have "aq_dequeue_match match (queue_abs q) =
        (dat q x, (queue_abs q)\<lparr>elems := map (dat q) us @ map (dat q) vs\<rparr>)"
      using True xs us by (intro aq_dequeue_match_split) (auto simp: queue_abs_def)
    ultimately show ?thesis using loop Some by (simp add: queue_abs_def)
  qed
qed

end
