(* ===== verification/QueueInterface.thy ===== *)
theory QueueInterface
  imports CameraQueue
begin

text \<open>
  The interface through which the camera's threads use a queue, with what they rely on: an
  implementation whose enqueue and dequeue are those of the abstract queue, provided \<open>malloc\<close>
  returns a block that is not in use.  The clients' lemmas (first in, first out; a priority command
  overtakes) are proved here once, and the pointer-level queue of \<^verbatim>\<open>QCameraQueue.cpp\<close> is shown to
  be an implementation.
\<close>

locale cmd_queue =
  fixes inv :: "'q \<Rightarrow> bool"
    and abs :: "'q \<Rightarrow> 'd aqueue"
    and unused :: "ptr \<Rightarrow> 'q \<Rightarrow> bool"
    and enq :: "ptr \<Rightarrow> 'd option \<Rightarrow> 'q \<Rightarrow> bool \<times> 'q"
    and enqp :: "ptr \<Rightarrow> 'd option \<Rightarrow> 'q \<Rightarrow> bool \<times> 'q"
    and deq :: "bool \<Rightarrow> 'q \<Rightarrow> 'd option \<times> 'q"
  assumes enq: "inv q \<Longrightarrow> unused p q \<Longrightarrow>
      inv (snd (enq p d q)) \<and> (fst (enq p d q), abs (snd (enq p d q))) = aq_enqueue d (abs q)"
    and enqp: "inv q \<Longrightarrow> unused p q \<Longrightarrow>
      inv (snd (enqp p d q)) \<and>
      (fst (enqp p d q), abs (snd (enqp p d q))) = aq_enqueueWithPriority d (abs q)"
    and deq: "inv q \<Longrightarrow>
      inv (snd (deq b q)) \<and> (fst (deq b q), abs (snd (deq b q))) = aq_dequeue b (abs q)"
    and unused_enq: "inv q \<Longrightarrow> unused p q \<Longrightarrow> unused p' q \<Longrightarrow> p' \<noteq> p \<Longrightarrow>
      unused p' (snd (enq p d q))"
begin

text \<open>Posting a list of commands, and taking \<open>n\<close> of them.\<close>

fun post :: "(ptr \<times> 'd option) list \<Rightarrow> 'q \<Rightarrow> 'q" where
  "post [] q = q"
| "post ((p, d) # cs) q = post cs (snd (enq p d q))"

fun take_cmds :: "nat \<Rightarrow> 'q \<Rightarrow> 'd option list \<times> 'q" where
  "take_cmds 0 q = ([], q)"
| "take_cmds (Suc n) q =
     (let (d, q) = deq True q; (ds, q) = take_cmds n q in (d # ds, q))"

lemma post_elems:
  assumes "inv q" and "is_open (abs q)" and "distinct (map fst cs)"
    and "\<forall>p\<in>set (map fst cs). unused p q"
  shows "inv (post cs q) \<and> abs (post cs q) = (abs q)\<lparr>elems := elems (abs q) @ map snd cs\<rparr>"
  using assms
proof (induction cs q rule: post.induct)
  case (2 p d cs q)
  let ?q = "snd (enq p d q)"
  have e: "inv ?q" "abs ?q = (abs q)\<lparr>elems := elems (abs q) @ [d]\<rparr>"
    using enq [of q p d] "2.prems" by (auto simp: aq_enqueue_def)
  moreover have "\<forall>p'\<in>set (map fst cs). unused p' ?q"
    using "2.prems" by (auto intro: unused_enq)
  ultimately show ?case using "2.IH" "2.prems" by simp
qed simp

lemma take_elems:
  assumes "inv q" and "is_open (abs q)" and "n \<le> length (elems (abs q))"
  shows "fst (take_cmds n q) = take n (elems (abs q)) \<and> inv (snd (take_cmds n q)) \<and>
         abs (snd (take_cmds n q)) = (abs q)\<lparr>elems := drop n (elems (abs q))\<rparr>"
  using assms
proof (induction n arbitrary: q)
  case (Suc n)
  obtain d ds where ds: "elems (abs q) = d # ds" using Suc.prems by (cases "elems (abs q)") auto
  let ?q = "snd (deq True q)"
  have e: "fst (deq True q) = d" "inv ?q" "abs ?q = (abs q)\<lparr>elems := ds\<rparr>"
    using deq [of q True] Suc.prems ds by (auto simp: aq_dequeue_def)
  with Suc.IH [of ?q] Suc.prems ds show ?case by (simp add: split_beta Let_def)
qed simp

lemma fifo:
  assumes "inv q" and "abs q = \<lparr>elems = [], is_open = True\<rparr>" and "distinct (map fst cs)"
    and "\<forall>p\<in>set (map fst cs). unused p q"
  shows "fst (take_cmds (length cs) (post cs q)) = map snd cs"
  using post_elems [of q cs] take_elems [of "post cs q" "length cs"] assms by simp

lemma priority_first:
  assumes "inv q" and "is_open (abs q)" and "unused p q"
  shows "fst (deq True (snd (enqp p d q))) = d \<and>
         abs (snd (deq True (snd (enqp p d q)))) = abs q"
  using enqp [OF assms(1,3), of d] deq [of "snd (enqp p d q)" True] assms(2)
  by (auto simp: aq_enqueueWithPriority_def aq_dequeue_def)

end

lemma fresh_enqueue:
  assumes "queue_inv q" and "fresh_node p q" and "fresh_node p' q" and "p' \<noteq> p"
  shows "fresh_node p' (snd (enqueue p d q))"
  using enqueue_nodes [OF assms(1,2), of d] enqueue_dat [OF assms(2), of d] assms(3,4)
  by (auto simp: fresh_node_def)

interpretation cq: cmd_queue queue_inv queue_abs fresh_node enqueue enqueueWithPriority dequeue
  by unfold_locales
    (use enqueue_refines enqueueWithPriority_refines dequeue_refines fresh_enqueue in blast)+

text \<open>The same two operations run in a row, written on the model of the class.\<close>

fun enqueue_all :: "(ptr \<times> 'd option) list \<Rightarrow> 'd cqueue \<Rightarrow> 'd cqueue" where
  "enqueue_all [] q = q"
| "enqueue_all ((p, d) # cs) q = enqueue_all cs (snd (enqueue p d q))"

fun dequeue_n :: "nat \<Rightarrow> 'd cqueue \<Rightarrow> 'd option list \<times> 'd cqueue" where
  "dequeue_n 0 q = ([], q)"
| "dequeue_n (Suc n) q =
     (let (d, q) = dequeue True q; (ds, q) = dequeue_n n q in (d # ds, q))"

lemma enqueue_all_post: "enqueue_all cs q = cq.post cs q"
  by (induction cs q rule: enqueue_all.induct) auto

lemma dequeue_n_take: "dequeue_n n q = cq.take_cmds n q"
  by (induction n arbitrary: q) (auto simp: split_beta Let_def)

end
