(* ===== verification/SMThread.thy ===== *)
theory SMThread
  imports SMRuns QueueInterface
begin

text \<open>
  The thread of the state machine: \<open>procAPI\<close> and \<open>procEvt\<close> queue a command and post a semaphore,
  \<open>smEvtProcRoutine\<close> takes one command per count of it, the API queue before the event queue, and
  \<open>releaseThread\<close> makes it end.  The queues are those of the abstract specification, which the
  queue of \<^verbatim>\<open>QCameraQueue.cpp\<close> implements (\<^verbatim>\<open>QueueInterface\<close>).

  A handler runs without interruption here.  Other threads only append to the queues and post the
  semaphore meanwhile, and the thread looks at neither before the handler has returned.
\<close>

section \<open>Commands and the thread\<close>

datatype sm_cmd = CMD_API sm_evt | CMD_EVT sm_evt | CMD_EXIT

record 'p sm_thread =
  machine :: "'p sm"
  api_queue :: "sm_cmd aqueue"
  evt_queue :: "sm_cmd aqueue"
  cmd_sem :: nat
  running :: bool

definition new_thread :: "'p sm \<Rightarrow> 'p sm_thread" where
  "new_thread s =
     \<lparr>machine = s, api_queue = \<lparr>elems = [], is_open = True\<rparr>,
      evt_queue = \<lparr>elems = [], is_open = True\<rparr>, cmd_sem = 0, running = True\<rparr>"

text \<open>
  Posting a command.  The booleans tell whether \<open>malloc\<close> finds memory for the command and for the
  node that \<open>enqueue\<close> allocates.
\<close>

definition put :: "bool \<Rightarrow> sm_cmd \<Rightarrow> sm_cmd aqueue \<Rightarrow> bool \<times> sm_cmd aqueue" where
  "put node c q = (if node then aq_enqueue (Some c) q else (False, q))"

definition procAPI :: "bool \<Rightarrow> bool \<Rightarrow> sm_evt \<Rightarrow> 'p sm_thread \<Rightarrow> int32 \<times> 'p sm_thread" where
  "procAPI memory node e T =
     (if \<not> memory then (NO_MEMORY, T)
      else let (queued, q) = put node (CMD_API e) (api_queue T) in
        if queued then (NO_ERROR, T\<lparr>api_queue := q, cmd_sem := cmd_sem T + 1\<rparr>)
        else (UNKNOWN_ERROR, T))"

definition procEvt :: "bool \<Rightarrow> bool \<Rightarrow> sm_evt \<Rightarrow> 'p sm_thread \<Rightarrow> int32 \<times> 'p sm_thread" where
  "procEvt memory node e T =
     (if \<not> memory then (NO_MEMORY, T)
      else let (queued, q) = put node (CMD_EVT e) (evt_queue T) in
        if queued then (NO_ERROR, T\<lparr>evt_queue := q, cmd_sem := cmd_sem T + 1\<rparr>)
        else (UNKNOWN_ERROR, T))"

text \<open>The part of \<open>releaseThread\<close> before it joins the thread.\<close>

definition post_exit :: "bool \<Rightarrow> bool \<Rightarrow> 'p sm_thread \<Rightarrow> 'p sm_thread" where
  "post_exit memory node T =
     (if \<not> memory then T
      else let (queued, q) = put node CMD_EXIT (api_queue T) in
        if queued then T\<lparr>api_queue := q, cmd_sem := cmd_sem T + 1\<rparr> else T)"

text \<open>
  One round of the loop of \<open>smEvtProcRoutine\<close>; None when the thread has ended or waits for the
  semaphore.
\<close>

definition sm_cycle :: "'p hwi \<Rightarrow> 'p sm_thread \<Rightarrow> 'p sm_thread option" where
  "sm_cycle H T =
     (if \<not> running T \<or> cmd_sem T = 0 then None
      else
        let (node, aq) = aq_dequeue True (api_queue T);
            (node, eq) = (if node = None then aq_dequeue True (evt_queue T)
                          else (node, evt_queue T));
            T = T\<lparr>api_queue := aq, evt_queue := eq, cmd_sem := cmd_sem T - 1\<rparr>
        in Some (case node of
             None \<Rightarrow> T
           | Some (CMD_API e) \<Rightarrow> T\<lparr>machine := handled H e (machine T)\<rparr>
           | Some (CMD_EVT e) \<Rightarrow> T\<lparr>machine := handled H e (machine T)\<rparr>
           | Some CMD_EXIT \<Rightarrow> T\<lparr>running := False\<rparr>))"

text \<open>At most \<open>n\<close> rounds, fewer when the thread waits or ends.\<close>

fun smEvtProcRoutine :: "'p hwi \<Rightarrow> nat \<Rightarrow> 'p sm_thread \<Rightarrow> 'p sm_thread" where
  "smEvtProcRoutine H 0 T = T"
| "smEvtProcRoutine H (Suc n) T =
     (case sm_cycle H T of None \<Rightarrow> T | Some T' \<Rightarrow> smEvtProcRoutine H n T')"

section \<open>Invariant\<close>

text \<open>The semaphore counts the queued commands.\<close>

definition thread_inv :: "'p sm_thread \<Rightarrow> bool" where
  "thread_inv T \<longleftrightarrow>
     cmd_sem T = length (elems (api_queue T)) + length (elems (evt_queue T))
     \<and> is_open (api_queue T) \<and> is_open (evt_queue T)
     \<and> (\<forall>d \<in> set (elems (api_queue T)). \<exists>e. d = Some (CMD_API e) \<or> d = Some CMD_EXIT)
     \<and> (\<forall>d \<in> set (elems (evt_queue T)). \<exists>e. d = Some (CMD_EVT e))"

lemma new_thread_inv: "thread_inv (new_thread s)"
  by (simp add: thread_inv_def new_thread_def)

lemma procAPI_inv: "thread_inv T \<Longrightarrow> thread_inv (snd (procAPI memory node e T))"
  by (auto simp: thread_inv_def procAPI_def put_def aq_enqueue_def)

lemma procEvt_inv: "thread_inv T \<Longrightarrow> thread_inv (snd (procEvt memory node e T))"
  by (auto simp: thread_inv_def procEvt_def put_def aq_enqueue_def)

lemma post_exit_inv: "thread_inv T \<Longrightarrow> thread_inv (post_exit memory node T)"
  by (auto simp: thread_inv_def post_exit_def put_def aq_enqueue_def)

text \<open>What a round does, by the command at the front.\<close>

lemma cycle_api:
  assumes "thread_inv T" "running T" "elems (api_queue T) = Some (CMD_API e) # ds"
  shows "sm_cycle H T = Some (T\<lparr>machine := handled H e (machine T),
    api_queue := (api_queue T)\<lparr>elems := ds\<rparr>, cmd_sem := cmd_sem T - 1\<rparr>)"
  using assms by (simp add: sm_cycle_def thread_inv_def aq_dequeue_def)

lemma cycle_exit:
  assumes "thread_inv T" "running T" "elems (api_queue T) = Some CMD_EXIT # ds"
  shows "sm_cycle H T = Some (T\<lparr>running := False,
    api_queue := (api_queue T)\<lparr>elems := ds\<rparr>, cmd_sem := cmd_sem T - 1\<rparr>)"
  using assms by (simp add: sm_cycle_def thread_inv_def aq_dequeue_def)

lemma cycle_evt:
  assumes "thread_inv T" "running T" "elems (api_queue T) = []"
    "elems (evt_queue T) = Some (CMD_EVT e) # ds"
  shows "sm_cycle H T = Some (T\<lparr>machine := handled H e (machine T),
    evt_queue := (evt_queue T)\<lparr>elems := ds\<rparr>, cmd_sem := cmd_sem T - 1\<rparr>)"
  using assms by (simp add: sm_cycle_def thread_inv_def aq_dequeue_def)

lemma cycle_blocked:
  assumes "thread_inv T" "elems (api_queue T) = []" "elems (evt_queue T) = []"
  shows "sm_cycle H T = None"
  using assms by (simp add: sm_cycle_def thread_inv_def)

lemma cycle_running: "sm_cycle H T = Some T' \<Longrightarrow> running T"
  by (simp add: sm_cycle_def split: if_splits)

lemma cycle_inv:
  assumes "thread_inv T" "sm_cycle H T = Some T'"
  shows "thread_inv T'"
proof (cases "elems (api_queue T)")
  case Nil
  show ?thesis
  proof (cases "elems (evt_queue T)")
    case evt: Nil
    with assms Nil show ?thesis by (simp add: cycle_blocked)
  next
    case (Cons d ds)
    with assms(1) obtain e where "d = Some (CMD_EVT e)"
      by (auto simp: thread_inv_def)
    with assms Nil Cons show ?thesis
      using cycle_evt [OF assms(1) cycle_running [OF assms(2)] Nil, of e ds H]
      by (auto simp: thread_inv_def)
  qed
next
  case (Cons d ds)
  with assms(1) obtain e where "d = Some (CMD_API e) \<or> d = Some CMD_EXIT"
    by (auto simp: thread_inv_def)
  with assms Cons show ?thesis
    using cycle_api [OF assms(1) cycle_running [OF assms(2)], of e ds H]
      cycle_exit [OF assms(1) cycle_running [OF assms(2)], of ds H]
    by (auto simp: thread_inv_def)
qed

section \<open>Emptying the queues\<close>

abbreviation apis :: "sm_evt list \<Rightarrow> sm_cmd option list" where
  "apis es \<equiv> map (\<lambda>e. Some (CMD_API e)) es"

abbreviation evts :: "sm_evt list \<Rightarrow> sm_cmd option list" where
  "evts es \<equiv> map (\<lambda>e. Some (CMD_EVT e)) es"

lemma drain_evts:
  assumes "thread_inv T" "running T" "elems (api_queue T) = []" "elems (evt_queue T) = evts es"
  shows "smEvtProcRoutine H (length es) T =
    T\<lparr>machine := handled_all H es (machine T),
      evt_queue := \<lparr>elems = [], is_open = True\<rparr>, cmd_sem := 0\<rparr>"
  using assms
proof (induction es arbitrary: T)
  case Nil
  then show ?case by (simp add: thread_inv_def)
next
  case (Cons e es)
  let ?T = "T\<lparr>machine := handled H e (machine T),
    evt_queue := (evt_queue T)\<lparr>elems := evts es\<rparr>, cmd_sem := cmd_sem T - 1\<rparr>"
  have cyc: "sm_cycle H T = Some ?T"
    using Cons.prems by (simp add: cycle_evt)
  moreover have "thread_inv ?T"
    using cycle_inv [OF Cons.prems(1) cyc] .
  ultimately show ?case
    using Cons.IH [of ?T] Cons.prems by simp
qed

definition after_apis :: "'p hwi \<Rightarrow> sm_evt list \<Rightarrow> sm_cmd option list \<Rightarrow> 'p sm_thread \<Rightarrow> 'p sm_thread" where
  "after_apis H es ds T = T\<lparr>machine := handled_all H es (machine T),
     api_queue := (api_queue T)\<lparr>elems := ds\<rparr>, cmd_sem := cmd_sem T - length es\<rparr>"

lemma drain_apis:
  assumes "thread_inv T" "running T" "elems (api_queue T) = apis es @ ds"
  shows "thread_inv (after_apis H es ds T) \<and>
    smEvtProcRoutine H (length es + n) T = smEvtProcRoutine H n (after_apis H es ds T)"
  using assms
proof (induction es arbitrary: T)
  case Nil
  then have "after_apis H [] ds T = T"
    by (auto simp: after_apis_def intro!: sm_thread.equality aqueue.equality)
  with Nil show ?case by simp
next
  case (Cons e es)
  let ?T = "T\<lparr>machine := handled H e (machine T),
    api_queue := (api_queue T)\<lparr>elems := apis es @ ds\<rparr>, cmd_sem := cmd_sem T - 1\<rparr>"
  have cyc: "sm_cycle H T = Some ?T"
    using Cons.prems by (simp add: cycle_api)
  have "after_apis H es ds ?T = after_apis H (e # es) ds T"
    by (simp add: after_apis_def)
  then show ?case
    using cyc Cons.IH [of ?T] cycle_inv [OF Cons.prems(1) cyc] Cons.prems by simp
qed

text \<open>Everything queued is handled: the requests first, then the events, each in order.\<close>

lemma drain:
  assumes "thread_inv T" "running T" "elems (api_queue T) = apis as" "elems (evt_queue T) = evts es"
  shows "smEvtProcRoutine H (length as + length es) T =
    T\<lparr>machine := handled_all H (as @ es) (machine T), api_queue := \<lparr>elems = [], is_open = True\<rparr>,
      evt_queue := \<lparr>elems = [], is_open = True\<rparr>, cmd_sem := 0\<rparr>"
proof -
  have d: "thread_inv (after_apis H as [] T)"
    "smEvtProcRoutine H (length as + length es) T = smEvtProcRoutine H (length es) (after_apis H as [] T)"
    using drain_apis [OF assms(1,2), of as "[]"] assms(3) by auto
  show ?thesis
    unfolding d(2) using drain_evts [OF d(1), of es] assms
    by (simp add: after_apis_def thread_inv_def)
qed

text \<open>The exit command lets the requests before it be handled, and the events wait for ever.\<close>

lemma drain_exit:
  assumes "thread_inv T" "running T" "elems (api_queue T) = apis as @ [Some CMD_EXIT]"
  shows "smEvtProcRoutine H (length as + Suc n) T =
    T\<lparr>machine := handled_all H as (machine T), api_queue := \<lparr>elems = [], is_open = True\<rparr>,
      cmd_sem := length (elems (evt_queue T)), running := False\<rparr>"
proof -
  let ?T = "after_apis H as [Some CMD_EXIT] T"
  have d: "thread_inv ?T"
    "smEvtProcRoutine H (length as + Suc n) T = smEvtProcRoutine H (Suc n) ?T"
    using drain_apis [OF assms(1,2), of as "[Some CMD_EXIT]" H "Suc n"] assms(3)
    by (auto simp del: add_Suc_right)
  have stop: "smEvtProcRoutine H n U = U" if "\<not> running U" for U :: "'a sm_thread"
    using that by (cases n) (simp_all add: sm_cycle_def)
  show ?thesis
    unfolding d(2) using cycle_exit [OF d(1), of "[]"] assms
    by (simp add: after_apis_def stop thread_inv_def)
qed

section \<open>Interleaving with the posting threads\<close>

datatype action = Post_API sm_evt | Post_EVT sm_evt | Cycle

fun act :: "'p hwi \<Rightarrow> action \<Rightarrow> 'p sm_thread \<Rightarrow> 'p sm_thread" where
  "act H (Post_API e) T = snd (procAPI True True e T)"
| "act H (Post_EVT e) T = snd (procEvt True True e T)"
| "act H Cycle T = (case sm_cycle H T of None \<Rightarrow> T | Some T' \<Rightarrow> T')"

definition schedule :: "'p hwi \<Rightarrow> action list \<Rightarrow> 'p sm_thread \<Rightarrow> 'p sm_thread" where
  "schedule H acts T = fold (act H) acts T"

lemma schedule_simps [simp]:
  "schedule H [] T = T"
  "schedule H (a # acts) T = schedule H acts (act H a T)"
  by (simp_all add: schedule_def)

lemma act_inv: "thread_inv T \<Longrightarrow> thread_inv (act H a T)"
  by (cases a) (auto simp: procAPI_inv procEvt_inv cycle_inv split: option.split)

lemma schedule_inv: "thread_inv T \<Longrightarrow> thread_inv (schedule H acts T)"
  by (induction acts arbitrary: T) (simp_all add: act_inv)

text \<open>
  Whatever is posted meanwhile, the next rounds handle the requests that are already queued.
\<close>

lemma schedule_requests:
  assumes "thread_inv T" "running T" "elems (api_queue T) = apis es @ ds"
    and "length (filter ((=) Cycle) acts) \<le> length es"
  shows "machine (schedule H acts T) =
    handled_all H (take (length (filter ((=) Cycle) acts)) es) (machine T)"
  using assms
proof (induction acts arbitrary: T es ds)
  case (Cons a acts)
  note inv = act_inv [OF Cons.prems(1), of H a]
  show ?case
  proof (cases a)
    case (Post_API e)
    have "elems (api_queue (act H a T)) = apis es @ (ds @ [Some (CMD_API e)])"
      "running (act H a T)" "machine (act H a T) = machine T"
      using Cons.prems Post_API by (auto simp: procAPI_def put_def aq_enqueue_def thread_inv_def)
    with Cons.IH [OF inv] Cons.prems Post_API show ?thesis by simp
  next
    case (Post_EVT e)
    have "elems (api_queue (act H a T)) = apis es @ ds"
      "running (act H a T)" "machine (act H a T) = machine T"
      using Cons.prems Post_EVT by (auto simp: procEvt_def put_def aq_enqueue_def thread_inv_def)
    with Cons.IH [OF inv] Cons.prems Post_EVT show ?thesis by simp
  next
    case Cycle
    with Cons.prems obtain e es' where es: "es = e # es'" by (cases es) auto
    have "elems (api_queue (act H a T)) = apis es' @ ds"
      "running (act H a T)" "machine (act H a T) = handled H e (machine T)"
      using Cons.prems Cycle es cycle_api [of T e "apis es' @ ds" H] by auto
    with Cons.IH [OF inv] Cons.prems Cycle es show ?thesis by simp
  qed
qed simp

end
