(* ===== verification/HwiApi.thy ===== *)
theory HwiApi
  imports SMThread
begin

text \<open>
  The API of the camera in \<^verbatim>\<open>HAL/QCamera2HWI.cpp\<close>: a call posts a request to the thread of the
  state machine and waits until its result appears in a list of results.  The caller is one thread
  and the state machine another; here they alternate.  While the caller waits, the state machine
  handles what is queued, and when nothing is left the backend may post one of its events.

  An operation is a function from the state to an option: None when the caller waits for ever.
\<close>

section \<open>The result list\<close>

definition signalAPIResult ::
  "bool \<Rightarrow> qcamera_api_result \<Rightarrow> qcamera_api_result list \<Rightarrow> qcamera_api_result list" where
  "signalAPIResult memory result results = (if memory then results @ [result] else results)"

text \<open>The inner loop of \<open>waitAPIResult\<close>: the first result for the API is unlinked.\<close>

fun take_result ::
  "qcamera_sm_evt_enum \<Rightarrow> qcamera_api_result list
     \<Rightarrow> (qcamera_api_result \<times> qcamera_api_result list) option" where
  "take_result api_evt [] = None"
| "take_result api_evt (r # rs) =
     (if request_api r = api_evt then Some (r, rs)
      else map_option (\<lambda>(x, ys). (x, r # ys)) (take_result api_evt rs))"

lemma take_result_None: "take_result evt rs = None \<longleftrightarrow> evt \<notin> request_api ` set rs"
  by (induction rs) auto

lemma take_result_append:
  "evt \<notin> request_api ` set rs \<Longrightarrow>
   take_result evt (rs @ ss) = map_option (\<lambda>(x, ys). (x, rs @ ys)) (take_result evt ss)"
  by (cases "take_result evt ss"; induction rs) auto

lemma take_result_Some:
  "take_result evt rs = Some (r, rs') \<Longrightarrow>
   \<exists>xs ys. rs = xs @ r # ys \<and> rs' = xs @ ys \<and> request_api r = evt \<and> evt \<notin> request_api ` set xs"
proof (induction rs arbitrary: rs')
  case (Cons a rs)
  show ?case
  proof (cases "request_api a = evt")
    case False
    with Cons.prems obtain us where "take_result evt rs = Some (r, us)" "rs' = a # us"
      by auto
    with Cons.IH False obtain xs ys where "rs = xs @ r # ys" "us = xs @ ys" "request_api r = evt"
      "evt \<notin> request_api ` set xs"
      by blast
    with \<open>rs' = a # us\<close> False show ?thesis
      by (intro exI [of _ "a # xs"] exI [of _ ys]) auto
  qed (use Cons.prems in \<open>auto intro: exI [of _ "[]"]\<close>)
qed simp

section \<open>The two threads\<close>

text \<open>
  The members of the hardware interface the API uses, the thread of the state machine, and the events
  the backend is still going to post, in order.
\<close>

record 'p hw =
  thread :: "'p sm_thread"
  m_apiResultList :: "qcamera_api_result list"
  m_smThreadActive :: bool
  mPrepSnapRun :: bool
  m_bPreviewStarted :: bool
  m_bRecordStarted :: bool
  mPreviewRestartNeeded :: bool
  backend :: "sm_evt list"

text \<open>The results signalled between two points of a run.\<close>

definition new_results :: "'p sm \<Rightarrow> 'p sm \<Rightarrow> qcamera_api_result list" where
  "new_results s t = drop (length (api_results (calls s))) (api_results (calls t))"

lemma new_results_eq:
  "api_results (calls t) = api_results (calls s) @ new \<Longrightarrow> new_results s t = new"
  by (simp add: new_results_def)

lemma sm_cycle_sem: "sm_cycle H T = Some T' \<Longrightarrow> cmd_sem T' < cmd_sem T"
  by (auto simp: sm_cycle_def Let_def split: if_splits prod.splits option.splits sm_cmd.splits)

text \<open>
  \<open>waitAPIResult\<close>.  The list is looked at when the state machine has signalled something; the number
  of rounds is bounded by the commands that are queued or still to come.
\<close>

function waitAPIResult ::
  "'p hwi \<Rightarrow> qcamera_sm_evt_enum \<Rightarrow> 'p hw \<Rightarrow> (qcamera_api_result \<times> 'p hw) option" where
  "waitAPIResult H api_evt W =
     (case sm_cycle H (thread W) of
        Some T \<Rightarrow>
          (let new = new_results (machine (thread W)) (machine T);
               W = W\<lparr>thread := T, m_apiResultList := fold (signalAPIResult True) new (m_apiResultList W)\<rparr>
           in case (if new = [] then None else take_result api_evt (m_apiResultList W)) of
                Some (r, rs) \<Rightarrow> Some (r, W\<lparr>m_apiResultList := rs\<rparr>)
              | None \<Rightarrow> waitAPIResult H api_evt W)
      | None \<Rightarrow>
          (case backend W of
             [] \<Rightarrow> None
           | e # es \<Rightarrow>
               waitAPIResult H api_evt
                 (W\<lparr>thread := snd (procEvt True True e (thread W)), backend := es\<rparr>)))"
  by pat_completeness auto

termination
proof (relation "measure (\<lambda>(H, api_evt, W). cmd_sem (thread W) + 2 * length (backend W))")
qed (auto simp: sm_cycle_sem procEvt_def put_def aq_enqueue_def Let_def)

declare waitAPIResult.simps [simp del]

definition processAPI :: "sm_evt \<Rightarrow> 'p hw \<Rightarrow> int32 \<times> 'p hw" where
  "processAPI e W =
     (if m_smThreadActive W
      then let (rc, T) = procAPI True True e (thread W) in (rc, W\<lparr>thread := T\<rparr>)
      else (DEAD_OBJECT, W))"

definition processEvt :: "sm_evt \<Rightarrow> 'p hw \<Rightarrow> int32 \<times> 'p hw" where
  "processEvt e W = (let (rc, T) = procEvt True True e (thread W) in (rc, W\<lparr>thread := T\<rparr>))"

text \<open>
  The body every API function shares: post the request, and if that succeeds wait for its result.
\<close>

definition sync_call ::
  "'p hwi \<Rightarrow> sm_evt \<Rightarrow> 'p hw \<Rightarrow> ((int32 \<times> qcamera_api_result option) \<times> 'p hw) option" where
  "sync_call H e W =
     (let (ret, W) = processAPI e W in
      if ret = NO_ERROR
      then map_option (\<lambda>(r, W). ((ret, Some r), W)) (waitAPIResult H (evt_id e) W)
      else Some ((ret, None), W))"

section \<open>A call returns\<close>

text \<open>Nothing queued, the thread running, and no result left over for the request.\<close>

definition idle :: "'p hw \<Rightarrow> bool" where
  "idle W \<longleftrightarrow> m_smThreadActive W \<and> running (thread W) \<and> cmd_sem (thread W) = 0
     \<and> api_queue (thread W) = \<lparr>elems = [], is_open = True\<rparr>
     \<and> evt_queue (thread W) = \<lparr>elems = [], is_open = True\<rparr>"

definition after_call :: "'p hwi \<Rightarrow> sm_evt \<Rightarrow> 'p hw \<Rightarrow> 'p hw" where
  "after_call H e W = W\<lparr>thread := (thread W)\<lparr>machine := handled H e (machine (thread W))\<rparr>\<rparr>"

lemma idle_after_call: "idle W \<Longrightarrow> idle (after_call H e W)"
  by (simp add: idle_def after_call_def)

lemma idle_post:
  assumes "idle W"
  shows "processAPI e W =
    (NO_ERROR, W\<lparr>thread := (thread W)\<lparr>api_queue := \<lparr>elems = [Some (CMD_API e)], is_open = True\<rparr>,
       cmd_sem := 1\<rparr>\<rparr>)"
  using assms by (simp add: idle_def processAPI_def procAPI_def put_def aq_enqueue_def)

lemma fold_signal: "fold (signalAPIResult True) new rs = rs @ new"
  by (induction new arbitrary: rs) (simp_all add: signalAPIResult_def)

text \<open>The round that handles the request.\<close>

lemma idle_request_round:
  assumes "idle W"
  shows "sm_cycle H (thread (snd (processAPI e W))) = Some (thread (after_call H e W))"
  using assms unfolding idle_post [OF assms]
  by (auto simp: idle_def sm_cycle_def aq_dequeue_def after_call_def intro!: sm_thread.equality)

text \<open>The ways in which a round of the wait goes on.\<close>

lemma wait_silent:
  assumes "sm_cycle H (thread W) = Some T" "new_results (machine (thread W)) (machine T) = []"
  shows "waitAPIResult H evt W = waitAPIResult H evt (W\<lparr>thread := T\<rparr>)"
  using assms by (subst waitAPIResult.simps) simp

lemma wait_post:
  assumes "sm_cycle H (thread W) = None" "backend W = e # es"
  shows "waitAPIResult H evt W =
    waitAPIResult H evt (W\<lparr>thread := snd (procEvt True True e (thread W)), backend := es\<rparr>)"
  using assms by (subst waitAPIResult.simps) simp

lemma wait_found:
  assumes "sm_cycle H (thread W) = Some T" "new_results (machine (thread W)) (machine T) = [r]"
    and "request_api r = evt" "evt \<notin> request_api ` set (m_apiResultList W)"
  shows "waitAPIResult H evt W = Some (r, W\<lparr>thread := T\<rparr>)"
  using assms take_result_append [OF assms(4), of "[r]"]
  by (subst waitAPIResult.simps) (simp add: Let_def fold_signal)

lemma sync_call_answered:
  assumes idle: "idle W" and fresh: "evt_id e \<notin> request_api ` set (m_apiResultList W)"
    and new: "new_results (machine (thread W)) (handled H e (machine (thread W))) = [r]"
    and r: "request_api r = evt_id e"
  shows "sync_call H e W = Some ((NO_ERROR, Some r), after_call H e W)"
proof -
  obtain V where V: "processAPI e W = (NO_ERROR, V)"
    using idle_post [OF idle] by blast
  have round: "sm_cycle H (thread V) = Some (thread (after_call H e W))"
    using idle_request_round [OF idle, of H e] V by simp
  have same: "machine (thread V) = machine (thread W)" "m_apiResultList V = m_apiResultList W"
    using idle_post [OF idle, of e] V by auto
  have "waitAPIResult H (evt_id e) V = Some (r, V\<lparr>thread := thread (after_call H e W)\<rparr>)"
    using new r fresh by (intro wait_found [OF round]) (simp_all add: same after_call_def)
  moreover have "V\<lparr>thread := thread (after_call H e W)\<rparr> = after_call H e W"
    using idle_post [OF idle, of e] V by (auto simp: after_call_def intro!: hw.equality)
  ultimately show ?thesis
    by (simp add: sync_call_def V)
qed

text \<open>
  A request that the state answers in the same step gets the status the handler returns, and leaves
  no trace in the result list.
\<close>

lemma sync_call_returns:
  assumes "idle W" "evt_id e \<notin> request_api ` set (m_apiResultList W)"
    and "is_request e" "\<not> unanswered (m_state (machine (thread W))) (evt_id e)"
    and "run_state (stateMachine H e) (machine (thread W)) = (rc, t)"
    and "\<not> deferred (m_state (machine (thread W))) (evt_id e) rc (m_state t)"
  shows "\<exists>ty. sync_call H e W =
    Some ((NO_ERROR, Some \<lparr>status = rc, request_api = evt_id e, result_type = ty\<rparr>), after_call H e W)"
proof -
  have "replies (machine (thread W)) e rc t"
    using wp_runD [OF stateMachine_replies [OF assms(3,4)] assms(5)] .
  then obtain ty where "api_results (calls t) = api_results (calls (machine (thread W)))
    @ [\<lparr>status = rc, request_api = evt_id e, result_type = ty\<rparr>]"
    using assms(6) by (auto simp: replies_def)
  then show ?thesis
    using sync_call_answered [OF assms(1,2) new_results_eq, of H] assms(5)
    by (auto simp: handled_def)
qed

section \<open>A call that never returns\<close>

text \<open>Nothing that is queued or will come can signal a result for \<open>api_evt\<close>.\<close>

definition hopeless :: "qcamera_sm_evt_enum \<Rightarrow> 'p hw \<Rightarrow> bool" where
  "hopeless api_evt W \<longleftrightarrow>
     api_evt \<notin> set async_apis \<and> api_evt \<notin> request_api ` set (m_apiResultList W)
     \<and> thread_inv (thread W) \<and> elems (api_queue (thread W)) = []
     \<and> (\<forall>d \<in> set (elems (evt_queue (thread W))). \<exists>e. d = Some (CMD_EVT e) \<and> \<not> is_request e)
     \<and> (\<forall>e \<in> set (backend W). \<not> is_request e)"

lemma hopeless_round:
  assumes "hopeless evt W" and "sm_cycle H (thread W) = Some T"
  defines "new \<equiv> new_results (machine (thread W)) (machine T)"
  shows "hopeless evt (W\<lparr>thread := T, m_apiResultList := m_apiResultList W @ new\<rparr>)"
    and "evt \<notin> request_api ` set (m_apiResultList W @ new)"
proof -
  have run: "running (thread W)"
    using assms(2) by (auto simp: sm_cycle_def split: if_splits)
  obtain d ds where q: "elems (evt_queue (thread W)) = d # ds"
    using assms(1,2) cycle_blocked [of "thread W" H] by (cases "elems (evt_queue (thread W))") (auto simp: hopeless_def)
  then obtain e where e: "d = Some (CMD_EVT e)" "\<not> is_request e"
    using assms(1) by (auto simp: hopeless_def)
  have T: "T = (thread W)\<lparr>machine := handled H e (machine (thread W)),
      evt_queue := (evt_queue (thread W))\<lparr>elems := ds\<rparr>, cmd_sem := cmd_sem (thread W) - 1\<rparr>"
    using cycle_evt [of "thread W" e ds H] assms(1,2) run q e by (auto simp: hopeless_def)
  have "request_api ` set new \<subseteq> set async_apis"
    using handledI [OF stateMachine_async [OF e(2)], of H "machine (thread W)"]
    unfolding new_def T by (auto simp: new_results_eq)
  then show "evt \<notin> request_api ` set (m_apiResultList W @ new)"
    using assms(1) by (auto simp: hopeless_def)
  then show "hopeless evt (W\<lparr>thread := T, m_apiResultList := m_apiResultList W @ new\<rparr>)"
    using assms(1) cycle_inv [of "thread W" H T] assms(2) q T by (auto simp: hopeless_def)
qed

lemma hopeless_post:
  assumes "hopeless evt W" "backend W = e # es"
  shows "hopeless evt (W\<lparr>thread := snd (procEvt True True e (thread W)), backend := es\<rparr>)"
  using assms procEvt_inv [of "thread W" True True e]
  by (auto simp: hopeless_def procEvt_def put_def aq_enqueue_def Let_def)

lemma hopeless_wait: "hopeless evt W \<Longrightarrow> waitAPIResult H evt W = None"
proof (induction H evt W rule: waitAPIResult.induct)
  case (1 H evt W)
  show ?case
  proof (cases "sm_cycle H (thread W)")
    case None
    with 1 show ?thesis
      by (subst waitAPIResult.simps) (auto simp: hopeless_post split: list.split)
  next
    case (Some T)
    let ?new = "new_results (machine (thread W)) (machine T)"
    note round = hopeless_round [OF "1.prems" Some]
    have "take_result evt (m_apiResultList W @ ?new) = None"
      using round(2) by (simp add: take_result_None)
    moreover have "waitAPIResult H evt
        (W\<lparr>thread := T, m_apiResultList := m_apiResultList W @ ?new\<rparr>) = None"
      using "1.IH"(2) [OF Some refl refl] round(1) calculation by (simp add: fold_signal)
    ultimately show ?thesis
      by (cases "?new = []"; subst waitAPIResult.simps) (simp_all add: Some Let_def fold_signal)
  qed
qed

lemma sync_call_blocks:
  assumes "idle W" "unanswered (m_state (machine (thread W))) (evt_id e)"
    and "evt_id e \<notin> request_api ` set (m_apiResultList W)"
    and "\<forall>e \<in> set (backend W). \<not> is_request e"
  shows "sync_call H e W = None"
proof -
  obtain V where V: "processAPI e W = (NO_ERROR, V)"
    using idle_post [OF assms(1)] by blast
  have round: "sm_cycle H (thread V) = Some (thread W)"
    using idle_request_round [OF assms(1), of H e] V stateMachine_unanswered [OF assms(2), of H]
    by (simp add: after_call_def handled_def)
  have same: "machine (thread V) = machine (thread W)" "m_apiResultList V = m_apiResultList W"
    "backend V = backend W"
    using idle_post [OF assms(1), of e] V by auto
  have "evt_id e \<notin> set async_apis"
    using assms(2) by (auto simp: unanswered_def async_apis_def)
  then have "hopeless (evt_id e) (V\<lparr>thread := thread W\<rparr>)"
    using assms same by (auto simp: hopeless_def idle_def thread_inv_def)
  then have "waitAPIResult H (evt_id e) (V\<lparr>thread := thread W\<rparr>) = None"
    by (rule hopeless_wait)
  moreover have "new_results (machine (thread V)) (machine (thread W)) = []"
    by (simp add: new_results_def same)
  ultimately show ?thesis
    by (simp add: sync_call_def V wait_silent [OF round])
qed

end
