(* ===== verification/HwiCalls.thy ===== *)
theory HwiCalls
  imports HwiApi
begin

text \<open>
  The functions of the camera's API in \<^verbatim>\<open>HAL/QCamera2HWI.cpp\<close>, from \<open>set_preview_window\<close> to
  \<open>prepare_snapshot\<close>.  Each takes \<open>device->priv\<close>, which may be NULL, and returns its value and the
  object afterwards, or None when it waits for ever.  The performance locks and the log are left out.
\<close>

section \<open>What the functions ask the rest of the hardware interface\<close>

record 'p api_env =
  isNoDisplayMode :: "'p \<Rightarrow> bool"
  sync_sensors_on :: "'p \<Rightarrow> bool"
  getNeedRestart :: "'p \<Rightarrow> bool"
  getNumOfRetroSnapshots :: "'p \<Rightarrow> nat"
  zsl_mode :: "'p \<Rightarrow> bool"
  isHDRMode :: "'p \<Rightarrow> bool"
  isLongshotEnabled :: "'p \<Rightarrow> bool"
  setRetroPicture :: "bool \<Rightarrow> 'p \<Rightarrow> 'p"
  mFlashNeeded :: "'p \<Rightarrow> bool"
  isChromaFlashEnabled :: "'p \<Rightarrow> bool"
  closeNativeHandle :: "ptr \<Rightarrow> 'p \<Rightarrow> (int32 \<times> 'p) option"

definition hwi_of :: "'p hw \<Rightarrow> 'p" where
  "hwi_of W = parent (machine (thread W))"

definition set_hwi :: "'p \<Rightarrow> 'p hw \<Rightarrow> 'p hw" where
  "set_hwi p W = W\<lparr>thread := (thread W)\<lparr>machine := (machine (thread W))\<lparr>parent := p\<rparr>\<rparr>\<rparr>"

text \<open>The members as the constructor leaves them.\<close>

definition new_hw :: "'p sm \<Rightarrow> 'p hw" where
  "new_hw s =
     \<lparr>thread = new_thread s, m_apiResultList = [], m_smThreadActive = True, mPrepSnapRun = False,
      m_bPreviewStarted = False, m_bRecordStarted = False, mPreviewRestartNeeded = False,
      backend = []\<rparr>"

lemma new_hw_idle: "idle (new_hw s)"
  by (simp add: idle_def new_hw_def new_thread_def)

section \<open>Shapes shared by the functions\<close>

text \<open>\<open>if (!hw) return err;\<close>\<close>

definition with_hw ::
  "'a \<Rightarrow> ('p hw \<Rightarrow> ('a \<times> 'p hw) option) \<Rightarrow> 'p hw option \<Rightarrow> ('a \<times> 'p hw option) option" where
  "with_hw err f priv =
     (case priv of None \<Rightarrow> Some (err, None) | Some W \<Rightarrow> map_option (\<lambda>(a, W). (a, Some W)) (f W))"

text \<open>\<open>ret = processAPI(...); if (ret == NO_ERROR) { waitAPIResult(...); ret = apiResult.status; }\<close>\<close>

definition status_call :: "'p hwi \<Rightarrow> sm_evt \<Rightarrow> 'p hw \<Rightarrow> (int32 \<times> 'p hw) option" where
  "status_call H e W =
     map_option (\<lambda>((ret, r), W). (case r of None \<Rightarrow> ret | Some r \<Rightarrow> status r, W)) (sync_call H e W)"

text \<open>The same for a function that returns nothing.\<close>

definition void_call :: "'p hwi \<Rightarrow> sm_evt \<Rightarrow> 'p hw \<Rightarrow> (unit \<times> 'p hw) option" where
  "void_call H e W = map_option (\<lambda>(_, W). ((), W)) (sync_call H e W)"

fun enabled_of :: "qcamera_api_result_type \<Rightarrow> int32" where
  "enabled_of (RESULT_TYPE_ENABLE_FLAG b) = b"
| "enabled_of _ = 0"

text \<open>A function that returns \<open>apiResult.enabled\<close>; the union is all zero in any other result.\<close>

definition flag_call :: "'p hwi \<Rightarrow> sm_evt \<Rightarrow> 'p hw \<Rightarrow> (int32 \<times> 'p hw) option" where
  "flag_call H e W =
     map_option (\<lambda>((ret, r), W). (case r of None \<Rightarrow> ret | Some r \<Rightarrow> enabled_of (result_type r), W))
       (sync_call H e W)"

text \<open>Functions that only the multiplexer of a dual camera may call.\<close>

definition dual_call :: "'p api_env \<Rightarrow> 'p hwi \<Rightarrow> sm_evt \<Rightarrow> 'p hw \<Rightarrow> (int32 \<times> 'p hw) option" where
  "dual_call E H e W =
     (if sync_sensors_on E (hwi_of W) then status_call H e W else Some (INVALID_OPERATION, W))"

section \<open>The functions\<close>

definition set_preview_window ::
  "'p hwi \<Rightarrow> ptr \<Rightarrow> 'p hw option \<Rightarrow> (int32 \<times> 'p hw option) option" where
  "set_preview_window H window = with_hw BAD_VALUE (status_call H (SET_PREVIEW_WINDOW window))"

definition set_CallBacks ::
  "'p hwi \<Rightarrow> ptr \<Rightarrow> ptr \<Rightarrow> ptr \<Rightarrow> ptr \<Rightarrow> ptr
     \<Rightarrow> 'p hw option \<Rightarrow> (unit \<times> 'p hw option) option" where
  "set_CallBacks H notify data data_ts get_mem user =
     with_hw () (void_call H (SET_CALLBACKS
       \<lparr>notify_cb = notify, data_cb = data, data_cb_timestamp = data_ts, get_memory = get_mem,
        cb_user = user\<rparr>))"

definition enable_msg_type ::
  "'p hwi \<Rightarrow> int32 \<Rightarrow> 'p hw option \<Rightarrow> (unit \<times> 'p hw option) option" where
  "enable_msg_type H msg_type = with_hw () (void_call H (ENABLE_MSG_TYPE msg_type))"

definition disable_msg_type ::
  "'p hwi \<Rightarrow> int32 \<Rightarrow> 'p hw option \<Rightarrow> (unit \<times> 'p hw option) option" where
  "disable_msg_type H msg_type = with_hw () (void_call H (DISABLE_MSG_TYPE msg_type))"

definition msg_type_enabled ::
  "'p hwi \<Rightarrow> int32 \<Rightarrow> 'p hw option \<Rightarrow> (int32 \<times> 'p hw option) option" where
  "msg_type_enabled H msg_type = with_hw BAD_VALUE (flag_call H (MSG_TYPE_ENABLED msg_type))"

definition prepare_preview ::
  "'p hwi \<Rightarrow> 'p hw option \<Rightarrow> (int32 \<times> 'p hw option) option" where
  "prepare_preview H = with_hw BAD_VALUE (status_call H PREPARE_PREVIEW)"

definition start_preview ::
  "'p api_env \<Rightarrow> 'p hwi \<Rightarrow> 'p hw option \<Rightarrow> (int32 \<times> 'p hw option) option" where
  "start_preview E H = with_hw BAD_VALUE (\<lambda>W. do {
     let evt = (if isNoDisplayMode E (hwi_of W) then START_NODISPLAY_PREVIEW else START_PREVIEW);
     (ret, W) \<leftarrow> status_call H evt W;
     Some (ret, W\<lparr>m_bPreviewStarted := True\<rparr>) })"

definition stop_preview ::
  "'p hwi \<Rightarrow> 'p hw option \<Rightarrow> (unit \<times> 'p hw option) option" where
  "stop_preview H = with_hw () (void_call H STOP_PREVIEW)"

text \<open>
  \<open>preview_enabled\<close> reads \<open>apiResult.enabled\<close> even when the request could not be posted and nothing
  has been written there; what it finds then is an argument.
\<close>

definition preview_enabled ::
  "'p hwi \<Rightarrow> int32 \<Rightarrow> 'p hw option \<Rightarrow> (int32 \<times> 'p hw option) option" where
  "preview_enabled H unset = with_hw BAD_VALUE (\<lambda>W. do {
     ((ret, r), W) \<leftarrow> sync_call H PREVIEW_ENABLED W;
     let enabled = (case r of None \<Rightarrow> unset | Some r \<Rightarrow> enabled_of (result_type r));
     let ret = (case r of None \<Rightarrow> ret | Some r \<Rightarrow> enabled);
     Some (ret, if enabled \<noteq> 0
       then W\<lparr>thread := (thread W)\<lparr>machine := setPreviewCallbackNeeded True (machine (thread W))\<rparr>\<rparr>
       else W) })"

definition store_meta_data_in_buffers ::
  "'p hwi \<Rightarrow> int32 \<Rightarrow> 'p hw option \<Rightarrow> (int32 \<times> 'p hw option) option" where
  "store_meta_data_in_buffers H enable = with_hw BAD_VALUE (status_call H (STORE_METADATA_IN_BUFS enable))"

definition restart_start_preview ::
  "'p api_env \<Rightarrow> 'p hwi \<Rightarrow> 'p hw option \<Rightarrow> (int32 \<times> 'p hw option) option" where
  "restart_start_preview E H = with_hw BAD_VALUE (\<lambda>W. do {
     (ret, W) \<leftarrow> dual_call E H RESTART_START_PREVIEW W;
     Some (ret, W\<lparr>mPreviewRestartNeeded := False\<rparr>) })"

definition restart_stop_preview ::
  "'p api_env \<Rightarrow> 'p hwi \<Rightarrow> 'p hw option \<Rightarrow> (int32 \<times> 'p hw option) option" where
  "restart_stop_preview E H = with_hw BAD_VALUE (dual_call E H RESTART_STOP_PREVIEW)"

definition pre_start_recording ::
  "'p hwi \<Rightarrow> 'p hw option \<Rightarrow> (int32 \<times> 'p hw option) option" where
  "pre_start_recording H = with_hw BAD_VALUE (status_call H PRE_START_RECORDING)"

definition start_recording ::
  "'p api_env \<Rightarrow> 'p hwi \<Rightarrow> 'p hw option \<Rightarrow> (int32 \<times> 'p hw option) option" where
  "start_recording E H = with_hw BAD_VALUE (\<lambda>W. do {
     (ret, W) \<leftarrow> (if \<not> sync_sensors_on E (hwi_of W) then status_call H PRE_START_RECORDING W
                  else Some (NO_ERROR, W));
     (if ret \<noteq> NO_ERROR then Some (ret, W)
      else do {
        (ret, W) \<leftarrow> status_call H START_RECORDING W;
        Some (ret, W\<lparr>m_bRecordStarted := True\<rparr>) }) })"

definition stop_recording ::
  "'p hwi \<Rightarrow> 'p hw option \<Rightarrow> (unit \<times> 'p hw option) option" where
  "stop_recording H = with_hw () (void_call H STOP_RECORDING)"

definition recording_enabled ::
  "'p hwi \<Rightarrow> 'p hw option \<Rightarrow> (int32 \<times> 'p hw option) option" where
  "recording_enabled H = with_hw BAD_VALUE (flag_call H RECORDING_ENABLED)"

definition release_recording_frame ::
  "'p api_env \<Rightarrow> 'p hwi \<Rightarrow> ptr \<Rightarrow> 'p hw option \<Rightarrow> (unit \<times> 'p hw option) option" where
  "release_recording_frame E H opaque = with_hw () (\<lambda>W.
     (if opaque = NULL then Some ((), W)
      else case closeNativeHandle E opaque (hwi_of W) of
          None \<Rightarrow> void_call H (RELEASE_RECORIDNG_FRAME opaque) W
        | Some (rc, p) \<Rightarrow>
            (if rc \<noteq> NO_ERROR then Some ((), set_hwi p W)
             else void_call H (RELEASE_RECORIDNG_FRAME opaque) (set_hwi p W))))"

definition auto_focus ::
  "'p hwi \<Rightarrow> 'p hw option \<Rightarrow> (int32 \<times> 'p hw option) option" where
  "auto_focus H = with_hw BAD_VALUE (status_call H START_AUTO_FOCUS)"

definition cancel_auto_focus ::
  "'p hwi \<Rightarrow> 'p hw option \<Rightarrow> (int32 \<times> 'p hw option) option" where
  "cancel_auto_focus H = with_hw BAD_VALUE (status_call H STOP_AUTO_FOCUS)"

definition pre_take_picture ::
  "'p hwi \<Rightarrow> 'p hw option \<Rightarrow> (int32 \<times> 'p hw option) option" where
  "pre_take_picture H = with_hw BAD_VALUE (status_call H PRE_TAKE_PICTURE)"

text \<open>\<open>prepare_snapshot\<close> waits for the hardware when the flash is needed.\<close>

definition do_prepare_snapshot ::
  "'p api_env \<Rightarrow> 'p hwi \<Rightarrow> 'p hw \<Rightarrow> (int32 \<times> 'p hw) option" where
  "do_prepare_snapshot E H W =
     (if isLongshotEnabled E (hwi_of W) \<and> mPrepSnapRun W then Some (NO_ERROR, W)
      else if mFlashNeeded E (hwi_of W) \<or> isChromaFlashEnabled E (hwi_of W) then do {
        (ret, W) \<leftarrow> status_call H PREPARE_SNAPSHOT W;
        Some (ret, W\<lparr>mPrepSnapRun := True\<rparr>) }
      else Some (NO_ERROR, W))"

definition prepare_snapshot ::
  "'p api_env \<Rightarrow> 'p hwi \<Rightarrow> 'p hw option \<Rightarrow> (int32 \<times> 'p hw option) option" where
  "prepare_snapshot E H = with_hw BAD_VALUE (do_prepare_snapshot E H)"

text \<open>\<open>isLiveSnapshot\<close> asks the state machine whether it records.\<close>

definition retro_wanted :: "'p api_env \<Rightarrow> 'p hw \<Rightarrow> bool" where
  "retro_wanted E W \<longleftrightarrow>
     0 < getNumOfRetroSnapshots E (hwi_of W) \<and> \<not> isRecording (machine (thread W))
     \<and> zsl_mode E (hwi_of W) \<and> \<not> isHDRMode E (hwi_of W) \<and> \<not> isLongshotEnabled E (hwi_of W)"

definition pre_take :: "'p api_env \<Rightarrow> 'p hwi \<Rightarrow> 'p hw \<Rightarrow> (int32 \<times> 'p hw) option" where
  "pre_take E H W =
     (if \<not> sync_sensors_on E (hwi_of W) then status_call H PRE_TAKE_PICTURE W
      else Some (NO_ERROR, W))"

definition do_take_picture ::
  "'p api_env \<Rightarrow> 'p hwi \<Rightarrow> 'p hw \<Rightarrow> (int32 \<times> 'p hw) option" where
  "do_take_picture E H W =
     (if retro_wanted E W then do {
        let W = set_hwi (setRetroPicture E True (hwi_of W)) W;
        (ret, W) \<leftarrow> pre_take E H W;
        (if ret \<noteq> NO_ERROR then Some (ret, W)
         else do {
           (_, W) \<leftarrow> status_call H TAKE_PICTURE W;
           do_prepare_snapshot E H W }) }
      else do {
        let W = set_hwi (setRetroPicture E False (hwi_of W)) W;
        (_, W) \<leftarrow> (if \<not> mPrepSnapRun W then do_prepare_snapshot E H W else Some (NO_ERROR, W));
        (ret, W) \<leftarrow> pre_take E H W;
        (if ret \<noteq> NO_ERROR then Some (ret, W)
         else do {
           (ret, W) \<leftarrow> status_call H TAKE_PICTURE W;
           Some (ret, if \<not> isLongshotEnabled E (hwi_of W) then W\<lparr>mPrepSnapRun := False\<rparr> else W) }) })"

definition take_picture ::
  "'p api_env \<Rightarrow> 'p hwi \<Rightarrow> 'p hw option \<Rightarrow> (int32 \<times> 'p hw option) option" where
  "take_picture E H = with_hw BAD_VALUE (do_take_picture E H)"

definition cancel_picture ::
  "'p hwi \<Rightarrow> 'p hw option \<Rightarrow> (int32 \<times> 'p hw option) option" where
  "cancel_picture H = with_hw BAD_VALUE (status_call H CANCEL_PICTURE)"

text \<open>
  Setting the parameters: with a single camera, the preview is stopped if they need it, the changes
  are committed, and the preview is started again.
\<close>

definition do_set_parameters ::
  "'p api_env \<Rightarrow> 'p hwi \<Rightarrow> string \<Rightarrow> 'p hw \<Rightarrow> (int32 \<times> 'p hw) option" where
  "do_set_parameters E H parms W = do {
     (ret, W) \<leftarrow> status_call H (SET_PARAMS parms) W;
     (if \<not> sync_sensors_on E (hwi_of W) then do {
        (ret, W) \<leftarrow> (if ret = NO_ERROR \<and> getNeedRestart E (hwi_of W)
                     then status_call H SET_PARAMS_STOP W else Some (ret, W));
        (ret, W) \<leftarrow> (if ret = NO_ERROR then status_call H SET_PARAMS_COMMIT W else Some (ret, W));
        (if ret = NO_ERROR \<and> getNeedRestart E (hwi_of W)
         then status_call H SET_PARAMS_RESTART W else Some (ret, W)) }
      else Some (ret, W)) }"

definition set_parameters ::
  "'p api_env \<Rightarrow> 'p hwi \<Rightarrow> string \<Rightarrow> 'p hw option \<Rightarrow> (int32 \<times> 'p hw option) option" where
  "set_parameters E H parms = with_hw BAD_VALUE (do_set_parameters E H parms)"

definition stop_after_set_params ::
  "'p api_env \<Rightarrow> 'p hwi \<Rightarrow> 'p hw option \<Rightarrow> (int32 \<times> 'p hw option) option" where
  "stop_after_set_params E H = with_hw BAD_VALUE (dual_call E H SET_PARAMS_STOP)"

definition commit_params ::
  "'p api_env \<Rightarrow> 'p hwi \<Rightarrow> 'p hw option \<Rightarrow> (int32 \<times> 'p hw option) option" where
  "commit_params E H = with_hw BAD_VALUE (dual_call E H SET_PARAMS_COMMIT)"

definition restart_after_set_params ::
  "'p api_env \<Rightarrow> 'p hwi \<Rightarrow> 'p hw option \<Rightarrow> (int32 \<times> 'p hw option) option" where
  "restart_after_set_params E H = with_hw BAD_VALUE (dual_call E H SET_PARAMS_RESTART)"

fun params_of :: "qcamera_api_result_type \<Rightarrow> string option" where
  "params_of (RESULT_TYPE_PARAMS p) = p"
| "params_of _ = None"

definition get_parameters ::
  "'p hwi \<Rightarrow> 'p hw option \<Rightarrow> (string option \<times> 'p hw option) option" where
  "get_parameters H = with_hw None (\<lambda>W.
     map_option (\<lambda>((ret, r), W). (case r of None \<Rightarrow> None | Some r \<Rightarrow> params_of (result_type r), W))
       (sync_call H GET_PARAMS W))"

definition put_parameters ::
  "'p hwi \<Rightarrow> string \<Rightarrow> 'p hw option \<Rightarrow> (unit \<times> 'p hw option) option" where
  "put_parameters H parm = with_hw () (void_call H (PUT_PARAMS parm))"

definition send_command ::
  "'p hwi \<Rightarrow> int32 \<Rightarrow> int32 \<Rightarrow> int32 \<Rightarrow> 'p hw option \<Rightarrow> (int32 \<times> 'p hw option) option" where
  "send_command H c a1 a2 = with_hw BAD_VALUE (status_call H (SEND_COMMAND \<lparr>cmd = c, arg1 = a1, arg2 = a2\<rparr>))"

definition send_command_restart ::
  "'p hwi \<Rightarrow> int32 \<Rightarrow> int32 \<Rightarrow> int32 \<Rightarrow> 'p hw option \<Rightarrow> (int32 \<times> 'p hw option) option" where
  "send_command_restart H c a1 a2 = with_hw BAD_VALUE (status_call H (SEND_COMMAND_RESTART \<lparr>cmd = c, arg1 = a1, arg2 = a2\<rparr>))"

definition release ::
  "'p hwi \<Rightarrow> 'p hw option \<Rightarrow> (unit \<times> 'p hw option) option" where
  "release H = with_hw () (void_call H RELEASE)"

definition dump ::
  "'p hwi \<Rightarrow> int32 \<Rightarrow> 'p hw option \<Rightarrow> (int32 \<times> 'p hw option) option" where
  "dump H fd = with_hw BAD_VALUE (status_call H (DUMP fd))"

fun handle_of :: "qcamera_api_result_type \<Rightarrow> int32" where
  "handle_of (RESULT_TYPE_HANDLE h) = h"
| "handle_of _ = 0"

definition register_face_image ::
  "'p hwi \<Rightarrow> ptr \<Rightarrow> ptr \<Rightarrow> 'p hw option \<Rightarrow> (int32 \<times> 'p hw option) option" where
  "register_face_image H img cfg = with_hw BAD_VALUE (\<lambda>W.
     map_option (\<lambda>((ret, r), W). (case r of None \<Rightarrow> ret | Some r \<Rightarrow> handle_of (result_type r), W))
       (sync_call H (REG_FACE_IMAGE \<lparr>img_ptr = img, config = cfg\<rparr>) W))"

section \<open>Calls that are answered\<close>

text \<open>The conditions under which a request is answered in the step that handles it.\<close>

definition answerable :: "'p hwi \<Rightarrow> sm_evt \<Rightarrow> 'p hw \<Rightarrow> bool" where
  "answerable H e W \<longleftrightarrow>
     idle W \<and> evt_id e \<notin> request_api ` set (m_apiResultList W) \<and> is_request e
     \<and> \<not> unanswered (m_state (machine (thread W))) (evt_id e)
     \<and> (case run_state (stateMachine H e) (machine (thread W)) of
          (rc, t) \<Rightarrow> \<not> deferred (m_state (machine (thread W))) (evt_id e) rc (m_state t))"

lemma status_call_returns:
  assumes "answerable H e W"
  shows "status_call H e W =
    Some (fst (run_state (stateMachine H e) (machine (thread W))), after_call H e W)"
proof -
  obtain rc t where run: "run_state (stateMachine H e) (machine (thread W)) = (rc, t)"
    by (cases "run_state (stateMachine H e) (machine (thread W))")
  show ?thesis
    using sync_call_returns [of W e H rc t] assms run
    by (auto simp: answerable_def status_call_def)
qed

text \<open>Most requests are answered in the step that handles them, whatever the state.\<close>

definition prompt :: "sm_evt \<Rightarrow> bool" where
  "prompt e \<longleftrightarrow> is_request e \<and> evt_id e \<notin> {SM_EVT_PREPARE_SNAPSHOT, SM_EVT_TAKE_PICTURE,
     SM_EVT_SEND_COMMAND_RESTART, SM_EVT_REG_FACE_IMAGE}"

lemma prompt_answerable:
  "idle W \<Longrightarrow> evt_id e \<notin> request_api ` set (m_apiResultList W) \<Longrightarrow> prompt e \<Longrightarrow> answerable H e W"
  by (simp add: answerable_def prompt_def unanswered_def deferred_def split: prod.split)

text \<open>A call leaves the object ready for the next one, and the result list as it was.\<close>

lemma answerable_frame:
  assumes "answerable H e W"
  shows "idle (after_call H e W) \<and> m_apiResultList (after_call H e W) = m_apiResultList W
    \<and> backend (after_call H e W) = backend W"
  using assms by (simp add: answerable_def idle_after_call) (simp add: after_call_def)

section \<open>Waiting for the hardware\<close>

text \<open>
  A snapshot the hardware accepts to prepare for is answered when the backend reports that it is
  prepared.
\<close>

lemma prepare_deferred:
  assumes "m_state s = PREVIEWING"
    and "r_int (answer H (PrepareHardwareForSnapshot False) s) = NO_ERROR"
  shows "m_state (handled H PREPARE_SNAPSHOT s) = PREPARE_SNAPSHOT_STATE"
    and "new_results s (handled H PREPARE_SNAPSHOT s) = []"
proof -
  have "wp (stateMachine H PREPARE_SNAPSHOT) (\<lambda>_ t. m_state t = PREPARE_SNAPSHOT_STATE
      \<and> api_results (calls t) = api_results (calls s) @ []) s"
    using assms by (simp add: step_simps)
  from handledI [OF this]
  show "m_state (handled H PREPARE_SNAPSHOT s) = PREPARE_SNAPSHOT_STATE"
    and "new_results s (handled H PREPARE_SNAPSHOT s) = []"
    by (simp_all add: new_results_def)
qed

lemma prepare_snapshot_completes:
  assumes idle: "idle W" and fresh: "SM_EVT_PREPARE_SNAPSHOT \<notin> request_api ` set (m_apiResultList W)"
    and st: "m_state (machine (thread W)) = PREVIEWING"
    and hw: "r_int (answer H (PrepareHardwareForSnapshot False) (machine (thread W))) = NO_ERROR"
    and ev: "backend W = EVT_INTERNAL INTERNAL_EVT_PREP_SNAPSHOT_DONE d # es"
  shows "\<exists>W'. status_call H PREPARE_SNAPSHOT W = Some (NO_ERROR, W')
    \<and> m_state (machine (thread W')) = PREVIEWING \<and> m_apiResultList W' = m_apiResultList W \<and> idle W'"
proof -
  let ?e = "EVT_INTERNAL INTERNAL_EVT_PREP_SNAPSHOT_DONE d"
  let ?s = "machine (thread W)" and ?t = "handled H PREPARE_SNAPSHOT (machine (thread W))"
  let ?r = "\<lparr>status = NO_ERROR, request_api = SM_EVT_PREPARE_SNAPSHOT, result_type = RESULT_TYPE_DEF\<rparr>"
  note deferred = prepare_deferred [OF st hw]
  have fin: "m_state (handled H ?e ?t) = PREVIEWING" "new_results ?t (handled H ?e ?t) = [?r]"
    using handledI [OF prepare_done_answers [OF deferred(1), of H d]] by (auto intro: new_results_eq)
  obtain V where V: "processAPI PREPARE_SNAPSHOT W = (NO_ERROR, V)"
    using idle_post [OF idle] by blast
  have same: "machine (thread V) = ?s" "m_apiResultList V = m_apiResultList W" "backend V = backend W"
    "m_smThreadActive V = m_smThreadActive W"
    using idle_post [OF idle, of PREPARE_SNAPSHOT] V by auto
  define T1 where "T1 = (thread W)\<lparr>machine := ?t\<rparr>"
  define T2 where "T2 = snd (procEvt True True ?e T1)"
  define T3 where "T3 = (thread W)\<lparr>machine := handled H ?e ?t\<rparr>"
  have c1: "sm_cycle H (thread V) = Some T1"
    using idle_request_round [OF idle, of H PREPARE_SNAPSHOT] V by (simp add: after_call_def T1_def)
  have c2: "sm_cycle H T1 = None"
    using idle by (simp add: T1_def idle_def sm_cycle_def)
  have m2: "machine T2 = ?t"
    using idle by (simp add: T1_def T2_def procEvt_def put_def aq_enqueue_def idle_def)
  have c3: "sm_cycle H T2 = Some T3"
    using idle by (auto simp: T1_def T2_def T3_def procEvt_def put_def aq_enqueue_def idle_def
      sm_cycle_def aq_dequeue_def intro!: sm_thread.equality)
  have "waitAPIResult H SM_EVT_PREPARE_SNAPSHOT V =
      waitAPIResult H SM_EVT_PREPARE_SNAPSHOT (V\<lparr>thread := T1\<rparr>)"
    using deferred(2) by (intro wait_silent [OF c1]) (simp add: same T1_def)
  also have "\<dots> = waitAPIResult H SM_EVT_PREPARE_SNAPSHOT (V\<lparr>thread := T2, backend := es\<rparr>)"
    using wait_post [of H "V\<lparr>thread := T1\<rparr>"] c2 ev same by (simp add: T2_def)
  also have "\<dots> = Some (?r, V\<lparr>thread := T3, backend := es\<rparr>)"
    using wait_found [of H "V\<lparr>thread := T2, backend := es\<rparr>" T3 ?r SM_EVT_PREPARE_SNAPSHOT]
      c3 fin(2) fresh same m2 by (simp add: T3_def)
  finally show ?thesis
    using fin(1) idle same by (simp add: status_call_def sync_call_def V) (simp add: idle_def T3_def)
qed

section \<open>Setting the parameters\<close>

definition params_evts :: "qcamera_sm_evt_enum set" where
  "params_evts = {SM_EVT_SET_PARAMS, SM_EVT_SET_PARAMS_STOP, SM_EVT_SET_PARAMS_COMMIT,
     SM_EVT_SET_PARAMS_RESTART}"

lemma params_call:
  assumes "idle W" "request_api ` set (m_apiResultList W) \<inter> params_evts = {}"
    and "evt_id e \<in> params_evts" "prompt e"
  shows "\<exists>rc. status_call H e W = Some (rc, after_call H e W)
    \<and> idle (after_call H e W) \<and> request_api ` set (m_apiResultList (after_call H e W)) \<inter> params_evts = {}
    \<and> machine (thread (after_call H e W)) = handled H e (machine (thread W))"
proof -
  have "answerable H e W"
    using assms by (intro prompt_answerable) auto
  then show ?thesis
    using status_call_returns [of H e W] answerable_frame [of H e W] assms(2)
    by (simp add: after_call_def)
qed

text \<open>The requests a call may make, in order.\<close>

definition params_runs :: "string \<Rightarrow> sm_evt list list" where
  "params_runs parms =
     [[SET_PARAMS parms], [SET_PARAMS parms, SET_PARAMS_STOP],
      [SET_PARAMS parms, SET_PARAMS_COMMIT],
      [SET_PARAMS parms, SET_PARAMS_STOP, SET_PARAMS_COMMIT],
      [SET_PARAMS parms, SET_PARAMS_COMMIT, SET_PARAMS_RESTART],
      [SET_PARAMS parms, SET_PARAMS_STOP, SET_PARAMS_COMMIT, SET_PARAMS_RESTART]]"

lemma set_parameters_runs:
  assumes "idle W" "request_api ` set (m_apiResultList W) \<inter> params_evts = {}"
  shows "\<exists>rc W'. do_set_parameters E H parms W = Some (rc, W') \<and> idle W'
    \<and> (\<exists>es \<in> set (params_runs parms). machine (thread W') = handled_all H es (machine (thread W)))"
proof -
  let ?ok = "\<lambda>W. idle W \<and> request_api ` set (m_apiResultList W) \<inter> params_evts = {}"
  have call: "\<exists>rc U. status_call H e V = Some (rc, U) \<and> ?ok U
      \<and> machine (thread U) = handled H e (machine (thread V))"
    if "?ok V" "evt_id e \<in> params_evts" "prompt e" for e V
    using params_call [of V e H] that by blast
  have evts: "evt_id (SET_PARAMS parms) \<in> params_evts" "prompt (SET_PARAMS parms)"
    "evt_id SET_PARAMS_STOP \<in> params_evts" "prompt SET_PARAMS_STOP"
    "evt_id SET_PARAMS_COMMIT \<in> params_evts" "prompt SET_PARAMS_COMMIT"
    "evt_id SET_PARAMS_RESTART \<in> params_evts" "prompt SET_PARAMS_RESTART"
    by (simp_all add: params_evts_def prompt_def)
  obtain r1 W1 where 1: "status_call H (SET_PARAMS parms) W = Some (r1, W1)" "?ok W1"
    "machine (thread W1) = handled H (SET_PARAMS parms) (machine (thread W))"
    using call [OF _ evts(1,2)] assms by blast
  show ?thesis
  proof (cases "\<not> sync_sensors_on E (hwi_of W1) \<and> r1 = NO_ERROR")
    case False
    then show ?thesis
      using 1 by (auto simp: do_set_parameters_def params_runs_def)
  next
    case True
    define stopped where "stopped \<longleftrightarrow> getNeedRestart E (hwi_of W1)"
    obtain r2 W2 where 2: "(if stopped then status_call H SET_PARAMS_STOP W1 else Some (r1, W1)) = Some (r2, W2)"
      "?ok W2" "machine (thread W2) =
        handled_all H (if stopped then [SET_PARAMS_STOP] else []) (machine (thread W1))"
      using call [OF 1(2) evts(3,4)] 1 by (cases stopped) auto
    obtain r3 W3 where 3: "status_call H SET_PARAMS_COMMIT W2 = Some (r3, W3)" "?ok W3"
      "machine (thread W3) = handled H SET_PARAMS_COMMIT (machine (thread W2))"
      using call [OF 2(2) evts(5,6)] by blast
    obtain r4 W4 where 4: "status_call H SET_PARAMS_RESTART W3 = Some (r4, W4)" "?ok W4"
      "machine (thread W4) = handled H SET_PARAMS_RESTART (machine (thread W3))"
      using call [OF 3(2) evts(7,8)] by blast
    show ?thesis
      using True 1 2 3 4 unfolding stopped_def
      by (cases "r2 = NO_ERROR"; cases "r3 = NO_ERROR \<and> getNeedRestart E (hwi_of W3)")
        (auto simp: do_set_parameters_def params_runs_def split: if_splits)
  qed
qed

end
