(* ===== verification/SMDiagram.thy ===== *)
theory SMDiagram
  imports SMProtocol
begin

text \<open>
  The state diagram \<open>edges\<close> is exact: every edge is taken, for some behaviour of the parent.  The
  behaviours are given by the questions the parent answers with yes and the operations that fail.
\<close>

definition scripted :: "hwi_query list \<Rightarrow> hwi_op list \<Rightarrow> unit hwi" where
  "scripted yes failing =
     \<lparr>do_call = (\<lambda>c st p.
        (\<lparr>r_int = (case c of
              Op f \<Rightarrow> if f \<in> set failing then UNKNOWN_ERROR else NO_ERROR
            | Query GetManualCaptureMode \<Rightarrow> 3
            | _ \<Rightarrow> NO_ERROR),
          r_bool = (case c of Query q \<Rightarrow> q \<in> set yes | _ \<Rightarrow> False),
          r_faceID = 0, r_needRestart = False, r_arg1 = 0, r_arg2 = 0, r_params = None\<rparr>, p)),
      vanilla_hal = False, msg_preview_frame = 16, cmd_longshot_on = 1, cmd_longshot_off = 2\<rparr>"

lemma answer_scripted [simp]:
  "r_int (answer (scripted yes failing) (Op f) s) =
     (if f \<in> set failing then UNKNOWN_ERROR else NO_ERROR)"
  "r_bool (answer (scripted yes failing) (Query q) s) = (q \<in> set yes)"
  "r_int (answer (scripted yes failing) (Query GetManualCaptureMode) s) = 3"
  "r_int (answer (scripted yes failing) (PrepareHardwareForSnapshot b) s) = NO_ERROR"
  "r_int (answer (scripted yes failing) (SendCommand x y z) s) = NO_ERROR"
  by (simp_all add: answer_def scripted_def)

lemma scripted_build [simp]:
  "vanilla_hal (scripted yes failing) = False" "cmd_longshot_off (scripted yes failing) = 2"
  by (simp_all add: scripted_def)

definition goes :: "hwi_query list \<Rightarrow> hwi_op list \<Rightarrow> qcamera_state \<Rightarrow> sm_evt \<Rightarrow> qcamera_state \<Rightarrow> bool" where
  "goes yes failing st e st' \<longleftrightarrow>
     (\<forall>s. m_state s = st \<longrightarrow> wp (stateMachine (scripted yes failing) e) (\<lambda>_ t. m_state t = st') s)"

lemmas goes_simps = goes_def step_simps

lemma goes_stopped:
  "goes [] [] PREVIEW_STOPPED PREPARE_PREVIEW PREVIEW_READY"
  "goes [] [] PREVIEW_STOPPED START_PREVIEW PREVIEW_READY"
  "goes [GetPreviewWindow] [] PREVIEW_STOPPED START_PREVIEW PREVIEWING"
  "goes [] [] PREVIEW_STOPPED START_NODISPLAY_PREVIEW PREVIEWING"
  by (simp_all add: goes_simps)

lemma goes_ready:
  "goes [GetPreviewWindow] [] PREVIEW_READY (SET_PREVIEW_WINDOW 1) PREVIEWING"
  "goes [GetPreviewWindow] [StartPreview] PREVIEW_READY (SET_PREVIEW_WINDOW 1) PREVIEW_STOPPED"
  "goes [] [PreparePreview] PREVIEW_READY SET_PARAMS_RESTART PREVIEW_STOPPED"
  "goes [GetPreviewWindow] [] PREVIEW_READY START_PREVIEW PREVIEWING"
  "goes [GetPreviewWindow] [StartPreview] PREVIEW_READY START_PREVIEW PREVIEW_STOPPED"
  "goes [] [] PREVIEW_READY START_NODISPLAY_PREVIEW PREVIEWING"
  "goes [] [StartPreview] PREVIEW_READY START_NODISPLAY_PREVIEW PREVIEW_STOPPED"
  "goes [] [] PREVIEW_READY STOP_PREVIEW PREVIEW_STOPPED"
  by (simp_all add: goes_simps)

lemma goes_previewing:
  "goes [] [StartPreview] PREVIEWING SET_PARAMS_RESTART PREVIEW_STOPPED"
  "goes [] [] PREVIEWING STOP_PREVIEW PREVIEW_STOPPED"
  "goes [] [] PREVIEWING START_RECORDING RECORDING"
  "goes [] [] PREVIEWING PREPARE_SNAPSHOT PREPARE_SNAPSHOT_STATE"
  "goes [IsZSLMode] [] PREVIEWING TAKE_PICTURE PREVIEW_PIC_TAKING"
  "goes [] [] PREVIEWING TAKE_PICTURE PIC_TAKING"
  "goes [] [TakePicture, PreparePreview] PREVIEWING TAKE_PICTURE PREVIEW_STOPPED"
  "goes [] [] PREPARE_SNAPSHOT_STATE (EVT_INTERNAL INTERNAL_EVT_PREP_SNAPSHOT_DONE 0) PREVIEWING"
  by (simp_all add: goes_simps)

lemma goes_pic:
  "goes [] [] PIC_TAKING STOP_PREVIEW PREVIEW_STOPPED"
  "goes [] [] PIC_TAKING CANCEL_PICTURE PREVIEW_STOPPED"
  "goes [] [] PIC_TAKING (SEND_COMMAND \<lparr>cmd = 2, arg1 = 0, arg2 = 0\<rparr>) PREVIEWING"
  "goes [IsPreviewRestartEnabled] [] PIC_TAKING SNAPSHOT_DONE PREVIEWING"
  "goes [] [] PIC_TAKING SNAPSHOT_DONE PREVIEW_STOPPED"
  by (simp_all add: goes_simps)

lemma goes_recording:
  "goes [] [] RECORDING TAKE_PICTURE VIDEO_PIC_TAKING"
  "goes [] [] RECORDING STOP_RECORDING PREVIEWING"
  "goes [] [] RECORDING STOP_PREVIEW PREVIEW_STOPPED"
  "goes [] [] VIDEO_PIC_TAKING STOP_RECORDING PREVIEWING"
  "goes [] [] VIDEO_PIC_TAKING CANCEL_PICTURE RECORDING"
  "goes [] [] VIDEO_PIC_TAKING STOP_PREVIEW PREVIEW_STOPPED"
  "goes [] [] VIDEO_PIC_TAKING SNAPSHOT_DONE RECORDING"
  by (simp_all add: goes_simps)

lemma goes_ppt:
  "goes [] [StartPreview] PREVIEW_PIC_TAKING SET_PARAMS_RESTART PIC_TAKING"
  "goes [] [] PREVIEW_PIC_TAKING (SEND_COMMAND \<lparr>cmd = 2, arg1 = 0, arg2 = 0\<rparr>) PREVIEWING"
  "goes [] [] PREVIEW_PIC_TAKING CANCEL_PICTURE PREVIEWING"
  "goes [] [] PREVIEW_PIC_TAKING STOP_PREVIEW PREVIEW_STOPPED"
  "goes [] [] PREVIEW_PIC_TAKING START_RECORDING VIDEO_PIC_TAKING"
  "goes [] [] PREVIEW_PIC_TAKING SNAPSHOT_DONE PREVIEWING"
  by (simp_all add: goes_simps)

lemmas goes_edges =
  goes_stopped goes_ready goes_previewing goes_pic goes_recording goes_ppt

definition taken :: "qcamera_state \<Rightarrow> qcamera_sm_evt_enum \<Rightarrow> qcamera_state \<Rightarrow> bool" where
  "taken st evt st' \<longleftrightarrow> (\<exists>yes failing e. evt_id e = evt \<and> goes yes failing st e st')"

lemma takenI: "goes yes failing st e st' \<Longrightarrow> evt_id e = evt \<Longrightarrow> taken st evt st'"
  by (auto simp: taken_def)

lemma edges_taken: "(evt, st') \<in> set (edges st) \<Longrightarrow> taken st evt st'"
  by (cases st) (auto intro: goes_edges [THEN takenI])

end
