(* ===== verification/MsgTypes.thy ===== *)
theory MsgTypes
  imports SMRuns SMDiagram
begin

text \<open>
  The message types the framework enables.  The parent keeps the set \<open>mMsgEnabled\<close>; the machine may
  hold back the preview frames in \<open>m_DelayedMsgs\<close> until the preview runs again.  What the framework
  has asked for is the union of both, and the machine has to answer and change that union as if
  nothing were held back.

  The locale \<open>msg_parent\<close> is the contract of the parent's three functions; it is interpreted on the
  model of \<open>enableMsgType\<close>, \<open>disableMsgType\<close> and \<open>msgTypeEnabled\<close> of \<^verbatim>\<open>HAL/QCamera2HWI.cpp\<close>.
\<close>

section \<open>The parent's functions\<close>

text \<open>
  The parent's state: the mask, and everything else.  What the two functions ask the rest of the
  parent, and the start and stop of its callback channel, are parameters.
\<close>

record 'q msgs =
  mMsgEnabled :: int32
  others :: 'q

record 'q chan_env =
  isUBWCEnabled :: "'q \<Rightarrow> bool"
  isZSLMode :: "'q \<Rightarrow> bool"
  getRecordingHintValue :: "'q \<Rightarrow> bool"
  has_channel :: "channel_type \<Rightarrow> 'q \<Rightarrow> bool"
  isActive :: "channel_type \<Rightarrow> 'q \<Rightarrow> bool"
  startChannel :: "channel_type \<Rightarrow> 'q \<Rightarrow> int32 \<times> 'q"
  stopChannel :: "channel_type \<Rightarrow> 'q \<Rightarrow> int32 \<times> 'q"

abbreviation CAMERA_MSG_PREVIEW_FRAME :: int32 where "CAMERA_MSG_PREVIEW_FRAME \<equiv> 16"

definition msgTypeEnabled :: "int32 \<Rightarrow> 'q msgs \<Rightarrow> int32" where
  "msgTypeEnabled msg_type p = mMsgEnabled p AND msg_type"

definition enableMsgType :: "'q chan_env \<Rightarrow> int32 \<Rightarrow> 'q msgs \<Rightarrow> int32 \<times> 'q msgs" where
  "enableMsgType E msg_type p =
     (let q = others p;
          previewCh = (if isZSLMode E q \<and> \<not> getRecordingHintValue E q
                       then QCAMERA_CH_TYPE_ZSL else QCAMERA_CH_TYPE_PREVIEW);
          (rc, q') =
            (if isUBWCEnabled E q
                \<and> msgTypeEnabled CAMERA_MSG_PREVIEW_FRAME p = 0
                \<and> msg_type AND CAMERA_MSG_PREVIEW_FRAME \<noteq> 0
                \<and> has_channel E QCAMERA_CH_TYPE_CALLBACK q
                \<and> has_channel E previewCh q \<and> isActive E previewCh q
             then startChannel E QCAMERA_CH_TYPE_CALLBACK q else (NO_ERROR, q))
      in (rc, \<lparr>mMsgEnabled = mMsgEnabled p OR msg_type, others = q'\<rparr>))"

definition disableMsgType :: "'q chan_env \<Rightarrow> int32 \<Rightarrow> 'q msgs \<Rightarrow> int32 \<times> 'q msgs" where
  "disableMsgType E msg_type p =
     (let q = others p;
          (rc, q') =
            (if isUBWCEnabled E q
                \<and> msgTypeEnabled CAMERA_MSG_PREVIEW_FRAME p \<noteq> 0
                \<and> msg_type AND CAMERA_MSG_PREVIEW_FRAME \<noteq> 0
                \<and> has_channel E QCAMERA_CH_TYPE_CALLBACK q
                \<and> isActive E QCAMERA_CH_TYPE_CALLBACK q
             then stopChannel E QCAMERA_CH_TYPE_CALLBACK q else (NO_ERROR, q))
      in (rc, \<lparr>mMsgEnabled = mMsgEnabled p AND NOT msg_type, others = q'\<rparr>))"

text \<open>
  The parent with these functions; the other calls are answered by \<open>base\<close>, which works on the rest of
  the parent only (no other function of the class writes \<open>mMsgEnabled\<close>).
\<close>

definition int_reply :: "int32 \<Rightarrow> hwi_reply" where
  "int_reply rc =
     \<lparr>r_int = rc, r_bool = False, r_faceID = 0, r_needRestart = False, r_arg1 = 0, r_arg2 = 0,
      r_params = None\<rparr>"

definition msg_call ::
  "'q chan_env \<Rightarrow> (hwi_call \<Rightarrow> qcamera_state \<Rightarrow> 'q \<Rightarrow> hwi_reply \<times> 'q)
     \<Rightarrow> hwi_call \<Rightarrow> qcamera_state \<Rightarrow> 'q msgs \<Rightarrow> hwi_reply \<times> 'q msgs" where
  "msg_call E base c st p =
     (case c of
        EnableMsgType m \<Rightarrow> (let (rc, p') = enableMsgType E m p in (int_reply rc, p'))
      | DisableMsgType m \<Rightarrow> (let (rc, p') = disableMsgType E m p in (int_reply rc, p'))
      | MsgTypeEnabled m \<Rightarrow> (int_reply (msgTypeEnabled m p), p)
      | _ \<Rightarrow> (let (r, q) = base c st (others p) in (r, p\<lparr>others := q\<rparr>)))"

definition msg_hwi :: "'q chan_env \<Rightarrow> 'q hwi \<Rightarrow> 'q msgs hwi" where
  "msg_hwi E B =
     \<lparr>do_call = msg_call E (do_call B), vanilla_hal = vanilla_hal B,
      msg_preview_frame = CAMERA_MSG_PREVIEW_FRAME,
      cmd_longshot_on = cmd_longshot_on B, cmd_longshot_off = cmd_longshot_off B\<rparr>"

section \<open>Sets of flags\<close>

lemma merge_flag:
  fixes m f d p :: int32
  assumes "m AND f = f" "d AND NOT f = 0"
  shows "(p OR f) OR (m AND NOT f) = (p OR d) OR m"
  using assms by (auto simp: bit_eq_iff bit_simps)

lemma split_clear: "p AND NOT m OR d AND NOT m = (p OR d) AND NOT (m :: int32)"
  by (simp add: bit.conj_disj_distrib2)

lemma split_query: "p AND m OR m AND d = (p OR d) AND (m :: int32)"
  by (auto simp: bit_eq_iff bit_simps)

lemma clear_gone: "d AND NOT m = 0 \<Longrightarrow> p AND NOT m = (p OR d) AND NOT (m :: int32)"
  by (simp add: bit.conj_disj_distrib2)

lemma frame_kept: "(p OR m AND NOT f) AND f = p AND (f :: int32)"
  by (auto simp: bit_eq_iff bit_simps)

lemma frame_untouched: "m AND f = 0 \<Longrightarrow> (p OR m) AND f = p AND (f :: int32)"
  by (simp add: bit.conj_disj_distrib2)

lemma preview_frame_flag:
  fixes m :: int32
  assumes "m AND CAMERA_MSG_PREVIEW_FRAME \<noteq> 0"
  shows "m AND CAMERA_MSG_PREVIEW_FRAME = CAMERA_MSG_PREVIEW_FRAME"
proof -
  have m: "bit m 4"
    using assms and_exp_eq_0_iff_not_bit [of m 4] by simp
  have "CAMERA_MSG_PREVIEW_FRAME = 2 ^ 4"
    by simp
  then have f: "bit CAMERA_MSG_PREVIEW_FRAME n \<longleftrightarrow> possible_bit TYPE(int32) n \<and> n = 4" for n
    by (metis bit_exp_iff)
  show ?thesis
    by (rule bit_eqI) (metis bit_and_iff m f)
qed

section \<open>The contract, and what the machine makes of it\<close>

text \<open>What the framework has enabled, in terms of a projection \<open>msk\<close> of the parent.\<close>

definition visible :: "('p \<Rightarrow> int32) \<Rightarrow> 'p sm \<Rightarrow> int32" where
  "visible msk s = msk (parent s) OR m_DelayedMsgs s"

lemma visible_update [simp]:
  "visible msk (s\<lparr>m_state := st\<rparr>) = visible msk s"
  "visible msk (s\<lparr>m_bDelayPreviewMsgs := b\<rparr>) = visible msk s"
  "visible msk (s\<lparr>m_bPreviewNeedsRestart := b\<rparr>) = visible msk s"
  "visible msk (s\<lparr>m_bPreviewDelayedRestart := b\<rparr>) = visible msk s"
  "visible msk (s\<lparr>m_RestoreZSL := b\<rparr>) = visible msk s"
  by (simp_all add: visible_def)

lemma delay_inv_update [simp]:
  "delay_inv H (s\<lparr>m_state := st\<rparr>) = delay_inv H s"
  "delay_inv H (s\<lparr>m_bPreviewNeedsRestart := b\<rparr>) = delay_inv H s"
  "delay_inv H (s\<lparr>m_bPreviewDelayedRestart := b\<rparr>) = delay_inv H s"
  "delay_inv H (s\<lparr>m_RestoreZSL := b\<rparr>) = delay_inv H s"
  "delay_inv H (after H c s) = delay_inv H s"
  by (simp_all add: delay_inv_def)

fun sets_msgs :: "sm_evt \<Rightarrow> bool" where
  "sets_msgs (ENABLE_MSG_TYPE _) = True"
| "sets_msgs (DISABLE_MSG_TYPE _) = True"
| "sets_msgs _ = False"

locale msg_parent =
  fixes H :: "'p hwi" and msk :: "'p \<Rightarrow> int32"
  assumes enable: "msk (snd (do_call H (EnableMsgType m) st p)) = msk p OR m"
    and disable: "msk (snd (do_call H (DisableMsgType m) st p)) = msk p AND NOT m"
    and enabled: "r_int (fst (do_call H (MsgTypeEnabled m) st p)) = msk p AND m"
    and other: "(\<And>m. c \<noteq> EnableMsgType m) \<Longrightarrow> (\<And>m. c \<noteq> DisableMsgType m) \<Longrightarrow>
      msk (snd (do_call H c st p)) = msk p"
    and one_flag: "m AND msg_preview_frame H \<noteq> 0 \<Longrightarrow>
      m AND msg_preview_frame H = msg_preview_frame H"
begin

lemma visible_after [simp]:
  "(\<And>m. c \<noteq> EnableMsgType m) \<Longrightarrow> (\<And>m. c \<noteq> DisableMsgType m) \<Longrightarrow>
   visible msk (after H c s) = visible msk s"
  by (simp add: visible_def after_def other)

lemma visible_after_set:
  "visible msk (after H (EnableMsgType m) s) = visible msk s OR m"
  "visible msk (after H (DisableMsgType m) s) = msk (parent s) AND NOT m OR m_DelayedMsgs s"
  by (simp_all add: visible_def after_def enable disable or.assoc or.commute or.left_commute)

lemma parent_enabled: "r_int (answer H (MsgTypeEnabled m) s) = msk (parent s) AND m"
  by (simp add: answer_def enabled)

lemma visible_undelayed [simp]: "delay_inv H s \<Longrightarrow> visible msk (undelayed H s) = visible msk s"
  by (auto simp: undelayed_def delay_inv_def visible_def after_def enable)

lemma visible_hint_cleared [simp]: "visible msk (hint_cleared H s) = visible msk s"
proof -
  have "wp (take_clear_hint H) (\<lambda>_ t. visible msk t = visible msk s) s"
    by (simp add: take_clear_hint_def wp_simps del: wp_take_clear_hint)
  then show ?thesis
    by (simp add: wp_run hint_cleared_def)
qed

text \<open>Only the two requests change what is enabled; resuming the delayed messages does not.\<close>

lemma visible_frame:
  "delay_inv H s \<Longrightarrow> \<not> sets_msgs e \<Longrightarrow>
   wp (stateMachine H e) (\<lambda>_ t. visible msk t = visible msk s) s"
  by (cases "m_state s"; induct e)
    (simp_all add: step_simps split: qcamera_internal_evt_type.split)

text \<open>While the preview runs, the requests act on what is visible, delayed or not.\<close>

lemma visible_enable:
  assumes "delay_inv H s" "m_state s = PREVIEWING"
  shows "wp (stateMachine H (ENABLE_MSG_TYPE m)) (\<lambda>_ t. visible msk t = visible msk s OR m) s"
  using assms
  by (simp add: step_simps visible_after_set)
    (auto simp: visible_def delay_inv_def intro: merge_flag one_flag)

lemma visible_disable:
  assumes "delay_inv H s" "m_state s = PREVIEWING"
  shows "wp (stateMachine H (DISABLE_MSG_TYPE m)) (\<lambda>_ t. visible msk t = visible msk s AND NOT m) s"
  using assms
  by (simp add: step_simps visible_after_set)
    (auto simp: visible_def delay_inv_def split_clear intro: clear_gone)

lemma visible_query:
  assumes "delay_inv H s" "m_state s = PREVIEWING"
  shows "wp (stateMachine H (MSG_TYPE_ENABLED m)) (\<lambda>_ t. api_results (calls t) = api_results (calls s)
    @ [\<lparr>status = NO_ERROR, request_api = SM_EVT_MSG_TYPE_ENABLED,
        result_type = RESULT_TYPE_ENABLE_FLAG (visible msk s AND m)\<rparr>]) s"
  using assms
  by (simp add: step_simps parent_enabled)
    (auto simp: visible_def delay_inv_def split_query)

text \<open>While messages are delayed, no request enables the preview frames in the parent.\<close>

lemma withheld:
  assumes "m_state s = PREVIEWING" "m_bDelayPreviewMsgs s"
  shows "wp (stateMachine H (ENABLE_MSG_TYPE m)) (\<lambda>_ t.
    msk (parent t) AND msg_preview_frame H = msk (parent s) AND msg_preview_frame H) s"
  using assms
  by (simp add: step_simps after_def enable other frame_kept frame_untouched)

end

section \<open>The parent's functions meet the contract\<close>

interpretation hw: msg_parent "msg_hwi E B" mMsgEnabled for E B
  by unfold_locales
    (auto simp: msg_hwi_def msg_call_def enableMsgType_def disableMsgType_def msgTypeEnabled_def
      int_reply_def preview_frame_flag Let_def split: prod.splits hwi_call.splits)

section \<open>A request that is lost\<close>

text \<open>
  In the other states the two requests go to the parent only.  Preview frames that were held back
  before a capture and disabled during it are enabled when the preview starts again.
\<close>

definition quiet_env :: "unit chan_env" where
  "quiet_env =
     \<lparr>isUBWCEnabled = (\<lambda>_. False), isZSLMode = (\<lambda>_. True), getRecordingHintValue = (\<lambda>_. False),
      has_channel = (\<lambda>_ _. False), isActive = (\<lambda>_ _. False),
      startChannel = (\<lambda>_ q. (0, q)), stopChannel = (\<lambda>_ q. (0, q))\<rparr>"

definition zsl_parent :: "unit msgs hwi" where
  "zsl_parent = msg_hwi quiet_env (scripted [IsZSLMode, GetPreviewWindow] [])"

definition lost_disable :: "sm_evt list" where
  "lost_disable =
     [START_PREVIEW, TAKE_PICTURE, SNAPSHOT_DONE, ENABLE_MSG_TYPE CAMERA_MSG_PREVIEW_FRAME,
      TAKE_PICTURE, DISABLE_MSG_TYPE CAMERA_MSG_PREVIEW_FRAME, SNAPSHOT_DONE, START_PREVIEW]"

end
