(* ===== verification/Spec2Isabelle.thy ===== *)
theory Spec2Isabelle
  imports CameraIntfSpec ChannelStartSpec StreamSpec CameraSpec HwiCalls MsgTypes SMDiagram QueueInterface
begin

text \<open>
  Two parts of the camera's hardware abstraction layer: its state machine, with the command thread, the
  queues and the functions of the camera API that drive it; and, below it, the camera interface: its streams,
  the layout of their frames and the ownership of their buffers, and the frame path, where the buffers of several
  streams are matched to superbuffers and sent to their users.  The sources are under \<^verbatim>\<open>src/camera/QCamera2\<close> and named from there.

  \<^bold>\<open>The program.\<close>  A call of the camera's API (\<^verbatim>\<open>HAL/QCamera2HWI.cpp\<close>, \<open>set_preview_window\<close> to
  \<open>prepare_snapshot\<close>) takes the lock of the hardware interface, posts an event with \<open>processAPI\<close> and waits
  in \<open>waitAPIResult\<close> for a result with its own code.  Events of the camera daemon, the jpeg encoder and
  the post processor are posted with \<open>processEvt\<close>.  The state machine (\<^verbatim>\<open>HAL/QCameraStateMachine.cpp\<close>)
  has two queues (\<^verbatim>\<open>util/QCameraQueue.cpp\<close>, over the rings of \<^verbatim>\<open>stack/common/cam_list.h\<close>), a
  semaphore that counts what is queued and a thread that takes one command at a time, requests before
  events, and calls the handler of the current state.  A handler calls back into the hardware interface,
  may change the state, and signals the result, which wakes the caller.

  The camera interface (\<^verbatim>\<open>stack/mm-camera-interface\<close>) gives the hardware interface channels, each a
  bundle of streams.  A stream (\<^verbatim>\<open>src/mm_camera_stream.c\<close>) is a state machine from its acquisition over its format,
  its buffers and their registration to streaming; it computes how a frame lies in memory and counts
  who holds each buffer.  Every buffer a stream receives from the driver is posted as a command to its channel's
  thread (\<open>mm_channel_process_stream_buf\<close> in \<^verbatim>\<open>src/mm_camera_channel.c\<close>), which matches it by its frame
  number to a superbuffer in a queue, starts and stops the ZSL snapshot, trims the queue and sends complete
  superbuffers while requests are pending.  Buffers that are dropped are queued to the driver again.  Two
  cameras that must give frames of the same time share a table of frame numbers.

  \<^bold>\<open>The theories of the state machine.\<close>
  \<^item> \<open>Prelude\<close>: status codes, 32-bit integers, pointers, the state monad's weakest preconditions.
  \<^item> \<open>CamList\<close>: the links of \<open>cam_list.h\<close> as a heap of two pointers per node, and the invariant \<open>ring\<close>.
  \<^item> \<open>CameraQueue\<close>: the record \<open>cqueue\<close> has the members of \<open>QCameraQueue\<close>, the heap of its nodes and,
    as ghosts, what has been freed; each method is a function on it, the loops are partial functions.
    The abstract queue \<open>aqueue\<close> is a list and a flag, and each method refines an operation on it.
  \<^item> \<open>QueueInterface\<close>: the locale \<open>cmd_queue\<close>, what the thread needs of a queue, interpreted on
    \<open>QCameraQueue\<close>.
  \<^item> \<open>SMTypes\<close>: the enumerations and payloads of \<^verbatim>\<open>HAL/QCameraStateMachine.h\<close>; the record \<open>sm\<close> has the
    members of the class, the state of the parent and, as a ghost, the list of the calls made of it.
  \<^item> \<open>SMCore\<close>: what the handlers share (calling the parent, signalling, the bodies that occur in
    several states), the delayed messages, the constructor, the queries and the dump.
  \<^item> \<open>SMStopped\<close>, \<open>SMPreviewing\<close>, \<open>SMPicTaking\<close>, \<open>SMRecording\<close>, \<open>SMPreviewPicTaking\<close>: the handlers of
    the eight states.  A handler's \<open>switch\<close> is cut into groups of labels, in the order of the source
    (\<open>..._config\<close>, \<open>..._preview\<close>, \<open>..._capture\<close>, \<open>..._events\<close>), each ending in a call of the next; a long
    case body is a definition of its own.
  \<^item> \<open>StateMachine\<close>: the dispatch on the state; the diagram of the states (\<open>edges\<close>), and which results a
    step signals (\<open>replies\<close>).
  \<^item> \<open>SMProtocol\<close>: which events a state refuses, and the calls of a step that concern recording, release
    and capture.
  \<^item> \<open>SMRuns\<close>: sequences of events, the reachable objects and their invariants.
  \<^item> \<open>SMDiagram\<close>: a run for each edge of the diagram.
  \<^item> \<open>MsgTypes\<close>: \<open>enableMsgType\<close>, \<open>disableMsgType\<close>, \<open>msgTypeEnabled\<close> of \<^verbatim>\<open>HAL/QCamera2HWI.cpp\<close>; the locale
    \<open>msg_parent\<close> states what the machine's delaying of preview frames needs of them.
  \<^item> \<open>SMThread\<close>: posting, the thread and its end, and interleavings of posts and rounds.
  \<^item> \<open>HwiApi\<close>: the list of results, \<open>signalAPIResult\<close>, \<open>waitAPIResult\<close>, a call that posts and waits.
  \<^item> \<open>HwiCalls\<close>: the functions of the camera's API.
  \<^item> This theory states the properties of the state machine, each with an example where its hypotheses hold.

  \<^bold>\<open>The theories of the streams.\<close>  They are about \<^verbatim>\<open>src/mm_camera_stream.c\<close>.
  \<^item> \<open>PlaneTypes\<close>: formats, dimensions, paddings and planes of \<^verbatim>\<open>stack/common/cam_types.h\<close>; the record \<open>platform\<close> holds
    the build flags and the media macros of the kernel, which are not part of the sources.
  \<^item> \<open>PlaneLayout\<close>: the functions \<open>mm_stream_calc_offset_...\<close>, one for each type of stream, and \<open>mm_stream_calc_lcm\<close>.
  \<^item> \<open>PlaneBounds\<close>, \<open>PlaneFits\<close>, \<open>PlaneRaw\<close>: what rounding up does to 32-bit numbers, that a layout has room for the
    picture, and the packed raw formats.
  \<^item> \<open>StreamTypes\<close>: the structure \<open>mm_stream_t\<close>; the calls a stream makes of driver, daemon and users are a ghost
    list, and the record \<open>stream_env\<close> answers them.
  \<^item> \<open>StreamBufs\<close>: queueing, receiving, dispatching and giving back buffers; \<open>StreamFsm\<close>: the operations of the state
    machine and its handlers.
  \<^item> \<open>StreamDiagram\<close>: the diagram of the states and what a stream holds in them; \<open>StreamOwner\<close>: the references of
    a buffer; \<open>StreamSpec\<close>: the properties of these theories, with their examples.

  \<^bold>\<open>The theories of the frame path.\<close>  All but the first are about \<^verbatim>\<open>src/mm_camera_channel.c\<close>.
  \<^item> \<open>MMTypes\<close>: the structures of \<^verbatim>\<open>stack/common/mm_camera_interface.h\<close> and \<^verbatim>\<open>inc/mm_camera.h\<close>.  The queue of
    superbuffers is a list of nodes with the member \<open>que_size\<close> beside it; what a channel queues to the driver
    and starts or stops of the ZSL snapshot is a ghost list of the channel.
  \<^item> \<open>FrameSync\<close>: the table of frame numbers two cameras share.
  \<^item> \<open>Superbuf\<close>: taking superbuffers out, flushing and trimming; the loops that trim are partial functions.
  \<^item> \<open>SuperbufMeta\<close>: what the metadata of a frame does to the channel; \<open>SuperbufMatch\<close>: matching a buffer.  A use of
    memory that was freed is the result \<open>None\<close>.
  \<^item> \<open>SuperbufInv\<close>, \<open>SuperbufWalk\<close>, \<open>SuperbufSafe\<close>: the invariant of the queue, what the walk over it finds, and
    that the function returns; \<open>SuperbufConserve\<close>: every buffer is queued or given back, as a
    multiset; \<open>SuperbufOrder\<close>: the order of the queue; \<open>SuperbufTrim\<close>: the loops that trim, and the frames of a superbuffer.
  \<^item> \<open>ChannelProcess\<close>: the command thread: a command, the ZSL snapshot, and the loop that sends superbuffers,
    for all the channels of the process.
  \<^item> \<open>ChannelInv\<close>, \<open>ChannelControl\<close>, \<open>ChannelRequest\<close>, \<open>ChannelZsl\<close>: its invariant, what matching leaves alone, the
    account of the buffers over a command, the requests, and the calls for the ZSL snapshot.
  \<^item> \<open>FrameSyncInv\<close>: sequences of operations on the table, and what its entries mean.
  \<^item> \<open>CameraSpec\<close>: the properties of these theories, with their examples.

  \<^bold>\<open>The theories of the channels and the cameras.\<close>
  \<^item> \<open>ChannelTypes\<close>: the store of the channels.  The members of \<open>mm_channel_t\<close> that the frame path works on stay in the
    world of its theories (\<open>cworld\<close>); the record \<open>chan\<close> adds the state, the array of streams and the thread's queue.
  \<^item> \<open>ChannelFsm\<close>: the operations of a channel, starting and stopping, and the handlers of its states, from
    \<^verbatim>\<open>src/mm_camera_channel.c\<close>; a command of its thread is a command of \<open>ChannelProcess\<close>, whose buffers go back to their
    streams.
  \<^item> \<open>ChannelHandles\<close>: what a handle says; \<open>ChannelFrame\<close>: what an operation leaves alone, and the locale
    \<open>stream_contract\<close>, all that starting and stopping a channel need of the state machine of a stream;
    \<open>ChannelStart\<close>, \<open>ChannelLife\<close>, \<open>ChannelRuns\<close>: what the loops over the streams do, and the outcome of starting and
    stopping.
  \<^item> \<open>ChannelInvar\<close>, \<open>ChannelSteps\<close>: the invariant of the channels, kept by every step of a run.
  \<^item> \<open>CameraObj\<close>: the functions of a camera in \<^verbatim>\<open>src/mm_camera.c\<close>, which find a channel by its handle and release the
    camera's lock; \<open>CameraIntf\<close>: the table of functions of \<^verbatim>\<open>src/mm_camera_interface.c\<close>, which find the camera and take
    its lock, and opening and closing with counted references.  A call that waits for a lock nobody will release has
    the result \<open>None\<close>; the lock of a channel is held by its state machine only and makes each event one step.
  \<^item> \<open>ChannelReady\<close>: what a start leaves for the command thread; the locale \<open>bystander\<close> is what neither the streams nor
    the commands change.  \<open>CameraCalls\<close>: the table of functions, sequences of calls, and their locks.
  \<^item> \<open>ChannelSpec\<close>, \<open>ChannelStartSpec\<close>, \<open>CameraIntfSpec\<close>: the properties of the channels and of the cameras.

  \<^bold>\<open>The parent.\<close>  What a handler asks of the hardware interface (\<open>startPreview\<close>, \<open>isZSLMode\<close>, ...) is a
  value of \<open>hwi_call\<close>, and the record \<open>hwi\<close> holds the function that answers it; the properties hold for
  every such function.  The message functions are given their own definitions by \<open>msg_hwi\<close>, the
  signalled results are the ones \<open>HwiApi\<close> puts into the result list.  The other functions start and stop
  the channels and streams of the camera; how the hardware interface uses those of the camera interface is not
  modelled.

  \<^bold>\<open>What the lemmas show.\<close>  Of the state machine: every request is answered once, or deferred in a way that
  is stated; the diagram and the refusals are exact; recording, release and capture follow their
  protocols; the delaying of preview frames is an implementation detail that the framework cannot
  observe while the preview runs, except in one sequence.  Of the API: a call returns with the status of
  the handler unless the state does not mention the request.  Of the thread: the order in which commands are
  handled.  Of the queue: each method implements its operation on lists, keeps the ring and frees what it
  should.  Of the layout of a frame: the planes
  have room for the picture and fit the frame, and a raw line for the bits of its pixels.  Of a stream: its diagram is
  exact, it leaks neither descriptors nor buffers, and every buffer is with the driver or with as many users as it
  has references.  Of a channel: starting it is all or nothing, and over
  every run its state agrees with those of its streams, which are found by their handles; a start that succeeds
  establishes the invariant of the queue of superbuffers.  Of the cameras: no call waits for ever for a lock of theirs and no camera leaks, up to
  two errors of the code that are stated.  Of the matching: it returns, loses no buffer and keeps the queue in order, so that superbuffers
  are complete and of one frame.  Of the thread of a channel: it handles a well-formed command to its end,
  accounts for every buffer, and sends no more superbuffers than were asked for.

  \<^bold>\<open>Bounds and loops.\<close>  \<open>smEvtProcRoutine\<close> takes the number of rounds of the thread; the properties say how
  many rounds are enough for what is queued.  \<open>waitAPIResult\<close> lets the thread and the backend run until
  the result is there; each turn of it handles a command or posts an event of the backend, so it
  terminates (the measure is \<open>cmd_sem\<close> plus twice the number of backend events), and None means that
  nothing is left that could wake the caller.  The loops of the queue are partial functions, and
  every property of them says that they return.  The loops that trim the superbuffer
  queue are partial functions, too: they end in every state the invariant allows under the priorities that keep
  complete superbuffers first, and a property gives the case in which they never do.  The loop that sends superbuffers
  takes one out of a queue in each turn, which is its measure.

  The layout of a frame is shown to fit for pictures of up to 8192 columns and lines with an even width and for paddings that
  are powers of two up to 8192, so that no 32-bit product wraps around.  The loop for the least common multiple is a
  partial function that always ends.  Drivers that refuse a buffer, failing cache operations and missing memory are
  answers of the environment: the state machine's properties hold for all of them, the ownership of buffers
  for an environment that is \<open>obliging\<close>.

  \<^bold>\<open>Not modelled.\<close>  The log, traces and performance locks; the memory of the payloads; the failures of the
  semaphore and the mutexes; the led flag \<open>m_bLedAfAecLock\<close>; \<open>processSyncEvt\<close>, whose result has a slot of its own; the
  start of the thread before the constructor has set the last members.  A
  lock that is held around a whole operation makes it one step here; the list of results is changed
  under the lock of the hardware interface, which \<open>pthread_cond_wait\<close> gives back while a caller waits.
  In the camera interface: the result of \<open>malloc\<close> is an argument; reading the arrays of a configured capture
  outside their bounds gives \<open>None\<close>, and a hypothesis of the properties excludes it; the semaphore of \<open>FLUSH_QUEUE\<close>, the
  callbacks' threads and the driver itself.  Of the streams: the contents of the structures the driver and the server
  are given, and the padding of the planes' metadata in the kernel's macros; the library is built without
  \<open>DAEMON_PRESENT\<close>.  The manifest lists the parts of the repository that are left to later
  work.
\<close>

section \<open>Objects for the examples\<close>

abbreviation first_obj :: "unit sm" where
  "first_obj \<equiv> QCameraStateMachine False False ()"

abbreviation at_state :: "qcamera_state \<Rightarrow> unit sm" where
  "at_state st \<equiv> first_obj\<lparr>m_state := st\<rparr>"

abbreviation windowed :: "unit hwi" where
  "windowed \<equiv> scripted [GetPreviewWindow] []"

section \<open>The state machine\<close>

text \<open>
  C1. Every request is answered exactly once, in the step that handles it, with its own request code
  and the status the handler returns; the exceptions are the deferred requests.
\<close>

theorem requests_answered_once:
  assumes "is_request e" and "\<not> unanswered (m_state s) (evt_id e)"
    and "run_state (stateMachine H e) s = (rc, t)"
  shows "(\<exists>ty. api_results (calls t) = api_results (calls s)
        @ [\<lparr>status = rc, request_api = evt_id e, result_type = ty\<rparr>])
    \<or> api_results (calls t) = api_results (calls s) \<and> deferred (m_state s) (evt_id e) rc (m_state t)"
  using wp_runD [OF stateMachine_replies [OF assms(1,2)] assms(3)] by (simp add: replies_def)

lemma requests_answered_once_witness:
  "\<exists>ty. api_results (calls (handled windowed START_PREVIEW first_obj)) =
     [\<lparr>status = NO_ERROR, request_api = SM_EVT_START_PREVIEW, result_type = ty\<rparr>]"
proof -
  have rc: "fst (run_state (stateMachine windowed START_PREVIEW) first_obj) = NO_ERROR"
    by code_simp
  have st: "m_state first_obj = PREVIEW_STOPPED" "calls first_obj = []"
    by (simp_all add: QCameraStateMachine_def)
  show ?thesis
    using requests_answered_once [of START_PREVIEW first_obj windowed, OF _ _ prod.collapse [symmetric]]
    by (auto simp: st rc handled_def deferred_def unanswered_def)
qed



text \<open>
  C16. The state diagram is exact: an event leads from a state to a different one for some behaviour of
  the parent if and only if the diagram has that edge.
\<close>

theorem state_diagram_exact:
  assumes "st' \<noteq> st"
  shows "(evt, st') \<in> set (edges st) \<longleftrightarrow>
    (\<exists>(H :: unit hwi) s e. evt_id e = evt \<and> m_state s = st \<and> m_state (handled H e s) = st')"
proof
  assume "(evt, st') \<in> set (edges st)"
  then obtain yes failing e where e: "evt_id e = evt" "goes yes failing st e st'"
    using edges_taken [of evt st' st] unfolding taken_def by blast
  have "m_state (at_state st) = st"
    by simp
  with e show "\<exists>(H :: unit hwi) s e. evt_id e = evt \<and> m_state s = st \<and> m_state (handled H e s) = st'"
    unfolding goes_def using handledI by blast
next
  assume "\<exists>(H :: unit hwi) s e. evt_id e = evt \<and> m_state s = st \<and> m_state (handled H e s) = st'"
  then show "(evt, st') \<in> set (edges st)"
    using handledI [OF stateMachine_goes] assms unfolding may_go_def by blast
qed

lemma state_diagram_exact_witness:
  "\<exists>(H :: unit hwi) s e. evt_id e = SM_EVT_TAKE_PICTURE \<and> m_state s = RECORDING
     \<and> m_state (handled H e s) = VIDEO_PIC_TAKING"
  using state_diagram_exact [of VIDEO_PIC_TAKING RECORDING SM_EVT_TAKE_PICTURE] by simp

text \<open>
  C22. A state refuses an event, whatever the parent does, if and only if its table of rejected events
  lists it.
\<close>

theorem refusals_exact:
  "(\<forall>(H :: unit hwi) s. m_state s = st \<longrightarrow>
       fst (run_state (stateMachine H e) s) = INVALID_OPERATION)
     \<longleftrightarrow> evt_id e \<in> set (rejects st)"
proof
  assume refused: "\<forall>(H :: unit hwi) s. m_state s = st \<longrightarrow>
    fst (run_state (stateMachine H e) s) = INVALID_OPERATION"
  show "evt_id e \<in> set (rejects st)"
  proof (rule ccontr)
    assume "evt_id e \<notin> set (rejects st)"
    then have "accepted e (at_state st)"
      by (intro accepts) simp
    then show False
      using refused by (auto simp: accepted_def wp_run)
  qed
qed (simp add: stateMachine_refuses)

lemma refusals_exact_witness:
  "fst (run_state (stateMachine windowed TAKE_PICTURE) first_obj) = INVALID_OPERATION"
proof -
  have "evt_id TAKE_PICTURE \<in> set (rejects PREVIEW_STOPPED)" "m_state first_obj = PREVIEW_STOPPED"
    by (simp_all add: QCameraStateMachine_def)
  then show ?thesis
    using refusals_exact [of PREVIEW_STOPPED TAKE_PICTURE] by blast
qed

text \<open>
  C23. A refused event changes nothing: the only call is the signal of the result
  \<open>INVALID_OPERATION\<close>, and no member of the machine is touched.
\<close>

theorem refusals_harmless:
  assumes "evt_id e \<in> set (rejects (m_state s))"
  shows "fst (run_state (stateMachine H e) s) = INVALID_OPERATION
    \<and> calls (handled H e s) = calls s @ [SignalAPIResult
        \<lparr>status = INVALID_OPERATION, request_api = evt_id e, result_type = RESULT_TYPE_DEF\<rparr>]
    \<and> (handled H e s)\<lparr>parent := parent s, calls := calls s\<rparr> = s"
  using stateMachine_refuses [OF assms, of H] by (simp add: handled_def refuse_def after_def)

lemma refusals_harmless_witness:
  "calls (handled windowed TAKE_PICTURE first_obj) = [SignalAPIResult
     \<lparr>status = INVALID_OPERATION, request_api = SM_EVT_TAKE_PICTURE, result_type = RESULT_TYPE_DEF\<rparr>]"
  using refusals_harmless [of TAKE_PICTURE first_obj windowed] by (simp add: QCameraStateMachine_def)

text \<open>
  C25. In every reachable object that records, the last call that concerned recording is
  \<open>startRecording\<close>: the machine never records without having started, nor after it has stopped.
\<close>

theorem recording_was_started:
  assumes "reachable H s" and "isRecording s"
  shows "rec_calls (calls s) \<noteq> [] \<and> last (rec_calls (calls s)) = Op StartRecording"
  using reachable_rec_inv [OF assms(1)] assms(2) by (simp add: rec_inv_def)

abbreviation recording_run :: "unit sm" where
  "recording_run \<equiv> handled_all windowed [START_PREVIEW, START_RECORDING] first_obj"

lemma recording_was_started_witness:
  "isRecording recording_run \<and> last (rec_calls (calls recording_run)) = Op StartRecording"
proof -
  have "isRecording recording_run"
    by code_simp
  moreover have "reachable windowed recording_run"
    by (intro reachable_all reachable.created)
  ultimately show ?thesis
    using recording_was_started by blast
qed

text \<open>
  A step that enters the recording states calls \<open>startRecording\<close> once, a step that leaves them
  calls \<open>stopRecording\<close> once, a step within them calls neither; any other step calls
  \<open>startRecording\<close> at most once, when it fails.
\<close>

theorem recording_calls_of_a_step:
  "\<exists>new. rec_calls (calls (handled H e s)) = rec_calls (calls s) @ new \<and>
     (if isRecording s
      then new = (if isRecording (handled H e s) then [] else [Op StopRecording])
      else new = [Op StartRecording] \<or> new = [] \<and> \<not> isRecording (handled H e s))"
  using handledI [OF stateMachine_rec, where H = H and e = e and s = s] by (simp add: rec_step_def)

text \<open>
  In every reachable object, messages are held back only while they are to be delayed, and only
  the preview frames are.
\<close>

theorem delayed_messages_invariant:
  assumes "reachable H s"
  shows "(m_DelayedMsgs s \<noteq> 0 \<longrightarrow> m_bDelayPreviewMsgs s)
    \<and> m_DelayedMsgs s AND NOT (msg_preview_frame H) = 0"
  using reachable_delay_inv [OF assms] by (simp add: delay_inv_def)

abbreviation delaying_run :: "unit msgs sm" where
  "delaying_run \<equiv> handled_all zsl_parent
     [START_PREVIEW, TAKE_PICTURE, SNAPSHOT_DONE, ENABLE_MSG_TYPE CAMERA_MSG_PREVIEW_FRAME]
     (QCameraStateMachine False False \<lparr>mMsgEnabled = 0, others = ()\<rparr>)"

lemma delaying_run_reachable: "reachable zsl_parent delaying_run"
  by (intro reachable_all reachable.created)

lemma delayed_messages_invariant_witness:
  "m_DelayedMsgs delaying_run = 16 \<and> m_bDelayPreviewMsgs delaying_run"
proof -
  have "m_DelayedMsgs delaying_run = 16"
    by code_simp
  then show ?thesis
    using delayed_messages_invariant [OF delaying_run_reachable] by simp
qed



text \<open>
  While the preview runs, asking whether a message is enabled is answered from the same set.
\<close>

theorem delayed_query_answer:
  assumes "reachable (msg_hwi E B) s" and "m_state s = PREVIEWING"
  shows "api_results (calls (handled (msg_hwi E B) (MSG_TYPE_ENABLED m) s)) = api_results (calls s)
    @ [\<lparr>status = NO_ERROR, request_api = SM_EVT_MSG_TYPE_ENABLED,
        result_type = RESULT_TYPE_ENABLE_FLAG (visible mMsgEnabled s AND m)\<rparr>]"
  using handledI [OF hw.visible_query] reachable_delay_inv [OF assms(1)] assms(2) by blast

lemma delayed_query_answer_witness:
  "last (api_results (calls (handled zsl_parent (MSG_TYPE_ENABLED 16) delaying_run))) =
     \<lparr>status = NO_ERROR, request_api = SM_EVT_MSG_TYPE_ENABLED,
      result_type = RESULT_TYPE_ENABLE_FLAG 16\<rparr>"
proof -
  have "m_state delaying_run = PREVIEWING" "visible mMsgEnabled delaying_run = 16"
    by code_simp+
  then show ?thesis
    using delayed_query_answer [OF delaying_run_reachable [unfolded zsl_parent_def], of 16]
    by (simp add: zsl_parent_def)
qed

text \<open>
  No other event, in any state, changes what is enabled: in particular resuming the preview only
  moves what was held back to the parent.
\<close>

theorem other_events_keep_messages:
  assumes "reachable (msg_hwi E B) s" and "\<not> sets_msgs e"
  shows "visible mMsgEnabled (handled (msg_hwi E B) e s) = visible mMsgEnabled s"
  using handledI [OF hw.visible_frame] reachable_delay_inv [OF assms(1)] assms(2) by blast

lemma other_events_keep_messages_witness:
  "visible mMsgEnabled (handled zsl_parent START_PREVIEW delaying_run) = 16"
proof -
  have "visible mMsgEnabled delaying_run = 16"
    by code_simp
  then show ?thesis
    using other_events_keep_messages [OF delaying_run_reachable [unfolded zsl_parent_def], of START_PREVIEW]
    by (simp add: zsl_parent_def)
qed

text \<open>
  While messages are delayed the parent is not asked to enable preview frames.
\<close>

theorem preview_frames_withheld:
  assumes "m_state s = PREVIEWING" and "m_bDelayPreviewMsgs s"
  shows "mMsgEnabled (parent (handled (msg_hwi E B) (ENABLE_MSG_TYPE m) s))
      AND msg_preview_frame (msg_hwi E B)
    = mMsgEnabled (parent s) AND msg_preview_frame (msg_hwi E B)"
  using handledI [OF hw.withheld] assms by blast

lemma preview_frames_withheld_witness:
  "mMsgEnabled (parent (handled zsl_parent (ENABLE_MSG_TYPE 17) delaying_run)) AND 16 = 0"
proof -
  have st: "m_state delaying_run = PREVIEWING" "m_bDelayPreviewMsgs delaying_run"
    "mMsgEnabled (parent delaying_run) AND 16 = 0"
    by code_simp+
  from preview_frames_withheld [OF st(1,2), of quiet_env "scripted [IsZSLMode, GetPreviewWindow] []" 17] st(3)
  show ?thesis
    by (simp add: zsl_parent_def msg_hwi_def)
qed

text \<open>
  A request that is lost.  Preview frames are held back before a picture, and disabled while it
  is taken; the last request of the framework was to disable them, and the next start of the preview
  enables them in the parent.
\<close>

theorem disable_during_capture_is_lost:
  "mMsgEnabled (parent (handled_all zsl_parent lost_disable
     (QCameraStateMachine False False \<lparr>mMsgEnabled = 0, others = ()\<rparr>))) = CAMERA_MSG_PREVIEW_FRAME"
  by code_simp

text \<open>
  C37. While the hardware prepares for a snapshot nothing but its report ends the wait: after any
  other events, the loss of the camera daemon included, the machine is still waiting, and a request
  to stop the preview or to release the camera is refused.
\<close>

theorem prepare_wait_is_exclusive:
  assumes "m_state s = PREPARE_SNAPSHOT_STATE" and "\<forall>e \<in> set es. \<not> prep_done e"
    and "e = STOP_PREVIEW \<or> e = RELEASE"
  shows "m_state (handled_all H es s) = PREPARE_SNAPSHOT_STATE
    \<and> fst (run_state (stateMachine H e) (handled_all H es s)) = INVALID_OPERATION"
  using prepare_stays_all [OF assms(1,2)] assms(3) by (auto simp: stateMachine_refuses)

lemma prepare_wait_is_exclusive_witness:
  "fst (run_state (stateMachine windowed RELEASE)
     (handled_all windowed [EVT_NOTIFY CAM_EVENT_TYPE_DAEMON_DIED, STOP_PREVIEW]
       (at_state PREPARE_SNAPSHOT_STATE))) = INVALID_OPERATION"
  using prepare_wait_is_exclusive [of "at_state PREPARE_SNAPSHOT_STATE"
    "[EVT_NOTIFY CAM_EVENT_TYPE_DAEMON_DIED, STOP_PREVIEW]" RELEASE windowed]
  by (simp add: prep_done_def)

text \<open>
  C27. From every state, the report that the hardware is prepared and a request to stop the preview
  lead to the stopped state, and there the request to release the camera is carried out, once.
\<close>

theorem shutdown_reaches_release:
  "m_state (handled_all H [EVT_INTERNAL INTERNAL_EVT_PREP_SNAPSHOT_DONE d, STOP_PREVIEW] s)
      = PREVIEW_STOPPED
   \<and> release_calls (calls (handled_all H
        [EVT_INTERNAL INTERNAL_EVT_PREP_SNAPSHOT_DONE d, STOP_PREVIEW, RELEASE] s))
      = release_calls (calls s) @ [Op Release]"
proof -
  note step = handledI [OF stateMachine_release_call]
  show ?thesis
    using shutdown_stops [of H d s] by (simp add: step)
qed

text \<open>
  The camera is released by the request \<open>RELEASE\<close> in the stopped state, and by nothing else.
\<close>

theorem release_only_when_stopped:
  "release_calls (calls (handled H e s)) = release_calls (calls s)
     @ (if m_state s = PREVIEW_STOPPED \<and> e = RELEASE then [Op Release] else [])"
  by (rule handledI [OF stateMachine_release_call])

text \<open>
  Captures are started by \<open>TAKE_PICTURE\<close> only: one picture from the preview, one live snapshot
  from a recording, a longshot at most while a picture is being taken, none elsewhere.
\<close>

theorem captures_of_a_step:
  "\<exists>new. capture_calls (calls (handled H e s)) = capture_calls (calls s) @ new \<and>
     (if e \<noteq> TAKE_PICTURE then new = []
      else case m_state s of
          PREVIEWING \<Rightarrow> new = [Op TakePicture]
        | RECORDING \<Rightarrow> new = [Op TakeLiveSnapshot]
        | PIC_TAKING \<Rightarrow> new = [] \<or> new = [Op LongShot]
        | PREVIEW_PIC_TAKING \<Rightarrow> new = [] \<or> new = [Op LongShot]
        | _ \<Rightarrow> new = [])"
  by (rule handledI [OF stateMachine_captures, unfolded captures_def])

section \<open>The API\<close>

text \<open>
  C38. A request that the state does not mention is never answered: while only events of the backend
  arrive, the caller waits for ever.
\<close>

theorem unmentioned_request_blocks:
  assumes "idle W" and "unanswered (m_state (machine (thread W))) (evt_id e)"
    and "evt_id e \<notin> request_api ` set (m_apiResultList W)"
    and "\<forall>b \<in> set (backend W). \<not> is_request b"
  shows "status_call H e W = None"
  using sync_call_blocks [OF assms] by (simp add: status_call_def)

lemma unmentioned_request_blocks_witness:
  "status_call windowed (REG_FACE_IMAGE \<lparr>img_ptr = 1, config = 2\<rparr>)
     (new_hw (at_state PREPARE_SNAPSHOT_STATE)) = None"
  by (rule unmentioned_request_blocks [OF new_hw_idle])
    (simp_all add: unanswered_def new_hw_def new_thread_def)

text \<open>
  A snapshot that the hardware accepts to prepare for is answered when the hardware reports that
  it is prepared; the preview runs again then.
\<close>

theorem prepared_snapshot_is_answered:
  assumes "idle W" and "SM_EVT_PREPARE_SNAPSHOT \<notin> request_api ` set (m_apiResultList W)"
    and "m_state (machine (thread W)) = PREVIEWING"
    and "r_int (answer H (PrepareHardwareForSnapshot False) (machine (thread W))) = NO_ERROR"
    and "backend W = EVT_INTERNAL INTERNAL_EVT_PREP_SNAPSHOT_DONE d # es"
  shows "\<exists>W'. status_call H PREPARE_SNAPSHOT W = Some (NO_ERROR, W')
    \<and> m_state (machine (thread W')) = PREVIEWING \<and> m_apiResultList W' = m_apiResultList W \<and> idle W'"
  using prepare_snapshot_completes [OF assms] .

lemma prepared_snapshot_is_answered_witness:
  "\<exists>W'. status_call windowed PREPARE_SNAPSHOT
     (new_hw (at_state PREVIEWING)\<lparr>backend := [EVT_INTERNAL INTERNAL_EVT_PREP_SNAPSHOT_DONE 0]\<rparr>)
     = Some (NO_ERROR, W') \<and> m_state (machine (thread W')) = PREVIEWING"
proof -
  let ?W = "new_hw (at_state PREVIEWING)\<lparr>backend := [EVT_INTERNAL INTERNAL_EVT_PREP_SNAPSHOT_DONE 0]\<rparr>"
  have "idle ?W" "m_apiResultList ?W = []" "m_state (machine (thread ?W)) = PREVIEWING"
    "backend ?W = EVT_INTERNAL INTERNAL_EVT_PREP_SNAPSHOT_DONE 0 # []"
    by (simp_all add: new_hw_def new_thread_def idle_def)
  then show ?thesis
    using prepared_snapshot_is_answered [of ?W windowed 0 "[]"] by auto
qed


abbreviation restarting :: "unit api_env" where
  "restarting \<equiv>
     \<lparr>isNoDisplayMode = (\<lambda>_. False), sync_sensors_on = (\<lambda>_. False), getNeedRestart = (\<lambda>_. True),
      getNumOfRetroSnapshots = (\<lambda>_. 0), zsl_mode = (\<lambda>_. False), isHDRMode = (\<lambda>_. False),
      isLongshotEnabled = (\<lambda>_. False), setRetroPicture = (\<lambda>_ p. p), mFlashNeeded = (\<lambda>_. False),
      isChromaFlashEnabled = (\<lambda>_. False), closeNativeHandle = (\<lambda>_ _. None)\<rparr>"


text \<open>
  When the changes cannot be committed the preview stays stopped: the call returns the error, the
  preview has been stopped and not started again, and the state is still that of a running preview.
\<close>

theorem failed_commit_leaves_preview_stopped:
  "case set_parameters restarting (scripted [] [CommitParameterChanges]) ''iso=100''
       (Some (new_hw (at_state PREVIEWING))) of
     Some (rc, Some W) \<Rightarrow> rc \<noteq> NO_ERROR \<and> m_state (machine (thread W)) = PREVIEWING
       \<and> filter (\<lambda>c. c = Op StopPreview \<or> c = Op StartPreview) (calls (machine (thread W)))
         = [Op StopPreview]
   | _ \<Rightarrow> False"
  by code_simp

text \<open>
  With retroactive frames \<open>take_picture\<close> returns the status of the preparation that follows:
  when the flash is not needed it reports success whatever became of the picture.
\<close>

theorem retro_picture_status_is_lost:
  assumes "retro_wanted E W"
    and "pre_take E H (set_hwi (setRetroPicture E True (hwi_of W)) W) = Some (NO_ERROR, W2)"
    and "status_call H TAKE_PICTURE W2 = Some (rc, W3)"
    and "\<not> mFlashNeeded E (hwi_of W3)" and "\<not> isChromaFlashEnabled E (hwi_of W3)"
  shows "take_picture E H (Some W) = Some (NO_ERROR, Some W3)"
  using assms
  by (simp add: take_picture_def with_hw_def do_take_picture_def do_prepare_snapshot_def Let_def)

abbreviation retro_env :: "unit api_env" where
  "retro_env \<equiv> restarting\<lparr>sync_sensors_on := (\<lambda>_. True), getNumOfRetroSnapshots := (\<lambda>_. 1),
     zsl_mode := (\<lambda>_. True)\<rparr>"

lemma retro_picture_status_is_lost_witness:
  "\<exists>W3. status_call (scripted [IsZSLMode] [TakePicture]) TAKE_PICTURE (new_hw (at_state PREVIEWING))
       = Some (UNKNOWN_ERROR, W3)
     \<and> take_picture retro_env (scripted [IsZSLMode] [TakePicture]) (Some (new_hw (at_state PREVIEWING)))
       = Some (NO_ERROR, Some W3)"
proof -
  let ?H = "scripted [IsZSLMode] [TakePicture]" and ?W = "new_hw (at_state PREVIEWING)"
  have "map_option fst (status_call ?H TAKE_PICTURE ?W) = Some UNKNOWN_ERROR"
    by code_simp
  then obtain W3 where take: "status_call ?H TAKE_PICTURE ?W = Some (UNKNOWN_ERROR, W3)"
    by auto
  have "set_hwi (setRetroPicture retro_env True (hwi_of ?W)) ?W = ?W"
    by (simp add: set_hwi_def hwi_of_def new_hw_def new_thread_def)
  moreover have "retro_wanted retro_env ?W"
    by (simp add: retro_wanted_def new_hw_def new_thread_def isRecording_def)
  ultimately show ?thesis
    using retro_picture_status_is_lost [of retro_env ?W ?H ?W UNKNOWN_ERROR W3] take
    by (simp add: pre_take_def)
qed

text \<open>
  Outside the wait for a snapshot, the machine answers that the preview is enabled exactly when
  \<open>isPreviewRunning\<close> holds and no plain recording runs, and that recording is enabled exactly when
  \<open>isRecording\<close> holds.
\<close>

theorem enabled_answers:
  assumes "m_state s \<noteq> PREPARE_SNAPSHOT_STATE"
  shows "api_results (calls (handled H PREVIEW_ENABLED s)) = api_results (calls s)
      @ [\<lparr>status = NO_ERROR, request_api = SM_EVT_PREVIEW_ENABLED,
          result_type = RESULT_TYPE_ENABLE_FLAG
            (if isPreviewRunning s \<and> m_state s \<noteq> RECORDING then 1 else 0)\<rparr>]
    \<and> api_results (calls (handled H RECORDING_ENABLED s)) = api_results (calls s)
      @ [\<lparr>status = NO_ERROR, request_api = SM_EVT_RECORDING_ENABLED,
          result_type = RESULT_TYPE_ENABLE_FLAG (if isRecording s then 1 else 0)\<rparr>]"
proof -
  have "wp (stateMachine H PREVIEW_ENABLED) (\<lambda>_ t. api_results (calls t) = api_results (calls s)
      @ [\<lparr>status = NO_ERROR, request_api = SM_EVT_PREVIEW_ENABLED,
          result_type = RESULT_TYPE_ENABLE_FLAG
            (if isPreviewRunning s \<and> m_state s \<noteq> RECORDING then 1 else 0)\<rparr>]) s"
    and "wp (stateMachine H RECORDING_ENABLED) (\<lambda>_ t. api_results (calls t) = api_results (calls s)
      @ [\<lparr>status = NO_ERROR, request_api = SM_EVT_RECORDING_ENABLED,
          result_type = RESULT_TYPE_ENABLE_FLAG (if isRecording s then 1 else 0)\<rparr>]) s"
    using assms
    by (cases "m_state s"; simp add: step_simps isPreviewRunning_def isRecording_def)+
  then show ?thesis
    by (simp add: wp_run handled_def)
qed

lemma enabled_answers_witness:
  "isPreviewRunning (at_state RECORDING) \<and>
   api_results (calls (handled windowed PREVIEW_ENABLED (at_state RECORDING))) =
     [\<lparr>status = NO_ERROR, request_api = SM_EVT_PREVIEW_ENABLED,
       result_type = RESULT_TYPE_ENABLE_FLAG 0\<rparr>]"
  using enabled_answers [of "at_state RECORDING" windowed]
  by (simp add: isPreviewRunning_def QCameraStateMachine_def)

text \<open>
  From the ready state a start of the preview that fails is reported as a success, although the
  machine has given up the preview.
\<close>

theorem failed_start_reported_as_success:
  assumes "m_state s = PREVIEW_READY"
    and "r_int (answer H (Op StartPreview) s) \<noteq> NO_ERROR"
  shows "fst (run_state (stateMachine H START_NODISPLAY_PREVIEW) s) = NO_ERROR
    \<and> m_state (handled H START_NODISPLAY_PREVIEW s) = PREVIEW_STOPPED"
proof -
  have "wp (stateMachine H START_NODISPLAY_PREVIEW)
      (\<lambda>rc t. rc = NO_ERROR \<and> m_state t = PREVIEW_STOPPED) s"
    using assms by (simp add: step_simps)
  then show ?thesis
    by (simp add: wp_run handled_def)
qed

lemma failed_start_reported_as_success_witness:
  "m_state (handled (scripted [] [StartPreview]) START_NODISPLAY_PREVIEW (at_state PREVIEW_READY))
     = PREVIEW_STOPPED"
  using failed_start_reported_as_success [of "at_state PREVIEW_READY" "scripted [] [StartPreview]"] by simp

text \<open>
  \<open>waitAPIResult\<close> takes the oldest result for its request, and leaves the other results in their
  order.
\<close>

theorem wait_takes_oldest_result:
  assumes "take_result evt rs = Some (r, rs')"
  shows "\<exists>xs ys. rs = xs @ r # ys \<and> rs' = xs @ ys \<and> request_api r = evt
    \<and> (\<forall>x \<in> set xs. request_api x \<noteq> evt)"
  using take_result_Some [OF assms] by (metis image_eqI)

lemma wait_takes_oldest_result_witness:
  "\<exists>xs ys. [\<lparr>status = 1, request_api = SM_EVT_DUMP, result_type = RESULT_TYPE_DEF\<rparr>,
       \<lparr>status = 2, request_api = SM_EVT_RELEASE, result_type = RESULT_TYPE_DEF\<rparr>]
     = xs @ \<lparr>status = 2, request_api = SM_EVT_RELEASE, result_type = RESULT_TYPE_DEF\<rparr> # ys"
  using wait_takes_oldest_result [of SM_EVT_RELEASE
    "[\<lparr>status = 1, request_api = SM_EVT_DUMP, result_type = RESULT_TYPE_DEF\<rparr>,
      \<lparr>status = 2, request_api = SM_EVT_RELEASE, result_type = RESULT_TYPE_DEF\<rparr>]"
    "\<lparr>status = 2, request_api = SM_EVT_RELEASE, result_type = RESULT_TYPE_DEF\<rparr>"
    "[\<lparr>status = 1, request_api = SM_EVT_DUMP, result_type = RESULT_TYPE_DEF\<rparr>]"]
  by auto

section \<open>The thread\<close>

text \<open>
  C33. However requests and events are posted and handled, the semaphore counts the commands that are
  queued, so the thread never wakes up to empty queues.
\<close>

theorem semaphore_counts_commands:
  "cmd_sem (schedule H acts (new_thread s)) =
     length (elems (api_queue (schedule H acts (new_thread s))))
     + length (elems (evt_queue (schedule H acts (new_thread s))))"
  using schedule_inv [OF new_thread_inv, of H acts s] by (simp add: thread_inv_def)

text \<open>
  C34. The thread handles everything that is queued: the requests in the order they were posted, then
  the events in the order they were posted.
\<close>

theorem thread_handles_all:
  assumes "thread_inv T" and "running T"
    and "elems (api_queue T) = apis as" and "elems (evt_queue T) = evts es"
  shows "smEvtProcRoutine H (length as + length es) T =
    T\<lparr>machine := handled_all H (as @ es) (machine T), api_queue := \<lparr>elems = [], is_open = True\<rparr>,
      evt_queue := \<lparr>elems = [], is_open = True\<rparr>, cmd_sem := 0\<rparr>"
  by (rule drain [OF assms])

abbreviation busy :: "unit sm_thread" where
  "busy \<equiv> schedule windowed [Post_EVT SNAPSHOT_DONE, Post_API START_PREVIEW, Post_API STOP_PREVIEW]
     (new_thread first_obj)"

lemma thread_handles_all_witness:
  "machine (smEvtProcRoutine windowed 3 busy) =
     handled_all windowed [START_PREVIEW, STOP_PREVIEW, SNAPSHOT_DONE] first_obj"
proof -
  have "elems (api_queue busy) = apis [START_PREVIEW, STOP_PREVIEW]"
    "elems (evt_queue busy) = evts [SNAPSHOT_DONE]" "running busy" "machine busy = first_obj"
    by (simp_all add: new_thread_def procAPI_def procEvt_def put_def aq_enqueue_def)
  from thread_handles_all [OF schedule_inv [OF new_thread_inv] this(3,1,2), of windowed] this(4)
  show ?thesis
    by (simp add: numeral_3_eq_3 del: schedule_simps)
qed

text \<open>
  \<open>releaseThread\<close> lets the requests that were posted before it be handled and ends the thread;
  events that wait then are not handled.
\<close>

theorem exit_after_requests:
  assumes "thread_inv T" and "running T" and "elems (api_queue T) = apis as @ [Some CMD_EXIT]"
  shows "smEvtProcRoutine H (length as + Suc n) T =
    T\<lparr>machine := handled_all H as (machine T), api_queue := \<lparr>elems = [], is_open = True\<rparr>,
      cmd_sem := length (elems (evt_queue T)), running := False\<rparr>"
  by (rule drain_exit [OF assms])

lemma exit_after_requests_witness:
  "\<not> running (smEvtProcRoutine windowed 5 (post_exit True True busy))"
proof -
  have "elems (api_queue (post_exit True True busy)) = apis [START_PREVIEW, STOP_PREVIEW] @ [Some CMD_EXIT]"
    "running (post_exit True True busy)"
    by (simp_all add: new_thread_def procAPI_def procEvt_def post_exit_def put_def aq_enqueue_def)
  from exit_after_requests [OF post_exit_inv [OF schedule_inv [OF new_thread_inv]] this(2,1), of windowed 2]
  show ?thesis
    by (simp add: eval_nat_numeral del: schedule_simps smEvtProcRoutine.simps)
qed

text \<open>
  Requests are not overtaken: whatever other threads post meanwhile, the next rounds handle the
  requests that are already queued, in order.
\<close>

theorem requests_not_overtaken:
  assumes "thread_inv T" and "running T" and "elems (api_queue T) = apis es @ ds"
    and "length (filter ((=) Cycle) acts) \<le> length es"
  shows "machine (schedule H acts T) =
    handled_all H (take (length (filter ((=) Cycle) acts)) es) (machine T)"
  by (rule schedule_requests [OF assms])

lemma requests_not_overtaken_witness:
  "machine (schedule windowed [Post_API RELEASE, Post_EVT SNAPSHOT_DONE, Cycle] busy) =
     handled windowed START_PREVIEW first_obj"
proof -
  have "elems (api_queue busy) = apis [START_PREVIEW, STOP_PREVIEW] @ []" "running busy"
    "machine busy = first_obj"
    by (simp_all add: new_thread_def procAPI_def procEvt_def put_def aq_enqueue_def)
  from requests_not_overtaken [OF schedule_inv [OF new_thread_inv] this(2,1),
      of "[Post_API RELEASE, Post_EVT SNAPSHOT_DONE, Cycle]" windowed] this(3)
  show ?thesis
    by (simp del: schedule_simps)
qed

section \<open>The queue\<close>

abbreviation empty_queue :: "nat cqueue" where
  "empty_queue \<equiv> QCameraQueue 1 True"

abbreviation one_elem :: "nat cqueue" where
  "one_elem \<equiv> snd (enqueue 2 (Some 7) empty_queue)"

text \<open>
  C35. Appending a command does to the queue's content what it does to a list, in front or at the end,
  and keeps the ring of nodes well formed; an inactive queue refuses it.
\<close>

theorem enqueue_implements:
  assumes "queue_inv q" and "fresh_node p q"
  shows "queue_inv (snd (enqueue p d q)) \<and> queue_inv (snd (enqueueWithPriority p d q))
    \<and> (fst (enqueue p d q), queue_abs (snd (enqueue p d q))) = aq_enqueue d (queue_abs q)
    \<and> (fst (enqueueWithPriority p d q), queue_abs (snd (enqueueWithPriority p d q)))
        = aq_enqueueWithPriority d (queue_abs q)"
  using enqueue_refines [OF assms] enqueueWithPriority_refines [OF assms] by blast

lemma empty_queue_inv: "queue_inv empty_queue" "fresh_node 2 empty_queue" "fresh_node 3 empty_queue"
  using QCameraQueue_inv [of 1 True, where ?'d = nat]
  by (simp_all add: fresh_node_def) (simp_all add: QCameraQueue_def)

lemma enqueue_implements_witness:
  "queue_inv one_elem \<and> queue_abs one_elem = \<lparr>elems = [Some 7], is_open = True\<rparr>"
proof -
  have "queue_abs empty_queue = \<lparr>elems = [], is_open = True\<rparr>"
    by code_simp
  then show ?thesis
    using enqueue_implements [OF empty_queue_inv(1,2), of "Some 7"] by (simp add: aq_enqueue_def)
qed

text \<open>
  C36. Taking a command from the head or from the tail removes the first or the last element of the
  list; the node is unlinked.
\<close>

theorem dequeue_implements:
  assumes "queue_inv q"
  shows "queue_inv (snd (dequeue b q))
    \<and> (fst (dequeue b q), queue_abs (snd (dequeue b q))) = aq_dequeue b (queue_abs q)"
  using dequeue_refines [OF assms] .

lemma dequeue_implements_witness:
  "fst (dequeue True one_elem) = Some 7 \<and> queue_inv (snd (dequeue True one_elem))"
proof -
  have "queue_inv one_elem"
    using enqueue_refines [OF empty_queue_inv(1,2)] by blast
  moreover have "aq_dequeue True (queue_abs one_elem) = (Some 7, \<lparr>elems = [], is_open = True\<rparr>)"
    by code_simp
  ultimately show ?thesis
    using dequeue_implements [of one_elem True] by simp
qed

text \<open>
  Taking the first command that matches returns, and removes just that element.
\<close>

theorem dequeue_match_implements:
  assumes "queue_inv q"
  shows "\<exists>d q'. dequeue_match (Some f) True q = Some (d, q') \<and> queue_inv q'
    \<and> (d, queue_abs q') = aq_dequeue_match f (queue_abs q)"
  using dequeue_match_refines [OF assms] .

lemma dequeue_match_implements_witness:
  "\<exists>q'. dequeue_match (Some (\<lambda>d. d = Some 7)) True one_elem = Some (Some 7, q') \<and> queue_inv q'"
proof -
  have "queue_inv one_elem"
    using enqueue_refines [OF empty_queue_inv(1,2)] by blast
  moreover have "aq_dequeue_match (\<lambda>d. d = Some 7) (queue_abs one_elem)
      = (Some 7, \<lparr>elems = [], is_open = True\<rparr>)"
    by code_simp
  ultimately show ?thesis
    using dequeue_match_implements [of one_elem "\<lambda>d. d = Some 7"] by auto
qed

text \<open>
  Flushing a queue returns, leaves it empty and inactive, and frees every node and every datum of
  it exactly once, in order.
\<close>

theorem flush_frees_everything:
  assumes "queue_inv q"
  shows "\<exists>q'. flush q = Some q' \<and> queue_inv q' \<and> queue_abs q' = aq_flush (queue_abs q)
    \<and> (m_active q \<longrightarrow> freed_nodes q' = freed_nodes q @ nodes q
        \<and> freed_data q' = freed_data q @ non_null (elems (queue_abs q)))"
  using flush_spec [OF assms] .

lemma flush_frees_everything_witness:
  "\<exists>q'. flush one_elem = Some q' \<and> freed_nodes q' = [2] \<and> freed_data q' = [7]"
proof -
  have "queue_inv one_elem"
    using enqueue_refines [OF empty_queue_inv(1,2)] by blast
  moreover have "m_active one_elem" "freed_nodes one_elem @ nodes one_elem = [2]"
    "freed_data one_elem @ non_null (elems (queue_abs one_elem)) = [7]"
    by code_simp+
  ultimately show ?thesis
    using flush_frees_everything [of one_elem] by auto
qed

text \<open>
  Flushing the commands that match returns, keeps the others in order, and frees the nodes and the
  data of exactly those that match.
\<close>

theorem flushNodes_frees_matching:
  assumes "queue_inv q"
  shows "\<exists>q'. flushNodes (Some f) q = Some q' \<and> queue_inv q'
    \<and> queue_abs q' = aq_flushNodes f (queue_abs q)
    \<and> (m_active q \<longrightarrow> freed_nodes q' = freed_nodes q @ filter (\<lambda>x. f (dat q x)) (nodes q)
        \<and> freed_data q' = freed_data q @ non_null (filter f (elems (queue_abs q))))"
  using flushNodes_spec [OF assms] .

lemma flushNodes_frees_matching_witness:
  "\<exists>q'. flushNodes (Some (\<lambda>d. d = Some 8)) one_elem = Some q' \<and> freed_nodes q' = []"
proof -
  have "queue_inv one_elem"
    using enqueue_refines [OF empty_queue_inv(1,2)] by blast
  moreover have "m_active one_elem"
    "freed_nodes one_elem @ filter (\<lambda>x. dat one_elem x = Some 8) (nodes one_elem) = []"
    by code_simp+
  ultimately show ?thesis
    using flushNodes_frees_matching [of one_elem "\<lambda>d. d = Some 8"] by auto
qed

text \<open>
  The queue is first in, first out: the commands appended to an empty queue are taken from its head
  in the order in which they were appended.
\<close>

theorem queue_is_fifo:
  assumes "queue_inv q" and "queue_abs q = \<lparr>elems = [], is_open = True\<rparr>"
    and "distinct (map fst cs)" and "\<forall>p \<in> set (map fst cs). fresh_node p q"
  shows "fst (dequeue_n (length cs) (enqueue_all cs q)) = map snd cs"
  using cq.fifo [OF assms] by (simp add: enqueue_all_post dequeue_n_take)

lemma queue_is_fifo_witness:
  "fst (dequeue_n 2 (enqueue_all [(2, Some 7), (3, Some 8)] empty_queue)) = [Some 7, Some 8]"
proof -
  have "queue_abs empty_queue = \<lparr>elems = [], is_open = True\<rparr>"
    by code_simp
  then show ?thesis
    using queue_is_fifo [OF empty_queue_inv(1), of "[(2, Some 7), (3, Some 8)]"] empty_queue_inv(2,3)
    by (simp add: numeral_2_eq_2 del: dequeue_n.simps enqueue_all.simps)
qed

text \<open>
  A command appended with priority is the next one taken, and the queue is then as it was.
\<close>

theorem priority_overtakes:
  assumes "queue_inv q" and "is_open (queue_abs q)" and "fresh_node p q"
  shows "fst (dequeue True (snd (enqueueWithPriority p d q))) = d
    \<and> queue_abs (snd (dequeue True (snd (enqueueWithPriority p d q)))) = queue_abs q"
  by (rule cq.priority_first [OF assms])

lemma priority_overtakes_witness:
  "fst (dequeue True (snd (enqueueWithPriority 3 (Some 9) one_elem))) = Some 9"
proof -
  have "queue_inv one_elem"
    using enqueue_refines [OF empty_queue_inv(1,2)] by blast
  moreover have "is_open (queue_abs one_elem)" "fresh_node 3 one_elem"
    by code_simp+
  ultimately show ?thesis
    using priority_overtakes [of one_elem 3 "Some 9"] by simp
qed

text \<open>
  The list primitives keep the ring of links: a node added at the tail, or taken out, leaves a ring
  of the other nodes in their order, in both directions.
\<close>

theorem list_primitives_keep_ring:
  assumes "ring h hp (us @ x # vs)" and "y \<noteq> hp" and "y \<notin> set (us @ x # vs)"
  shows "ring (cam_list_add_tail_node y hp h) hp (us @ x # vs @ [y])
    \<and> ring (cam_list_insert_before_node y x h) hp (us @ y # x # vs)
    \<and> ring (cam_list_del_node x h) hp (us @ vs)"
  using ring_add_tail [OF assms] ring_insert_before [OF assms] ring_del [OF assms(1)] by simp

lemma list_primitives_keep_ring_witness:
  "ring (cam_list_del_node 2 (mem one_elem)) 1 []"
proof -
  have "ring (mem one_elem) 1 [2]"
    by code_simp
  then show ?thesis
    using list_primitives_keep_ring [of "mem one_elem" 1 "[]" 2 "[]" 3] by simp
qed

end
